(* ===== verification/Prelude.thy ===== *)
theory Prelude
  imports Main "HOL-Library.Word"
begin

text \<open>
  The vocabulary shared by the component theories.

  Bytes are \<open>8 word\<close> values and the C integer types are words of their width
  (\<open>size_t\<close> and pointers are 64 bits wide, \<open>int\<close> 32, \<open>short\<close> 16).
  An operation that the C++ standard leaves undefined, a failed \<open>assert\<close> and a
  read or write outside an object are values of the type \<open>fault\<close>: an operation
  that can fault returns \<open>fault + 'a\<close>, with \<open>Inl\<close> for the fault, and
  \<open>bindR\<close> runs one such operation after another.

  The second half gives the object representation of integers: \<open>le_bytes n w\<close> are
  the first \<open>n\<close> bytes of a word in memory on a little-endian host, \<open>le_word\<close> reads
  them back and \<open>bswap\<close> is the byte swap behind \<open>ntohs\<close>, \<open>ntohl\<close>,
  \<open>htons\<close>, \<open>htonl\<close> and \<open>bswap_64\<close> on such a host.
\<close>

unbundle bit_operations_syntax

type_synonym byte = "8 word"
type_synonym u16 = "16 word"
type_synonym u32 = "32 word"
type_synonym u64 = "64 word"

section \<open>Faults and sequencing\<close>

datatype fault =
    OutOfBounds
  | NullDeref
  | AssertFail
  | Dangling
  | Overlap
  | EmptyFront
  | Uninit
  | NoReturn
  | BadShift
  | Diverges
  | Uncaught
  | BadFree

type_synonym 'a result = "fault + 'a"

named_theorems result_simps \<open>equations of the sequencing of operations that can fault\<close>
named_theorems width_simps \<open>sizes of the representations of machine integers\<close>

definition bindR :: "'a result \<Rightarrow> ('a \<Rightarrow> 'b result) \<Rightarrow> 'b result" where
  "bindR r f = (case r of Inl e \<Rightarrow> Inl e | Inr x \<Rightarrow> f x)"

definition guardR :: "fault \<Rightarrow> bool \<Rightarrow> unit result" where
  "guardR e b = (if b then Inr () else Inl e)"

lemma bindR_simps [simp, result_simps]:
  "bindR (Inl e) f = Inl e"
  "bindR (Inr x) f = f x"
  by (simp_all add: bindR_def)

lemma bindR_assoc [result_simps]: "bindR (bindR r f) g = bindR r (\<lambda>x. bindR (f x) g)"
  by (cases r) simp_all

lemma bindR_Inr_iff: "bindR r f = Inr y \<longleftrightarrow> (\<exists>x. r = Inr x \<and> f x = Inr y)"
  by (cases r) auto

lemma bindR_Inl_iff: "bindR r f = Inl e \<longleftrightarrow> r = Inl e \<or> (\<exists>x. r = Inr x \<and> f x = Inl e)"
  by (cases r) auto

lemma bindR_Inr_E [elim]:
  assumes "bindR r f = Inr y"
  obtains x where "r = Inr x" "f x = Inr y"
  using assms by (auto simp: bindR_Inr_iff)

lemma guardR_simps [simp, result_simps]:
  "guardR e True = Inr ()"
  "guardR e False = Inl e"
  "guardR e b = Inr u \<longleftrightarrow> b"
  "guardR e b = Inl e' \<longleftrightarrow> \<not> b \<and> e' = e"
  by (auto simp: guardR_def)

section \<open>Lists\<close>

text \<open>Overwriting a run of bytes, as \<open>memcpy\<close> does.\<close>

definition overwrite :: "'a list \<Rightarrow> nat \<Rightarrow> 'a list \<Rightarrow> 'a list" where
  "overwrite xs off ys = take off xs @ ys @ drop (off + length ys) xs"

lemma length_overwrite [simp]:
  "off + length ys \<le> length xs \<Longrightarrow> length (overwrite xs off ys) = length xs"
  by (simp add: overwrite_def)

lemma take_overwrite_before [simp]:
  "n \<le> off \<Longrightarrow> off \<le> length xs \<Longrightarrow> take n (overwrite xs off ys) = take n xs"
  by (simp add: overwrite_def min_def)

lemma take_overwrite_upto:
  "off + length ys \<le> length xs \<Longrightarrow>
    take (off + length ys) (overwrite xs off ys) = take off xs @ ys"
  by (simp add: overwrite_def)

lemma drop_overwrite_after [simp]:
  "off + length ys \<le> n \<Longrightarrow> off + length ys \<le> length xs \<Longrightarrow>
    drop n (overwrite xs off ys) = drop n xs"
  by (simp add: overwrite_def)

lemma overwrite_Nil [simp]: "overwrite xs off [] = xs"
  by (simp add: overwrite_def)

lemma overwrite_0: "overwrite xs 0 ys = ys @ drop (length ys) xs"
  by (simp add: overwrite_def)

lemma take_append_split:
  "take n (xs @ ys) = (if n \<le> length xs then take n xs else xs @ take (n - length xs) ys)"
  by auto

lemma drop_append_split:
  "drop n (xs @ ys) = (if n \<le> length xs then drop n xs @ ys else drop (n - length xs) ys)"
  by auto

section \<open>Words as bytes in memory\<close>

definition le_bytes :: "nat \<Rightarrow> 'a::len word \<Rightarrow> byte list" where
  "le_bytes n w = map (\<lambda>i. ucast (drop_bit (8 * i) w)) [0..<n]"

fun le_word :: "byte list \<Rightarrow> 'a::len word" where
  "le_word [] = 0"
| "le_word (b # bs) = ucast b OR push_bit 8 (le_word bs)"

definition bswap :: "'a::len word \<Rightarrow> 'a word" where
  "bswap w = le_word (rev (le_bytes (LENGTH('a) div 8) w))"

lemma length_le_bytes [simp, width_simps]: "length (le_bytes n w) = n"
  by (simp add: le_bytes_def)

lemma bit_le_word:
  "bit (le_word bs :: 'a::len word) i \<longleftrightarrow>
     i < LENGTH('a) \<and> i div 8 < length bs \<and> bit (bs ! (i div 8)) (i mod 8)"
proof (induction bs arbitrary: i)
  case Nil
  show ?case by simp
next
  case (Cons b bs)
  show ?case
  proof (cases "i < 8")
    case True
    then show ?thesis by (auto simp: bit_simps)
  next
    case False
    then have "i div 8 = Suc ((i - 8) div 8)" and "(i - 8) mod 8 = i mod 8"
      by (auto simp: div_if mod_if)
    moreover have "\<not> bit b i" using False bit_imp_le_length [of b i] by auto
    ultimately show ?thesis using False Cons.IH [of "i - 8"] by (auto simp: bit_simps)
  qed
qed

lemma le_word_le_bytes:
  "LENGTH('a) \<le> 8 * n \<Longrightarrow> le_word (le_bytes n w) = (w :: 'a::len word)"
proof (rule bit_word_eqI)
  fix i
  assume len: "LENGTH('a) \<le> 8 * n" and i: "i < LENGTH('a)"
  have "i div 8 < n" using len i by auto
  then show "bit (le_word (le_bytes n w) :: 'a word) i = bit w i"
    using i by (simp add: bit_le_word le_bytes_def bit_simps)
qed

lemma le_bytes_le_word:
  "length bs = n \<Longrightarrow> 8 * n \<le> LENGTH('a) \<Longrightarrow> le_bytes n (le_word bs :: 'a::len word) = bs"
  by (rule nth_equalityI, simp, rule bit_word_eqI) (simp add: le_bytes_def bit_simps bit_le_word)

text \<open>
  The swap of a word read from memory is the word of the reversed bytes, and the bytes of a
  swapped word are the reversed bytes: \<open>ntoh\<close> of a load is a big-endian load.
\<close>

definition be_bytes :: "nat \<Rightarrow> 'a::len word \<Rightarrow> byte list" where
  "be_bytes n w = rev (le_bytes n w)"

lemma length_be_bytes [simp, width_simps]: "length (be_bytes n w) = n"
  by (simp add: be_bytes_def)

lemma le_bytes_bswap:
  "LENGTH('a) = 8 * n \<Longrightarrow> le_bytes n (bswap (w :: 'a::len word)) = be_bytes n w"
  by (simp add: bswap_def be_bytes_def le_bytes_le_word)

lemma bswap_bswap: "LENGTH('a) = 8 * n \<Longrightarrow> bswap (bswap w) = (w :: 'a::len word)"
proof -
  assume len: "LENGTH('a) = 8 * n"
  then have "le_bytes n (bswap (w :: 'a word)) = rev (le_bytes n w)"
    by (simp add: le_bytes_bswap be_bytes_def)
  with len have "bswap (bswap w) = (le_word (le_bytes n w) :: 'a word)"
    by (subst bswap_def) simp
  with len show ?thesis by (simp add: le_word_le_bytes)
qed

lemma bswap_le_word_be:
  "LENGTH('a) = 8 * n \<Longrightarrow> bswap (le_word (be_bytes n w) :: 'a word) = (w :: 'a::len word)"
  by (metis le_bytes_bswap bswap_bswap le_word_le_bytes order_refl)

section \<open>Unsigned comparison and addition\<close>

lemma unat_add_nowrap:
  "unat (a :: 'a::len word) + unat b < 2 ^ LENGTH('a) \<Longrightarrow> unat (a + b) = unat a + unat b"
  by (simp add: unat_word_ariths)

lemma unat_sub_le: "b \<le> (a :: 'a::len word) \<Longrightarrow> unat (a - b) = unat a - unat b"
  by (simp add: unat_sub)

lemma unat_u64: "unat (w :: u64) < 2 ^ 64"
  by (rule less_le_trans [OF unsigned_less]) simp

lemma unat_u16: "unat (w :: u16) < 2 ^ 16"
  by (rule less_le_trans [OF unsigned_less]) simp

lemma unat_u32: "unat (w :: u32) < 2 ^ 32"
  by (rule less_le_trans [OF unsigned_less]) simp

lemma unat_ucast_16_64: "unat (ucast (w :: u16) :: u64) = unat w"
  using unat_u16 [of w] by (simp add: unsigned_ucast_eq take_bit_nat_eq_self)

lemma unat_ucast_32_64: "unat (ucast (w :: u32) :: u64) = unat w"
  using unat_u32 [of w] by (simp add: unsigned_ucast_eq take_bit_nat_eq_self)

lemma unat_minus_1: "unat (- 1 :: u64) = 2 ^ 64 - 1"
  by (simp add: unsigned_minus_1_eq_mask mask_eq_exp_minus_1)

lemma unat_of_nat_small:
  "n < 2 ^ LENGTH('a) \<Longrightarrow> unat (of_nat n :: 'a::len word) = n"
  by (simp add: unat_of_nat take_bit_nat_eq_self)

lemma eq_of_nat: "unat w = n \<Longrightarrow> w = of_nat n"
  by auto

lemma sint_word_of_int:
  "- (2 ^ 63) \<le> k \<Longrightarrow> k < 2 ^ 63 \<Longrightarrow> sint (word_of_int k :: u64) = k"
  by (simp add: signed_of_int signed_take_bit_int_eq_self)

lemma sint_nat_diff:
  "x < 2 ^ 63 \<Longrightarrow> y < 2 ^ 63 \<Longrightarrow> sint (word_of_int (int x - int y) :: u64) = int x - int y"
  by (rule sint_word_of_int) simp_all

lemma ucast_of_nat_down:
  "LENGTH('b) \<le> LENGTH('a) \<Longrightarrow> ucast (of_nat n :: 'a::len word) = (of_nat n :: 'b::len word)"
  by (rule bit_word_eqI) (auto simp: bit_simps)

end
