(* ===== verification/CLib.thy ===== *)
theory CLib
  imports Prelude
begin

text \<open>
  The parts of the C library that the wire formats rest on: \<open>strtol\<close> and
  \<open>strtoll\<close> (white space, sign, the \<open>0x\<close> prefix in base 16, digits until the first
  other character, clamping to the range of \<open>long\<close>), \<open>atoi\<close>, and the
  \<open>snprintf\<close> conversions \<open>%d\<close>, \<open>%lld\<close> and \<open>%zx\<close>.
  A C string is the list of its bytes before the terminating zero; a zero inside the list
  ends a number as any other non-digit does.
\<close>

section \<open>Characters\<close>

definition is_space :: "byte \<Rightarrow> bool" where
  "is_space c \<longleftrightarrow> c = 32 \<or> (9 \<le> c \<and> c \<le> 13)"

definition digit_val :: "nat \<Rightarrow> byte \<Rightarrow> nat option" where
  "digit_val base c =
     (let v = (if 48 \<le> c \<and> c \<le> 57 then unat c - 48
               else if 97 \<le> c \<and> c \<le> 122 then unat c - 87
               else if 65 \<le> c \<and> c \<le> 90 then unat c - 55
               else base)
      in if v < base then Some v else None)"

definition digit_char :: "nat \<Rightarrow> byte" where
  "digit_char d = (if d < 10 then of_nat (48 + d) else of_nat (87 + d))"

section \<open>Reading numbers\<close>

fun read_digits :: "nat \<Rightarrow> byte list \<Rightarrow> nat \<Rightarrow> nat" where
  "read_digits base [] acc = acc"
| "read_digits base (c # cs) acc =
     (case digit_val base c of None \<Rightarrow> acc | Some d \<Rightarrow> read_digits base cs (acc * base + d))"

fun skip_sign :: "byte list \<Rightarrow> bool \<times> byte list" where
  "skip_sign (c # cs) = (if c = 45 then (True, cs) else if c = 43 then (False, cs) else (False, c # cs))"
| "skip_sign [] = (False, [])"

fun skip_0x :: "nat \<Rightarrow> byte list \<Rightarrow> byte list" where
  "skip_0x base (z # x # d # cs) =
     (if base = 16 \<and> z = 48 \<and> (x = 120 \<or> x = 88) \<and> digit_val 16 d \<noteq> None
      then d # cs else z # x # d # cs)"
| "skip_0x base cs = cs"

definition LONG_MAX :: int where "LONG_MAX = 2 ^ 63 - 1"

definition strtol :: "nat \<Rightarrow> byte list \<Rightarrow> int" where
  "strtol base s =
     (case skip_sign (dropWhile is_space s) of (neg, rest) \<Rightarrow>
        let m = int (read_digits base (skip_0x base rest) 0)
        in if neg then max (- LONG_MAX - 1) (- m) else min LONG_MAX m)"

definition atoi :: "byte list \<Rightarrow> u32" where
  "atoi s = word_of_int (strtol 10 s)"

section \<open>Printing numbers\<close>

fun nat_digits :: "nat \<Rightarrow> nat \<Rightarrow> nat list" where
  "nat_digits base n =
     (if n < base \<or> base < 2 then [n] else nat_digits base (n div base) @ [n mod base])"

declare nat_digits.simps [simp del]

definition show_nat :: "nat \<Rightarrow> nat \<Rightarrow> byte list" where
  "show_nat base n = map digit_char (nat_digits base n)"

definition show_int :: "int \<Rightarrow> byte list" where
  "show_int i = (if i < 0 then 45 # show_nat 10 (nat (- i)) else show_nat 10 (nat i))"

text \<open>\<open>snprintf (buf, size, ...)\<close>: at most \<open>size - 1\<close> characters of the output.\<close>

definition snprintf :: "nat \<Rightarrow> byte list \<Rightarrow> byte list" where
  "snprintf n out = take (n - 1) out"

section \<open>Printing and reading are inverse\<close>

lemma unat_digit_char:
  "d < 36 \<Longrightarrow> unat (digit_char d) = (if d < 10 then 48 + d else 87 + d)"
  by (simp add: digit_char_def unat_of_nat_small del: of_nat_add)

lemma digit_val_char:
  assumes "d < base" and "base \<le> 16"
  shows "digit_val base (digit_char d) = Some d"
  using assms by (simp add: digit_val_def Let_def word_le_nat_alt unat_digit_char)

lemma nat_digits_small: "n < base \<Longrightarrow> nat_digits base n = [n]"
  by (subst nat_digits.simps) simp

lemma nat_digits_big:
  "2 \<le> base \<Longrightarrow> base \<le> n \<Longrightarrow> nat_digits base n = nat_digits base (n div base) @ [n mod base]"
  by (subst nat_digits.simps) simp

lemma nat_digits_bound:
  assumes "2 \<le> base" shows "\<forall>d \<in> set (nat_digits base n). d < base"
  using assms
proof (induction n rule: less_induct)
  case (less n)
  show ?case
  proof (cases "n < base")
    case True
    then show ?thesis by (simp add: nat_digits_small)
  next
    case False
    then have "n div base < n" using less.prems by (auto intro: div_less_dividend)
    from less.IH [OF this less.prems] have "\<forall>d \<in> set (nat_digits base (n div base) @ [n mod base]). d < base"
      using less.prems by simp
    then show ?thesis using less.prems False by (subst nat_digits_big) auto
  qed
qed

lemma length_nat_digits_le:
  assumes "2 \<le> base" and "0 < k"
  shows "length (nat_digits base n) \<le> k \<longleftrightarrow> n < base ^ k"
  using assms
proof (induction k arbitrary: n)
  case 0
  then show ?case by simp
next
  case (Suc k)
  show ?case
  proof (cases "n < base")
    case True
    have "base \<le> base ^ Suc k" using Suc.prems(1) by (simp add: self_le_power)
    with True have "n < base ^ Suc k" by (rule less_le_trans)
    with True show ?thesis by (simp add: nat_digits_small)
  next
    case False
    have *: "length (nat_digits base n) \<le> Suc k \<longleftrightarrow> length (nat_digits base (n div base)) \<le> k"
      using False Suc.prems by (simp add: nat_digits_big)
    show ?thesis
    proof (cases "k = 0")
      case True
      have "nat_digits base (n div base) \<noteq> []" by (subst nat_digits.simps) simp
      with * True False show ?thesis by simp
    next
      case k: False
      have "n div base < base ^ k \<longleftrightarrow> n < base ^ k * base"
        using Suc.prems by (simp add: div_less_iff_less_mult)
      with * Suc.IH [of "n div base"] Suc.prems k show ?thesis by (simp add: mult.commute)
    qed
  qed
qed

lemma nat_digits_ne [simp]: "nat_digits base n \<noteq> []"
  by (subst nat_digits.simps) simp

lemma read_digits_append:
  assumes "base \<le> 16" and "\<forall>d \<in> set ds. d < base"
  shows "read_digits base (map digit_char ds @ cs) acc
       = read_digits base cs (foldl (\<lambda>a d. a * base + d) acc ds)"
  using assms(2) by (induction ds arbitrary: acc) (simp_all add: digit_val_char assms(1))

lemma foldl_nat_digits:
  assumes "2 \<le> base"
  shows "foldl (\<lambda>a d. a * base + d) 0 (nat_digits base n) = n"
proof (induction n rule: less_induct)
  case (less n)
  show ?case
  proof (cases "n < base")
    case True
    then show ?thesis by (simp add: nat_digits_small)
  next
    case False
    then have "n div base < n" using assms by (auto intro: div_less_dividend)
    then show ?thesis using less False assms by (simp add: nat_digits_big)
  qed
qed

lemma read_show_nat:
  assumes "2 \<le> base" and "base \<le> 16"
  shows "read_digits base (show_nat base n) 0 = n"
  using read_digits_append [of base "nat_digits base n" "[]" 0] assms
  by (simp add: show_nat_def nat_digits_bound foldl_nat_digits)

text \<open>Zeros in front of a number do not change it: the padding of a length field.\<close>

lemma read_digits_zeros:
  assumes "0 < base" shows "read_digits base (replicate k 48 @ cs) 0 = read_digits base cs 0"
  using assms by (induction k) (simp_all add: digit_val_def Let_def)

lemma digit_char_plain:
  assumes "d < 16"
  shows "\<not> is_space (digit_char d)" and "digit_char d \<noteq> 45" and "digit_char d \<noteq> 43"
    and "digit_char d \<noteq> 120" and "digit_char d \<noteq> 88"
  using assms unat_digit_char [of d]
  by (auto simp: is_space_def word_le_nat_alt word_unat_eq_iff split: if_splits)

definition plain_char :: "byte \<Rightarrow> bool" where
  "plain_char c \<longleftrightarrow> \<not> is_space c \<and> c \<noteq> 45 \<and> c \<noteq> 43 \<and> c \<noteq> 120 \<and> c \<noteq> 88"

lemma skip_0x_plain: "\<forall>c \<in> set s. plain_char c \<Longrightarrow> skip_0x base s = s"
  by (induction base s rule: skip_0x.induct) (auto simp: plain_char_def)

lemma skip_sign_plain: "\<forall>c \<in> set s. plain_char c \<Longrightarrow> skip_sign s = (False, s)"
  by (cases s) (auto simp: plain_char_def)

lemma strtol_plain:
  assumes "\<forall>c \<in> set s. plain_char c"
  shows "strtol base s = min LONG_MAX (int (read_digits base s 0))"
proof -
  have "dropWhile is_space s = s"
    using assms by (cases s) (auto simp: plain_char_def)
  then show ?thesis
    using assms by (simp add: strtol_def skip_sign_plain skip_0x_plain)
qed

lemma plain_show_nat:
  assumes "2 \<le> base" and "base \<le> 16" and "c \<in> set (show_nat base n)"
  shows "plain_char c"
proof -
  obtain d where "d \<in> set (nat_digits base n)" and "c = digit_char d"
    using assms(3) by (auto simp: show_nat_def)
  then have "d < 16" using nat_digits_bound [OF assms(1), of n] assms(2) by auto
  with digit_char_plain [OF this] \<open>c = digit_char d\<close> show ?thesis by (simp add: plain_char_def)
qed

lemma strtol_show_nat:
  assumes "2 \<le> base" and "base \<le> 16" and "int n \<le> LONG_MAX"
  shows "strtol base (replicate k 48 @ show_nat base n) = int n"
proof -
  have "\<forall>c \<in> set (replicate k 48 @ show_nat base n). plain_char c"
    using plain_show_nat [OF assms(1,2)] by (auto simp: plain_char_def is_space_def)
  then show ?thesis using assms
    by (simp add: strtol_plain read_digits_zeros read_show_nat)
qed

lemma strtol_show_int:
  assumes "- LONG_MAX - 1 \<le> i" and "i \<le> LONG_MAX"
  shows "strtol 10 (show_int i) = i"
proof (cases "i < 0")
  case True
  have plain: "\<forall>c \<in> set (show_nat 10 (nat (- i))). plain_char c"
    using plain_show_nat [of 10] by simp
  have "dropWhile is_space (show_int i) = show_int i"
    using True by (simp add: show_int_def is_space_def)
  moreover have "skip_sign (show_int i) = (True, show_nat 10 (nat (- i)))"
    using True by (simp add: show_int_def)
  ultimately show ?thesis using assms True plain
    by (simp add: strtol_def skip_0x_plain read_show_nat)
next
  case False
  then show ?thesis
    using assms strtol_show_nat [of 10 "nat i" 0] by (simp add: show_int_def)
qed

lemma length_show_nat_le:
  "2 \<le> base \<Longrightarrow> 0 < k \<Longrightarrow> length (show_nat base n) \<le> k \<longleftrightarrow> n < base ^ k"
  by (simp add: show_nat_def length_nat_digits_le)

lemma length_show_int_le:
  assumes "\<bar>i\<bar> < 10 ^ k" and "0 < k"
  shows "length (show_int i) \<le> Suc k"
proof -
  have "nat \<bar>i\<bar> < 10 ^ k" using assms(1)
    by (metis nat_less_iff abs_ge_zero of_nat_numeral of_nat_power)
  then have "length (show_nat 10 (nat \<bar>i\<bar>)) \<le> k"
    using length_show_nat_le [of 10 k "nat \<bar>i\<bar>"] assms(2) by simp
  then show ?thesis by (auto simp: show_int_def)
qed

lemma show_nat_ne [simp]: "show_nat base n \<noteq> []"
  by (simp add: show_nat_def)

end
