(* ===== verification/StreamBase.thy ===== *)
theory StreamBase
  imports CLib
begin

text \<open>
  The state shared by the stream classes of \<open>pros/stream.h\<close>: the pointers \<open>ptr\<close>
  and \<open>cur\<close> as 64-bit addresses and the length \<open>len\<close>, as the classes
  \<open>ReadStream\<close> and \<open>WriteStream\<close> declare them, together with the bytes of the
  object that \<open>ptr\<close> points to. Pointer sums wrap at \<open>2 ^ 64\<close> as they do on the
  target, and a load or store outside the object is the fault \<open>OutOfBounds\<close>.

  The second part holds the arithmetic that turns the pointer comparisons of the code into
  comparisons of offsets, the abstraction of a reader to the bytes it has left and of a
  writer to the bytes it has written, and the interface \<open>field_codec\<close> of a pair of
  stream classes, in which the round trip of a sequence of fields is proved once.
\<close>

section \<open>The protocol numbers\<close>

definition TEXT_STREAM_PROTOCOL :: int where "TEXT_STREAM_PROTOCOL = 0x01"
definition BINARY_STREAM_PROTOCOL :: int where "BINARY_STREAM_PROTOCOL = 0x02"
definition TEXT_STREAM_PROTOCOL_2 :: int where "TEXT_STREAM_PROTOCOL_2 = 0x03"
definition BINARY_STREAM_PROTOCOL_2 :: int where "BINARY_STREAM_PROTOCOL_2 = 0x04"
definition SERIALNO_WRAPPER_PROTOCOL :: int where "SERIALNO_WRAPPER_PROTOCOL = 0x11"
definition XCODE_PROTOCOL :: int where "XCODE_PROTOCOL = 0x20"
definition FAKE_HTTP_PROTOCOL :: int where "FAKE_HTTP_PROTOCOL = 0x21"
definition FAKE_HTTP_PROTOCOL_2 :: int where "FAKE_HTTP_PROTOCOL_2 = 0x22"
definition FAKE_HTTP_PROTOCOL_4 :: int where "FAKE_HTTP_PROTOCOL_4 = 0x21"
definition FAKE_HTTP_INCLUDE_PROTOCOL_2 :: int where "FAKE_HTTP_INCLUDE_PROTOCOL_2 = 0x23"
definition FAKE_HTTP_INCLUDE_PROTOCOL_4 :: int where "FAKE_HTTP_INCLUDE_PROTOCOL_4 = 0x24"

lemmas protocol_defs = TEXT_STREAM_PROTOCOL_def BINARY_STREAM_PROTOCOL_def
  TEXT_STREAM_PROTOCOL_2_def BINARY_STREAM_PROTOCOL_2_def SERIALNO_WRAPPER_PROTOCOL_def
  XCODE_PROTOCOL_def FAKE_HTTP_PROTOCOL_def FAKE_HTTP_PROTOCOL_2_def FAKE_HTTP_PROTOCOL_4_def
  FAKE_HTTP_INCLUDE_PROTOCOL_2_def FAKE_HTTP_INCLUDE_PROTOCOL_4_def

definition ParseProtocol :: "string \<Rightarrow> int" where
  "ParseProtocol str =
     (if str = ''TEXT_STREAM_PROTOCOL'' then TEXT_STREAM_PROTOCOL
      else if str = ''BINARY_STREAM_PROTOCOL'' then BINARY_STREAM_PROTOCOL
      else if str = ''TEXT_STREAM_PROTOCOL_2'' then TEXT_STREAM_PROTOCOL_2
      else if str = ''BINARY_STREAM_PROTOCOL_2'' then BINARY_STREAM_PROTOCOL_2
      else if str = ''SERIALNO_WRAPPER_PROTOCOL'' then SERIALNO_WRAPPER_PROTOCOL
      else if str = ''XCODE_PROTOCOL'' then XCODE_PROTOCOL
      else if str = ''FAKE_HTTP_PROTOCOL'' then FAKE_HTTP_PROTOCOL
      else if str = ''FAKE_HTTP_PROTOCOL_2'' then FAKE_HTTP_PROTOCOL_2
      else if str = ''FAKE_HTTP_PROTOCOL_4'' then FAKE_HTTP_PROTOCOL_4
      else if str = ''FAKE_HTTP_INCLUDE_PROTOCOL_2'' then FAKE_HTTP_INCLUDE_PROTOCOL_2
      else if str = ''FAKE_HTTP_INCLUDE_PROTOCOL_4'' then FAKE_HTTP_INCLUDE_PROTOCOL_4
      else -1)"

section \<open>Readers and writers\<close>

record ReadStream =
  rs_obj :: "byte list"
  rs_ptr :: u64
  rs_cur :: u64
  rs_len :: u64

record WriteStream =
  ws_obj :: "byte list"
  ws_ptr :: u64
  ws_cur :: u64
  ws_len :: u64

definition rs_load :: "'a ReadStream_scheme \<Rightarrow> u64 \<Rightarrow> nat \<Rightarrow> byte list result" where
  "rs_load s a n =
     (let off = unat (a - rs_ptr s)
      in if off + n \<le> length (rs_obj s) then Inr (take n (drop off (rs_obj s)))
         else Inl OutOfBounds)"

definition ws_store :: "'a WriteStream_scheme \<Rightarrow> u64 \<Rightarrow> byte list \<Rightarrow> 'a WriteStream_scheme result" where
  "ws_store s a bs =
     (let off = unat (a - ws_ptr s)
      in if off + length bs \<le> length (ws_obj s)
         then Inr (s\<lparr>ws_obj := overwrite (ws_obj s) off bs\<rparr>)
         else Inl OutOfBounds)"

text \<open>
  The caller's contract for a reader: \<open>ptr\<close> is the address of an object of at least
  \<open>len\<close> bytes in the lower half of the address space, and \<open>cur\<close> is not before it.
\<close>

definition rs_wf :: "'a ReadStream_scheme \<Rightarrow> bool" where
  "rs_wf s \<longleftrightarrow> unat (rs_ptr s) + length (rs_obj s) < 2 ^ 63 \<and> unat (rs_len s) \<le> length (rs_obj s)
     \<and> rs_ptr s \<le> rs_cur s \<and> unat (rs_cur s) < 2 ^ 63"

definition ws_wf :: "'a WriteStream_scheme \<Rightarrow> bool" where
  "ws_wf s \<longleftrightarrow> unat (ws_ptr s) + length (ws_obj s) < 2 ^ 63 \<and> unat (ws_len s) \<le> length (ws_obj s)
     \<and> ws_ptr s \<le> ws_cur s \<and> unat (ws_cur s) < 2 ^ 63"

definition rs_pos :: "'a ReadStream_scheme \<Rightarrow> nat" where
  "rs_pos s = unat (rs_cur s - rs_ptr s)"

definition ws_pos :: "'a WriteStream_scheme \<Rightarrow> nat" where
  "ws_pos s = unat (ws_cur s - ws_ptr s)"

definition rs_rest :: "'a ReadStream_scheme \<Rightarrow> byte list" where
  "rs_rest s = drop (rs_pos s) (take (unat (rs_len s)) (rs_obj s))"

definition ws_written :: "'a WriteStream_scheme \<Rightarrow> byte list" where
  "ws_written s = take (ws_pos s) (ws_obj s)"

section \<open>Pointer comparisons as comparisons of offsets\<close>

lemma ptr_arith:
  fixes p c l n :: u64
  assumes "unat p + k < 2 ^ 63" and "unat l \<le> k" and "p \<le> c" and "unat c < 2 ^ 63"
    and "unat n < 2 ^ 63"
  shows "c + n > p + l \<longleftrightarrow> unat (c - p) + unat n > unat l"
    and "unat (c + n) = unat c + unat n"
    and "unat (c + n - p) = unat (c - p) + unat n"
    and "p \<le> c + n"
    and "unat c = unat p + unat (c - p)"
proof -
  have cn: "unat (c + n) = unat c + unat n" by (rule unat_add_nowrap) (use assms in simp)
  have pl: "unat (p + l) = unat p + unat l" by (rule unat_add_nowrap) (use assms in simp)
  have cp: "unat (c - p) = unat c - unat p" by (rule unat_sub_le [OF assms(3)])
  have le: "unat p \<le> unat c" using assms(3) by (simp add: word_le_nat_alt)
  show "c + n > p + l \<longleftrightarrow> unat (c - p) + unat n > unat l"
    using cn pl cp le by (simp add: word_less_nat_alt) arith
  show "unat (c + n) = unat c + unat n" by (rule cn)
  show pcn: "p \<le> c + n" using cn le by (simp add: word_le_nat_alt)
  show "unat (c + n - p) = unat (c - p) + unat n"
    using unat_sub_le [OF pcn] cn cp le by simp
  show "unat c = unat p + unat (c - p)" using cp le by simp
qed

lemma rs_check:
  assumes "rs_wf s" and "unat n < 2 ^ 63"
  shows "rs_cur s + n > rs_ptr s + rs_len s \<longleftrightarrow> rs_pos s + unat n > unat (rs_len s)"
  using assms ptr_arith(1) [of "rs_ptr s" "length (rs_obj s)" "rs_len s" "rs_cur s" n]
  by (simp add: rs_wf_def rs_pos_def)

lemma ws_check:
  assumes "ws_wf s" and "unat n < 2 ^ 63"
  shows "ws_cur s + n > ws_ptr s + ws_len s \<longleftrightarrow> ws_pos s + unat n > unat (ws_len s)"
  using assms ptr_arith(1) [of "ws_ptr s" "length (ws_obj s)" "ws_len s" "ws_cur s" n]
  by (simp add: ws_wf_def ws_pos_def)

lemma rs_pos_advance:
  assumes "rs_wf s" and "unat n < 2 ^ 63"
  shows "rs_pos (s\<lparr>rs_cur := rs_cur s + n\<rparr>) = rs_pos s + unat n"
  using assms ptr_arith(3) [of "rs_ptr s" "length (rs_obj s)" "rs_len s" "rs_cur s" n]
  by (simp add: rs_wf_def rs_pos_def)

lemma ws_pos_advance:
  assumes "ws_wf s" and "unat n < 2 ^ 63"
  shows "ws_pos (s\<lparr>ws_cur := ws_cur s + n\<rparr>) = ws_pos s + unat n"
  using assms ptr_arith(3) [of "ws_ptr s" "length (ws_obj s)" "ws_len s" "ws_cur s" n]
  by (simp add: ws_wf_def ws_pos_def)

lemma rs_wf_advance:
  assumes "rs_wf s" and "rs_pos s + unat n \<le> unat (rs_len s)"
  shows "rs_wf (s\<lparr>rs_cur := rs_cur s + n\<rparr>)"
proof -
  have n: "unat n < 2 ^ 63" using assms by (simp add: rs_wf_def)
  note a = ptr_arith [of "rs_ptr s" "length (rs_obj s)" "rs_len s" "rs_cur s" n]
  show ?thesis using assms n a(2,4,5) by (simp add: rs_wf_def rs_pos_def)
qed

lemma ws_wf_advance:
  assumes "ws_wf s" and "ws_pos s + unat n \<le> unat (ws_len s)"
  shows "ws_wf (s\<lparr>ws_cur := ws_cur s + n\<rparr>)"
proof -
  have n: "unat n < 2 ^ 63" using assms by (simp add: ws_wf_def)
  note a = ptr_arith [of "ws_ptr s" "length (ws_obj s)" "ws_len s" "ws_cur s" n]
  show ?thesis using assms n a(2,4,5) by (simp add: ws_wf_def ws_pos_def)
qed

lemma length_rs_rest:
  "rs_wf s \<Longrightarrow> length (rs_rest s) = unat (rs_len s) - rs_pos s"
  by (simp add: rs_rest_def rs_wf_def)

lemma rs_rest_advance:
  assumes "rs_wf s" and "unat n < 2 ^ 63"
  shows "rs_rest (s\<lparr>rs_cur := rs_cur s + n\<rparr>) = drop (unat n) (rs_rest s)"
  using rs_pos_advance [OF assms] by (simp add: rs_rest_def add.commute)

lemma rs_at_end: "rs_pos s = unat (rs_len s) \<Longrightarrow> rs_cur s = rs_ptr s + rs_len s"
  by (simp add: rs_pos_def word_unat_eq_iff [symmetric] algebra_simps)

lemma rs_load_cur:
  assumes "rs_wf s" and "rs_pos s + n \<le> unat (rs_len s)"
  shows "rs_load s (rs_cur s) n = Inr (take n (rs_rest s))"
  using assms
  by (simp add: rs_load_def rs_pos_def rs_rest_def rs_wf_def Let_def take_drop add.commute
      min_def)

lemma ws_store_cur:
  assumes "ws_wf s" and "ws_pos s + length bs \<le> unat (ws_len s)"
  shows "ws_store s (ws_cur s) bs = Inr (s\<lparr>ws_obj := overwrite (ws_obj s) (ws_pos s) bs\<rparr>)"
  using assms by (simp add: ws_store_def ws_pos_def ws_wf_def Let_def)

definition ws_fixed :: "'a WriteStream_scheme \<Rightarrow> u64 \<times> u64 \<times> nat" where
  "ws_fixed s = (ws_ptr s, ws_len s, length (ws_obj s))"

definition rs_fixed :: "'a ReadStream_scheme \<Rightarrow> byte list \<times> u64 \<times> u64" where
  "rs_fixed s = (rs_obj s, rs_ptr s, rs_len s)"

text \<open>One successful step of a reader over \<open>n\<close> bytes.\<close>

lemma rs_step:
  fixes s :: "'a ReadStream_scheme" and n :: u64
  assumes wf: "rs_wf s" and le: "rs_pos s + unat n \<le> unat (rs_len s)"
  shows "\<not> rs_cur s + n > rs_ptr s + rs_len s"
    and "rs_load s (rs_cur s) (unat n) = Inr (take (unat n) (rs_rest s))"
    and "rs_wf (s\<lparr>rs_cur := rs_cur s + n\<rparr>)"
    and "rs_rest (s\<lparr>rs_cur := rs_cur s + n\<rparr>) = drop (unat n) (rs_rest s)"
    and "rs_pos (s\<lparr>rs_cur := rs_cur s + n\<rparr>) = rs_pos s + unat n"
    and "rs_fixed (s\<lparr>rs_cur := rs_cur s + n\<rparr>) = rs_fixed s"
proof -
  have n: "unat n < 2 ^ 63" using wf le by (simp add: rs_wf_def)
  show "\<not> rs_cur s + n > rs_ptr s + rs_len s" using rs_check [OF wf n] le by simp
  show "rs_load s (rs_cur s) (unat n) = Inr (take (unat n) (rs_rest s))"
    by (rule rs_load_cur [OF wf le])
  show "rs_wf (s\<lparr>rs_cur := rs_cur s + n\<rparr>)" by (rule rs_wf_advance [OF wf le])
  show "rs_rest (s\<lparr>rs_cur := rs_cur s + n\<rparr>) = drop (unat n) (rs_rest s)"
    by (rule rs_rest_advance [OF wf n])
  show "rs_pos (s\<lparr>rs_cur := rs_cur s + n\<rparr>) = rs_pos s + unat n"
    by (rule rs_pos_advance [OF wf n])
  show "rs_fixed (s\<lparr>rs_cur := rs_cur s + n\<rparr>) = rs_fixed s" by (simp add: rs_fixed_def)
qed

definition ws_room :: "'a WriteStream_scheme \<Rightarrow> nat" where
  "ws_room w = unat (ws_len w) - ws_pos w"

text \<open>One store at the cursor followed by its advance appends to what is written.\<close>

definition ws_append :: "byte list \<Rightarrow> 'a WriteStream_scheme \<Rightarrow> 'a WriteStream_scheme" where
  "ws_append bs s = s\<lparr>ws_obj := overwrite (ws_obj s) (ws_pos s) bs,
                      ws_cur := ws_cur s + of_nat (length bs)\<rparr>"

lemma ws_append:
  assumes wf: "ws_wf s" and room: "ws_pos s + length bs \<le> unat (ws_len s)"
  shows "ws_wf (ws_append bs s)"
    and "ws_pos (ws_append bs s) = ws_pos s + length bs"
    and "ws_written (ws_append bs s) = ws_written s @ bs"
    and "ws_len (ws_append bs s) = ws_len s"
    and "ws_ptr (ws_append bs s) = ws_ptr s"
    and "length (ws_obj (ws_append bs s)) = length (ws_obj s)"
proof -
  let ?n = "of_nat (length bs) :: u64"
  have lt: "length bs < 2 ^ 63" using wf room by (simp add: ws_wf_def)
  then have un: "unat ?n = length bs" by (simp add: unat_of_nat_small)
  let ?s = "s\<lparr>ws_obj := overwrite (ws_obj s) (ws_pos s) bs\<rparr>"
  have len: "length (ws_obj ?s) = length (ws_obj s)" using wf room by (simp add: ws_wf_def)
  have wf': "ws_wf ?s" using wf len by (simp add: ws_wf_def)
  have pos: "ws_pos ?s = ws_pos s" by (simp add: ws_pos_def)
  have eq: "ws_append bs s = ?s\<lparr>ws_cur := ws_cur ?s + ?n\<rparr>" by (simp add: ws_append_def)
  have ws_len: "ws_len ?s = ws_len s" by simp
  show "ws_wf (ws_append bs s)"
    unfolding eq by (rule ws_wf_advance) (use wf' room un pos in simp_all)
  show p: "ws_pos (ws_append bs s) = ws_pos s + length bs"
    unfolding eq using ws_pos_advance [OF wf', of ?n] lt un pos by simp
  show "ws_written (ws_append bs s) = ws_written s @ bs"
    using room wf p by (simp add: ws_written_def ws_append_def take_overwrite_upto ws_wf_def)
  show "ws_len (ws_append bs s) = ws_len s" "ws_ptr (ws_append bs s) = ws_ptr s"
    by (simp_all add: ws_append_def)
  show "length (ws_obj (ws_append bs s)) = length (ws_obj s)"
    using len by (simp add: ws_append_def)
qed

section \<open>The interface of a pair of stream classes\<close>

text \<open>
  The values that the \<open>Write\<close> and \<open>Read\<close> overloads of \<open>pros/stream.h\<close> transfer,
  the integer types at their width.
\<close>

datatype field =
    FStr "byte list"
  | FI64 u64
  | FI32 u32
  | FI16 u16
  | FChr byte

text \<open>A client that transfers a sequence of fields and stops at the first failure.\<close>

fun write_all :: "('w \<Rightarrow> field \<Rightarrow> (bool \<times> 'w) result) \<Rightarrow> 'w \<Rightarrow> field list \<Rightarrow> (bool \<times> 'w) result" where
  "write_all wr w [] = Inr (True, w)"
| "write_all wr w (f # fs) =
     bindR (wr w f) (\<lambda>(b, w'). if b then write_all wr w' fs else Inr (False, w'))"

fun read_all :: "('r \<Rightarrow> field \<Rightarrow> (field option \<times> 'r) result) \<Rightarrow> 'r \<Rightarrow> field list
    \<Rightarrow> (field list option \<times> 'r) result" where
  "read_all rd r [] = Inr (Some [], r)"
| "read_all rd r (f # fs) =
     bindR (rd r f) (\<lambda>(v, r'). case v of
         None \<Rightarrow> Inr (None, r')
       | Some g \<Rightarrow> bindR (read_all rd r' fs) (\<lambda>(gs, r''). Inr (map_option ((#) g) gs, r'')))"

text \<open>
  \<open>wr\<close> and \<open>rd\<close> are the overloads of a writer and of its reader; reading is directed by
  a value of the kind that is expected (for a string also the size of the buffer it is read
  into). \<open>enc\<close> is the wire format of a field, and \<open>wfix\<close> and \<open>rfix\<close> are what no
  operation changes (the address and the length of the object). The writer promises to append the wire
  format when it fits, and the reader to return the field and to step over its wire format.
\<close>

locale field_codec =
  fixes wr :: "'w \<Rightarrow> field \<Rightarrow> (bool \<times> 'w) result"
    and rd :: "'r \<Rightarrow> field \<Rightarrow> (field option \<times> 'r) result"
    and enc :: "field \<Rightarrow> byte list"
    and fits :: "field \<Rightarrow> bool"
    and written :: "'w \<Rightarrow> byte list"
    and room :: "'w \<Rightarrow> nat"
    and rest :: "'r \<Rightarrow> byte list"
    and wok :: "'w \<Rightarrow> bool"
    and rok :: "'r \<Rightarrow> bool"
    and wfix :: "'w \<Rightarrow> 'fw"
    and rfix :: "'r \<Rightarrow> 'fr"
  assumes wr_ok: "wok w \<Longrightarrow> fits f \<Longrightarrow> length (enc f) \<le> room w \<Longrightarrow>
      \<exists>w'. wr w f = Inr (True, w') \<and> wok w' \<and> written w' = written w @ enc f
        \<and> room w' = room w - length (enc f) \<and> wfix w' = wfix w"
    and rd_ok: "rok r \<Longrightarrow> fits f \<Longrightarrow> rest r = enc f @ ys \<Longrightarrow>
      \<exists>r'. rd r f = Inr (Some f, r') \<and> rok r' \<and> rest r' = ys \<and> rfix r' = rfix r"
begin

lemma write_all_ok:
  assumes "wok w" and "list_all fits fs" and "length (concat (map enc fs)) \<le> room w"
  shows "\<exists>w'. write_all wr w fs = Inr (True, w') \<and> wok w'
     \<and> written w' = written w @ concat (map enc fs) \<and> wfix w' = wfix w"
  using assms
proof (induction fs arbitrary: w)
  case Nil
  then show ?case by simp
next
  case (Cons f fs)
  then obtain w1 where w1: "wr w f = Inr (True, w1)" "wok w1"
    "written w1 = written w @ enc f" "room w1 = room w - length (enc f)" "wfix w1 = wfix w"
    using wr_ok [of w f] by auto
  with Cons.IH [of w1] Cons.prems show ?case by auto
qed

lemma read_all_ok:
  assumes "rok r" and "list_all fits fs" and "rest r = concat (map enc fs) @ ys"
  shows "\<exists>r'. read_all rd r fs = Inr (Some fs, r') \<and> rok r' \<and> rest r' = ys
     \<and> rfix r' = rfix r"
  using assms
proof (induction fs arbitrary: r)
  case Nil
  then show ?case by simp
next
  case (Cons f fs)
  then obtain r1 where r1: "rd r f = Inr (Some f, r1)" "rok r1"
    "rest r1 = concat (map enc fs) @ ys" "rfix r1 = rfix r"
    using rd_ok [of r f "concat (map enc fs) @ ys"] by auto
  with Cons.IH [of r1] Cons.prems show ?case by auto
qed

end

end
