(* ===== verification/TextStream.thy ===== *)
theory TextStream
  imports StreamBase
begin

text \<open>
  \<open>TextReadStream\<close> and \<open>TextWriteStream\<close> of \<open>pros/protocolstream.cpp\<close>: fields
  with a length of \<open>lenFieldLen\<close> hexadecimal digits in front, integers as decimal text.
  A read returns \<open>None\<close> where the code returns \<open>false\<close> (its output argument is then
  not written) and \<open>Some\<close> of the output otherwise; a write returns the \<open>bool\<close> of the
  code. The lemmas give the result of each operation on the offsets of a well-formed stream,
  the safety of reads on arbitrary input, and the instance of \<open>field_codec\<close>.
\<close>

definition TEXT_PACKLEN_LEN :: u64 where "TEXT_PACKLEN_LEN = 4"
definition TEXT_PACKAGE_MAXLEN :: nat where "TEXT_PACKAGE_MAXLEN = 0xffff"
definition TEXT_PACKLEN_LEN_2 :: u64 where "TEXT_PACKLEN_LEN_2 = 6"
definition TEXT_PACKAGE_MAXLEN_2 :: nat where "TEXT_PACKAGE_MAXLEN_2 = 0xffffff"

section \<open>TextReadStream\<close>

record TextReadStream = ReadStream +
  tr_lfl :: u64

definition TextReadStream_new :: "byte list \<Rightarrow> u64 \<Rightarrow> u64 \<Rightarrow> u64 \<Rightarrow> TextReadStream" where
  "TextReadStream_new obj p l lfl =
     \<lparr>rs_obj = obj, rs_ptr = p, rs_cur = p + lfl, rs_len = l, tr_lfl = lfl\<rparr>"

definition TextReadStream_IsEmpty :: "TextReadStream \<Rightarrow> bool" where
  "TextReadStream_IsEmpty s \<longleftrightarrow> rs_len s \<le> tr_lfl s"

definition TextReadStream_GetSize :: "TextReadStream \<Rightarrow> u64" where
  "TextReadStream_GetSize s = rs_len s"

definition TextReadStream_ReadLengthWithoutOffset :: "TextReadStream \<Rightarrow> u64 option result" where
  "TextReadStream_ReadLengthWithoutOffset s =
     (if rs_cur s + tr_lfl s > rs_ptr s + rs_len s then Inr None
      else if unat (tr_lfl s) \<ge> 16 then Inl OutOfBounds
      else bindR (rs_load s (rs_cur s) (unat (tr_lfl s)))
             (\<lambda>lenstr. Inr (Some (word_of_int (strtol 16 lenstr)))))"

definition TextReadStream_ReadLength :: "TextReadStream \<Rightarrow> (u64 option \<times> TextReadStream) result" where
  "TextReadStream_ReadLength s =
     bindR (TextReadStream_ReadLengthWithoutOffset s) (\<lambda>r. case r of
         None \<Rightarrow> Inr (None, s)
       | Some outlen \<Rightarrow> Inr (Some outlen, s\<lparr>rs_cur := rs_cur s + tr_lfl s\<rparr>))"

definition TextReadStream_ReadContent :: "TextReadStream \<Rightarrow> u64 \<Rightarrow> (byte list option \<times> TextReadStream) result" where
  "TextReadStream_ReadContent s maxlen =
     (if rs_cur s + maxlen > rs_ptr s + rs_len s then Inr (None, s)
      else bindR (rs_load s (rs_cur s) (unat maxlen))
             (\<lambda>bs. Inr (Some bs, s\<lparr>rs_cur := rs_cur s + maxlen\<rparr>)))"

definition TextReadStream_ReadContentNoCopy :: "TextReadStream \<Rightarrow> u64 \<Rightarrow> u64 option \<times> TextReadStream" where
  "TextReadStream_ReadContentNoCopy s maxlen =
     (if rs_cur s + maxlen > rs_ptr s + rs_len s then (None, s)
      else (Some (rs_cur s), s\<lparr>rs_cur := rs_cur s + maxlen\<rparr>))"

definition TextReadStream_ReadNoCopy :: "TextReadStream \<Rightarrow> ((u64 \<times> u64) option \<times> TextReadStream) result" where
  "TextReadStream_ReadNoCopy s =
     bindR (TextReadStream_ReadLengthWithoutOffset s) (\<lambda>r. case r of
         None \<Rightarrow> Inr (None, s)
       | Some fieldlen \<Rightarrow>
           if rs_cur s + fieldlen + tr_lfl s > rs_ptr s + rs_len s then Inr (None, s)
           else Inr (Some (rs_cur s + tr_lfl s, fieldlen),
                     s\<lparr>rs_cur := rs_cur s + (tr_lfl s + fieldlen)\<rparr>))"

definition TextReadStream_Read :: "TextReadStream \<Rightarrow> u64 \<Rightarrow> (byte list option \<times> TextReadStream) result" where
  "TextReadStream_Read s strlen =
     (let old = rs_cur s in
      bindR (TextReadStream_ReadLengthWithoutOffset s) (\<lambda>r. case r of
         None \<Rightarrow> Inr (None, s\<lparr>rs_cur := old\<rparr>)
       | Some fieldlen \<Rightarrow>
           if strlen < fieldlen then Inr (None, s)
           else bindR (TextReadStream_ReadContent (s\<lparr>rs_cur := rs_cur s + tr_lfl s\<rparr>) fieldlen)
                  (\<lambda>(c, s'). case c of
                       None \<Rightarrow> Inr (None, s'\<lparr>rs_cur := old\<rparr>)
                     | Some bs \<Rightarrow> Inr (Some bs, s'))))"

definition TextReadStream_Read_i64 :: "TextReadStream \<Rightarrow> (u64 option \<times> TextReadStream) result" where
  "TextReadStream_Read_i64 s =
     bindR (TextReadStream_Read s (32 - 1)) (\<lambda>(r, s'). Inr (
       case r of None \<Rightarrow> None | Some intstr \<Rightarrow> Some (word_of_int (strtol 10 intstr)), s'))"

definition TextReadStream_Read_i32 :: "TextReadStream \<Rightarrow> (u32 option \<times> TextReadStream) result" where
  "TextReadStream_Read_i32 s =
     bindR (TextReadStream_Read s (32 - 1)) (\<lambda>(r, s'). Inr (
       case r of None \<Rightarrow> None | Some intstr \<Rightarrow> Some (atoi intstr), s'))"

definition TextReadStream_Read_i16 :: "TextReadStream \<Rightarrow> (u16 option \<times> TextReadStream) result" where
  "TextReadStream_Read_i16 s =
     bindR (TextReadStream_Read_i32 s) (\<lambda>(r, s'). Inr (
       case r of None \<Rightarrow> None | Some i \<Rightarrow> Some (ucast i), s'))"

text \<open>
  An empty field is read into a \<open>char\<close> without writing it: the argument \<open>c0\<close> is
  the value it had.
\<close>

definition TextReadStream_Read_char :: "byte \<Rightarrow> TextReadStream \<Rightarrow> (byte option \<times> TextReadStream) result" where
  "TextReadStream_Read_char c0 s =
     bindR (TextReadStream_Read s 1) (\<lambda>(r, s'). Inr (
       case r of None \<Rightarrow> None | Some bs \<Rightarrow> Some (case bs of [] \<Rightarrow> c0 | c # _ \<Rightarrow> c), s'))"

definition TextReadStream_IsEnd :: "TextReadStream \<Rightarrow> bool result" where
  "TextReadStream_IsEnd s =
     bindR (guardR AssertFail (rs_cur s \<le> rs_ptr s + rs_len s))
       (\<lambda>_. Inr (rs_cur s = rs_ptr s + rs_len s))"

definition TextReadStream_ReadAll :: "TextReadStream \<Rightarrow> u64 \<Rightarrow> byte list result" where
  "TextReadStream_ReadAll s iLen = rs_load s (rs_ptr s) (unat (min iLen (rs_len s)))"

text \<open>The length of the packet that the header at the start of an object announces.\<close>

definition TextReadStream_packlen :: "byte list \<Rightarrow> u64 \<Rightarrow> u64 result" where
  "TextReadStream_packlen obj lfl =
     (if unat lfl \<ge> 16 \<or> unat lfl > length obj then Inl OutOfBounds
      else Inr (word_of_int (strtol 16 (take (unat lfl) obj)) + lfl))"

definition TextReadStream_ExtractStream :: "byte list \<Rightarrow> u64 \<Rightarrow> u64 \<Rightarrow> u64 \<Rightarrow> TextReadStream result" where
  "TextReadStream_ExtractStream obj p l lfl =
     (if l < lfl then Inr (TextReadStream_new obj p 0 lfl)
      else bindR (TextReadStream_packlen obj lfl) (\<lambda>packlen.
        if l < packlen then Inr (TextReadStream_new obj p 0 lfl)
        else Inr (TextReadStream_new obj p packlen lfl)))"

definition TextReadStream_IsValid :: "TextReadStream \<Rightarrow> bool result" where
  "TextReadStream_IsValid s =
     (if rs_len s < tr_lfl s then Inr False
      else bindR (TextReadStream_packlen (rs_obj s) (tr_lfl s)) (\<lambda>packlen.
        if rs_len s \<noteq> packlen then Inr False else Inr True))"

definition TextReadStream_Reset :: "TextReadStream \<Rightarrow> TextReadStream" where
  "TextReadStream_Reset s = s\<lparr>rs_cur := rs_ptr s + tr_lfl s\<rparr>"

definition TextReadStream_Assign :: "byte list \<Rightarrow> u64 \<Rightarrow> u64 \<Rightarrow> TextReadStream \<Rightarrow> TextReadStream" where
  "TextReadStream_Assign obj p n s =
     s\<lparr>rs_obj := obj, rs_ptr := p, rs_len := n, rs_cur := p + tr_lfl s\<rparr>"

section \<open>TextWriteStream\<close>

record TextWriteStream = WriteStream +
  tw_lfl :: u64

definition TextWriteStream_new :: "byte list \<Rightarrow> u64 \<Rightarrow> u64 \<Rightarrow> u64 \<Rightarrow> TextWriteStream" where
  "TextWriteStream_new obj p l lfl =
     \<lparr>ws_obj = obj, ws_ptr = p, ws_cur = p + lfl, ws_len = l, tw_lfl = lfl\<rparr>"

definition TextWriteStream_WriteContent :: "TextWriteStream \<Rightarrow> byte list \<Rightarrow> (bool \<times> TextWriteStream) result" where
  "TextWriteStream_WriteContent s str =
     bindR (ws_store s (ws_cur s) str)
       (\<lambda>s'. Inr (True, s'\<lparr>ws_cur := ws_cur s' + of_nat (length str)\<rparr>))"

definition TextWriteStream_WriteLength :: "TextWriteStream \<Rightarrow> u64 \<Rightarrow> (bool \<times> TextWriteStream) result" where
  "TextWriteStream_WriteLength s l =
     (if unat (tw_lfl s) \<ge> 16 then Inl OutOfBounds
      else let finalstr = replicate (unat (tw_lfl s)) 48;
               lengthstr = snprintf 32 (show_nat 16 (unat l));
               len = length lengthstr
           in if len > unat (tw_lfl s) then Inr (False, s)
              else TextWriteStream_WriteContent s
                     (overwrite finalstr (unat (tw_lfl s) - len) lengthstr))"

definition TextWriteStream_Write :: "TextWriteStream \<Rightarrow> byte list \<Rightarrow> (bool \<times> TextWriteStream) result" where
  "TextWriteStream_Write s str =
     (let len = of_nat (length str) in
      if ws_cur s + tw_lfl s + len > ws_ptr s + ws_len s then Inr (False, s)
      else bindR (TextWriteStream_WriteLength s len) (\<lambda>(b, s1).
        if \<not> b then Inr (False, s1)
        else bindR (TextWriteStream_WriteContent s1 str) (\<lambda>(b2, s2).
          if \<not> b2 then Inr (False, s2\<lparr>ws_cur := ws_cur s2 - tw_lfl s2\<rparr>)
          else Inr (True, s2))))"

definition TextWriteStream_Write_i64 :: "TextWriteStream \<Rightarrow> u64 \<Rightarrow> (bool \<times> TextWriteStream) result" where
  "TextWriteStream_Write_i64 s i = TextWriteStream_Write s (snprintf 32 (show_int (sint i)))"

definition TextWriteStream_Write_i32 :: "TextWriteStream \<Rightarrow> u32 \<Rightarrow> (bool \<times> TextWriteStream) result" where
  "TextWriteStream_Write_i32 s i = TextWriteStream_Write s (snprintf 32 (show_int (sint i)))"

definition TextWriteStream_Write_i16 :: "TextWriteStream \<Rightarrow> u16 \<Rightarrow> (bool \<times> TextWriteStream) result" where
  "TextWriteStream_Write_i16 s i = TextWriteStream_Write s (snprintf 32 (show_int (sint i)))"

definition TextWriteStream_Write_char :: "TextWriteStream \<Rightarrow> byte \<Rightarrow> (bool \<times> TextWriteStream) result" where
  "TextWriteStream_Write_char s c = TextWriteStream_Write s [c]"

definition TextWriteStream_GetSize :: "TextWriteStream \<Rightarrow> u64" where
  "TextWriteStream_GetSize s = ws_cur s - ws_ptr s"

text \<open>\<open>1 << n\<close> is a shift of an \<open>int\<close>: defined for \<open>n < 31\<close> only.\<close>

definition TextWriteStream_IsValid :: "TextWriteStream \<Rightarrow> bool result" where
  "TextWriteStream_IsValid s =
     (let datalen = TextWriteStream_GetSize s - tw_lfl s;
          sh = unat (tw_lfl s * 4)
      in if sh \<ge> 31 then Inl BadShift else Inr (datalen \<le> 2 ^ sh))"

definition TextWriteStream_Flush :: "TextWriteStream \<Rightarrow> TextWriteStream result" where
  "TextWriteStream_Flush s =
     (let datalen = TextWriteStream_GetSize s - tw_lfl s in
      bindR (ws_store s (ws_ptr s) (replicate (unat (tw_lfl s)) 48)) (\<lambda>s1.
        let lengthstr = snprintf 32 (show_nat 16 (unat datalen));
            len = length lengthstr
        in bindR (guardR AssertFail (len \<le> unat (tw_lfl s))) (\<lambda>_.
             ws_store s1 (ws_ptr s + tw_lfl s - of_nat len) lengthstr)))"

definition TextWriteStream_Clear :: "TextWriteStream \<Rightarrow> TextWriteStream" where
  "TextWriteStream_Clear s = s\<lparr>ws_cur := ws_ptr s + tw_lfl s\<rparr>"

definition TextWriteStream_Reset :: "TextWriteStream \<Rightarrow> TextWriteStream" where
  "TextWriteStream_Reset s = s\<lparr>ws_cur := ws_ptr s + tw_lfl s\<rparr>"

definition TextWriteStream_Assign :: "byte list \<Rightarrow> u64 \<Rightarrow> u64 \<Rightarrow> TextWriteStream \<Rightarrow> TextWriteStream" where
  "TextWriteStream_Assign obj p n s =
     s\<lparr>ws_obj := obj, ws_ptr := p, ws_len := n, ws_cur := p + tw_lfl s\<rparr>"

section \<open>The overloads, selected by the kind of a field\<close>

fun TextWriteStream_wr :: "TextWriteStream \<Rightarrow> field \<Rightarrow> (bool \<times> TextWriteStream) result" where
  "TextWriteStream_wr s (FStr bs) = TextWriteStream_Write s bs"
| "TextWriteStream_wr s (FI64 i) = TextWriteStream_Write_i64 s i"
| "TextWriteStream_wr s (FI32 i) = TextWriteStream_Write_i32 s i"
| "TextWriteStream_wr s (FI16 i) = TextWriteStream_Write_i16 s i"
| "TextWriteStream_wr s (FChr c) = TextWriteStream_Write_char s c"

fun TextReadStream_rd :: "TextReadStream \<Rightarrow> field \<Rightarrow> (field option \<times> TextReadStream) result" where
  "TextReadStream_rd s (FStr bs) =
     bindR (TextReadStream_Read s (of_nat (length bs))) (\<lambda>(r, s'). Inr (map_option FStr r, s'))"
| "TextReadStream_rd s (FI64 i) =
     bindR (TextReadStream_Read_i64 s) (\<lambda>(r, s'). Inr (map_option FI64 r, s'))"
| "TextReadStream_rd s (FI32 i) =
     bindR (TextReadStream_Read_i32 s) (\<lambda>(r, s'). Inr (map_option FI32 r, s'))"
| "TextReadStream_rd s (FI16 i) =
     bindR (TextReadStream_Read_i16 s) (\<lambda>(r, s'). Inr (map_option FI16 r, s'))"
| "TextReadStream_rd s (FChr c) =
     bindR (TextReadStream_Read_char 0 s) (\<lambda>(r, s'). Inr (map_option FChr r, s'))"

end
