(* ===== verification/TextCodec.thy ===== *)
theory TextCodec
  imports TextStream
begin

text \<open>
  Correctness of the text streams: what each operation does on the bytes left in a reader and
  on the bytes written by a writer, that a reader is safe on every input, the instances of
  \<open>field_codec\<close> for the two length-field sizes of the code, and the round trip of a whole
  packet through \<open>Write\<close>, \<open>Flush\<close>, \<open>IsValid\<close> and \<open>Read\<close>.
\<close>

section \<open>Length fields\<close>

definition text_len :: "nat \<Rightarrow> nat \<Rightarrow> byte list" where
  "text_len k n = replicate (k - length (show_nat 16 n)) 48 @ show_nat 16 n"

definition text_frame :: "nat \<Rightarrow> byte list \<Rightarrow> byte list" where
  "text_frame k bs = text_len k (length bs) @ bs"

lemma length_text_len [simp]: "0 < k \<Longrightarrow> n < 16 ^ k \<Longrightarrow> length (text_len k n) = k"
  using length_show_nat_le [of 16 k n] by (simp add: text_len_def)

lemma length_text_frame [simp]:
  "0 < k \<Longrightarrow> length bs < 16 ^ k \<Longrightarrow> length (text_frame k bs) = k + length bs"
  by (simp add: text_frame_def)

lemma pow16_15: "k \<le> 15 \<Longrightarrow> n < 16 ^ k \<Longrightarrow> n < (2 :: nat) ^ 60"
proof -
  assume "k \<le> 15" and n: "n < 16 ^ k"
  then have "(16 :: nat) ^ k \<le> 16 ^ 15" by (intro power_increasing) simp_all
  with n show ?thesis by simp
qed

lemma strtol_text_len:
  assumes "k \<le> 15" and "n < 16 ^ k"
  shows "strtol 16 (text_len k n) = int n"
proof -
  have "int n \<le> LONG_MAX" using pow16_15 [OF assms] by (simp add: LONG_MAX_def)
  then show ?thesis by (simp add: text_len_def strtol_show_nat)
qed

lemma snprintf_hex: "n < 2 ^ 64 \<Longrightarrow> snprintf 32 (show_nat 16 n) = show_nat 16 n"
  using length_show_nat_le [of 16 16 n] by (simp add: snprintf_def)

section \<open>Reading\<close>

lemma TextRead_length:
  assumes wf: "rs_wf s" and lfl: "unat (tr_lfl s) \<le> 15"
  shows "TextReadStream_ReadLengthWithoutOffset s =
     Inr (if rs_pos s + unat (tr_lfl s) > unat (rs_len s) then None
          else Some (word_of_int (strtol 16 (take (unat (tr_lfl s)) (rs_rest s)))))"
proof -
  have "unat (tr_lfl s) < 2 ^ 63" using lfl by simp
  from rs_check [OF wf this] rs_load_cur [OF wf, of "unat (tr_lfl s)"] lfl
  show ?thesis by (simp add: TextReadStream_ReadLengthWithoutOffset_def)
qed

lemma TextRead_content:
  assumes wf: "rs_wf s" and n: "unat n < 2 ^ 63"
  shows "TextReadStream_ReadContent s n =
     Inr (if rs_pos s + unat n > unat (rs_len s) then (None, s)
          else (Some (take (unat n) (rs_rest s)), s\<lparr>rs_cur := rs_cur s + n\<rparr>))"
  using rs_check [OF wf n] rs_load_cur [OF wf, of "unat n"]
  by (simp add: TextReadStream_ReadContent_def)

text \<open>The result of \<open>Read\<close> on every well-formed stream and every content.\<close>

lemma TextRead_spec:
  fixes s :: TextReadStream
  assumes wf: "rs_wf s" and lfl: "unat (tr_lfl s) \<le> 15" and n: "unat n < 2 ^ 62"
  defines "k \<equiv> unat (tr_lfl s)"
  defines "v \<equiv> word_of_int (strtol 16 (take k (rs_rest s))) :: u64"
  shows "TextReadStream_Read s n =
     Inr (if rs_pos s + k > unat (rs_len s) \<or> n < v \<or> rs_pos s + k + unat v > unat (rs_len s)
          then (None, s)
          else (Some (take (unat v) (drop k (rs_rest s))),
                s\<lparr>rs_cur := rs_cur s + tr_lfl s + v\<rparr>))"
proof (cases "rs_pos s + k > unat (rs_len s)")
  case True
  then show ?thesis
    using TextRead_length [OF wf lfl] by (simp add: TextReadStream_Read_def Let_def k_def)
next
  case hdr: False
  have kb: "unat (tr_lfl s) < 2 ^ 63" using lfl by simp
  let ?s = "s\<lparr>rs_cur := rs_cur s + tr_lfl s\<rparr>"
  have wf': "rs_wf ?s" by (rule rs_wf_advance [OF wf]) (use hdr in \<open>simp add: k_def\<close>)
  have pos': "rs_pos ?s = rs_pos s + k" using rs_pos_advance [OF wf kb] by (simp add: k_def)
  have rest': "rs_rest ?s = drop k (rs_rest s)" using rs_rest_advance [OF wf kb] by (simp add: k_def)
  show ?thesis
  proof (cases "n < v")
    case True
    then show ?thesis using hdr TextRead_length [OF wf lfl]
      by (simp add: TextReadStream_Read_def Let_def k_def v_def)
  next
    case False
    then have vb: "unat v < 2 ^ 63" using n by (simp add: word_less_nat_alt)
    from False hdr TextRead_length [OF wf lfl] TextRead_content [OF wf' vb] pos' rest'
    show ?thesis by (auto simp: TextReadStream_Read_def Let_def k_def v_def)
  qed
qed

lemma TextRead_safe:
  fixes s :: TextReadStream
  assumes wf: "rs_wf s" and lfl: "unat (tr_lfl s) \<le> 15" and n: "unat n < 2 ^ 62"
  obtains r s' where "TextReadStream_Read s n = Inr (r, s')" "rs_wf s'" "tr_lfl s' = tr_lfl s"
    "rs_obj s' = rs_obj s" "rs_ptr s' = rs_ptr s" "rs_len s' = rs_len s"
    "rs_pos s \<le> rs_pos s'" "rs_pos s \<le> unat (rs_len s) \<Longrightarrow> rs_pos s' \<le> unat (rs_len s)"
    "r = None \<Longrightarrow> s' = s" "\<And>bs. r = Some bs \<Longrightarrow> length bs \<le> unat n"
proof -
  define k where "k = unat (tr_lfl s)"
  define v where "v = (word_of_int (strtol 16 (take k (rs_rest s))) :: u64)"
  note spec = TextRead_spec [OF wf lfl n, folded k_def, folded v_def]
  show ?thesis
  proof (cases "rs_pos s + k > unat (rs_len s) \<or> n < v \<or> rs_pos s + k + unat v > unat (rs_len s)")
    case True
    with spec have "TextReadStream_Read s n = Inr (None, s)" by simp
    then show ?thesis by (rule that) (use wf in simp_all)
  next
    case False
    let ?s1 = "s\<lparr>rs_cur := rs_cur s + tr_lfl s\<rparr>"
    let ?s2 = "s\<lparr>rs_cur := rs_cur s + tr_lfl s + v\<rparr>"
    have kb: "unat (tr_lfl s) < 2 ^ 63" using lfl by simp
    have vb: "unat v < 2 ^ 63" "unat v \<le> unat n" using False n by (simp_all add: word_less_nat_alt)
    have w1: "rs_wf ?s1" by (rule rs_wf_advance [OF wf]) (use False in \<open>simp add: k_def\<close>)
    have p1: "rs_pos ?s1 = rs_pos s + k" using rs_pos_advance [OF wf kb] by (simp add: k_def)
    have w2: "rs_wf ?s2" using rs_wf_advance [OF w1, of v] p1 False by simp
    have p2: "rs_pos ?s2 = rs_pos s + k + unat v" using rs_pos_advance [OF w1, of v] p1 vb by simp
    from spec False have "TextReadStream_Read s n = Inr (Some (take (unat v) (drop k (rs_rest s))), ?s2)"
      by simp
    then show ?thesis by (rule that) (use w2 p2 False vb in simp_all)
  qed
qed

lemma TextRead_rd_safe:
  fixes s :: TextReadStream
  assumes wf: "rs_wf s" and lfl: "unat (tr_lfl s) \<le> 15" and pos: "rs_pos s \<le> unat (rs_len s)"
    and f: "case f of FStr bs \<Rightarrow> length bs < 2 ^ 62 | _ \<Rightarrow> True"
  obtains g s' where "TextReadStream_rd s f = Inr (g, s')" "rs_wf s'" "tr_lfl s' = tr_lfl s"
    "rs_fixed s' = rs_fixed s" "rs_pos s \<le> rs_pos s'" "rs_pos s' \<le> unat (rs_len s')"
proof -
  define n :: u64 where
    "n = (case f of FStr bs \<Rightarrow> of_nat (length bs) | FChr _ \<Rightarrow> 1 | _ \<Rightarrow> 31)"
  have "unat n < 2 ^ 62" using f by (auto simp: n_def unat_of_nat_small split: field.splits)
  from TextRead_safe [OF wf lfl this] obtain r s' where
    r: "TextReadStream_Read s n = Inr (r, s')" and s': "rs_wf s'" "tr_lfl s' = tr_lfl s"
      "rs_fixed s' = rs_fixed s" "rs_pos s \<le> rs_pos s'" "rs_pos s' \<le> unat (rs_len s')"
    using pos by (metis rs_fixed_def)
  have "\<exists>g. TextReadStream_rd s f = Inr (g, s')"
    using r by (cases f) (simp_all add: n_def TextReadStream_Read_i64_def TextReadStream_Read_i32_def
        TextReadStream_Read_i16_def TextReadStream_Read_char_def)
  with s' that show ?thesis by blast
qed

lemma TextRead_frame:
  fixes s :: TextReadStream
  assumes wf: "rs_wf s" and lfl: "0 < tr_lfl s" "unat (tr_lfl s) \<le> 15"
    and rest: "rs_rest s = text_frame (unat (tr_lfl s)) bs @ ys"
    and fits: "length bs < 16 ^ unat (tr_lfl s)" and n: "length bs \<le> unat n" "unat n < 2 ^ 62"
  shows "\<exists>s'. TextReadStream_Read s n = Inr (Some bs, s') \<and> rs_wf s' \<and> rs_rest s' = ys
    \<and> tr_lfl s' = tr_lfl s \<and> rs_fixed s' = rs_fixed s \<and> rs_pos s' \<le> unat (rs_len s)"
proof -
  define k where "k = unat (tr_lfl s)"
  have k0: "0 < k" using lfl(1) by (simp add: k_def word_less_nat_alt)
  have hdr: "take k (rs_rest s) = text_len k (length bs)"
    using rest fits k0 by (simp add: text_frame_def k_def)
  have drp: "drop k (rs_rest s) = bs @ ys"
    using rest fits k0 by (simp add: text_frame_def k_def)
  define v where "v = (word_of_int (strtol 16 (take k (rs_rest s))) :: u64)"
  have "length bs < 2 ^ 60" using pow16_15 lfl(2) fits by blast
  then have v: "unat v = length bs"
    using hdr strtol_text_len [of k "length bs"] lfl(2) fits
    by (simp add: v_def k_def unat_of_nat_small)
  have len: "unat (rs_len s) - rs_pos s = k + length bs + length ys"
    using length_rs_rest [OF wf] rest fits k0 by (simp add: k_def)
  then have pos: "rs_pos s + k + unat v \<le> unat (rs_len s)" using v k0 by linarith
  have nv: "\<not> n < v" using n v by (simp add: word_less_nat_alt)
  have spec: "TextReadStream_Read s n = Inr (Some bs, s\<lparr>rs_cur := rs_cur s + tr_lfl s + v\<rparr>)"
    using TextRead_spec [OF wf lfl(2) n(2), folded k_def, folded v_def] pos nv drp v by simp
  let ?s1 = "s\<lparr>rs_cur := rs_cur s + tr_lfl s\<rparr>"
  have kb: "unat (tr_lfl s) < 2 ^ 63" "unat v < 2 ^ 63" using lfl(2) v \<open>length bs < 2 ^ 60\<close> by simp_all
  have w1: "rs_wf ?s1" by (rule rs_wf_advance [OF wf]) (use pos in \<open>simp add: k_def\<close>)
  have p1: "rs_pos ?s1 = rs_pos s + k" using rs_pos_advance [OF wf kb(1)] by (simp add: k_def)
  have "rs_wf (?s1\<lparr>rs_cur := rs_cur ?s1 + v\<rparr>)" by (rule rs_wf_advance [OF w1]) (use p1 pos in simp)
  moreover have "drop (length bs + unat (tr_lfl s)) (rs_rest s) = ys"
    using drp by (metis append_eq_conv_conj drop_drop k_def)
  then have "rs_rest (?s1\<lparr>rs_cur := rs_cur ?s1 + v\<rparr>) = ys"
    using rs_rest_advance [OF w1 kb(2)] rs_rest_advance [OF wf kb(1)] drp v by (simp add: k_def)
  moreover have "rs_pos (?s1\<lparr>rs_cur := rs_cur ?s1 + v\<rparr>) \<le> unat (rs_len s)"
    using rs_pos_advance [OF w1 kb(2)] p1 pos by simp
  ultimately show ?thesis using spec by (auto simp: rs_fixed_def)
qed

section \<open>Writing\<close>

lemma TextWrite_content:
  assumes "ws_wf s" and "ws_pos s + length bs \<le> unat (ws_len s)"
  shows "TextWriteStream_WriteContent s bs = Inr (True, ws_append bs s)"
  using ws_store_cur [OF assms] by (simp add: TextWriteStream_WriteContent_def ws_append_def)

lemma TextWrite_length:
  assumes wf: "ws_wf s" and lfl: "0 < tw_lfl s" "unat (tw_lfl s) \<le> 15"
    and fits: "unat l < 16 ^ unat (tw_lfl s)"
    and room: "ws_pos s + unat (tw_lfl s) \<le> unat (ws_len s)"
  shows "TextWriteStream_WriteLength s l =
     Inr (True, ws_append (text_len (unat (tw_lfl s)) (unat l)) s)"
proof -
  define k where "k = unat (tw_lfl s)"
  define h where "h = show_nat 16 (unat l)"
  have k0: "0 < k" using lfl(1) by (simp add: k_def word_less_nat_alt)
  have h: "snprintf 32 (show_nat 16 (unat l)) = h" "length h \<le> k"
    using snprintf_hex [OF unat_u64 [of l]] length_show_nat_le [of 16 k "unat l"] fits k0
    by (simp_all add: h_def k_def)
  have ov: "overwrite (replicate k 48) (k - length h) h = text_len k (unat l)"
    using h by (simp add: overwrite_def text_len_def h_def)
  have len: "length (text_len k (unat l)) = k" using k0 fits by (simp add: k_def)
  have "TextWriteStream_WriteLength s l = TextWriteStream_WriteContent s (text_len k (unat l))"
    using lfl(2) h ov by (simp add: TextWriteStream_WriteLength_def Let_def k_def)
  also have "\<dots> = Inr (True, ws_append (text_len k (unat l)) s)"
    by (rule TextWrite_content [OF wf]) (use len room in \<open>simp add: k_def\<close>)
  finally show ?thesis by (simp add: k_def)
qed

lemma ws_append_fields [simp]: "tw_lfl (ws_append bs s) = tw_lfl s"
  by (simp add: ws_append_def)

lemma TextWrite_frame:
  assumes wf: "ws_wf s" and lfl: "0 < tw_lfl s" "unat (tw_lfl s) \<le> 15"
    and fits: "length bs < 16 ^ unat (tw_lfl s)"
    and room: "ws_pos s + length (text_frame (unat (tw_lfl s)) bs) \<le> unat (ws_len s)"
  shows "\<exists>s'. TextWriteStream_Write s bs = Inr (True, s') \<and> ws_wf s'
    \<and> ws_written s' = ws_written s @ text_frame (unat (tw_lfl s)) bs
    \<and> ws_pos s' = ws_pos s + length (text_frame (unat (tw_lfl s)) bs)
    \<and> ws_len s' = ws_len s \<and> ws_ptr s' = ws_ptr s \<and> tw_lfl s' = tw_lfl s
    \<and> length (ws_obj s') = length (ws_obj s)"
proof -
  define k where "k = unat (tw_lfl s)"
  have k0: "0 < k" using lfl(1) by (simp add: k_def word_less_nat_alt)
  have room': "ws_pos s + k + length bs \<le> unat (ws_len s)"
    using room fits k0 by (simp add: k_def)
  have lb: "length bs < 2 ^ 60" using pow16_15 lfl(2) fits by blast
  then have ul: "unat (of_nat (length bs) :: u64) = length bs" by (simp add: unat_of_nat_small)
  have "unat (tw_lfl s + of_nat (length bs) :: u64) = k + length bs"
    using ul lb lfl(2) by (subst unat_add_nowrap) (simp_all add: k_def)
  then have chk: "\<not> ws_cur s + tw_lfl s + of_nat (length bs) > ws_ptr s + ws_len s"
    using ws_check [OF wf, of "tw_lfl s + of_nat (length bs)"] room' lb lfl(2)
    by (simp add: add.assoc k_def)
  let ?h = "text_len k (length bs)"
  let ?s1 = "ws_append ?h s"
  have len: "length ?h = k" using k0 fits by (simp add: k_def)
  have wl: "TextWriteStream_WriteLength s (of_nat (length bs)) = Inr (True, ?s1)"
    using TextWrite_length [OF wf lfl, of "of_nat (length bs)"] ul fits room' by (simp add: k_def)
  have r1: "ws_pos s + length ?h \<le> unat (ws_len s)" using len room' by simp
  note a1 = ws_append [OF wf r1]
  have r2: "ws_pos ?s1 + length bs \<le> unat (ws_len ?s1)" using a1 len room' by simp
  note a2 = ws_append [OF a1(1) r2]
  have "TextWriteStream_Write s bs = Inr (True, ws_append bs ?s1)"
    using chk wl TextWrite_content [OF a1(1) r2] by (simp add: TextWriteStream_Write_def Let_def)
  then show ?thesis using a1 a2 len k0 fits
    by (auto simp: text_frame_def k_def [symmetric] add.assoc)
qed

section \<open>The instances of the codec interface\<close>

fun text_payload :: "field \<Rightarrow> byte list" where
  "text_payload (FStr bs) = bs"
| "text_payload (FI64 i) = show_int (sint i)"
| "text_payload (FI32 i) = show_int (sint i)"
| "text_payload (FI16 i) = show_int (sint i)"
| "text_payload (FChr c) = [c]"

definition text_enc :: "nat \<Rightarrow> field \<Rightarrow> byte list" where
  "text_enc k f = text_frame k (text_payload f)"

definition text_fits :: "nat \<Rightarrow> field \<Rightarrow> bool" where
  "text_fits k f \<longleftrightarrow> length (text_payload f) < 16 ^ k"

definition text_wok :: "u64 \<Rightarrow> TextWriteStream \<Rightarrow> bool" where
  "text_wok lfl w \<longleftrightarrow> ws_wf w \<and> tw_lfl w = lfl \<and> ws_pos w \<le> unat (ws_len w)"

definition text_rok :: "u64 \<Rightarrow> TextReadStream \<Rightarrow> bool" where
  "text_rok lfl r \<longleftrightarrow> rs_wf r \<and> tr_lfl r = lfl \<and> rs_pos r \<le> unat (rs_len r)"

lemma sint_bounds64: "- (2 ^ 63) \<le> sint (w :: u64)" "sint (w :: u64) < 2 ^ 63"
  using sint_ge [of w] sint_lt [of w] by simp_all

lemma sint_bounds32: "- (2 ^ 63) \<le> sint (w :: u32)" "sint (w :: u32) < 2 ^ 63"
  using sint_ge [of w] sint_lt [of w] by simp_all

lemma sint_bounds16: "- (2 ^ 63) \<le> sint (w :: u16)" "sint (w :: u16) < 2 ^ 63"
  using sint_ge [of w] sint_lt [of w] by simp_all

lemmas sint_bounds = sint_bounds64 sint_bounds32 sint_bounds16

lemma show_int_range:
  assumes "- (2 ^ 63) \<le> i" and "i < 2 ^ 63"
  shows "length (show_int i) \<le> 20" and "strtol 10 (show_int i) = i"
    and "snprintf 32 (show_int i) = show_int i"
proof -
  show len: "length (show_int i) \<le> 20" using assms length_show_int_le [of i 19] by simp
  show "strtol 10 (show_int i) = i" using assms by (simp add: strtol_show_int LONG_MAX_def)
  show "snprintf 32 (show_int i) = show_int i" using len by (simp add: snprintf_def)
qed

lemmas show_sint [simp] = show_int_range [OF sint_bounds64]
  show_int_range [OF sint_bounds32] show_int_range [OF sint_bounds16]

lemma TextWrite_wr: "TextWriteStream_wr s f = TextWriteStream_Write s (text_payload f)"
  by (cases f) (simp_all add: TextWriteStream_Write_i64_def TextWriteStream_Write_i32_def
      TextWriteStream_Write_i16_def TextWriteStream_Write_char_def)

lemma text_wr_ok:
  assumes "0 < lfl" and "unat lfl \<le> 15" and "text_wok lfl w" and "text_fits (unat lfl) f"
    and "length (text_enc (unat lfl) f) \<le> ws_room w"
  shows "\<exists>w'. TextWriteStream_wr w f = Inr (True, w') \<and> text_wok lfl w'
    \<and> ws_written w' = ws_written w @ text_enc (unat lfl) f
    \<and> ws_room w' = ws_room w - length (text_enc (unat lfl) f) \<and> ws_fixed w' = ws_fixed w"
proof -
  have ne: "0 < length (text_enc (unat lfl) f)"
    using assms(1,4) by (simp add: text_enc_def text_fits_def word_less_nat_alt)
  have "ws_pos w + length (text_frame (unat lfl) (text_payload f)) \<le> unat (ws_len w)"
    using assms(3,5) ne unfolding ws_room_def text_enc_def text_wok_def by linarith
  with TextWrite_frame [of w "text_payload f"] assms show ?thesis
    by (auto simp: TextWrite_wr text_wok_def text_fits_def text_enc_def ws_room_def ws_fixed_def)
qed

lemma text_read_payload:
  assumes "0 < lfl" and "unat lfl \<le> 15" and "text_rok lfl r" and "text_fits (unat lfl) f"
    and "rs_rest r = text_enc (unat lfl) f @ ys" and "length (text_payload f) \<le> unat n"
    and "unat n < 2 ^ 62"
  shows "\<exists>r'. TextReadStream_Read r n = Inr (Some (text_payload f), r') \<and> text_rok lfl r'
    \<and> rs_rest r' = ys \<and> rs_fixed r' = rs_fixed r"
  using TextRead_frame [of r "text_payload f" ys n] assms
  by (fastforce simp: text_rok_def text_enc_def text_fits_def rs_fixed_def)

lemma ucast_scast_16: "ucast (scast (w :: u16) :: u32) = (w :: u16)"
proof (rule bit_word_eqI)
  fix n :: nat
  assume "n < LENGTH(16)"
  then have "n < 15 \<or> n = 15" by auto
  then show "bit (ucast (scast w :: u32) :: u16) n = bit w n"
    by (auto simp: bit_simps min_def)
qed

lemma text_rd_ok:
  assumes a: "0 < lfl" "unat lfl \<le> 15" "text_rok lfl r" "text_fits (unat lfl) f"
    "rs_rest r = text_enc (unat lfl) f @ ys"
  shows "\<exists>r'. TextReadStream_rd r f = Inr (Some f, r') \<and> text_rok lfl r' \<and> rs_rest r' = ys
    \<and> rs_fixed r' = rs_fixed r"
proof (cases f)
  case (FStr bs)
  have "length bs < 2 ^ 60" using a(2,4) pow16_15 FStr by (auto simp: text_fits_def)
  then have "unat (of_nat (length bs) :: u64) = length bs" by (simp add: unat_of_nat_small)
  with text_read_payload [OF a, of "of_nat (length bs)"] \<open>length bs < 2 ^ 60\<close> FStr
  show ?thesis by auto
next
  case (FI64 i)
  with text_read_payload [OF a, of 31] show_sint(1) [of i] show ?thesis
    by (auto simp: TextReadStream_Read_i64_def)
next
  case (FI32 i)
  with text_read_payload [OF a, of 31] show_sint(4) [of i] show ?thesis
    by (auto simp: TextReadStream_Read_i32_def atoi_def)
next
  case (FI16 i)
  with text_read_payload [OF a, of 31] show_sint(7) [of i] show ?thesis
    by (auto simp: TextReadStream_Read_i16_def TextReadStream_Read_i32_def atoi_def
        ucast_scast_16)
next
  case (FChr c)
  with text_read_payload [OF a, of 1] show ?thesis
    by (auto simp: TextReadStream_Read_char_def)
qed

lemma text_codec:
  assumes "0 < lfl" and "unat lfl \<le> 15"
  shows "field_codec TextWriteStream_wr TextReadStream_rd (text_enc (unat lfl))
    (text_fits (unat lfl)) ws_written ws_room rs_rest (text_wok lfl) (text_rok lfl)
    ws_fixed rs_fixed"
  by unfold_locales (use assms text_wr_ok text_rd_ok in blast)+

interpretation text4: field_codec TextWriteStream_wr TextReadStream_rd "text_enc 4" "text_fits 4"
    ws_written ws_room rs_rest "text_wok TEXT_PACKLEN_LEN" "text_rok TEXT_PACKLEN_LEN" ws_fixed rs_fixed
  using text_codec [of TEXT_PACKLEN_LEN] by (simp add: TEXT_PACKLEN_LEN_def)

interpretation text6: field_codec TextWriteStream_wr TextReadStream_rd "text_enc 6" "text_fits 6"
    ws_written ws_room rs_rest "text_wok TEXT_PACKLEN_LEN_2" "text_rok TEXT_PACKLEN_LEN_2" ws_fixed rs_fixed
  using text_codec [of TEXT_PACKLEN_LEN_2] by (simp add: TEXT_PACKLEN_LEN_2_def)

section \<open>A whole packet\<close>

lemma TextWrite_new:
  assumes "unat p + length obj < 2 ^ 63" and "unat n \<le> length obj" and "unat lfl \<le> unat n"
  shows "text_wok lfl (TextWriteStream_new obj p n lfl)"
    and "ws_pos (TextWriteStream_new obj p n lfl) = unat lfl"
    and "ws_room (TextWriteStream_new obj p n lfl) = unat n - unat lfl"
proof -
  have pl: "unat (p + lfl) = unat p + unat lfl" by (rule unat_add_nowrap) (use assms in simp)
  then have "p \<le> p + lfl" by (simp add: word_le_nat_alt)
  then show "text_wok lfl (TextWriteStream_new obj p n lfl)"
    using assms pl by (simp add: text_wok_def ws_wf_def TextWriteStream_new_def ws_pos_def)
  show pos: "ws_pos (TextWriteStream_new obj p n lfl) = unat lfl"
    by (simp add: ws_pos_def TextWriteStream_new_def)
  show "ws_room (TextWriteStream_new obj p n lfl) = unat n - unat lfl"
    using pos by (simp add: ws_room_def) (simp add: TextWriteStream_new_def)
qed

lemma TextRead_new:
  assumes "unat p + length obj < 2 ^ 63" and "unat n \<le> length obj" and "unat lfl \<le> 15"
  shows "rs_wf (TextReadStream_new obj p n lfl) \<or> unat n < unat lfl"
    and "rs_pos (TextReadStream_new obj p n lfl) = unat lfl"
    and "rs_rest (TextReadStream_new obj p n lfl) = drop (unat lfl) (take (unat n) obj)"
proof -
  have pl: "unat (p + lfl) = unat p + unat lfl" by (rule unat_add_nowrap) (use assms in simp)
  then have "p \<le> p + lfl" by (simp add: word_le_nat_alt)
  then show "rs_wf (TextReadStream_new obj p n lfl) \<or> unat n < unat lfl"
    using assms pl by (auto simp: rs_wf_def TextReadStream_new_def)
  show pos: "rs_pos (TextReadStream_new obj p n lfl) = unat lfl"
    by (simp add: rs_pos_def TextReadStream_new_def)
  show "rs_rest (TextReadStream_new obj p n lfl) = drop (unat lfl) (take (unat n) obj)"
    using pos by (simp add: rs_rest_def) (simp add: TextReadStream_new_def)
qed

lemma TextWrite_size:
  "ws_wf s \<Longrightarrow> unat (TextWriteStream_GetSize s) = ws_pos s"
  by (simp add: TextWriteStream_GetSize_def ws_pos_def)

lemma TextFlush:
  assumes wf: "ws_wf s" and lfl: "0 < tw_lfl s" "unat (tw_lfl s) \<le> 15"
    and pos: "unat (tw_lfl s) \<le> ws_pos s" "ws_pos s \<le> unat (ws_len s)"
    and fits: "ws_pos s - unat (tw_lfl s) < 16 ^ unat (tw_lfl s)"
  shows "TextWriteStream_Flush s = Inr (s\<lparr>ws_obj :=
     text_len (unat (tw_lfl s)) (ws_pos s - unat (tw_lfl s)) @ drop (unat (tw_lfl s)) (ws_obj s)\<rparr>)"
proof -
  define k where "k = unat (tw_lfl s)"
  define d where "d = ws_pos s - k"
  define h where "h = show_nat 16 d"
  have k0: "0 < k" using lfl(1) by (simp add: k_def word_less_nat_alt)
  have le: "tw_lfl s \<le> TextWriteStream_GetSize s"
    using pos TextWrite_size [OF wf] by (simp add: word_le_nat_alt)
  have d: "unat (TextWriteStream_GetSize s - tw_lfl s) = d"
    using unat_sub_le [OF le] TextWrite_size [OF wf] by (simp add: d_def k_def)
  have "d < 2 ^ 64" using d unat_u64 by metis
  then have h: "snprintf 32 (show_nat 16 d) = h" "length h \<le> k"
    using snprintf_hex length_show_nat_le [of 16 k d] fits k0 by (simp_all add: h_def d_def k_def)
  have kl: "k \<le> length (ws_obj s)" using wf pos by (simp add: ws_wf_def k_def)
  have hl: "of_nat (length h) \<le> tw_lfl s" "unat (of_nat (length h) :: u64) = length h"
    using h(2) lfl(2) by (simp_all add: word_le_nat_alt k_def unat_of_nat_small)
  have off: "unat (ws_ptr s + tw_lfl s - of_nat (length h) - ws_ptr s) = k - length h"
    using unat_sub_le [OF hl(1)] hl(2) by (simp add: k_def algebra_simps)
  have ov: "overwrite (overwrite (ws_obj s) 0 (replicate k 48)) (k - length h) h
      = text_len k d @ drop k (ws_obj s)"
    using h(2) kl by (simp add: overwrite_def text_len_def h_def [symmetric])
  have st1: "ws_store s (ws_ptr s) (replicate k 48)
      = Inr (s\<lparr>ws_obj := overwrite (ws_obj s) 0 (replicate k 48)\<rparr>)"
    using kl by (simp add: ws_store_def Let_def)
  let ?s1 = "s\<lparr>ws_obj := overwrite (ws_obj s) 0 (replicate k 48)\<rparr>"
  have len1: "length (ws_obj ?s1) = length (ws_obj s)" using kl by simp
  have st2: "ws_store ?s1 (ws_ptr s + tw_lfl s - of_nat (length h)) h
      = Inr (s\<lparr>ws_obj := text_len k d @ drop k (ws_obj s)\<rparr>)"
    using off h(2) kl ov len1 by (simp add: ws_store_def Let_def)
  show ?thesis using st1 st2 h d
    by (simp add: TextWriteStream_Flush_def Let_def k_def [symmetric] d_def [symmetric])
qed

lemma TextRead_packlen:
  assumes "0 < lfl" and "unat lfl \<le> 15" and "take (unat lfl) obj = text_len (unat lfl) d"
    and "d < 16 ^ unat lfl"
  shows "TextReadStream_packlen obj lfl = Inr (of_nat (d + unat lfl))"
proof -
  have k0: "0 < unat lfl" using assms(1) by (simp add: word_less_nat_alt)
  have "length (take (unat lfl) obj) = unat lfl" using assms(3,4) k0 by simp
  then have "unat lfl \<le> length obj" by simp
  with assms show ?thesis by (simp add: TextReadStream_packlen_def strtol_text_len)
qed

lemma TextRead_IsValid:
  assumes "0 < lfl" and "unat lfl \<le> 15" and "unat n = unat lfl + length bs"
    and "length bs < 16 ^ unat lfl"
  shows "TextReadStream_IsValid (TextReadStream_new (text_frame (unat lfl) bs @ ys) p n lfl) = Inr True"
proof -
  have k0: "0 < unat lfl" using assms(1) by (simp add: word_less_nat_alt)
  have hdr: "take (unat lfl) (text_frame (unat lfl) bs @ ys) = text_len (unat lfl) (length bs)"
    using k0 assms(4) by (simp add: text_frame_def)
  have "of_nat (length bs + unat lfl) = (of_nat (unat n) :: u64)"
    by (simp only: assms(3) add.commute)
  then have n: "of_nat (length bs + unat lfl) = n" by simp
  show ?thesis using TextRead_packlen [OF assms(1,2) hdr assms(4)] n assms(3)
    by (auto simp: TextReadStream_IsValid_def TextReadStream_new_def word_less_nat_alt)
qed

lemma text_packet:
  assumes codec: "field_codec TextWriteStream_wr TextReadStream_rd (text_enc (unat lfl))
      (text_fits (unat lfl)) ws_written ws_room rs_rest (text_wok lfl) (text_rok lfl) ws_fixed rs_fixed"
    and lfl: "0 < lfl" "unat lfl \<le> 15"
    and obj: "unat p + length obj < 2 ^ 63" "unat n \<le> length obj"
    and fits: "list_all (text_fits (unat lfl)) fs"
  defines "es \<equiv> concat (map (text_enc (unat lfl)) fs)"
  assumes room: "unat lfl + length es \<le> unat n" and total: "length es < 16 ^ unat lfl"
  shows "\<exists>w w' ys. write_all TextWriteStream_wr (TextWriteStream_new obj p n lfl) fs = Inr (True, w)
    \<and> TextWriteStream_Flush w = Inr w' \<and> ws_obj w' = text_frame (unat lfl) es @ ys
    \<and> length (ws_obj w') = length obj
    \<and> unat (TextWriteStream_GetSize w') = unat lfl + length es"
proof -
  define k where "k = unat lfl"
  have k0: "0 < k" using lfl(1) by (simp add: k_def word_less_nat_alt)
  have kn: "k \<le> unat n" using room by (simp add: k_def)
  note new = TextWrite_new [OF obj kn [unfolded k_def]]
  have "length es \<le> ws_room (TextWriteStream_new obj p n lfl)" using new(3) room by simp
  from field_codec.write_all_ok [OF codec new(1) fits this [unfolded es_def]]
  obtain w where w: "write_all TextWriteStream_wr (TextWriteStream_new obj p n lfl) fs = Inr (True, w)"
    "text_wok lfl w" "ws_written w = ws_written (TextWriteStream_new obj p n lfl) @ es"
    "ws_fixed w = ws_fixed (TextWriteStream_new obj p n lfl)"
    by (auto simp: es_def)
  have fx: "ws_ptr w = p" "ws_len w = n" "length (ws_obj w) = length obj"
    using w(4) by (simp_all add: ws_fixed_def TextWriteStream_new_def)
  have wr0: "ws_written (TextWriteStream_new obj p n lfl) = take k obj"
    using new(2) by (simp add: ws_written_def k_def) (simp add: TextWriteStream_new_def)
  have wok: "ws_wf w" "tw_lfl w = lfl" "ws_pos w \<le> unat n"
    using w(2) fx by (simp_all add: text_wok_def)
  have wr: "take (ws_pos w) (ws_obj w) = take k obj @ es" using w(3) wr0 by (simp add: ws_written_def)
  from arg_cong [OF this, of length] have pos: "ws_pos w = k + length es"
    using fx wok obj kn by simp
  have es: "take (length es) (drop k (ws_obj w)) = es"
    using arg_cong [OF wr, of "drop k"] kn obj by (simp add: pos drop_take)
  define w' where "w' = w\<lparr>ws_obj := text_len k (length es) @ drop k (ws_obj w)\<rparr>"
  have fl: "TextWriteStream_Flush w = Inr w'"
    using TextFlush [of w] wok lfl pos total fx by (simp add: w'_def k_def)
  have obj': "ws_obj w' = text_frame k es @ drop (length es) (drop k (ws_obj w))"
    using es by (metis w'_def text_frame_def append.assoc append_take_drop_id
        WriteStream.select_convs(1) WriteStream.update_convs(1) TextWriteStream.surjective)
  have "TextWriteStream_GetSize w' = TextWriteStream_GetSize w"
    by (simp add: w'_def TextWriteStream_GetSize_def)
  then have sz: "unat (TextWriteStream_GetSize w') = k + length es"
    using TextWrite_size [OF wok(1)] pos by simp
  have "length (ws_obj w') = length obj"
    using fx kn obj total k0 by (simp add: w'_def k_def)
  with w(1) fl obj' sz show ?thesis by (auto simp: k_def)
qed

lemma text_reread:
  assumes codec: "field_codec TextWriteStream_wr TextReadStream_rd (text_enc (unat lfl))
      (text_fits (unat lfl)) ws_written ws_room rs_rest (text_wok lfl) (text_rok lfl) ws_fixed rs_fixed"
    and lfl: "0 < lfl" "unat lfl \<le> 15" and fits: "list_all (text_fits (unat lfl)) fs"
  defines "es \<equiv> concat (map (text_enc (unat lfl)) fs)"
  assumes obj: "obj = text_frame (unat lfl) es @ ys" "unat p + length obj < 2 ^ 63"
    and n: "unat n = unat lfl + length es" and total: "length es < 16 ^ unat lfl"
  shows "\<exists>r. read_all TextReadStream_rd (TextReadStream_new obj p n lfl) fs = Inr (Some fs, r)
    \<and> TextReadStream_IsEnd r = Inr True"
proof -
  let ?r = "TextReadStream_new obj p n lfl"
  have k0: "0 < unat lfl" using lfl(1) by (simp add: word_less_nat_alt)
  have nl: "unat n \<le> length obj" using obj(1) n total k0 by simp
  note new = TextRead_new [OF obj(2) nl lfl(2)]
  have rok: "text_rok lfl ?r"
    using new(1,2) n by (auto simp: text_rok_def) (simp_all add: TextReadStream_new_def)
  have rest: "rs_rest ?r = concat (map (text_enc (unat lfl)) fs) @ []"
    using new(3) obj(1) n total k0 by (simp add: text_frame_def es_def)
  from field_codec.read_all_ok [OF codec rok fits rest] obtain r where
    r: "read_all TextReadStream_rd ?r fs = Inr (Some fs, r)" "text_rok lfl r" "rs_rest r = []"
    "rs_fixed r = rs_fixed ?r" by auto
  have "rs_pos r = unat (rs_len r)"
    using r(2,3) length_rs_rest [of r] by (simp add: text_rok_def)
  then have "TextReadStream_IsEnd r = Inr True" by (simp add: TextReadStream_IsEnd_def rs_at_end)
  with r(1) show ?thesis by blast
qed

end
