(* ===== verification/TextProps.thy ===== *)
theory TextProps
  imports TextCodec
begin

text \<open>
  The properties of the text streams: round trip of a packet, safety of reading from
  arbitrary bytes, extraction of a packet from a receive buffer, and two inputs on which the
  code does not keep its own contract.
\<close>

text \<open>C4. For both text formats of the code (length fields of 4 and of 6 hexadecimal digits): when
  a sequence of fields of any kind fits into the buffer and into the length field, \<open>Write\<close>
  succeeds on every field, \<open>Flush\<close> succeeds, the packet passes \<open>IsValid\<close>, and a
  \<open>TextReadStream\<close> on it returns the same fields in the same order and is then at its
  end.\<close>

theorem text_stream_roundtrip:
  assumes "lfl \<in> {TEXT_PACKLEN_LEN, TEXT_PACKLEN_LEN_2}"
    and "unat p + length obj < 2 ^ 63" and "unat n \<le> length obj"
    and "list_all (text_fits (unat lfl)) fs"
    and "unat lfl + length (concat (map (text_enc (unat lfl)) fs)) \<le> unat n"
    and "length (concat (map (text_enc (unat lfl)) fs)) < 16 ^ unat lfl"
  shows "\<exists>w w' r. write_all TextWriteStream_wr (TextWriteStream_new obj p n lfl) fs = Inr (True, w)
    \<and> TextWriteStream_Flush w = Inr w'
    \<and> TextReadStream_IsValid (TextReadStream_new (ws_obj w') p (TextWriteStream_GetSize w') lfl) = Inr True
    \<and> read_all TextReadStream_rd
        (TextReadStream_new (ws_obj w') p (TextWriteStream_GetSize w') lfl) fs = Inr (Some fs, r)
    \<and> TextReadStream_IsEnd r = Inr True"
proof -
  have lfl: "0 < lfl" "unat lfl \<le> 15"
    using assms(1) by (auto simp: TEXT_PACKLEN_LEN_def TEXT_PACKLEN_LEN_2_def)
  have codec: "field_codec TextWriteStream_wr TextReadStream_rd (text_enc (unat lfl))
      (text_fits (unat lfl)) ws_written ws_room rs_rest (text_wok lfl) (text_rok lfl) ws_fixed rs_fixed"
    using assms(1) text4.field_codec_axioms text6.field_codec_axioms
    by (auto simp: TEXT_PACKLEN_LEN_def TEXT_PACKLEN_LEN_2_def)
  from text_packet [OF codec lfl assms(2-6)] obtain w w' ys where
    w: "write_all TextWriteStream_wr (TextWriteStream_new obj p n lfl) fs = Inr (True, w)"
      "TextWriteStream_Flush w = Inr w'"
      "ws_obj w' = text_frame (unat lfl) (concat (map (text_enc (unat lfl)) fs)) @ ys"
      "length (ws_obj w') = length obj"
      "unat (TextWriteStream_GetSize w') = unat lfl + length (concat (map (text_enc (unat lfl)) fs))"
    by blast
  have p: "unat p + length (ws_obj w') < 2 ^ 63" using assms(2) w(4) by simp
  from text_reread [OF codec lfl assms(4) w(3) p w(5) assms(6)] w(1,2)
    TextRead_IsValid [OF lfl w(5) assms(6), of ys p] w(3)
  show ?thesis by auto
qed

theorem text_stream_roundtrip_witness:
  "\<exists>w w' r. write_all TextWriteStream_wr
      (TextWriteStream_new (replicate 64 0) 4096 64 TEXT_PACKLEN_LEN) [FStr [65, 66], FI32 (- 5), FChr 7] = Inr (True, w)
    \<and> TextWriteStream_Flush w = Inr w'
    \<and> TextReadStream_IsValid (TextReadStream_new (ws_obj w') 4096 (TextWriteStream_GetSize w') TEXT_PACKLEN_LEN) = Inr True
    \<and> read_all TextReadStream_rd
        (TextReadStream_new (ws_obj w') 4096 (TextWriteStream_GetSize w') TEXT_PACKLEN_LEN)
        [FStr [65, 66], FI32 (- 5), FChr 7] = Inr (Some [FStr [65, 66], FI32 (- 5), FChr 7], r)
    \<and> TextReadStream_IsEnd r = Inr True"
  by (rule text_stream_roundtrip)
    (simp_all add: TEXT_PACKLEN_LEN_def text_fits_def text_enc_def text_frame_def text_len_def
      show_int_def show_nat_def nat_digits_small)

text \<open>C18. Reading is memory safe on input from the network: whatever bytes the object holds, a
  sequence of reads of any kinds never accesses memory outside the object, ends in a
  well-formed stream and never moves the cursor past the end of the packet.\<close>

theorem text_read_safe:
  assumes "rs_wf s" and "unat (tr_lfl s) \<le> 15" and "rs_pos s \<le> unat (rs_len s)"
    and "list_all (\<lambda>f. case f of FStr bs \<Rightarrow> length bs < 2 ^ 62 | _ \<Rightarrow> True) fs"
  shows "\<exists>v s'. read_all TextReadStream_rd s fs = Inr (v, s') \<and> rs_wf s'
    \<and> rs_pos s \<le> rs_pos s' \<and> rs_pos s' \<le> unat (rs_len s') \<and> rs_fixed s' = rs_fixed s"
  using assms
proof (induction fs arbitrary: s)
  case Nil
  then show ?case by simp
next
  case (Cons f fs)
  obtain g s1 where s1: "TextReadStream_rd s f = Inr (g, s1)" "rs_wf s1" "tr_lfl s1 = tr_lfl s"
    "rs_fixed s1 = rs_fixed s" "rs_pos s \<le> rs_pos s1" "rs_pos s1 \<le> unat (rs_len s1)"
    using TextRead_rd_safe [OF Cons.prems(1-3), of f] Cons.prems(4) by auto
  then obtain v s2 where "read_all TextReadStream_rd s1 fs = Inr (v, s2)" "rs_wf s2"
    "rs_pos s1 \<le> rs_pos s2" "rs_pos s2 \<le> unat (rs_len s2)" "rs_fixed s2 = rs_fixed s1"
    using Cons.IH [of s1] Cons.prems by auto
  with s1 show ?case by (cases g) auto
qed

theorem text_read_safe_witness:
  "\<exists>v s'. read_all TextReadStream_rd (TextReadStream_new [48, 48, 48, 50, 45, 48, 48, 49] 4096 8 4)
        [FI32 0, FStr [1]] = Inr (v, s') \<and> rs_wf s'
    \<and> 4 \<le> rs_pos s' \<and> rs_pos s' \<le> unat (rs_len s')
    \<and> rs_fixed s' = ([48, 48, 48, 50, 45, 48, 48, 49], 4096, 8)"
  using text_read_safe [of "TextReadStream_new [48, 48, 48, 50, 45, 48, 48, 49] 4096 8 4" "[FI32 0, FStr [1]]"]
  by (simp add: TextReadStream_new_def rs_wf_def rs_pos_def rs_fixed_def show_int_def show_nat_def
      nat_digits_small)

text \<open>\<open>ExtractStream\<close> on a receive buffer that starts with a packet: while fewer bytes than
  the packet have arrived it gives an empty stream, and from then on a stream of exactly the
  packet, whatever follows it in the buffer.\<close>

lemma text_extract_packet:
  assumes "0 < lfl" and "unat lfl \<le> 15" and "length bs < 16 ^ unat lfl"
    and "unat l \<ge> unat lfl" and "obj = text_frame (unat lfl) bs @ ys"
  shows "TextReadStream_ExtractStream obj p l lfl =
    Inr (TextReadStream_new obj p
          (if unat l < unat lfl + length bs then 0 else of_nat (unat lfl + length bs)) lfl)"
proof -
  have k0: "0 < unat lfl" using assms(1) by (simp add: word_less_nat_alt)
  have hdr: "take (unat lfl) obj = text_len (unat lfl) (length bs)"
    using assms(3,5) k0 by (simp add: text_frame_def)
  have "length bs + unat lfl < 2 ^ 64" using pow16_15 [OF assms(2,3)] assms(2) by simp
  then have un: "unat (of_nat (length bs + unat lfl) :: u64) = length bs + unat lfl"
    by (simp add: unat_of_nat_small del: of_nat_add)
  have "\<not> l < lfl" using assms(4) by (simp add: word_less_nat_alt)
  moreover have "l < of_nat (length bs + unat lfl) \<longleftrightarrow> unat l < unat lfl + length bs"
    using un by (simp add: word_less_nat_alt add.commute del: of_nat_add)
  ultimately show ?thesis using TextRead_packlen [OF assms(1,2) hdr assms(3)]
    by (simp add: TextReadStream_ExtractStream_def add.commute)
qed

lemma text_extract_packet_witness:
  "TextReadStream_ExtractStream (text_frame 4 [1, 2, 3] @ [9, 9]) 4096 9 4 =
     Inr (TextReadStream_new (text_frame 4 [1, 2, 3] @ [9, 9]) 4096 7 4)"
  using text_extract_packet [of 4 "[1, 2, 3]" 9 "text_frame 4 [1, 2, 3] @ [9, 9]" "[9, 9]" 4096]
  by simp

text \<open>\<open>ReadNoCopy\<close> does not reject a negative length field: on the four characters
  \<open>-001\<close> it returns \<open>true\<close> with the length \<open>- 1\<close>, which is \<open>2 ^ 64 - 1\<close> as a \<open>size_t\<close>, for a string of which at
  most the rest of the packet exists, and leaves the cursor in the middle of the length field.
  \<open>Read\<close> into a buffer rejects the same input.\<close>

lemma text_read_nocopy_negative:
  assumes "rs_wf s" and "tr_lfl s = TEXT_PACKLEN_LEN" and "rs_rest s = [45, 48, 48, 49] @ ys"
    and "unat n < 2 ^ 62"
  shows "TextReadStream_ReadNoCopy s =
      Inr (Some (rs_cur s + 4, - 1), s\<lparr>rs_cur := rs_cur s + 3\<rparr>)
    \<and> TextReadStream_Read s n = Inr (None, s)"
proof -
  have lfl: "unat (tr_lfl s) = 4" using assms(2) by (simp add: TEXT_PACKLEN_LEN_def)
  have v: "strtol 16 (take 4 (rs_rest s)) = - 1"
    by (simp add: assms(3) strtol_def is_space_def digit_val_def LONG_MAX_def)
  have room: "rs_pos s + 4 \<le> unat (rs_len s)"
    using length_rs_rest [OF assms(1)] assms(3) by simp
  then have chk: "\<not> rs_cur s + 3 > rs_ptr s + rs_len s"
    using rs_check [OF assms(1), of 3] by simp
  have len: "TextReadStream_ReadLengthWithoutOffset s = Inr (Some (- 1))"
    using TextRead_length [OF assms(1)] lfl v room by simp
  have "TextReadStream_ReadNoCopy s =
      Inr (Some (rs_cur s + 4, - 1), s\<lparr>rs_cur := rs_cur s + 3\<rparr>)"
    using len chk assms(2)
    by (simp add: TextReadStream_ReadNoCopy_def TEXT_PACKLEN_LEN_def add.commute)
  moreover have "unat (- 1 :: u64) = 2 ^ 64 - 1" by (rule unat_minus_1)
  then have "n < - 1" using assms(4) by (simp add: word_less_nat_alt)
  then have "TextReadStream_Read s n = Inr (None, s)"
    using len by (simp add: TextReadStream_Read_def Let_def)
  ultimately show ?thesis by simp
qed

lemma text_read_nocopy_negative_witness:
  "TextReadStream_ReadNoCopy (TextReadStream_new [48, 48, 48, 52, 45, 48, 48, 49] 4096 8 4) =
     Inr (Some (4104, - 1),
          (TextReadStream_new [48, 48, 48, 52, 45, 48, 48, 49] 4096 8 4)\<lparr>rs_cur := 4103\<rparr>)
   \<and> TextReadStream_Read (TextReadStream_new [48, 48, 48, 52, 45, 48, 48, 49] 4096 8 4) 100
       = Inr (None, TextReadStream_new [48, 48, 48, 52, 45, 48, 48, 49] 4096 8 4)"
  using text_read_nocopy_negative
    [of "TextReadStream_new [48, 48, 48, 52, 45, 48, 48, 49] 4096 8 4" "[]" 100]
  by (simp add: TextReadStream_new_def rs_wf_def rs_pos_def rs_rest_def TEXT_PACKLEN_LEN_def)

text \<open>\<open>IsValid\<close> of a writer admits one byte too many: a packet of \<open>16 ^ k\<close> bytes
  behind a length field of \<open>k\<close> digits passes it, and \<open>Flush\<close> then fails its
  assertion.\<close>

lemma text_isvalid_off_by_one:
  assumes "ws_wf s" and "tw_lfl s \<in> {TEXT_PACKLEN_LEN, TEXT_PACKLEN_LEN_2}"
    and "ws_pos s = unat (tw_lfl s) + 16 ^ unat (tw_lfl s)" and "ws_pos s \<le> unat (ws_len s)"
  shows "TextWriteStream_IsValid s = Inr True \<and> TextWriteStream_Flush s = Inl AssertFail"
proof -
  define k where "k = unat (tw_lfl s)"
  have k: "k = 4 \<and> tw_lfl s = 4 \<or> k = 6 \<and> tw_lfl s = 6"
    using assms(2) by (auto simp: k_def TEXT_PACKLEN_LEN_def TEXT_PACKLEN_LEN_2_def)
  have le: "tw_lfl s \<le> TextWriteStream_GetSize s"
    using assms(3) TextWrite_size [OF assms(1)] by (simp add: word_le_nat_alt)
  have d: "unat (TextWriteStream_GetSize s - tw_lfl s) = 16 ^ k"
    using unat_sub_le [OF le] TextWrite_size [OF assms(1)] assms(3) by (simp add: k_def)
  have big: "\<not> length (show_nat 16 (16 ^ k)) \<le> k"
    using length_show_nat_le [of 16 k "16 ^ k"] k by auto
  have "length (snprintf 32 (show_nat 16 (16 ^ k))) > k"
    using snprintf_hex [of "16 ^ k"] big k by auto
  moreover have "k \<le> length (ws_obj s)" using assms(1,3,4) by (simp add: ws_wf_def k_def)
  ultimately have "TextWriteStream_Flush s = Inl AssertFail"
    using d by (simp add: TextWriteStream_Flush_def Let_def k_def ws_store_def)
  moreover have "TextWriteStream_IsValid s = Inr True"
    using d k by (auto simp: TextWriteStream_IsValid_def Let_def word_le_nat_alt)
  ultimately show ?thesis by simp
qed

lemma text_isvalid_off_by_one_witness:
  "TextWriteStream_IsValid ((TextWriteStream_new (replicate 70000 0) 4096 70000 4)\<lparr>ws_cur := 69636\<rparr>) = Inr True
   \<and> TextWriteStream_Flush ((TextWriteStream_new (replicate 70000 0) 4096 70000 4)\<lparr>ws_cur := 69636\<rparr>) = Inl AssertFail"
  by (rule text_isvalid_off_by_one)
    (simp_all add: TextWriteStream_new_def ws_wf_def ws_pos_def TEXT_PACKLEN_LEN_def)

end
