(* ===== verification/BinaryStream.thy ===== *)
theory BinaryStream
  imports StreamBase
begin

text \<open>
  \<open>BinaryReadStream\<close> and \<open>BinaryWriteStream\<close> of \<open>pros/protocolstream.cpp\<close>:
  integers in network byte order at their width, strings with a length of 2 or 4 bytes in
  front, and a packet length at the start that counts itself or not (\<open>HEADER_FLAG\<close>). The
  host is little-endian, so \<open>ntohs\<close>, \<open>ntohl\<close> and \<open>bswap_64\<close> are the byte
  swap of the width. Results are as in the theory of the text streams.
\<close>

definition BINARY_PACKLEN_LEN :: u64 where "BINARY_PACKLEN_LEN = 2"
definition BINARY_PACKAGE_MAXLEN :: u64 where "BINARY_PACKAGE_MAXLEN = 0xffff"
definition BINARY_PACKLEN_LEN_2 :: u64 where "BINARY_PACKLEN_LEN_2 = 4"
definition BINARY_PACKAGE_MAXLEN_2 :: u64 where "BINARY_PACKAGE_MAXLEN_2 = 0xffffff"

datatype HEADER_FLAG = LENGTH_INCLUDE_SELF | LENGTH_EXCLUDE_SELF

section \<open>BinaryReadStream\<close>

record BinaryReadStream = ReadStream +
  br_lfl :: u64
  br_flag :: HEADER_FLAG

definition BinaryReadStream_new :: "byte list \<Rightarrow> u64 \<Rightarrow> u64 \<Rightarrow> u64 \<Rightarrow> HEADER_FLAG \<Rightarrow> BinaryReadStream" where
  "BinaryReadStream_new obj p l lfl flag =
     \<lparr>rs_obj = obj, rs_ptr = p, rs_cur = p + lfl, rs_len = l, br_lfl = lfl, br_flag = flag\<rparr>"

definition BinaryReadStream_IsEmpty :: "BinaryReadStream \<Rightarrow> bool" where
  "BinaryReadStream_IsEmpty s \<longleftrightarrow> rs_len s \<le> br_lfl s"

definition BinaryReadStream_GetSize :: "BinaryReadStream \<Rightarrow> u64" where
  "BinaryReadStream_GetSize s = rs_len s"

definition BinaryReadStream_ReadLengthWithoutOffset :: "BinaryReadStream \<Rightarrow> u64 option result" where
  "BinaryReadStream_ReadLengthWithoutOffset s =
     (if rs_cur s + br_lfl s > rs_ptr s + rs_len s then Inr None
      else if br_lfl s = 2
      then bindR (rs_load s (rs_cur s) 2) (\<lambda>tmp. Inr (Some (ucast (bswap (le_word tmp :: u16)))))
      else bindR (rs_load s (rs_cur s) 4) (\<lambda>tmp. Inr (Some (ucast (bswap (le_word tmp :: u32))))))"

definition BinaryReadStream_ReadLength :: "BinaryReadStream \<Rightarrow> (u64 option \<times> BinaryReadStream) result" where
  "BinaryReadStream_ReadLength s =
     bindR (BinaryReadStream_ReadLengthWithoutOffset s) (\<lambda>r. case r of
         None \<Rightarrow> Inr (None, s)
       | Some outlen \<Rightarrow> Inr (Some outlen, s\<lparr>rs_cur := rs_cur s + br_lfl s\<rparr>))"

definition BinaryReadStream_ReadNoCopy :: "BinaryReadStream \<Rightarrow> ((u64 \<times> u64) option \<times> BinaryReadStream) result" where
  "BinaryReadStream_ReadNoCopy s =
     bindR (BinaryReadStream_ReadLength s) (\<lambda>(r, s'). case r of
         None \<Rightarrow> Inr (None, s')
       | Some len \<Rightarrow> Inr (Some (rs_cur s', len), s'\<lparr>rs_cur := rs_cur s' + len\<rparr>))"

definition BinaryReadStream_ReadContent :: "BinaryReadStream \<Rightarrow> u64 \<Rightarrow> (byte list option \<times> BinaryReadStream) result" where
  "BinaryReadStream_ReadContent s maxlen =
     (if rs_cur s + maxlen > rs_ptr s + rs_len s then Inr (None, s)
      else bindR (rs_load s (rs_cur s) (unat maxlen))
             (\<lambda>bs. Inr (Some bs, s\<lparr>rs_cur := rs_cur s + maxlen\<rparr>)))"

definition BinaryReadStream_ReadContentNoCopy :: "BinaryReadStream \<Rightarrow> u64 \<Rightarrow> u64 option \<times> BinaryReadStream" where
  "BinaryReadStream_ReadContentNoCopy s maxlen =
     (if rs_cur s + maxlen > rs_ptr s + rs_len s then (None, s)
      else (Some (rs_cur s), s\<lparr>rs_cur := rs_cur s + maxlen\<rparr>))"

definition BinaryReadStream_Read :: "BinaryReadStream \<Rightarrow> u64 \<Rightarrow> (byte list option \<times> BinaryReadStream) result" where
  "BinaryReadStream_Read s strlen =
     bindR (BinaryReadStream_ReadLengthWithoutOffset s) (\<lambda>r. case r of
         None \<Rightarrow> Inr (None, s)
       | Some fieldlen \<Rightarrow>
           if strlen < fieldlen then Inr (None, s)
           else bindR (BinaryReadStream_ReadContent (s\<lparr>rs_cur := rs_cur s + br_lfl s\<rparr>) fieldlen)
                  (\<lambda>(c, s'). case c of
                       None \<Rightarrow> Inr (None, s'\<lparr>rs_cur := rs_cur s' - br_lfl s'\<rparr>)
                     | Some bs \<Rightarrow> Inr (Some bs, s')))"

definition BinaryReadStream_Read_i64 :: "BinaryReadStream \<Rightarrow> (u64 option \<times> BinaryReadStream) result" where
  "BinaryReadStream_Read_i64 s =
     (if rs_cur s + 8 > rs_ptr s + rs_len s then Inr (None, s)
      else bindR (rs_load s (rs_cur s) 8)
        (\<lambda>i. Inr (Some (bswap (le_word i)), s\<lparr>rs_cur := rs_cur s + 8\<rparr>)))"

definition BinaryReadStream_Read_i32 :: "BinaryReadStream \<Rightarrow> (u32 option \<times> BinaryReadStream) result" where
  "BinaryReadStream_Read_i32 s =
     (if rs_cur s + 4 > rs_ptr s + rs_len s then Inr (None, s)
      else bindR (rs_load s (rs_cur s) 4)
        (\<lambda>i. Inr (Some (bswap (le_word i)), s\<lparr>rs_cur := rs_cur s + 4\<rparr>)))"

definition BinaryReadStream_Read_i16 :: "BinaryReadStream \<Rightarrow> (u16 option \<times> BinaryReadStream) result" where
  "BinaryReadStream_Read_i16 s =
     (if rs_cur s + 2 > rs_ptr s + rs_len s then Inr (None, s)
      else bindR (rs_load s (rs_cur s) 2)
        (\<lambda>i. Inr (Some (bswap (le_word i)), s\<lparr>rs_cur := rs_cur s + 2\<rparr>)))"

definition BinaryReadStream_Read_char :: "BinaryReadStream \<Rightarrow> (byte option \<times> BinaryReadStream) result" where
  "BinaryReadStream_Read_char s =
     (if rs_cur s + 1 > rs_ptr s + rs_len s then Inr (None, s)
      else bindR (rs_load s (rs_cur s) 1)
        (\<lambda>c. Inr (Some (le_word c), s\<lparr>rs_cur := rs_cur s + 1\<rparr>)))"

definition BinaryReadStream_IsEnd :: "BinaryReadStream \<Rightarrow> bool result" where
  "BinaryReadStream_IsEnd s =
     bindR (guardR AssertFail (rs_cur s \<le> rs_ptr s + rs_len s))
       (\<lambda>_. Inr (rs_cur s = rs_ptr s + rs_len s))"

definition BinaryReadStream_ReadAll :: "BinaryReadStream \<Rightarrow> u64 \<Rightarrow> byte list result" where
  "BinaryReadStream_ReadAll s iLen = rs_load s (rs_ptr s) (unat (min iLen (rs_len s)))"

text \<open>The length of the packet that the header at the start of an object announces.\<close>

definition BinaryReadStream_packlen :: "byte list \<Rightarrow> u64 \<Rightarrow> HEADER_FLAG \<Rightarrow> u64 result" where
  "BinaryReadStream_packlen obj lfl flag =
     (let n = (if lfl = 2 then 2 else 4);
          packlen = (if lfl = 2 then ucast (bswap (le_word (take 2 obj) :: u16))
                     else ucast (bswap (le_word (take 4 obj) :: u32)))
      in if n > length obj then Inl OutOfBounds
         else Inr (if flag = LENGTH_EXCLUDE_SELF then packlen + lfl else packlen))"

definition BinaryReadStream_ExtractStream ::
    "byte list \<Rightarrow> u64 \<Rightarrow> u64 \<Rightarrow> u64 \<Rightarrow> HEADER_FLAG \<Rightarrow> BinaryReadStream result" where
  "BinaryReadStream_ExtractStream obj p l lfl flag =
     (if l < lfl then Inr (BinaryReadStream_new obj p 0 lfl flag)
      else bindR (BinaryReadStream_packlen obj lfl flag) (\<lambda>packlen.
        if packlen \<le> lfl then Inr (BinaryReadStream_new obj p 0 lfl flag)
        else if l < packlen then Inr (BinaryReadStream_new obj p 0 lfl flag)
        else Inr (BinaryReadStream_new obj p packlen lfl flag)))"

definition BinaryReadStream_IsValid :: "BinaryReadStream \<Rightarrow> bool result" where
  "BinaryReadStream_IsValid s =
     (if rs_len s < br_lfl s then Inr False
      else bindR (BinaryReadStream_packlen (rs_obj s) (br_lfl s) (br_flag s)) (\<lambda>packlen.
        if packlen \<noteq> rs_len s then Inr False else Inr True))"

definition BinaryReadStream_Reset :: "BinaryReadStream \<Rightarrow> BinaryReadStream" where
  "BinaryReadStream_Reset s = s\<lparr>rs_cur := rs_ptr s + br_lfl s\<rparr>"

definition BinaryReadStream_Assign :: "byte list \<Rightarrow> u64 \<Rightarrow> u64 \<Rightarrow> BinaryReadStream \<Rightarrow> BinaryReadStream" where
  "BinaryReadStream_Assign obj p n s =
     s\<lparr>rs_obj := obj, rs_ptr := p, rs_len := n, rs_cur := p + br_lfl s\<rparr>"

section \<open>BinaryWriteStream\<close>

record BinaryWriteStream = WriteStream +
  bw_lfl :: u64
  bw_flag :: HEADER_FLAG

definition BinaryWriteStream_new :: "byte list \<Rightarrow> u64 \<Rightarrow> u64 \<Rightarrow> u64 \<Rightarrow> HEADER_FLAG \<Rightarrow> BinaryWriteStream" where
  "BinaryWriteStream_new obj p l lfl flag =
     \<lparr>ws_obj = obj, ws_ptr = p, ws_cur = p + lfl, ws_len = l, bw_lfl = lfl, bw_flag = flag\<rparr>"

text \<open>\<open>memcpy (cur, src, n); cur += n\<close>.\<close>

definition BinaryWriteStream_put :: "BinaryWriteStream \<Rightarrow> byte list \<Rightarrow> (bool \<times> BinaryWriteStream) result" where
  "BinaryWriteStream_put s bs =
     bindR (ws_store s (ws_cur s) bs)
       (\<lambda>s'. Inr (True, s'\<lparr>ws_cur := ws_cur s' + of_nat (length bs)\<rparr>))"

definition BinaryWriteStream_WriteLength :: "BinaryWriteStream \<Rightarrow> u64 \<Rightarrow> (bool \<times> BinaryWriteStream) result" where
  "BinaryWriteStream_WriteLength s l =
     (if bw_lfl s = 2 then BinaryWriteStream_put s (le_bytes 2 (bswap (ucast l :: u16)))
      else BinaryWriteStream_put s (le_bytes 4 (bswap (ucast l :: u32))))"

definition BinaryWriteStream_Write :: "BinaryWriteStream \<Rightarrow> byte list \<Rightarrow> (bool \<times> BinaryWriteStream) result" where
  "BinaryWriteStream_Write s str =
     (let l = of_nat (length str) in
      if ws_cur s + l + bw_lfl s > ws_ptr s + ws_len s then Inr (False, s)
      else bindR (BinaryWriteStream_WriteLength s l) (\<lambda>(b, s1).
        if \<not> b then Inr (False, s1\<lparr>ws_cur := ws_cur s1 - bw_lfl s1\<rparr>)
        else BinaryWriteStream_put s1 str))"

definition BinaryWriteStream_Write_i64 :: "BinaryWriteStream \<Rightarrow> u64 \<Rightarrow> (bool \<times> BinaryWriteStream) result" where
  "BinaryWriteStream_Write_i64 s i =
     (if ws_cur s + 8 > ws_ptr s + ws_len s then Inr (False, s)
      else BinaryWriteStream_put s (le_bytes 8 (bswap i)))"

definition BinaryWriteStream_Write_i32 :: "BinaryWriteStream \<Rightarrow> u32 \<Rightarrow> (bool \<times> BinaryWriteStream) result" where
  "BinaryWriteStream_Write_i32 s i =
     (if ws_cur s + 4 > ws_ptr s + ws_len s then Inr (False, s)
      else BinaryWriteStream_put s (le_bytes 4 (bswap i)))"

definition BinaryWriteStream_Write_i16 :: "BinaryWriteStream \<Rightarrow> u16 \<Rightarrow> (bool \<times> BinaryWriteStream) result" where
  "BinaryWriteStream_Write_i16 s i =
     (if ws_cur s + 2 > ws_ptr s + ws_len s then Inr (False, s)
      else BinaryWriteStream_put s (le_bytes 2 (bswap i)))"

definition BinaryWriteStream_Write_char :: "BinaryWriteStream \<Rightarrow> byte \<Rightarrow> (bool \<times> BinaryWriteStream) result" where
  "BinaryWriteStream_Write_char s c =
     (if ws_cur s + 1 > ws_ptr s + ws_len s then Inr (False, s)
      else BinaryWriteStream_put s [c])"

definition BinaryWriteStream_WriteContent :: "BinaryWriteStream \<Rightarrow> byte list \<Rightarrow> (bool \<times> BinaryWriteStream) result" where
  "BinaryWriteStream_WriteContent s str =
     (if ws_cur s + of_nat (length str) > ws_ptr s + ws_len s then Inr (False, s)
      else BinaryWriteStream_put s str)"

definition BinaryWriteStream_GetSize :: "BinaryWriteStream \<Rightarrow> u64" where
  "BinaryWriteStream_GetSize s = ws_cur s - ws_ptr s"

definition BinaryWriteStream_IsValid :: "BinaryWriteStream \<Rightarrow> bool" where
  "BinaryWriteStream_IsValid s =
     (let datalen = BinaryWriteStream_GetSize s
      in datalen > bw_lfl s \<and> datalen \<le> BINARY_PACKAGE_MAXLEN)"

definition BinaryWriteStream_Flush :: "BinaryWriteStream \<Rightarrow> BinaryWriteStream result" where
  "BinaryWriteStream_Flush s =
     (let size' = BinaryWriteStream_GetSize s;
          packlen = (if bw_flag s = LENGTH_EXCLUDE_SELF then size' - bw_lfl s else size')
      in if bw_lfl s = 2 then ws_store s (ws_ptr s) (le_bytes 2 (bswap (ucast packlen :: u16)))
         else ws_store s (ws_ptr s) (le_bytes 4 (bswap (ucast packlen :: u32))))"

definition BinaryWriteStream_Clear :: "BinaryWriteStream \<Rightarrow> BinaryWriteStream" where
  "BinaryWriteStream_Clear s = s\<lparr>ws_cur := ws_ptr s + bw_lfl s\<rparr>"

definition BinaryWriteStream_Reset :: "BinaryWriteStream \<Rightarrow> BinaryWriteStream" where
  "BinaryWriteStream_Reset s = s\<lparr>ws_cur := ws_ptr s + bw_lfl s\<rparr>"

definition BinaryWriteStream_Assign :: "byte list \<Rightarrow> u64 \<Rightarrow> u64 \<Rightarrow> BinaryWriteStream \<Rightarrow> BinaryWriteStream" where
  "BinaryWriteStream_Assign obj p n s =
     s\<lparr>ws_obj := obj, ws_ptr := p, ws_len := n, ws_cur := p + bw_lfl s\<rparr>"

section \<open>The overloads, selected by the kind of a field\<close>

fun BinaryWriteStream_wr :: "BinaryWriteStream \<Rightarrow> field \<Rightarrow> (bool \<times> BinaryWriteStream) result" where
  "BinaryWriteStream_wr s (FStr bs) = BinaryWriteStream_Write s bs"
| "BinaryWriteStream_wr s (FI64 i) = BinaryWriteStream_Write_i64 s i"
| "BinaryWriteStream_wr s (FI32 i) = BinaryWriteStream_Write_i32 s i"
| "BinaryWriteStream_wr s (FI16 i) = BinaryWriteStream_Write_i16 s i"
| "BinaryWriteStream_wr s (FChr c) = BinaryWriteStream_Write_char s c"

fun BinaryReadStream_rd :: "BinaryReadStream \<Rightarrow> field \<Rightarrow> (field option \<times> BinaryReadStream) result" where
  "BinaryReadStream_rd s (FStr bs) =
     bindR (BinaryReadStream_Read s (of_nat (length bs))) (\<lambda>(r, s'). Inr (map_option FStr r, s'))"
| "BinaryReadStream_rd s (FI64 i) =
     bindR (BinaryReadStream_Read_i64 s) (\<lambda>(r, s'). Inr (map_option FI64 r, s'))"
| "BinaryReadStream_rd s (FI32 i) =
     bindR (BinaryReadStream_Read_i32 s) (\<lambda>(r, s'). Inr (map_option FI32 r, s'))"
| "BinaryReadStream_rd s (FI16 i) =
     bindR (BinaryReadStream_Read_i16 s) (\<lambda>(r, s'). Inr (map_option FI16 r, s'))"
| "BinaryReadStream_rd s (FChr c) =
     bindR (BinaryReadStream_Read_char s) (\<lambda>(r, s'). Inr (map_option FChr r, s'))"

end
