(* ===== verification/BinaryCodec.thy ===== *)
theory BinaryCodec
  imports BinaryStream
begin

text \<open>
  Correctness of the binary streams, in the order of the theory of the text streams: length
  fields, reads on the bytes left, writes on the bytes written, and the instances of
  \<open>field_codec\<close> for length fields of 2 and of 4 bytes.
\<close>

section \<open>Length fields\<close>

definition bin_len :: "u64 \<Rightarrow> nat \<Rightarrow> byte list" where
  "bin_len lfl n = (if lfl = 2 then be_bytes 2 (of_nat n :: u16) else be_bytes 4 (of_nat n :: u32))"

definition bin_frame :: "u64 \<Rightarrow> byte list \<Rightarrow> byte list" where
  "bin_frame lfl bs = bin_len lfl (length bs) @ bs"

definition bin_lfl :: "u64 \<Rightarrow> bool" where
  "bin_lfl lfl \<longleftrightarrow> lfl = BINARY_PACKLEN_LEN \<or> lfl = BINARY_PACKLEN_LEN_2"

lemma bin_lfl_cases: "bin_lfl lfl \<Longrightarrow> lfl = 2 \<or> lfl = 4"
  by (simp add: bin_lfl_def BINARY_PACKLEN_LEN_def BINARY_PACKLEN_LEN_2_def)

lemma length_bin_len [simp]: "bin_lfl lfl \<Longrightarrow> length (bin_len lfl n) = unat lfl"
  by (drule bin_lfl_cases) (auto simp: bin_len_def)

lemma length_bin_frame [simp]: "bin_lfl lfl \<Longrightarrow> length (bin_frame lfl bs) = unat lfl + length bs"
  by (simp add: bin_frame_def)

text \<open>The number in a length field.\<close>

definition bin_val :: "u64 \<Rightarrow> byte list \<Rightarrow> u64" where
  "bin_val lfl bs = (if lfl = 2 then ucast (bswap (le_word bs :: u16))
                     else ucast (bswap (le_word bs :: u32)))"

lemma unat_bin_val_bound: "unat (bin_val lfl bs) < 2 ^ 32"
  using unat_u16 [of "bswap (le_word bs)"] unat_u32 [of "bswap (le_word bs)"]
  by (simp add: bin_val_def unat_ucast_16_64 unat_ucast_32_64)

lemma bin_val_len:
  assumes "bin_lfl lfl"
  shows "unat (bin_val lfl (bin_len lfl n)) = n mod 2 ^ (8 * unat lfl)"
  using bin_lfl_cases [OF assms]
  by (auto simp: bin_val_def bin_len_def bswap_le_word_be unat_ucast_16_64 unat_ucast_32_64
      unat_of_nat)

section \<open>Reading\<close>

lemma BinRead_length:
  fixes s :: BinaryReadStream
  assumes wf: "rs_wf s" and lfl: "bin_lfl (br_lfl s)"
  shows "BinaryReadStream_ReadLengthWithoutOffset s =
     Inr (if rs_pos s + unat (br_lfl s) > unat (rs_len s) then None
          else Some (bin_val (br_lfl s) (take (unat (br_lfl s)) (rs_rest s))))"
proof (cases "rs_pos s + unat (br_lfl s) > unat (rs_len s)")
  case True
  have "unat (br_lfl s) < 2 ^ 63" using bin_lfl_cases [OF lfl] by auto
  with True rs_check [OF wf this] show ?thesis
    by (simp add: BinaryReadStream_ReadLengthWithoutOffset_def)
next
  case False
  with rs_step(1,2) [OF wf, of "br_lfl s"] bin_lfl_cases [OF lfl] show ?thesis
    by (auto simp: BinaryReadStream_ReadLengthWithoutOffset_def bin_val_def)
qed

lemma BinRead_content:
  fixes s :: BinaryReadStream
  assumes wf: "rs_wf s" and n: "unat n < 2 ^ 63"
  shows "BinaryReadStream_ReadContent s n =
     Inr (if rs_pos s + unat n > unat (rs_len s) then (None, s)
          else (Some (take (unat n) (rs_rest s)), s\<lparr>rs_cur := rs_cur s + n\<rparr>))"
  using rs_check [OF wf n] rs_load_cur [OF wf, of "unat n"]
  by (simp add: BinaryReadStream_ReadContent_def)

text \<open>The result of \<open>Read\<close> on every well-formed stream and every content.\<close>

lemma BinRead_spec:
  fixes s :: BinaryReadStream
  assumes wf: "rs_wf s" and lfl: "bin_lfl (br_lfl s)"
  defines "k \<equiv> unat (br_lfl s)"
  defines "v \<equiv> bin_val (br_lfl s) (take k (rs_rest s))"
  shows "BinaryReadStream_Read s n =
     Inr (if rs_pos s + k > unat (rs_len s) \<or> n < v \<or> rs_pos s + k + unat v > unat (rs_len s)
          then (None, s)
          else (Some (take (unat v) (drop k (rs_rest s))),
                s\<lparr>rs_cur := rs_cur s + br_lfl s, rs_cur := rs_cur s + br_lfl s + v\<rparr>))"
proof (cases "rs_pos s + k > unat (rs_len s)")
  case True
  then show ?thesis
    using BinRead_length [OF wf lfl] by (simp add: BinaryReadStream_Read_def k_def)
next
  case False
  let ?s = "s\<lparr>rs_cur := rs_cur s + br_lfl s\<rparr>"
  note st = rs_step [OF wf, of "br_lfl s"]
  have vb: "unat v < 2 ^ 63" using unat_bin_val_bound [of "br_lfl s" "take k (rs_rest s)"]
    by (simp add: v_def)
  have wf': "rs_wf ?s" and rest': "rs_rest ?s = drop k (rs_rest s)" and pos': "rs_pos ?s = rs_pos s + k"
    using st False by (simp_all add: k_def)
  show ?thesis using False BinRead_length [OF wf lfl] BinRead_content [OF wf' vb] rest' pos'
    by (auto simp: BinaryReadStream_Read_def k_def v_def)
qed

definition bin_rok :: "u64 \<Rightarrow> BinaryReadStream \<Rightarrow> bool" where
  "bin_rok lfl r \<longleftrightarrow> rs_wf r \<and> br_lfl r = lfl \<and> rs_pos r \<le> unat (rs_len r)"

lemma bin_rok_step:
  fixes s :: BinaryReadStream and n :: u64
  assumes "bin_rok lfl s" and "rs_pos s + unat n \<le> unat (rs_len s)"
  shows "bin_rok lfl (s\<lparr>rs_cur := rs_cur s + n\<rparr>)"
  using assms rs_step [of s n] by (simp add: bin_rok_def)

lemma bin_len_rest:
  fixes s :: BinaryReadStream
  assumes "bin_rok lfl s" and "rs_rest s = xs @ ys"
  shows "rs_pos s + length xs \<le> unat (rs_len s)"
  using assms length_rs_rest [of s] by (auto simp: bin_rok_def)

lemma BinRead_frame:
  fixes s :: BinaryReadStream
  assumes ok: "bin_rok lfl s" and lfl: "bin_lfl lfl" and rest: "rs_rest s = bin_frame lfl bs @ ys"
    and fits: "length bs < 2 ^ (8 * unat lfl)" and n: "length bs \<le> unat n"
  shows "\<exists>s'. BinaryReadStream_Read s n = Inr (Some bs, s') \<and> bin_rok lfl s' \<and> rs_rest s' = ys
    \<and> rs_fixed s' = rs_fixed s"
proof -
  define v where "v = bin_val lfl (bin_len lfl (length bs))"
  have v: "unat v = length bs" using bin_val_len [OF lfl] fits by (simp add: v_def)
  have l: "br_lfl s = lfl" and wf: "rs_wf s" using ok by (simp_all add: bin_rok_def)
  have tk: "take (unat lfl) (rs_rest s) = bin_len lfl (length bs)"
    and dr: "drop (unat lfl) (rs_rest s) = bs @ ys"
    using rest lfl by (simp_all add: bin_frame_def)
  have pos: "rs_pos s + unat lfl + unat v \<le> unat (rs_len s)"
    using bin_len_rest [OF ok rest] lfl v by simp
  let ?s1 = "s\<lparr>rs_cur := rs_cur s + lfl\<rparr>"
  let ?s2 = "?s1\<lparr>rs_cur := rs_cur ?s1 + v\<rparr>"
  note st = rs_step [OF wf, of lfl]
  have ok1: "bin_rok lfl ?s1" using bin_rok_step [OF ok, of lfl] pos by simp
  have p1: "rs_pos ?s1 = rs_pos s + unat lfl" and r1: "rs_rest ?s1 = bs @ ys"
    using st pos dr by simp_all
  have ok2: "bin_rok lfl ?s2" using bin_rok_step [OF ok1, of v] pos p1 by simp
  have "rs_wf ?s1" using ok1 by (simp add: bin_rok_def)
  from rs_step(4) [OF this, of v] pos p1 r1 v have r2: "rs_rest ?s2 = ys" by simp
  have "\<not> n < v" using n v by (simp add: word_less_nat_alt)
  then have "BinaryReadStream_Read s n = Inr (Some bs, ?s2)"
    using BinRead_spec [OF wf, of n] lfl l pos tk dr v by (simp add: v_def [symmetric])
  with ok2 r2 show ?thesis by (auto simp: rs_fixed_def)
qed

text \<open>The integer overloads: one load, one swap.\<close>

lemma BinRead_int:
  fixes s :: BinaryReadStream and n :: u64 and w :: "'a::len word"
  assumes ok: "bin_rok lfl s" and n: "LENGTH('a) = 8 * unat n"
    and rest: "rs_rest s = be_bytes (unat n) w @ ys"
  shows "\<not> rs_cur s + n > rs_ptr s + rs_len s"
    and "rs_load s (rs_cur s) (unat n) = Inr (be_bytes (unat n) w)"
    and "bswap (le_word (be_bytes (unat n) w) :: 'a word) = w"
    and "bin_rok lfl (s\<lparr>rs_cur := rs_cur s + n\<rparr>)"
    and "rs_rest (s\<lparr>rs_cur := rs_cur s + n\<rparr>) = ys"
    and "rs_fixed (s\<lparr>rs_cur := rs_cur s + n\<rparr>) = rs_fixed s"
proof -
  have pos: "rs_pos s + unat n \<le> unat (rs_len s)" using bin_len_rest [OF ok rest] by simp
  have wf: "rs_wf s" using ok by (simp add: bin_rok_def)
  show "\<not> rs_cur s + n > rs_ptr s + rs_len s" by (rule rs_step(1) [OF wf pos])
  show "rs_load s (rs_cur s) (unat n) = Inr (be_bytes (unat n) w)"
    using rs_step(2) [OF wf pos] rest by simp
  show "bswap (le_word (be_bytes (unat n) w) :: 'a word) = w" by (rule bswap_le_word_be [OF n])
  show "bin_rok lfl (s\<lparr>rs_cur := rs_cur s + n\<rparr>)" by (rule bin_rok_step [OF ok pos])
  show "rs_rest (s\<lparr>rs_cur := rs_cur s + n\<rparr>) = ys" using rs_step(4) [OF wf pos] rest by simp
  show "rs_fixed (s\<lparr>rs_cur := rs_cur s + n\<rparr>) = rs_fixed s" by (rule rs_step(6) [OF wf pos])
qed

section \<open>Writing\<close>

definition bin_wok :: "u64 \<Rightarrow> BinaryWriteStream \<Rightarrow> bool" where
  "bin_wok lfl w \<longleftrightarrow> ws_wf w \<and> bw_lfl w = lfl \<and> ws_pos w \<le> unat (ws_len w)"

definition bin_wfixed :: "BinaryWriteStream \<Rightarrow> (u64 \<times> u64 \<times> nat) \<times> HEADER_FLAG" where
  "bin_wfixed s = (ws_fixed s, bw_flag s)"

lemma BinWrite_put:
  fixes s :: BinaryWriteStream
  assumes ok: "bin_wok lfl s" and room: "ws_pos s + length bs \<le> unat (ws_len s)"
  shows "BinaryWriteStream_put s bs = Inr (True, ws_append bs s)"
    and "bin_wok lfl (ws_append bs s)"
    and "ws_written (ws_append bs s) = ws_written s @ bs"
    and "ws_pos (ws_append bs s) = ws_pos s + length bs"
    and "ws_len (ws_append bs s) = ws_len s"
    and "bin_wfixed (ws_append bs s) = bin_wfixed s"
    and "\<not> ws_cur s + of_nat (length bs) > ws_ptr s + ws_len s"
proof -
  have wf: "ws_wf s" using ok by (simp add: bin_wok_def)
  note a = ws_append [OF wf room]
  show "BinaryWriteStream_put s bs = Inr (True, ws_append bs s)"
    using ws_store_cur [OF wf room] by (simp add: BinaryWriteStream_put_def ws_append_def)
  show "bin_wok lfl (ws_append bs s)"
    using a ok room by (simp add: bin_wok_def) (simp add: ws_append_def)
  show "ws_written (ws_append bs s) = ws_written s @ bs"
    "ws_pos (ws_append bs s) = ws_pos s + length bs" "ws_len (ws_append bs s) = ws_len s"
    using a by simp_all
  show "bin_wfixed (ws_append bs s) = bin_wfixed s"
    using a by (simp add: bin_wfixed_def ws_fixed_def) (simp add: ws_append_def)
  have "length bs < 2 ^ 63" using wf room by (simp add: ws_wf_def)
  then show "\<not> ws_cur s + of_nat (length bs) > ws_ptr s + ws_len s"
    using ws_check [OF wf, of "of_nat (length bs)"] room by (simp add: unat_of_nat_small)
qed

lemma BinWrite_len:
  fixes s :: BinaryWriteStream
  assumes "bw_lfl s = lfl" and "bin_lfl lfl"
  shows "BinaryWriteStream_WriteLength s (of_nat n) = BinaryWriteStream_put s (bin_len lfl n)"
  using assms bin_lfl_cases [OF assms(2)]
  by (auto simp: BinaryWriteStream_WriteLength_def bin_len_def le_bytes_bswap ucast_of_nat_down)

lemma BinWrite_frame:
  fixes s :: BinaryWriteStream
  assumes ok: "bin_wok lfl s" and lfl: "bin_lfl lfl"
    and room: "ws_pos s + length (bin_frame lfl bs) \<le> unat (ws_len s)"
  shows "\<exists>s'. BinaryWriteStream_Write s bs = Inr (True, s') \<and> bin_wok lfl s'
    \<and> ws_written s' = ws_written s @ bin_frame lfl bs
    \<and> ws_pos s' = ws_pos s + length (bin_frame lfl bs) \<and> bin_wfixed s' = bin_wfixed s"
proof -
  have l: "bw_lfl s = lfl" and wf: "ws_wf s" using ok by (simp_all add: bin_wok_def)
  have r1: "ws_pos s + length (bin_len lfl (length bs)) \<le> unat (ws_len s)"
    using room lfl by simp
  let ?s1 = "ws_append (bin_len lfl (length bs)) s"
  note p1 = BinWrite_put [OF ok r1]
  have r2: "ws_pos ?s1 + length bs \<le> unat (ws_len ?s1)" using p1 room lfl by simp
  note p2 = BinWrite_put [OF p1(2) r2]
  have lb: "length bs + unat lfl < 2 ^ 63" using wf room lfl by (simp add: ws_wf_def)
  then have "unat (of_nat (length bs) + lfl :: u64) = length bs + unat lfl"
    by (subst unat_add_nowrap) (simp_all add: unat_of_nat_small)
  then have chk: "\<not> ws_cur s + of_nat (length bs) + lfl > ws_ptr s + ws_len s"
    using ws_check [OF wf, of "of_nat (length bs) + lfl"] room lfl lb by (simp add: add.assoc)
  have "BinaryWriteStream_Write s bs = Inr (True, ws_append bs ?s1)"
    using chk l BinWrite_len [OF l lfl, of "length bs"] p1(1) p2(1)
    by (simp add: BinaryWriteStream_Write_def Let_def)
  with p1 p2 lfl show ?thesis by (auto simp: bin_frame_def)
qed

section \<open>The instances of the codec interface\<close>

fun bin_enc :: "u64 \<Rightarrow> field \<Rightarrow> byte list" where
  "bin_enc lfl (FStr bs) = bin_frame lfl bs"
| "bin_enc lfl (FI64 i) = be_bytes 8 i"
| "bin_enc lfl (FI32 i) = be_bytes 4 i"
| "bin_enc lfl (FI16 i) = be_bytes 2 i"
| "bin_enc lfl (FChr c) = be_bytes 1 c"

fun bin_fits :: "u64 \<Rightarrow> field \<Rightarrow> bool" where
  "bin_fits lfl (FStr bs) = (length bs < 2 ^ (8 * unat lfl))"
| "bin_fits lfl _ = True"

lemma be_bytes_1: "be_bytes 1 c = [c :: byte]"
  by (simp add: be_bytes_def le_bytes_def)

lemma le_word_be1: "le_word (be_bytes (Suc 0) c) = (c :: byte)"
  using le_word_le_bytes [of 1 c] by (simp add: be_bytes_def le_bytes_def)

lemma bin_wr_ok:
  assumes lfl: "bin_lfl lfl" and ok: "bin_wok lfl w" and room: "length (bin_enc lfl f) \<le> ws_room w"
  shows "\<exists>w'. BinaryWriteStream_wr w f = Inr (True, w') \<and> bin_wok lfl w'
    \<and> ws_written w' = ws_written w @ bin_enc lfl f
    \<and> ws_room w' = ws_room w - length (bin_enc lfl f) \<and> bin_wfixed w' = bin_wfixed w"
proof -
  have r: "ws_pos w + length (bin_enc lfl f) \<le> unat (ws_len w)"
    using room ok unfolding ws_room_def bin_wok_def by linarith
  note p = BinWrite_put [OF ok r]
  show ?thesis
  proof (cases f)
    case (FStr bs)
    with BinWrite_frame [OF ok lfl, of bs] r show ?thesis
      by (auto simp: ws_room_def bin_wfixed_def ws_fixed_def)
  qed (use p be_bytes_1 in \<open>auto simp: ws_room_def BinaryWriteStream_Write_i64_def le_bytes_bswap
        BinaryWriteStream_Write_i32_def BinaryWriteStream_Write_i16_def BinaryWriteStream_Write_char_def\<close>)
qed

lemma bin_rd_ok:
  assumes lfl: "bin_lfl lfl" and ok: "bin_rok lfl r" and fits: "bin_fits lfl f"
    and rest: "rs_rest r = bin_enc lfl f @ ys"
  shows "\<exists>r'. BinaryReadStream_rd r f = Inr (Some f, r') \<and> bin_rok lfl r' \<and> rs_rest r' = ys
    \<and> rs_fixed r' = rs_fixed r"
proof (cases f)
  case (FStr bs)
  have "length bs < 2 ^ 32" using fits FStr bin_lfl_cases [OF lfl] by auto
  then have "unat (of_nat (length bs) :: u64) = length bs" by (simp add: unat_of_nat_small)
  with BinRead_frame [OF ok lfl, of bs ys "of_nat (length bs)"] rest fits FStr
  show ?thesis by auto
next
  case (FI64 i)
  with BinRead_int [OF ok, of 8 i ys] rest show ?thesis
    by (auto simp: BinaryReadStream_Read_i64_def)
next
  case (FI32 i)
  with BinRead_int [OF ok, of 4 i ys] rest show ?thesis
    by (auto simp: BinaryReadStream_Read_i32_def)
next
  case (FI16 i)
  with BinRead_int [OF ok, of 2 i ys] rest show ?thesis
    by (auto simp: BinaryReadStream_Read_i16_def)
next
  case (FChr c)
  with BinRead_int [OF ok, of 1 c ys] rest show ?thesis
    by (auto simp: BinaryReadStream_Read_char_def le_word_be1)
qed

lemma bin_codec:
  assumes "bin_lfl lfl"
  shows "field_codec BinaryWriteStream_wr BinaryReadStream_rd (bin_enc lfl) (bin_fits lfl)
    ws_written ws_room rs_rest (bin_wok lfl) (bin_rok lfl) bin_wfixed rs_fixed"
  by unfold_locales (use assms bin_wr_ok bin_rd_ok in blast)+

interpretation bin2: field_codec BinaryWriteStream_wr BinaryReadStream_rd
    "bin_enc BINARY_PACKLEN_LEN" "bin_fits BINARY_PACKLEN_LEN" ws_written ws_room rs_rest
    "bin_wok BINARY_PACKLEN_LEN" "bin_rok BINARY_PACKLEN_LEN" bin_wfixed rs_fixed
  by (rule bin_codec) (simp add: bin_lfl_def)

interpretation bin4: field_codec BinaryWriteStream_wr BinaryReadStream_rd
    "bin_enc BINARY_PACKLEN_LEN_2" "bin_fits BINARY_PACKLEN_LEN_2" ws_written ws_room rs_rest
    "bin_wok BINARY_PACKLEN_LEN_2" "bin_rok BINARY_PACKLEN_LEN_2" bin_wfixed rs_fixed
  by (rule bin_codec) (simp add: bin_lfl_def)

section \<open>Packets\<close>

text \<open>
  \<open>bin_total flag lfl d\<close> is the number that the header of a packet with \<open>d\<close> bytes of
  content carries.
\<close>

definition bin_total :: "HEADER_FLAG \<Rightarrow> u64 \<Rightarrow> nat \<Rightarrow> nat" where
  "bin_total flag lfl d = (case flag of LENGTH_INCLUDE_SELF \<Rightarrow> d + unat lfl | LENGTH_EXCLUDE_SELF \<Rightarrow> d)"

definition bin_packet :: "HEADER_FLAG \<Rightarrow> u64 \<Rightarrow> byte list \<Rightarrow> byte list" where
  "bin_packet flag lfl bs = bin_len lfl (bin_total flag lfl (length bs)) @ bs"

lemma length_bin_packet [simp]: "bin_lfl lfl \<Longrightarrow> length (bin_packet flag lfl bs) = unat lfl + length bs"
  by (simp add: bin_packet_def)

lemma bin_total_le: "d \<le> bin_total flag lfl d"
  by (simp add: bin_total_def split: HEADER_FLAG.splits)

lemma BinRead_packlen:
  assumes lfl: "bin_lfl lfl" and hdr: "take (unat lfl) obj = bin_len lfl (bin_total flag lfl d)"
    and fits: "bin_total flag lfl d < 2 ^ (8 * unat lfl)"
  shows "BinaryReadStream_packlen obj lfl flag = Inr (of_nat (d + unat lfl))"
proof -
  have v: "unat (bin_val lfl (take (unat lfl) obj)) = bin_total flag lfl d"
    using bin_val_len [OF lfl] fits by (simp add: hdr)
  then have v': "bin_val lfl (take (unat lfl) obj) = of_nat (bin_total flag lfl d)"
    by (rule eq_of_nat)
  have "length (take (unat lfl) obj) = unat lfl" using lfl by (simp add: hdr)
  then have "unat lfl \<le> length obj" by simp
  with v' bin_lfl_cases [OF lfl] show ?thesis
    by (cases flag) (auto simp: BinaryReadStream_packlen_def bin_val_def bin_total_def)
qed

lemma BinWrite_size: "unat (BinaryWriteStream_GetSize s) = ws_pos s"
  by (simp add: BinaryWriteStream_GetSize_def ws_pos_def)

lemma BinWrite_new:
  assumes "unat p + length obj < 2 ^ 63" and "unat n \<le> length obj" and "unat lfl \<le> unat n"
  shows "bin_wok lfl (BinaryWriteStream_new obj p n lfl flag)"
    and "ws_pos (BinaryWriteStream_new obj p n lfl flag) = unat lfl"
    and "ws_room (BinaryWriteStream_new obj p n lfl flag) = unat n - unat lfl"
proof -
  have pl: "unat (p + lfl) = unat p + unat lfl" by (rule unat_add_nowrap) (use assms in simp)
  then have "p \<le> p + lfl" by (simp add: word_le_nat_alt)
  then show "bin_wok lfl (BinaryWriteStream_new obj p n lfl flag)"
    using assms pl by (simp add: bin_wok_def ws_wf_def BinaryWriteStream_new_def ws_pos_def)
  show pos: "ws_pos (BinaryWriteStream_new obj p n lfl flag) = unat lfl"
    by (simp add: ws_pos_def BinaryWriteStream_new_def)
  show "ws_room (BinaryWriteStream_new obj p n lfl flag) = unat n - unat lfl"
    using pos by (simp add: ws_room_def) (simp add: BinaryWriteStream_new_def)
qed

lemma BinRead_new:
  assumes "unat p + length obj < 2 ^ 63" and "unat n \<le> length obj" and "unat lfl \<le> unat n"
  shows "bin_rok lfl (BinaryReadStream_new obj p n lfl flag)"
    and "rs_pos (BinaryReadStream_new obj p n lfl flag) = unat lfl"
    and "rs_rest (BinaryReadStream_new obj p n lfl flag) = drop (unat lfl) (take (unat n) obj)"
proof -
  have pl: "unat (p + lfl) = unat p + unat lfl" by (rule unat_add_nowrap) (use assms in simp)
  then have "p \<le> p + lfl" by (simp add: word_le_nat_alt)
  then show "bin_rok lfl (BinaryReadStream_new obj p n lfl flag)"
    using assms pl by (auto simp: bin_rok_def rs_wf_def rs_pos_def BinaryReadStream_new_def)
  show pos: "rs_pos (BinaryReadStream_new obj p n lfl flag) = unat lfl"
    by (simp add: rs_pos_def BinaryReadStream_new_def)
  show "rs_rest (BinaryReadStream_new obj p n lfl flag) = drop (unat lfl) (take (unat n) obj)"
    using pos by (simp add: rs_rest_def) (simp add: BinaryReadStream_new_def)
qed

lemma BinFlush:
  assumes ok: "bin_wok lfl s" and lfl: "bin_lfl lfl" and pos: "unat lfl \<le> ws_pos s"
  shows "BinaryWriteStream_Flush s = Inr (s\<lparr>ws_obj :=
     bin_len lfl (bin_total (bw_flag s) lfl (ws_pos s - unat lfl)) @ drop (unat lfl) (ws_obj s)\<rparr>)"
proof -
  have wf: "ws_wf s" "bw_lfl s = lfl" "ws_pos s \<le> unat (ws_len s)" using ok by (simp_all add: bin_wok_def)
  then have kl: "unat lfl \<le> length (ws_obj s)" using pos by (simp add: ws_wf_def)
  have le: "lfl \<le> BinaryWriteStream_GetSize s"
    using pos BinWrite_size [of s] by (simp add: word_le_nat_alt)
  let ?packlen = "if bw_flag s = LENGTH_EXCLUDE_SELF
      then BinaryWriteStream_GetSize s - bw_lfl s else BinaryWriteStream_GetSize s"
  have "unat ?packlen = bin_total (bw_flag s) lfl (ws_pos s - unat lfl)"
    using unat_sub_le [OF le] BinWrite_size [of s] pos wf(2)
    by (auto simp: bin_total_def split: HEADER_FLAG.splits)
  then have packlen: "?packlen = of_nat (bin_total (bw_flag s) lfl (ws_pos s - unat lfl))"
    by (rule eq_of_nat)
  from bin_lfl_cases [OF lfl] show ?thesis
    unfolding BinaryWriteStream_Flush_def Let_def packlen using wf kl
    by (auto simp: Let_def ws_store_def bin_len_def le_bytes_bswap ucast_of_nat_down overwrite_0)
qed

lemma bin_packet_written:
  fixes flag :: HEADER_FLAG
  assumes codec: "field_codec BinaryWriteStream_wr BinaryReadStream_rd (bin_enc lfl) (bin_fits lfl)
      ws_written ws_room rs_rest (bin_wok lfl) (bin_rok lfl) bin_wfixed rs_fixed"
    and lfl: "bin_lfl lfl"
    and obj: "unat p + length obj < 2 ^ 63" "unat n \<le> length obj"
    and fits: "list_all (bin_fits lfl) fs"
  defines "es \<equiv> concat (map (bin_enc lfl) fs)"
  defines "w0 \<equiv> BinaryWriteStream_new obj p n lfl flag"
  assumes room: "unat lfl + length es \<le> unat n"
  shows "\<exists>w w' ys. write_all BinaryWriteStream_wr w0 fs = Inr (True, w)
    \<and> BinaryWriteStream_Flush w = Inr w' \<and> ws_obj w' = bin_packet flag lfl es @ ys
    \<and> length (ws_obj w') = length obj \<and> bw_lfl w' = lfl
    \<and> unat (BinaryWriteStream_GetSize w') = unat lfl + length es"
proof -
  define k where "k = unat lfl"
  have kn: "k \<le> unat n" using room by (simp add: k_def)
  note new = BinWrite_new [OF obj kn [unfolded k_def], of flag, folded w0_def]
  have "length es \<le> ws_room w0" using new(3) room by simp
  from field_codec.write_all_ok [OF codec new(1) fits this [unfolded es_def]]
  obtain w where w: "write_all BinaryWriteStream_wr w0 fs = Inr (True, w)"
    "bin_wok lfl w" "ws_written w = ws_written w0 @ es" "bin_wfixed w = bin_wfixed w0"
    by (auto simp: es_def)
  have fx: "ws_ptr w = p" "ws_len w = n" "length (ws_obj w) = length obj"
    using w(4) by (simp_all add: bin_wfixed_def ws_fixed_def w0_def BinaryWriteStream_new_def)
  have wr0: "ws_written w0 = take k obj"
    using new(2) by (simp add: ws_written_def k_def) (simp add: w0_def BinaryWriteStream_new_def)
  have wok: "ws_wf w" "bw_lfl w = lfl" "ws_pos w \<le> unat n"
    using w(2) fx by (simp_all add: bin_wok_def)
  have wr: "take (ws_pos w) (ws_obj w) = take k obj @ es" using w(3) wr0 by (simp add: ws_written_def)
  from arg_cong [OF this, of length] have pos: "ws_pos w = k + length es"
    using fx wok obj kn by simp
  have es: "take (length es) (drop k (ws_obj w)) = es"
    using arg_cong [OF wr, of "drop k"] kn obj by (simp add: pos drop_take)
  define w' where "w' = w\<lparr>ws_obj := bin_len lfl (bin_total flag lfl (length es)) @ drop k (ws_obj w)\<rparr>"
  have fl: "BinaryWriteStream_Flush w = Inr w'"
    using BinFlush [OF w(2) lfl] pos w(4)
    by (simp add: w'_def k_def w0_def BinaryWriteStream_new_def bin_wfixed_def)
  have "drop k (ws_obj w) = es @ drop (length es) (drop k (ws_obj w))"
    using es append_take_drop_id [of "length es" "drop k (ws_obj w)"] by simp
  then have obj': "ws_obj w' = bin_packet flag lfl es @ drop (length es) (drop k (ws_obj w))"
    by (simp add: w'_def bin_packet_def)
  have "BinaryWriteStream_GetSize w' = BinaryWriteStream_GetSize w"
    by (simp add: w'_def BinaryWriteStream_GetSize_def)
  then have sz: "unat (BinaryWriteStream_GetSize w') = k + length es"
    using BinWrite_size [of w] pos by simp
  have "length (ws_obj w') = length obj" "bw_lfl w' = lfl"
    using fx kn obj lfl wok by (simp_all add: w'_def k_def)
  with w(1) fl obj' sz show ?thesis by (auto simp: k_def)
qed

lemma bin_reread:
  assumes codec: "field_codec BinaryWriteStream_wr BinaryReadStream_rd (bin_enc lfl) (bin_fits lfl)
      ws_written ws_room rs_rest (bin_wok lfl) (bin_rok lfl) bin_wfixed rs_fixed"
    and lfl: "bin_lfl lfl" and fits: "list_all (bin_fits lfl) fs"
  defines "es \<equiv> concat (map (bin_enc lfl) fs)"
  assumes obj: "obj = bin_packet flag lfl es @ ys" "unat p + length obj < 2 ^ 63"
    and n: "unat n = unat lfl + length es"
  shows "\<exists>r. read_all BinaryReadStream_rd (BinaryReadStream_new obj p n lfl flag) fs = Inr (Some fs, r)
    \<and> BinaryReadStream_IsEnd r = Inr True"
proof -
  let ?r = "BinaryReadStream_new obj p n lfl flag"
  have nl: "unat n \<le> length obj" using obj(1) n lfl by simp
  have "unat lfl \<le> unat n" using n by simp
  note new = BinRead_new [OF obj(2) nl this]
  have rest: "rs_rest ?r = concat (map (bin_enc lfl) fs) @ []"
    using new(3) obj(1) n lfl by (simp add: bin_packet_def es_def)
  from field_codec.read_all_ok [OF codec new(1) fits rest] obtain r where
    r: "read_all BinaryReadStream_rd ?r fs = Inr (Some fs, r)" "bin_rok lfl r" "rs_rest r = []"
    "rs_fixed r = rs_fixed ?r" by auto
  have "rs_pos r = unat (rs_len r)"
    using r(2,3) length_rs_rest [of r] by (simp add: bin_rok_def)
  then have "BinaryReadStream_IsEnd r = Inr True" by (simp add: BinaryReadStream_IsEnd_def rs_at_end)
  with r(1) show ?thesis by blast
qed

lemma BinRead_IsValid:
  assumes "bin_lfl lfl" and "unat n = unat lfl + length bs"
    and "bin_total flag lfl (length bs) < 2 ^ (8 * unat lfl)"
  shows "BinaryReadStream_IsValid (BinaryReadStream_new (bin_packet flag lfl bs @ ys) p n lfl flag) = Inr True"
proof -
  have hdr: "take (unat lfl) (bin_packet flag lfl bs @ ys) = bin_len lfl (bin_total flag lfl (length bs))"
    using assms(1) by (simp add: bin_packet_def)
  have "of_nat (length bs + unat lfl) = (of_nat (unat n) :: u64)"
    by (simp only: assms(2) add.commute)
  then have n: "of_nat (length bs + unat lfl) = n" by simp
  show ?thesis using BinRead_packlen [OF assms(1) hdr assms(3)] n assms(2)
    by (auto simp: BinaryReadStream_IsValid_def BinaryReadStream_new_def word_less_nat_alt)
qed

section \<open>Reading arbitrary bytes\<close>

lemma BinRead_fixed:
  fixes s :: BinaryReadStream and n :: u64
  assumes "bin_rok lfl s" and "rs_pos s + unat n \<le> unat (rs_len s)"
  shows "rs_load s (rs_cur s) (unat n) = Inr (take (unat n) (rs_rest s))"
    and "bin_rok lfl (s\<lparr>rs_cur := rs_cur s + n\<rparr>)"
    and "rs_pos s \<le> rs_pos (s\<lparr>rs_cur := rs_cur s + n\<rparr>)"
    and "rs_fixed (s\<lparr>rs_cur := rs_cur s + n\<rparr>) = rs_fixed s"
  using assms rs_step [of s n] bin_rok_step [OF assms] by (simp_all add: bin_rok_def)

lemma BinRead_rd_safe:
  fixes s :: BinaryReadStream
  assumes ok: "bin_rok lfl s" and lfl: "bin_lfl lfl"
  shows "\<exists>g s'. BinaryReadStream_rd s f = Inr (g, s') \<and> bin_rok lfl s' \<and> rs_fixed s' = rs_fixed s
    \<and> rs_pos s \<le> rs_pos s'"
proof -
  have wf: "rs_wf s" "br_lfl s = lfl" using ok by (simp_all add: bin_rok_def)
  have chk: "\<not> rs_cur s + n > rs_ptr s + rs_len s \<Longrightarrow> unat n \<le> 8 \<Longrightarrow>
      rs_pos s + unat n \<le> unat (rs_len s)" for n
    using rs_check [OF wf(1), of n] by auto
  show ?thesis
  proof (cases f)
    case (FStr bs)
    let ?n = "of_nat (length bs) :: u64"
    define v where "v = bin_val lfl (take (unat lfl) (rs_rest s))"
    show ?thesis
    proof (cases "rs_pos s + unat lfl > unat (rs_len s) \<or> ?n < v
        \<or> rs_pos s + unat lfl + unat v > unat (rs_len s)")
      case True
      then show ?thesis using BinRead_spec [OF wf(1), of ?n] wf lfl ok FStr by (auto simp: v_def)
    next
      case False
      note a = BinRead_fixed [OF ok, of lfl]
      let ?s1 = "s\<lparr>rs_cur := rs_cur s + lfl\<rparr>"
      have p1: "rs_pos ?s1 = rs_pos s + unat lfl" using rs_step(5) [OF wf(1), of lfl] False by simp
      note b = BinRead_fixed [OF a(2), of v]
      have v: "rs_pos ?s1 + unat v \<le> unat (rs_len ?s1)" using p1 False by simp
      have "BinaryReadStream_rd s f = Inr (Some (FStr (take (unat v) (drop (unat lfl) (rs_rest s)))),
          ?s1\<lparr>rs_cur := rs_cur ?s1 + v\<rparr>)"
        using BinRead_spec [OF wf(1), of ?n] wf lfl False FStr by (simp add: v_def)
      moreover have "bin_rok lfl (?s1\<lparr>rs_cur := rs_cur ?s1 + v\<rparr>)"
        "rs_pos s \<le> rs_pos (?s1\<lparr>rs_cur := rs_cur ?s1 + v\<rparr>)"
        using b(2,3) v p1 False by auto
      ultimately show ?thesis by (auto simp: rs_fixed_def)
    qed
  qed (use ok chk [of 8] chk [of 4] chk [of 2] chk [of 1] BinRead_fixed [OF ok, of 8]
      BinRead_fixed [OF ok, of 4] BinRead_fixed [OF ok, of 2] BinRead_fixed [OF ok, of 1]
      in \<open>auto simp: BinaryReadStream_Read_i64_def BinaryReadStream_Read_i32_def
        BinaryReadStream_Read_i16_def BinaryReadStream_Read_char_def\<close>)
qed

end
