(* ===== verification/BinaryProps.thy ===== *)
theory BinaryProps
  imports BinaryCodec
begin

text \<open>
  The properties of the binary streams: round trip of a packet under both header conventions,
  safety of reading from arbitrary bytes, extraction of a packet from a receive buffer, and two
  inputs that the code accepts although it cannot represent or bound them.
\<close>

text \<open>C17. For both binary formats (length fields of 2 and of 4 bytes) and both header conventions
  (\<open>HEADER_FLAG\<close>): when the fields fit into the buffer, each string into its length field and
  the packet into its header, \<open>Write\<close> succeeds on every field, the flushed packet passes
  \<open>IsValid\<close>, and a \<open>BinaryReadStream\<close> on it returns the same fields in the same order
  and is then at its end.\<close>

theorem bin_stream_roundtrip:
  assumes "lfl \<in> {BINARY_PACKLEN_LEN, BINARY_PACKLEN_LEN_2}"
    and "unat p + length obj < 2 ^ 63" and "unat n \<le> length obj"
    and "list_all (bin_fits lfl) fs"
    and "unat lfl + length (concat (map (bin_enc lfl) fs)) \<le> unat n"
    and "bin_total flag lfl (length (concat (map (bin_enc lfl) fs))) < 2 ^ (8 * unat lfl)"
  shows "\<exists>w w' r. write_all BinaryWriteStream_wr (BinaryWriteStream_new obj p n lfl flag) fs = Inr (True, w)
    \<and> BinaryWriteStream_Flush w = Inr w'
    \<and> BinaryReadStream_IsValid (BinaryReadStream_new (ws_obj w') p (BinaryWriteStream_GetSize w') lfl flag) = Inr True
    \<and> read_all BinaryReadStream_rd
        (BinaryReadStream_new (ws_obj w') p (BinaryWriteStream_GetSize w') lfl flag) fs = Inr (Some fs, r)
    \<and> BinaryReadStream_IsEnd r = Inr True"
proof -
  have lfl: "bin_lfl lfl" using assms(1) by (auto simp: bin_lfl_def)
  note codec = bin_codec [OF lfl]
  from bin_packet_written [OF codec lfl assms(2-5), of flag] obtain w w' ys where
    w: "write_all BinaryWriteStream_wr (BinaryWriteStream_new obj p n lfl flag) fs = Inr (True, w)"
      "BinaryWriteStream_Flush w = Inr w'"
      "ws_obj w' = bin_packet flag lfl (concat (map (bin_enc lfl) fs)) @ ys"
      "length (ws_obj w') = length obj"
      "unat (BinaryWriteStream_GetSize w') = unat lfl + length (concat (map (bin_enc lfl) fs))"
    by blast
  have p: "unat p + length (ws_obj w') < 2 ^ 63" using assms(2) w(4) by simp
  from bin_reread [OF codec lfl assms(4) w(3) p w(5)] w(1,2)
    BinRead_IsValid [OF lfl w(5) assms(6), of ys p] w(3)
  show ?thesis by auto
qed

theorem bin_stream_roundtrip_witness:
  "\<exists>w w' r. write_all BinaryWriteStream_wr
      (BinaryWriteStream_new (replicate 64 0) 4096 64 BINARY_PACKLEN_LEN LENGTH_INCLUDE_SELF)
      [FStr [65, 66], FI64 (- 5), FI16 258, FChr 7] = Inr (True, w)
    \<and> BinaryWriteStream_Flush w = Inr w'
    \<and> BinaryReadStream_IsValid (BinaryReadStream_new (ws_obj w') 4096 (BinaryWriteStream_GetSize w')
        BINARY_PACKLEN_LEN LENGTH_INCLUDE_SELF) = Inr True
    \<and> read_all BinaryReadStream_rd
        (BinaryReadStream_new (ws_obj w') 4096 (BinaryWriteStream_GetSize w') BINARY_PACKLEN_LEN LENGTH_INCLUDE_SELF)
        [FStr [65, 66], FI64 (- 5), FI16 258, FChr 7]
        = Inr (Some [FStr [65, 66], FI64 (- 5), FI16 258, FChr 7], r)
    \<and> BinaryReadStream_IsEnd r = Inr True"
  by (rule bin_stream_roundtrip)
    (simp_all add: BINARY_PACKLEN_LEN_def bin_frame_def bin_len_def bin_total_def)

text \<open>C19. Reading is memory safe on input from the network: whatever bytes the object holds, a
  sequence of \<open>Read\<close> calls of any kinds never accesses memory outside the packet, and the
  cursor only moves forward and never past the end.\<close>

theorem bin_read_safe:
  assumes "bin_rok lfl s" and "lfl \<in> {BINARY_PACKLEN_LEN, BINARY_PACKLEN_LEN_2}"
  shows "\<exists>v s'. read_all BinaryReadStream_rd s fs = Inr (v, s') \<and> rs_wf s'
    \<and> rs_pos s \<le> rs_pos s' \<and> rs_pos s' \<le> unat (rs_len s') \<and> rs_fixed s' = rs_fixed s"
  using assms(1)
proof (induction fs arbitrary: s)
  case Nil
  then show ?case by (simp add: bin_rok_def)
next
  case (Cons f fs)
  have "bin_lfl lfl" using assms(2) by (auto simp: bin_lfl_def)
  from BinRead_rd_safe [OF Cons.prems this, of f] obtain g s1 where
    s1: "BinaryReadStream_rd s f = Inr (g, s1)" "bin_rok lfl s1" "rs_fixed s1 = rs_fixed s"
      "rs_pos s \<le> rs_pos s1" by blast
  with Cons.IH [of s1] obtain v s2 where "read_all BinaryReadStream_rd s1 fs = Inr (v, s2)"
    "rs_wf s2" "rs_pos s1 \<le> rs_pos s2" "rs_pos s2 \<le> unat (rs_len s2)" "rs_fixed s2 = rs_fixed s1"
    by blast
  with s1 show ?case by (cases g) (auto simp: bin_rok_def)
qed

theorem bin_read_safe_witness:
  "\<exists>v s'. read_all BinaryReadStream_rd
      (BinaryReadStream_new [0, 6, 255, 255, 1, 2] 4096 6 2 LENGTH_INCLUDE_SELF) [FStr [1], FI64 0] = Inr (v, s')
    \<and> rs_wf s' \<and> 2 \<le> rs_pos s' \<and> rs_pos s' \<le> unat (rs_len s')
    \<and> rs_fixed s' = ([0, 6, 255, 255, 1, 2], 4096, 6)"
  using bin_read_safe [of 2 "BinaryReadStream_new [0, 6, 255, 255, 1, 2] 4096 6 2 LENGTH_INCLUDE_SELF" "[FStr [1], FI64 0]"]
  by (simp add: bin_rok_def BinaryReadStream_new_def rs_wf_def rs_pos_def rs_fixed_def BINARY_PACKLEN_LEN_def)

text \<open>\<open>ExtractStream\<close> on a receive buffer that starts with a packet: an empty stream while
  the packet is incomplete, then a stream of exactly the packet whatever follows it, under both
  header conventions. A packet without content is never extracted.\<close>

lemma bin_extract_packet:
  assumes "lfl \<in> {BINARY_PACKLEN_LEN, BINARY_PACKLEN_LEN_2}"
    and "bin_total flag lfl (length bs) < 2 ^ (8 * unat lfl)"
    and "unat lfl \<le> unat l" and "obj = bin_packet flag lfl bs @ ys"
  shows "BinaryReadStream_ExtractStream obj p l lfl flag =
    Inr (BinaryReadStream_new obj p
          (if bs = [] \<or> unat l < unat lfl + length bs then 0 else of_nat (unat lfl + length bs)) lfl flag)"
proof -
  have lfl: "bin_lfl lfl" using assms(1) by (auto simp: bin_lfl_def)
  have hdr: "take (unat lfl) obj = bin_len lfl (bin_total flag lfl (length bs))"
    using lfl assms(4) by (simp add: bin_packet_def)
  have "length bs < 2 ^ 32"
    using assms(2) bin_total_le [of "length bs" flag lfl] bin_lfl_cases [OF lfl] by auto
  then have un: "unat (of_nat (length bs + unat lfl) :: u64) = length bs + unat lfl"
    by (intro unat_of_nat_small) (use bin_lfl_cases [OF lfl] in auto)
  have "\<not> l < lfl" using assms(3) by (simp add: word_less_nat_alt)
  moreover have "l < of_nat (length bs + unat lfl) \<longleftrightarrow> unat l < unat lfl + length bs"
    "of_nat (length bs + unat lfl) \<le> lfl \<longleftrightarrow> bs = []"
    using un by (auto simp: word_less_nat_alt word_le_nat_alt add.commute simp del: of_nat_add)
  ultimately show ?thesis using BinRead_packlen [OF lfl hdr assms(2)]
    by (simp add: BinaryReadStream_ExtractStream_def add.commute)
qed

lemma bin_extract_packet_witness:
  "BinaryReadStream_ExtractStream (bin_packet LENGTH_EXCLUDE_SELF 4 [1, 2, 3] @ [9, 9]) 4096 9 4 LENGTH_EXCLUDE_SELF =
     Inr (BinaryReadStream_new (bin_packet LENGTH_EXCLUDE_SELF 4 [1, 2, 3] @ [9, 9]) 4096 7 4 LENGTH_EXCLUDE_SELF)"
  using bin_extract_packet [of 4 LENGTH_EXCLUDE_SELF "[1, 2, 3]" 9 "bin_packet LENGTH_EXCLUDE_SELF 4 [1, 2, 3] @ [9, 9]" "[9, 9]" 4096]
  by (simp add: BINARY_PACKLEN_LEN_def BINARY_PACKLEN_LEN_2_def bin_total_def)

text \<open>\<open>BinaryReadStream::ReadNoCopy\<close> does not compare the announced length with what is left:
  with a length field of more than the rest of the packet it returns \<open>true\<close> and that length,
  and moves the cursor past the end, where \<open>IsEnd\<close> fails its assertion. \<open>Read\<close> into a
  large enough buffer rejects the same field.\<close>

lemma bin_read_nocopy_unchecked:
  assumes "bin_rok lfl s" and "lfl \<in> {BINARY_PACKLEN_LEN, BINARY_PACKLEN_LEN_2}"
    and "rs_rest s = bin_len lfl v @ ys" and "v < 2 ^ (8 * unat lfl)" and "length ys < v"
  shows "\<exists>s'. BinaryReadStream_ReadNoCopy s = Inr (Some (rs_cur s + lfl, of_nat v), s')
      \<and> BinaryReadStream_IsEnd s' = Inl AssertFail
      \<and> BinaryReadStream_Read s (of_nat v) = Inr (None, s)"
proof -
  have lfl: "bin_lfl lfl" using assms(2) by (auto simp: bin_lfl_def)
  have wf: "rs_wf s" "br_lfl s = lfl" using assms(1) by (simp_all add: bin_rok_def)
  have tk: "take (unat lfl) (rs_rest s) = bin_len lfl v" using assms(3) lfl by simp
  have uv: "unat (bin_val lfl (bin_len lfl v)) = v" using bin_val_len [OF lfl] assms(4) by simp
  then have val: "bin_val lfl (bin_len lfl v) = of_nat v" by (rule eq_of_nat)
  have v64: "unat (of_nat v :: u64) = v" using uv val by simp
  have v32: "v < 2 ^ 32" using uv unat_bin_val_bound [of lfl "bin_len lfl v"] by simp
  have pos: "rs_pos s + unat lfl + length ys = unat (rs_len s)"
    using length_rs_rest [OF wf(1)] assms(1,3) lfl by (auto simp: bin_rok_def)
  let ?s1 = "s\<lparr>rs_cur := rs_cur s + lfl\<rparr>"
  have s1: "rs_wf ?s1" "rs_pos ?s1 = rs_pos s + unat lfl"
    using rs_step(3,5) [OF wf(1), of lfl] pos by simp_all
  have "rs_cur ?s1 + of_nat v > rs_ptr ?s1 + rs_len ?s1"
    using rs_check [OF s1(1), of "of_nat v"] s1(2) pos v64 v32 assms(5) by simp
  then show ?thesis
    using BinRead_length [OF wf(1)] BinRead_spec [OF wf(1), of "of_nat v"] lfl wf tk val v64 pos assms(5)
    by (simp add: BinaryReadStream_ReadNoCopy_def BinaryReadStream_ReadLength_def
        BinaryReadStream_IsEnd_def guardR_def)
qed

lemma bin_read_nocopy_unchecked_witness:
  "\<exists>s'. BinaryReadStream_ReadNoCopy (BinaryReadStream_new ([0, 5] @ bin_len 2 3 @ [7]) 4096 5 2 LENGTH_INCLUDE_SELF)
        = Inr (Some (4100, 3), s')
      \<and> BinaryReadStream_IsEnd s' = Inl AssertFail
      \<and> BinaryReadStream_Read (BinaryReadStream_new ([0, 5] @ bin_len 2 3 @ [7]) 4096 5 2 LENGTH_INCLUDE_SELF) 3
        = Inr (None, BinaryReadStream_new ([0, 5] @ bin_len 2 3 @ [7]) 4096 5 2 LENGTH_INCLUDE_SELF)"
  using bin_read_nocopy_unchecked
    [of 2 "BinaryReadStream_new ([0, 5] @ bin_len 2 3 @ [7]) 4096 5 2 LENGTH_INCLUDE_SELF" 3 "[7]"]
  by (simp add: BinaryReadStream_new_def bin_rok_def rs_wf_def rs_pos_def rs_rest_def
      BINARY_PACKLEN_LEN_def bin_len_def)

text \<open>With the default length field of 2 bytes \<open>BinaryWriteStream::Write\<close> accepts a string
  of any length that fits into the buffer, but stores the length modulo \<open>2 ^ 16\<close>: a reader
  gets only that many bytes and takes the rest of the string for the next fields.\<close>

lemma bin_write_truncates:
  assumes "bin_wok BINARY_PACKLEN_LEN w" and "ws_pos w + 2 + length bs \<le> unat (ws_len w)"
    and "bin_rok BINARY_PACKLEN_LEN r" and "rs_rest r = be_bytes 2 (of_nat (length bs mod 2 ^ 16) :: u16) @ bs"
  shows "\<exists>w' r'. BinaryWriteStream_Write w bs = Inr (True, w')
    \<and> ws_written w' = ws_written w @ be_bytes 2 (of_nat (length bs mod 2 ^ 16) :: u16) @ bs
    \<and> BinaryReadStream_Read r (2 ^ 20) = Inr (Some (take (length bs mod 2 ^ 16) bs), r')
    \<and> rs_rest r' = drop (length bs mod 2 ^ 16) bs"
proof -
  define m where "m = length bs mod 2 ^ 16"
  have lfl: "bin_lfl BINARY_PACKLEN_LEN" by (simp add: bin_lfl_def)
  have m: "(of_nat (length bs) :: u16) = of_nat m"
    by (rule word_unat_eq_iff [THEN iffD2]) (simp add: m_def unat_of_nat take_bit_eq_mod)
  have fr: "bin_frame BINARY_PACKLEN_LEN bs = be_bytes 2 (of_nat m :: u16) @ bs"
    using m by (simp add: bin_frame_def bin_len_def BINARY_PACKLEN_LEN_def)
  have room: "ws_pos w + length (bin_frame BINARY_PACKLEN_LEN bs) \<le> unat (ws_len w)"
    using assms(2) fr by simp
  have mle: "m \<le> length bs" and m16: "m < 2 ^ 16" by (simp_all add: m_def)
  have "bin_frame BINARY_PACKLEN_LEN (take m bs) = be_bytes 2 (of_nat m :: u16) @ take m bs"
    using mle by (simp add: bin_frame_def bin_len_def BINARY_PACKLEN_LEN_def)
  then have rest: "rs_rest r = bin_frame BINARY_PACKLEN_LEN (take m bs) @ drop m bs"
    using assms(4) by (simp add: m_def)
  from BinRead_frame [OF assms(3) lfl rest, of "2 ^ 20"] mle m16
  obtain r' where "BinaryReadStream_Read r (2 ^ 20) = Inr (Some (take m bs), r')" "rs_rest r' = drop m bs"
    by (auto simp: BINARY_PACKLEN_LEN_def)
  with BinWrite_frame [OF assms(1) lfl room] fr show ?thesis by (auto simp: m_def)
qed

lemma bin_write_truncates_witness:
  "\<exists>w' r'. BinaryWriteStream_Write (BinaryWriteStream_new (replicate 65550 0) 4096 65550 2 LENGTH_INCLUDE_SELF) (replicate 65538 1) = Inr (True, w')
    \<and> ws_written w' = replicate 2 0 @ be_bytes 2 (2 :: u16) @ replicate 65538 1
    \<and> BinaryReadStream_Read (BinaryReadStream_new (replicate 2 0 @ be_bytes 2 (2 :: u16) @ replicate 65538 1) 4096 65542 2 LENGTH_INCLUDE_SELF) (2 ^ 20)
        = Inr (Some (replicate 2 1), r')
    \<and> rs_rest r' = replicate 65536 1"
  using bin_write_truncates [of "BinaryWriteStream_new (replicate 65550 0) 4096 65550 2 LENGTH_INCLUDE_SELF" "replicate 65538 1"
      "BinaryReadStream_new (replicate 2 0 @ be_bytes 2 (2 :: u16) @ replicate 65538 1) 4096 65542 2 LENGTH_INCLUDE_SELF"]
  by (simp add: BINARY_PACKLEN_LEN_def BinaryWriteStream_new_def bin_wok_def ws_wf_def ws_pos_def
      BinaryReadStream_new_def bin_rok_def rs_wf_def rs_pos_def rs_rest_def ws_written_def)

end
