(* ===== verification/DoubleStream.thy ===== *)
theory DoubleStream
  imports TextCodec BinaryCodec
begin

text \<open>
  The two overloads that \<open>ReadStream\<close> and \<open>WriteStream\<close> implement themselves
  (\<open>pros/stream.cpp\<close>): a double travels as its decimal text, through the string overloads
  of the derived class. Those are the operations of the interface \<open>string_stream\<close>; the
  C library's \<open>atof\<close> and \<open>"%.15lf"\<close> are the parameters \<open>atof\<close> and
  \<open>fmt\<close>, of which nothing is assumed but that a C string holds no zero.
  What is shown is what the two buffers allow: 127 characters are written and 31 are read.
\<close>

section \<open>The operations\<close>

definition ReadStream_Read_double ::
  "('r \<Rightarrow> u64 \<Rightarrow> (byte list option \<times> 'r) result) \<Rightarrow> (byte list \<Rightarrow> 'd)
     \<Rightarrow> 'r \<Rightarrow> ('d option \<times> 'r) result" where
  "ReadStream_Read_double rd atof s =
     bindR (rd s (32 - 1)) (\<lambda>(r, s').
       Inr (case r of
              None \<Rightarrow> None
            | Some buffer \<Rightarrow> Some (atof (takeWhile (\<lambda>c. c \<noteq> 0) buffer)), s'))"

definition WriteStream_Write_double ::
  "('w \<Rightarrow> byte list \<Rightarrow> (bool \<times> 'w) result) \<Rightarrow> ('d \<Rightarrow> byte list)
     \<Rightarrow> 'w \<Rightarrow> 'd \<Rightarrow> (bool \<times> 'w) result" where
  "WriteStream_Write_double wr fmt s f = wr s (snprintf 128 (fmt f))"

section \<open>The interface of the string overloads\<close>

locale string_stream =
  fixes wr :: "'w \<Rightarrow> byte list \<Rightarrow> (bool \<times> 'w) result"
    and rd :: "'r \<Rightarrow> u64 \<Rightarrow> (byte list option \<times> 'r) result"
    and frame :: "byte list \<Rightarrow> byte list"
    and limit :: nat
    and written :: "'w \<Rightarrow> byte list"
    and room :: "'w \<Rightarrow> nat"
    and rest :: "'r \<Rightarrow> byte list"
    and wok :: "'w \<Rightarrow> bool"
    and rok :: "'r \<Rightarrow> bool"
  assumes wr_frame: "wok w \<Longrightarrow> length bs < limit \<Longrightarrow> length (frame bs) \<le> room w \<Longrightarrow>
      \<exists>w'. wr w bs = Inr (True, w') \<and> wok w' \<and> written w' = written w @ frame bs"
    and rd_frame: "rok r \<Longrightarrow> length bs < limit \<Longrightarrow> rest r = frame bs @ ys \<Longrightarrow>
      length bs \<le> unat n \<Longrightarrow> unat n < 2 ^ 62 \<Longrightarrow>
      \<exists>r'. rd r n = Inr (Some bs, r') \<and> rok r' \<and> rest r' = ys"
    and rd_long: "rok r \<Longrightarrow> length bs < limit \<Longrightarrow> rest r = frame bs @ ys \<Longrightarrow>
      unat n < length bs \<Longrightarrow> rd r n = Inr (None, r)"
    and limit: "127 < limit"
begin

text \<open>
  What \<open>Write\<close> has appended, \<open>Read\<close> turns back into the number that its text
  denotes when the text has at most 31 characters; otherwise \<open>Read\<close> fails and leaves
  the reader where it was, so that no later field can be read either.
\<close>

lemma double_write:
  assumes "wok w" and "length (frame (snprintf 128 (fmt d))) \<le> room w"
  shows "\<exists>w'. WriteStream_Write_double wr fmt w d = Inr (True, w') \<and> wok w'
    \<and> written w' = written w @ frame (snprintf 128 (fmt d))"
  unfolding WriteStream_Write_double_def
  by (rule wr_frame [OF assms(1) _ assms(2)]) (use limit in \<open>simp add: snprintf_def\<close>)

lemma double_read_short:
  assumes "rok r" and "rest r = frame (snprintf 128 (fmt d)) @ ys"
    and short: "length (fmt d) \<le> 31" and nz: "0 \<notin> set (fmt d)"
  shows "\<exists>r'. ReadStream_Read_double rd atof r = Inr (Some (atof (fmt d)), r') \<and> rok r' \<and> rest r' = ys"
proof -
  have b: "snprintf 128 (fmt d) = fmt d" using short by (simp add: snprintf_def)
  have z: "takeWhile (\<lambda>c. c \<noteq> 0) (fmt d) = fmt d" using nz by (auto simp: takeWhile_eq_all_conv)
  have "length (fmt d) < limit" using short limit by simp
  then obtain r' where "rd r 31 = Inr (Some (fmt d), r')" "rok r'" "rest r' = ys"
    using rd_frame [of r "fmt d" ys 31] assms(1,2) b short by auto
  then show ?thesis by (simp add: ReadStream_Read_double_def z)
qed

lemma double_read_long:
  assumes "rok r" and "rest r = frame (snprintf 128 (fmt d)) @ ys" and "31 < length (fmt d)"
  shows "ReadStream_Read_double rd atof r = Inr (None, r)"
proof -
  have "31 < length (snprintf 128 (fmt d))" "length (snprintf 128 (fmt d)) < limit"
    using assms(3) limit by (simp_all add: snprintf_def)
  with rd_long [OF assms(1) _ assms(2), of 31] show ?thesis
    by (simp add: ReadStream_Read_double_def)
qed

end

section \<open>The streams of the program\<close>

lemma text_read_long:
  assumes ok: "text_rok lfl r" and lfl: "0 < lfl" "unat lfl \<le> 15" and fits: "length bs < 16 ^ unat lfl"
    and rest: "rs_rest r = text_frame (unat lfl) bs @ ys" and n: "unat n < length bs"
  shows "TextReadStream_Read r n = Inr (None, r)"
proof -
  have wf: "rs_wf r" and l: "tr_lfl r = lfl" using ok by (simp_all add: text_rok_def)
  have k: "length (text_len (unat lfl) (length bs)) = unat lfl"
    using lfl fits by (simp add: word_less_nat_alt)
  have v: "strtol 16 (take (unat lfl) (rs_rest r)) = int (length bs)"
    using k strtol_text_len [OF lfl(2) fits] by (simp add: rest text_frame_def)
  have lb: "length bs < 2 ^ 60" using pow16_15 [OF lfl(2) fits] .
  then have "n < word_of_int (int (length bs))" "unat n < 2 ^ 62"
    using n by (simp_all add: word_less_nat_alt unat_of_nat_small)
  then show ?thesis using TextRead_spec [OF wf, of n] lfl(2) l v by simp
qed

lemma text_string_stream:
  assumes "0 < lfl" and "unat lfl \<le> 15" and "2 \<le> unat lfl"
  shows "string_stream TextWriteStream_Write TextReadStream_Read (text_frame (unat lfl))
    (16 ^ unat lfl) ws_written ws_room rs_rest (text_wok lfl) (text_rok lfl)"
proof unfold_locales
  fix w :: TextWriteStream and bs
  assume "text_wok lfl w" "length bs < 16 ^ unat lfl" "length (text_frame (unat lfl) bs) \<le> ws_room w"
  with text_wr_ok [of lfl w "FStr bs"] assms
  show "\<exists>w'. TextWriteStream_Write w bs = Inr (True, w') \<and> text_wok lfl w'
      \<and> ws_written w' = ws_written w @ text_frame (unat lfl) bs"
    by (auto simp: text_enc_def text_fits_def)
next
  fix r bs ys and n :: u64
  assume "text_rok lfl r" "length bs < 16 ^ unat lfl" "rs_rest r = text_frame (unat lfl) bs @ ys"
    "length bs \<le> unat n" "unat n < 2 ^ 62"
  with text_read_payload [of lfl r "FStr bs" ys n] assms
  show "\<exists>r'. TextReadStream_Read r n = Inr (Some bs, r') \<and> text_rok lfl r' \<and> rs_rest r' = ys"
    by (auto simp: text_enc_def text_fits_def)
next
  fix r bs ys and n :: u64
  assume "text_rok lfl r" "length bs < 16 ^ unat lfl" "rs_rest r = text_frame (unat lfl) bs @ ys"
    "unat n < length bs"
  with assms show "TextReadStream_Read r n = Inr (None, r)" by (intro text_read_long)
next
  have "(16 :: nat) ^ 2 \<le> 16 ^ unat lfl" by (rule power_increasing) (use assms in simp_all)
  then show "127 < (16 :: nat) ^ unat lfl" by simp
qed

lemma bin_read_long:
  assumes ok: "bin_rok lfl r" and lfl: "bin_lfl lfl" and fits: "length bs < 2 ^ (8 * unat lfl)"
    and rest: "rs_rest r = bin_frame lfl bs @ ys" and n: "unat n < length bs"
  shows "BinaryReadStream_Read r n = Inr (None, r)"
proof -
  have wf: "rs_wf r" and l: "br_lfl r = lfl" using ok by (simp_all add: bin_rok_def)
  have "unat (bin_val lfl (take (unat lfl) (rs_rest r))) = length bs"
    using lfl fits by (simp add: rest bin_frame_def bin_val_len)
  then have "n < bin_val lfl (take (unat lfl) (rs_rest r))" using n by (simp add: word_less_nat_alt)
  then show ?thesis using BinRead_spec [OF wf, of n] lfl l by simp
qed

lemma bin_string_stream:
  assumes lfl: "bin_lfl lfl"
  shows "string_stream BinaryWriteStream_Write BinaryReadStream_Read (bin_frame lfl)
    (2 ^ (8 * unat lfl)) ws_written ws_room rs_rest (bin_wok lfl) (bin_rok lfl)"
proof unfold_locales
  fix w :: BinaryWriteStream and bs
  assume "bin_wok lfl w" "length bs < 2 ^ (8 * unat lfl)" "length (bin_frame lfl bs) \<le> ws_room w"
  with bin_wr_ok [OF lfl, of w "FStr bs"]
  show "\<exists>w'. BinaryWriteStream_Write w bs = Inr (True, w') \<and> bin_wok lfl w'
      \<and> ws_written w' = ws_written w @ bin_frame lfl bs" by auto
next
  fix r bs ys and n :: u64
  assume "bin_rok lfl r" "length bs < 2 ^ (8 * unat lfl)" "rs_rest r = bin_frame lfl bs @ ys"
    "length bs \<le> unat n" "unat n < 2 ^ 62"
  with BinRead_frame [OF _ lfl, of r bs ys n]
  show "\<exists>r'. BinaryReadStream_Read r n = Inr (Some bs, r') \<and> bin_rok lfl r' \<and> rs_rest r' = ys" by auto
next
  fix r bs ys and n :: u64
  assume "bin_rok lfl r" "length bs < 2 ^ (8 * unat lfl)" "rs_rest r = bin_frame lfl bs @ ys"
    "unat n < length bs"
  with lfl show "BinaryReadStream_Read r n = Inr (None, r)" by (intro bin_read_long)
next
  show "127 < (2 :: nat) ^ (8 * unat lfl)" using bin_lfl_cases [OF lfl] by auto
qed

interpretation text_strings: string_stream TextWriteStream_Write TextReadStream_Read "text_frame 4"
    "16 ^ 4" ws_written ws_room rs_rest "text_wok TEXT_PACKLEN_LEN" "text_rok TEXT_PACKLEN_LEN"
  using text_string_stream [of TEXT_PACKLEN_LEN] by (simp add: TEXT_PACKLEN_LEN_def)

interpretation text6_strings: string_stream TextWriteStream_Write TextReadStream_Read "text_frame 6"
    "16 ^ 6" ws_written ws_room rs_rest "text_wok TEXT_PACKLEN_LEN_2" "text_rok TEXT_PACKLEN_LEN_2"
  using text_string_stream [of TEXT_PACKLEN_LEN_2] by (simp add: TEXT_PACKLEN_LEN_2_def)

interpretation bin2_strings: string_stream BinaryWriteStream_Write BinaryReadStream_Read
    "bin_frame BINARY_PACKLEN_LEN" "2 ^ (8 * unat BINARY_PACKLEN_LEN)" ws_written ws_room rs_rest
    "bin_wok BINARY_PACKLEN_LEN" "bin_rok BINARY_PACKLEN_LEN"
  by (rule bin_string_stream) (simp add: bin_lfl_def)

interpretation bin4_strings: string_stream BinaryWriteStream_Write BinaryReadStream_Read
    "bin_frame BINARY_PACKLEN_LEN_2" "2 ^ (8 * unat BINARY_PACKLEN_LEN_2)" ws_written ws_room rs_rest
    "bin_wok BINARY_PACKLEN_LEN_2" "bin_rok BINARY_PACKLEN_LEN_2"
  by (rule bin_string_stream) (simp add: bin_lfl_def)

end
