(* ===== verification/DataBlock.thy ===== *)
theory DataBlock
  imports Prelude
begin

text \<open>
  \<open>utils/allocator.cpp\<close> and \<open>utils/datablock.cpp\<close>. The heap is outside the
  repository: \<open>operator new\<close> is the parameter \<open>new\<close>, which gives the bytes (of unknown
  content) of a fresh object or \<open>None\<close>. A block is the object behind \<open>_pBegin\<close>
  (\<open>db_init\<close> says that \<open>_pBegin\<close> is not null) with \<open>_pEnd\<close> and \<open>_pEndOfBlock\<close> as
  64-bit offsets from \<open>_pBegin\<close>; since every object starts at its own address, these
  offsets are what the pointer differences of the code compute. A source pointer is an offset
  into the block or the start of another object, which is disjoint from the block, so that
  its difference to \<open>_pBegin\<close> is negative or at least the capacity.
\<close>

section \<open>NewAllocator and MallocAllocator\<close>

type_synonym heap_new = "u64 \<Rightarrow> byte list option"

text \<open>The result and \<open>*pRealSize\<close>.\<close>

definition NewAllocator_Allocate :: "heap_new \<Rightarrow> u64 \<Rightarrow> byte list option \<times> u64" where
  "NewAllocator_Allocate new iSize = (new iSize, iSize)"

definition MallocAllocator_Allocate :: "heap_new \<Rightarrow> u64 \<Rightarrow> byte list option \<times> u64" where
  "MallocAllocator_Allocate malloc iSize = (malloc iSize, iSize)"

text \<open>What \<open>operator new\<close> documents: an object of the size asked for, in user space.\<close>

definition heap_ok :: "heap_new \<Rightarrow> bool" where
  "heap_ok new \<longleftrightarrow> (\<forall>n bs. new n = Some bs \<longrightarrow> length bs = unat n \<and> unat n < 2 ^ 63)"

section \<open>DataBlock\<close>

record DataBlock =
  db_init :: bool
  db_mem :: "byte list"
  db_end :: u64
  db_cap :: u64

datatype srcptr = InBlock u64 | Foreign "byte list"

definition DEFAULT_BLOCK_SIZE :: u64 where "DEFAULT_BLOCK_SIZE = 1024"

definition DataBlock_new :: "heap_new \<Rightarrow> u64 \<Rightarrow> DataBlock" where
  "DataBlock_new new iSize =
     (let (p, iRealSize) = NewAllocator_Allocate new iSize in
      case p of
        None \<Rightarrow> \<lparr>db_init = False, db_mem = [], db_end = 0, db_cap = 0\<rparr>
      | Some bs \<Rightarrow> \<lparr>db_init = True, db_mem = bs, db_end = 0, db_cap = iRealSize\<rparr>)"

definition DataBlock_GetSize :: "DataBlock \<Rightarrow> u64" where
  "DataBlock_GetSize db = db_end db"

definition DataBlock_GetAvailable :: "DataBlock \<Rightarrow> u64" where
  "DataBlock_GetAvailable db = db_cap db - db_end db"

definition DataBlock_GetCapacity :: "DataBlock \<Rightarrow> u64" where
  "DataBlock_GetCapacity db = db_cap db"

definition DataBlock_IsEmpty :: "DataBlock \<Rightarrow> bool" where
  "DataBlock_IsEmpty db \<longleftrightarrow> 0 = db_end db"

definition DataBlock_IsFull :: "DataBlock \<Rightarrow> bool" where
  "DataBlock_IsFull db \<longleftrightarrow> db_end db = db_cap db"

definition DataBlock_Clear :: "DataBlock \<Rightarrow> DataBlock" where
  "DataBlock_Clear db = db\<lparr>db_end := 0\<rparr>"

definition DataBlock_Swap :: "DataBlock \<Rightarrow> DataBlock \<Rightarrow> DataBlock \<times> DataBlock" where
  "DataBlock_Swap a b = (b, a)"

definition DataBlock_IncEnd :: "DataBlock \<Rightarrow> u64 \<Rightarrow> int \<times> DataBlock" where
  "DataBlock_IncEnd db iSize =
     (if iSize > DataBlock_GetAvailable db then (- 1, db)
      else (0, db\<lparr>db_end := db_end db + iSize\<rparr>))"

definition DataBlock_DecEnd :: "DataBlock \<Rightarrow> u64 \<Rightarrow> int \<times> DataBlock" where
  "DataBlock_DecEnd db iSize =
     (if iSize > DataBlock_GetSize db then (- 1, db)
      else (0, db\<lparr>db_end := db_end db - iSize\<rparr>))"

text \<open>
  The move of \<open>Copy\<close>: \<open>memmove\<close> when the source is in the used part of the block, else
  \<open>memcpy\<close> from the pointer as it was passed, which \<open>Resize\<close> has freed when it pointed into the
  block (\<open>moved\<close>).
\<close>

definition DataBlock_move :: "bool \<Rightarrow> DataBlock \<Rightarrow> u64 \<Rightarrow> srcptr \<Rightarrow> u64 \<Rightarrow> DataBlock result" where
  "DataBlock_move moved db iDestOffset src iSize =
     (let n = unat iSize;
          put = (\<lambda>bs. if unat iDestOffset + n \<le> length (db_mem db)
                      then Inr (db\<lparr>db_mem := overwrite (db_mem db) (unat iDestOffset) bs\<rparr>)
                      else Inl OutOfBounds)
      in case src of
           InBlock off \<Rightarrow>
             if off < DataBlock_GetSize db
             then (if unat off + n \<le> length (db_mem db) then put (take n (drop (unat off) (db_mem db)))
                   else Inl OutOfBounds)
             else if n = 0 then Inr db
             else if moved then Inl Dangling
             else if unat off + n \<le> length (db_mem db)
             then (if unat iDestOffset + n \<le> unat off \<or> unat off + n \<le> unat iDestOffset
                   then put (take n (drop (unat off) (db_mem db))) else Inl Overlap)
             else Inl OutOfBounds
         | Foreign bs \<Rightarrow> if n \<le> length bs then put (take n bs) else Inl OutOfBounds)"

text \<open>
  \<open>Copy\<close> calls \<open>Resize\<close> when the block is too small, and \<open>Resize\<close> calls \<open>Append\<close>, that is
  \<open>Copy\<close> at the end, on the block it has just allocated. Each returns the \<open>int\<close> of the code and
  the block.
\<close>

function DataBlock_Resize :: "heap_new \<Rightarrow> DataBlock \<Rightarrow> u64 \<Rightarrow> (int \<times> DataBlock) result"
  and DataBlock_Copy :: "heap_new \<Rightarrow> DataBlock \<Rightarrow> u64 \<Rightarrow> srcptr \<Rightarrow> u64 \<Rightarrow> (int \<times> DataBlock) result"
where
  "DataBlock_Resize new db iSize =
     (if iSize \<le> DataBlock_GetCapacity db
      then Inr (0, if iSize < db_end db then db\<lparr>db_end := iSize\<rparr> else db)
      else if \<not> db_init (DataBlock_new new iSize) then Inr (- 1, db)
      else bindR (DataBlock_Copy new (DataBlock_new new iSize) (db_end (DataBlock_new new iSize))
                    (Foreign (db_mem db)) (min (DataBlock_GetSize db) iSize))
             (\<lambda>(r, oDataBlockTmp). if r \<noteq> 0 then Inr (- 1, db)
                                  else Inr (0, fst (DataBlock_Swap db oDataBlockTmp))))"
| "DataBlock_Copy new db iDestOffset src iSize =
     (if iDestOffset > db_end db then Inr (- 1, db)
      else if iDestOffset + iSize > DataBlock_GetCapacity db
      then bindR (DataBlock_Resize new db (iDestOffset + iSize)) (\<lambda>(r, db').
             if r \<noteq> 0 then Inr (- 1, db')
             else bindR (DataBlock_move True db' iDestOffset src iSize) (\<lambda>db''.
               Inr (DataBlock_IncEnd db'' (if sint (iDestOffset + iSize - DataBlock_GetSize db) < 0 then 0
                                           else iDestOffset + iSize - DataBlock_GetSize db))))
      else bindR (DataBlock_move False db iDestOffset src iSize) (\<lambda>db''.
             Inr (DataBlock_IncEnd db'' (if sint (iDestOffset + iSize - DataBlock_GetSize db) < 0 then 0
                                         else iDestOffset + iSize - DataBlock_GetSize db))))"
  by pat_completeness auto

termination
proof (relation "measure (\<lambda>x. case x of
      Inl (new, db, n) \<Rightarrow> if n \<le> DataBlock_GetCapacity db then 0 else 1 + 1
    | Inr (new, db, d, s, n) \<Rightarrow> if d \<le> db_end db \<and> d + n > DataBlock_GetCapacity db then 1 + 1 + 1 else 1)")
  fix new :: heap_new and db :: DataBlock and n :: u64
  assume "\<not> n \<le> DataBlock_GetCapacity db" and "\<not> \<not> db_init (DataBlock_new new n)"
  then show "(Inr (new, DataBlock_new new n, db_end (DataBlock_new new n), Foreign (db_mem db),
      min (DataBlock_GetSize db) n), Inl (new, db, n)) \<in> measure (\<lambda>x. case x of
      Inl (new, db, n) \<Rightarrow> if n \<le> DataBlock_GetCapacity db then 0 else 1 + 1
    | Inr (new, db, d, s, n) \<Rightarrow> if d \<le> db_end db \<and> d + n > DataBlock_GetCapacity db then 1 + 1 + 1 else 1)"
    by (auto simp: DataBlock_new_def NewAllocator_Allocate_def DataBlock_GetCapacity_def split: option.splits)
qed auto

declare DataBlock_Resize.simps [simp del] and DataBlock_Copy.simps [simp del]

definition DataBlock_Append :: "heap_new \<Rightarrow> DataBlock \<Rightarrow> srcptr \<Rightarrow> u64 \<Rightarrow> (int \<times> DataBlock) result" where
  "DataBlock_Append new db src iSize = DataBlock_Copy new db (db_end db) src iSize"

definition DataBlock_Erase :: "heap_new \<Rightarrow> DataBlock \<Rightarrow> u64 \<Rightarrow> u64 \<Rightarrow> (int \<times> DataBlock) result" where
  "DataBlock_Erase new db pBegin pEnd =
     (if pBegin = pEnd then Inr (0, db)
      else if pBegin > pEnd then Inr (- 1, db)
      else if pEnd > db_end db then Inr (- 1, db)
      else if pBegin = 0 \<and> pEnd = db_end db then Inr (0, DataBlock_Clear db)
      else bindR (DataBlock_Copy new db pBegin (InBlock pEnd) (db_end db - pEnd)) (\<lambda>(r, db').
             if r \<noteq> 0 then Inr (- 1, db') else Inr (DataBlock_DecEnd db' (pEnd - pBegin))))"

text \<open>
  The copy constructor, which leaves \<open>_pEnd\<close> and \<open>_pEndOfBlock\<close> without a value when there is no
  memory, and the assignment, which swaps with such a copy.
\<close>

definition DataBlock_copy_ctor :: "heap_new \<Rightarrow> DataBlock \<Rightarrow> DataBlock result" where
  "DataBlock_copy_ctor new oDataBlock =
     (let iCapacity = DataBlock_GetCapacity oDataBlock in
      case fst (NewAllocator_Allocate new iCapacity) of
        None \<Rightarrow> Inl Uninit
      | Some bs \<Rightarrow>
          bindR (DataBlock_Append new \<lparr>db_init = True, db_mem = bs, db_end = 0, db_cap = iCapacity\<rparr>
                   (Foreign (db_mem oDataBlock)) (DataBlock_GetSize oDataBlock))
            (\<lambda>(r, db). Inr db))"

definition DataBlock_assign :: "heap_new \<Rightarrow> DataBlock \<Rightarrow> DataBlock \<Rightarrow> DataBlock result" where
  "DataBlock_assign new db oDataBlock =
     bindR (DataBlock_copy_ctor new oDataBlock) (\<lambda>oDataBlockTmp. Inr (fst (DataBlock_Swap db oDataBlockTmp)))"

end
