(* ===== verification/DataBlockProps.thy ===== *)
theory DataBlockProps
  imports DataBlock
begin

text \<open>
  Correctness of \<open>DataBlock\<close>: the well-formedness invariant, the contents after every
  operation as an operation on the list of the bytes in use (\<open>db_data\<close>), and what happens
  without memory. The last part gives the facts that the components above the block use.
\<close>

definition db_wf :: "DataBlock \<Rightarrow> bool" where
  "db_wf db \<longleftrightarrow> length (db_mem db) = unat (db_cap db) \<and> unat (db_cap db) < 2 ^ 63 \<and> db_end db \<le> db_cap db"

definition db_data :: "DataBlock \<Rightarrow> byte list" where
  "db_data db = take (unat (db_end db)) (db_mem db)"

fun src_ok :: "DataBlock \<Rightarrow> srcptr \<Rightarrow> nat \<Rightarrow> bool" where
  "src_ok db (InBlock off) n = (unat off + n \<le> length (db_data db))"
| "src_ok db (Foreign bs) n = (n \<le> length bs)"

fun src_bytes :: "DataBlock \<Rightarrow> srcptr \<Rightarrow> nat \<Rightarrow> byte list" where
  "src_bytes db (InBlock off) n = take n (drop (unat off) (db_data db))"
| "src_bytes db (Foreign bs) n = take n bs"

section \<open>Sizes and allocation\<close>

lemma length_db_data [simp]: "db_wf db \<Longrightarrow> length (db_data db) = unat (db_end db)"
  by (simp add: db_wf_def db_data_def word_le_nat_alt)

lemma db_wf_end: "db_wf db \<Longrightarrow> unat (db_end db) \<le> unat (db_cap db)"
  by (simp add: db_wf_def word_le_nat_alt)

lemma DataBlock_new_cases:
  assumes "heap_ok new"
  obtains "new n = None" "\<not> db_init (DataBlock_new new n)" "db_wf (DataBlock_new new n)"
  | bs where "new n = Some bs" "DataBlock_new new n = \<lparr>db_init = True, db_mem = bs, db_end = 0, db_cap = n\<rparr>"
      "db_wf (DataBlock_new new n)"
proof (cases "new n")
  case None
  then show ?thesis using that(1) by (simp add: DataBlock_new_def NewAllocator_Allocate_def db_wf_def)
next
  case (Some bs)
  then have "length bs = unat n" "unat n < 2 ^ 63" using assms by (auto simp: heap_ok_def)
  then show ?thesis using that(2) Some
    by (simp add: DataBlock_new_def NewAllocator_Allocate_def db_wf_def)
qed

lemma size_add:
  fixes d n :: u64
  assumes "unat d + unat n < 2 ^ 63"
  shows "unat (d + n) = unat d + unat n"
  by (rule unat_add_nowrap) (use assms in simp)

lemma inc_sign:
  fixes a b :: u64
  assumes "unat a < 2 ^ 63" and "unat b < 2 ^ 63"
  shows "unat (if sint (a - b) < 0 then 0 else a - b) = unat a - unat b"
proof -
  have "a - b = word_of_int (int (unat a) - int (unat b))" by simp
  moreover have "sint (word_of_int (int (unat a) - int (unat b)) :: u64) = int (unat a) - int (unat b)"
    by (rule sint_nat_diff [OF assms])
  ultimately have "sint (a - b) = int (unat a) - int (unat b)" by (simp only:)
  then have "sint (a - b) < 0 \<longleftrightarrow> unat a < unat b" by linarith
  moreover have "unat (a - b) = unat a - unat b" if "unat b \<le> unat a"
    using unat_sub_le [of b a] that by (simp add: word_le_nat_alt)
  ultimately show ?thesis by auto
qed

section \<open>The move\<close>

lemma DataBlock_move_ok:
  assumes wf: "db_wf db" and dest: "unat d + unat n \<le> unat (db_cap db)" and src: "src_ok db src (unat n)"
  shows "DataBlock_move moved db d src n =
     Inr (db\<lparr>db_mem := overwrite (db_mem db) (unat d) (src_bytes db src (unat n))\<rparr>)"
proof (cases src)
  case (Foreign bs)
  then show ?thesis using wf dest src by (simp add: DataBlock_move_def db_wf_def)
next
  case (InBlock off)
  note b = db_wf_end [OF wf]
  have len: "unat off + unat n \<le> unat (db_end db)" using src wf InBlock by simp
  show ?thesis
  proof (cases "off < db_end db")
    case True
    have "take (unat n) (drop (unat off) (db_data db)) = take (unat n) (drop (unat off) (db_mem db))"
      using len by (simp add: db_data_def drop_take min_def)
    then show ?thesis using wf dest InBlock True len b
      by (simp add: DataBlock_move_def db_wf_def DataBlock_GetSize_def)
  next
    case False
    then have "unat n = 0" using len by (simp add: word_less_nat_alt)
    then show ?thesis using wf dest InBlock False
      by (simp add: DataBlock_move_def db_wf_def DataBlock_GetSize_def)
  qed
qed

lemma length_src_bytes: "src_ok db src n \<Longrightarrow> length (src_bytes db src n) = n"
  by (cases src) auto

lemma src_cong: "db_data a = db_data b \<Longrightarrow> src_ok a s n = src_ok b s n \<and> src_bytes a s n = src_bytes b s n"
  by (cases s) auto

text \<open>The move and the advance of the end that follows it, on a block with enough room.\<close>

lemma DataBlock_write_step:
  assumes wf: "db_wf db" and dest: "unat d \<le> unat (db_end db)"
    and room: "unat d + unat n \<le> unat (db_cap db)" and src: "src_ok db src (unat n)"
  defines "inc \<equiv> if sint (d + n - DataBlock_GetSize db) < 0 then 0 else d + n - DataBlock_GetSize db"
  shows "\<exists>db'. bindR (DataBlock_move moved db d src n) (\<lambda>x. Inr (DataBlock_IncEnd x inc)) = Inr (0, db')
    \<and> db_wf db' \<and> db_cap db' = db_cap db \<and> db_init db' = db_init db
    \<and> db_data db' = take (unat d) (db_data db) @ src_bytes db src (unat n)
        @ drop (unat d + unat n) (db_data db)"
proof -
  define m where "m = overwrite (db_mem db) (unat d) (src_bytes db src (unat n))"
  note b = db_wf_end [OF wf]
  have cap: "unat (db_cap db) < 2 ^ 63" "length (db_mem db) = unat (db_cap db)"
    using wf by (simp_all add: db_wf_def)
  have dn: "unat (d + n) = unat d + unat n" by (rule size_add) (use room cap in simp)
  have inc: "unat inc = unat d + unat n - unat (db_end db)"
    unfolding inc_def DataBlock_GetSize_def by (subst inc_sign) (use room cap b dn in simp_all)
  have e: "unat (db_end db + inc) = max (unat (db_end db)) (unat d + unat n)"
    by (subst size_add) (use inc b room cap in auto)
  have av: "unat (db_cap db - db_end db) = unat (db_cap db) - unat (db_end db)"
    by (rule unat_sub_le) (use wf in \<open>simp add: db_wf_def\<close>)
  let ?db = "db\<lparr>db_mem := m, db_end := db_end db + inc\<rparr>"
  have ls: "length (src_bytes db src (unat n)) = unat n" by (rule length_src_bytes [OF src])
  have lm: "length m = unat (db_cap db)" using room cap ls by (simp add: m_def)
  have "bindR (DataBlock_move moved db d src n) (\<lambda>x. Inr (DataBlock_IncEnd x inc)) = Inr (0, ?db)"
    using DataBlock_move_ok [OF wf room src] inc av b room
    by (simp add: DataBlock_IncEnd_def DataBlock_GetAvailable_def m_def word_less_nat_alt)
  moreover have "db_wf ?db" using lm cap e b room by (simp add: db_wf_def word_le_nat_alt)
  moreover have "db_data ?db = take (unat d) (db_data db) @ src_bytes db src (unat n)
      @ drop (unat d + unat n) (db_data db)"
  proof (rule nth_equalityI)
    show "length (db_data ?db) = length (take (unat d) (db_data db) @ src_bytes db src (unat n)
        @ drop (unat d + unat n) (db_data db))"
      using \<open>db_wf ?db\<close> wf e ls dest by simp
    fix i
    assume "i < length (db_data ?db)"
    then show "db_data ?db ! i = (take (unat d) (db_data db) @ src_bytes db src (unat n)
        @ drop (unat d + unat n) (db_data db)) ! i"
      using \<open>db_wf ?db\<close> wf e ls dest b cap room
      by (auto simp: db_data_def m_def overwrite_def nth_append)
  qed
  ultimately show ?thesis by (intro exI [of _ ?db]) simp
qed

section \<open>Resize and Copy\<close>

lemma DataBlock_Copy_fits:
  assumes wf: "db_wf db" and dest: "unat d \<le> unat (db_end db)"
    and room: "unat d + unat n \<le> unat (db_cap db)" and src: "src_ok db src (unat n)"
  shows "\<exists>db'. DataBlock_Copy new db d src n = Inr (0, db') \<and> db_wf db' \<and> db_cap db' = db_cap db
    \<and> db_init db' = db_init db
    \<and> db_data db' = take (unat d) (db_data db) @ src_bytes db src (unat n)
        @ drop (unat d + unat n) (db_data db)"
proof -
  have dn: "unat (d + n) = unat d + unat n"
    by (rule size_add) (use room wf in \<open>simp add: db_wf_def\<close>)
  have "\<not> d > db_end db" "\<not> d + n > DataBlock_GetCapacity db"
    using dest room dn by (simp_all add: word_less_nat_alt DataBlock_GetCapacity_def)
  then show ?thesis using DataBlock_write_step [OF wf dest room src, of False]
    by (subst DataBlock_Copy.simps) (simp split del: if_split)
qed

lemma DataBlock_Resize_grow:
  assumes wf: "db_wf db" and ok: "heap_ok new" and big: "unat n > unat (db_cap db)"
  shows "(new n = None \<longrightarrow> DataBlock_Resize new db n = Inr (- 1, db))
    \<and> (new n \<noteq> None \<longrightarrow> (\<exists>db'. DataBlock_Resize new db n = Inr (0, db') \<and> db_wf db' \<and> db_init db'
        \<and> db_cap db' = n \<and> db_data db' = db_data db \<and> db_end db' = db_end db))"
proof -
  have gt: "\<not> n \<le> DataBlock_GetCapacity db" using big by (simp add: DataBlock_GetCapacity_def word_le_nat_alt)
  from DataBlock_new_cases [OF ok, of n] show ?thesis
  proof cases
    case 1
    with gt show ?thesis by (subst DataBlock_Resize.simps)+ simp
  next
    case (2 bs)
    let ?t = "DataBlock_new new n"
    note b = db_wf_end [OF wf]
    have mn: "min (DataBlock_GetSize db) n = db_end db"
      using b big by (simp add: DataBlock_GetSize_def word_le_nat_alt min_def)
    have src: "src_ok ?t (Foreign (db_mem db)) (unat (db_end db))"
      using wf b by (simp add: db_wf_def)
    from DataBlock_Copy_fits [OF 2(3) _ _ src, of 0 new] 2(2) b big obtain t' where
      t: "DataBlock_Copy new ?t 0 (Foreign (db_mem db)) (db_end db) = Inr (0, t')" "db_wf t'"
        "db_cap t' = n" "db_init t'" "db_data t' = db_data db"
      by (auto simp: db_data_def)
    have "unat (db_end t') = unat (db_end db)"
      using length_db_data [OF t(2)] length_db_data [OF wf] t(5) by simp
    then have "db_end t' = db_end db" by (simp add: word_unat_eq_iff)
    with gt t 2 mn show ?thesis
      by (subst DataBlock_Resize.simps)+ (simp add: DataBlock_Swap_def)
  qed
qed

lemma DataBlock_Resize_small:
  assumes "db_wf db" and "unat n \<le> unat (db_cap db)"
  shows "\<exists>db'. DataBlock_Resize new db n = Inr (0, db') \<and> db_wf db' \<and> db_cap db' = db_cap db
    \<and> db_init db' = db_init db \<and> db_data db' = take (unat n) (db_data db)"
proof -
  let ?db = "if n < db_end db then db\<lparr>db_end := n\<rparr> else db"
  have "DataBlock_Resize new db n = Inr (0, ?db)"
    using assms by (subst DataBlock_Resize.simps) (simp add: DataBlock_GetCapacity_def word_le_nat_alt)
  moreover have "db_wf ?db" "db_data ?db = take (unat n) (db_data db)"
    using assms by (auto simp: db_wf_def word_less_nat_alt word_le_nat_alt db_data_def min_def)
  ultimately show ?thesis by auto
qed

lemma DataBlock_Copy_spec:
  assumes wf: "db_wf db" and ok: "heap_ok new" and dest: "unat d \<le> unat (db_end db)"
    and src: "src_ok db src (unat n)" and size: "unat d + unat n < 2 ^ 63"
  shows "(unat d + unat n > unat (db_cap db) \<and> new (d + n) = None \<longrightarrow>
        DataBlock_Copy new db d src n = Inr (- 1, db))
    \<and> (\<not> (unat d + unat n > unat (db_cap db) \<and> new (d + n) = None) \<longrightarrow>
        (\<exists>db'. DataBlock_Copy new db d src n = Inr (0, db') \<and> db_wf db'
          \<and> db_init db' = (db_init db \<or> unat d + unat n > unat (db_cap db))
          \<and> unat (db_cap db') = max (unat (db_cap db)) (unat d + unat n)
          \<and> db_data db' = take (unat d) (db_data db) @ src_bytes db src (unat n)
              @ drop (unat d + unat n) (db_data db)))"
proof (cases "unat d + unat n > unat (db_cap db)")
  case False
  then show ?thesis using DataBlock_Copy_fits [OF wf dest _ src, of new] by auto
next
  case True
  have dn: "unat (d + n) = unat d + unat n" by (rule size_add [OF size])
  have le: "\<not> d > db_end db" "d + n > DataBlock_GetCapacity db"
    using dest True dn by (simp_all add: word_less_nat_alt DataBlock_GetCapacity_def)
  note gr = DataBlock_Resize_grow [OF wf ok, of "d + n"]
  show ?thesis
  proof (cases "new (d + n)")
    case None
    then show ?thesis using gr True dn le by (subst DataBlock_Copy.simps)+ simp
  next
    case (Some bs)
    then obtain db1 where r: "DataBlock_Resize new db (d + n) = Inr (0, db1)" "db_wf db1" "db_init db1"
      "db_cap db1 = d + n" "db_data db1 = db_data db" "db_end db1 = db_end db"
      using gr True dn by auto
    have src1: "src_ok db1 src (unat n)" "src_bytes db1 src (unat n) = src_bytes db src (unat n)"
      using src src_cong [OF r(5)] by simp_all
    from DataBlock_write_step [OF r(2) _ _ src1(1), of d True] dest dn r(3,4,5,6) src1 obtain db2 where
      "bindR (DataBlock_move True db1 d src n) (\<lambda>x. Inr (DataBlock_IncEnd x
          (if sint (d + n - DataBlock_GetSize db1) < 0 then 0 else d + n - DataBlock_GetSize db1))) = Inr (0, db2)"
      "db_wf db2" "db_cap db2 = d + n" "db_init db2" "db_data db2 = take (unat d) (db_data db) @ src_bytes db src (unat n)
        @ drop (unat d + unat n) (db_data db)" by auto
    moreover have "DataBlock_GetSize db1 = DataBlock_GetSize db" using r(6) by (simp add: DataBlock_GetSize_def)
    ultimately show ?thesis using le r(1) True Some dn
      by (subst DataBlock_Copy.simps)+ (simp split del: if_split cong del: if_weak_cong)
  qed
qed

section \<open>The other operations\<close>

lemma DataBlock_Append_spec:
  assumes wf: "db_wf db" and ok: "heap_ok new" and size: "unat (db_end db) + length bs < 2 ^ 63"
    and n: "unat n = length bs" and mem: "unat (db_end db) + length bs \<le> unat (db_cap db) \<or> new (db_end db + n) \<noteq> None"
  shows "\<exists>db'. DataBlock_Append new db (Foreign bs) n = Inr (0, db') \<and> db_wf db'
    \<and> db_data db' = db_data db @ bs"
proof -
  have "length (db_data db) = unat (db_end db)" using wf by simp
  with DataBlock_Copy_spec [OF wf ok, of "db_end db" "Foreign bs" n] size n mem show ?thesis
    by (auto simp: DataBlock_Append_def)
qed

lemma DataBlock_Clear_wf: "db_wf db \<Longrightarrow> db_wf (DataBlock_Clear db) \<and> db_data (DataBlock_Clear db) = []
    \<and> db_cap (DataBlock_Clear db) = db_cap db"
  by (simp add: db_wf_def db_data_def DataBlock_Clear_def)

lemma DataBlock_DecEnd_ok:
  assumes "db_wf db" and "unat n \<le> unat (db_end db)"
  shows "\<exists>db'. DataBlock_DecEnd db n = (0, db') \<and> db_wf db' \<and> db_cap db' = db_cap db
    \<and> db_data db' = take (unat (db_end db) - unat n) (db_data db)"
proof -
  have n: "n \<le> db_end db" using assms(2) by (simp add: word_le_nat_alt)
  have e: "unat (db_end db - n) = unat (db_end db) - unat n" by (rule unat_sub_le [OF n])
  have "db_wf (db\<lparr>db_end := db_end db - n\<rparr>)" using assms(1) e by (auto simp: db_wf_def word_le_nat_alt)
  moreover have "db_data (db\<lparr>db_end := db_end db - n\<rparr>) = take (unat (db_end db) - unat n) (db_data db)"
    using e by (simp add: db_data_def min_def)
  ultimately show ?thesis using n by (auto simp: DataBlock_DecEnd_def DataBlock_GetSize_def)
qed

lemma DataBlock_Erase_ok:
  assumes wf: "db_wf db" and be: "unat b \<le> unat e" "unat e \<le> unat (db_end db)"
  shows "\<exists>db'. DataBlock_Erase new db b e = Inr (0, db') \<and> db_wf db' \<and> db_cap db' = db_cap db
    \<and> db_data db' = take (unat b) (db_data db) @ drop (unat e) (db_data db)"
proof (cases "b = e \<or> b = 0 \<and> e = db_end db")
  case True
  then show ?thesis using wf DataBlock_Clear_wf [OF wf] length_db_data [OF wf]
    by (auto simp: DataBlock_Erase_def DataBlock_Clear_def)
next
  case False
  have ls: "length (db_data db) = unat (db_end db)" using wf by simp
  have le: "e \<le> db_end db" "b \<le> e" using be by (simp_all add: word_le_nat_alt)
  have n: "unat (db_end db - e) = unat (db_end db) - unat e" by (rule unat_sub_le [OF le(1)])
  have m: "unat (e - b) = unat e - unat b" by (rule unat_sub_le [OF le(2)])
  have "unat b + unat (db_end db - e) \<le> unat (db_cap db)"
    using n be db_wf_end [OF wf] by linarith
  from DataBlock_Copy_fits [OF wf _ this, of "InBlock e" new] be n ls obtain db1 where
    c: "DataBlock_Copy new db b (InBlock e) (db_end db - e) = Inr (0, db1)" "db_wf db1" "db_cap db1 = db_cap db"
      "db_data db1 = take (unat b) (db_data db) @ drop (unat e) (db_data db)
        @ drop (unat b + (unat (db_end db) - unat e)) (db_data db)" by auto
  have e1: "unat (db_end db1) = unat (db_end db)"
    using length_db_data [OF c(2)] c(4) ls be by simp
  have "unat (e - b) \<le> unat (db_end db1)" using m e1 be by linarith
  from DataBlock_DecEnd_ok [OF c(2) this] m e1 be obtain db2 where
    d: "DataBlock_DecEnd db1 (e - b) = (0, db2)" "db_wf db2" "db_cap db2 = db_cap db1"
      "db_data db2 = take (unat (db_end db) - (unat e - unat b)) (db_data db1)" by auto
  have "db_data db2 = take (unat b) (db_data db) @ drop (unat e) (db_data db)"
    unfolding d(4) c(4) using ls be by simp
  with c d False le show ?thesis by (auto simp: DataBlock_Erase_def)
qed

section \<open>Properties\<close>

text \<open>\<open>Copy\<close> at any position up to the end, from another object or from the used part of the
  block itself (overlapping or not), with or without reallocation: when the block is large
  enough or memory is found, it returns 0 and the bytes in use are the old ones with the source
  bytes as they were before the call written at that position, extended when they reach past
  the end; when memory is missing it returns -1 and the block is unchanged. It always returns,
  never touches memory outside the block and keeps the block well formed.\<close>

lemma datablock_copy_contents:
  assumes "db_wf db" and "heap_ok new" and "unat d \<le> unat (db_end db)"
    and "src_ok db src (unat n)" and "unat d + unat n < 2 ^ 63"
  shows "if unat d + unat n > unat (db_cap db) \<and> new (d + n) = None
    then DataBlock_Copy new db d src n = Inr (- 1, db)
    else \<exists>db'. DataBlock_Copy new db d src n = Inr (0, db') \<and> db_wf db'
      \<and> db_data db' = take (unat d) (db_data db) @ src_bytes db src (unat n) @ drop (unat d + unat n) (db_data db)"
  using DataBlock_Copy_spec [OF assms] by (auto split del: if_split split: if_splits)

definition heap_1M :: heap_new where
  "heap_1M n = (if n < 2 ^ 20 then Some (replicate (unat n) 0) else None)"

lemma heap_1M_ok [simp]: "heap_ok heap_1M"
  by (auto simp: heap_ok_def heap_1M_def word_less_nat_alt split: if_splits)

lemma datablock_copy_contents_witness:
  "\<exists>db'. DataBlock_Copy heap_1M \<lparr>db_init = True, db_mem = [1, 2, 3, 4], db_end = 3, db_cap = 4\<rparr> 2 (InBlock 0) 3 = Inr (0, db')
     \<and> db_wf db' \<and> db_data db' = [1, 2, 1, 2, 3]"
  using datablock_copy_contents [of "\<lparr>db_init = True, db_mem = [1, 2, 3, 4], db_end = 3, db_cap = 4\<rparr>" heap_1M 2 "InBlock 0" 3]
  by (simp add: db_wf_def db_data_def heap_1M_def)

text \<open>\<open>Erase\<close> of a range within the bytes in use returns 0, removes exactly that range, keeps the
  order of the rest and the capacity, and needs no memory.\<close>

lemma datablock_erase_contents:
  assumes "db_wf db" and "unat b \<le> unat e" and "unat e \<le> unat (db_end db)"
  shows "\<exists>db'. DataBlock_Erase new db b e = Inr (0, db') \<and> db_wf db' \<and> db_cap db' = db_cap db
    \<and> db_data db' = take (unat b) (db_data db) @ drop (unat e) (db_data db)"
  by (rule DataBlock_Erase_ok [OF assms])

lemma datablock_erase_contents_witness:
  "\<exists>db'. DataBlock_Erase (\<lambda>_. None) \<lparr>db_init = True, db_mem = [1, 2, 3, 4], db_end = 4, db_cap = 4\<rparr> 1 3 = Inr (0, db')
     \<and> db_wf db' \<and> db_cap db' = 4 \<and> db_data db' = [1, 4]"
  using datablock_erase_contents [of "\<lparr>db_init = True, db_mem = [1, 2, 3, 4], db_end = 4, db_cap = 4\<rparr>" 1 3 "\<lambda>_. None"]
  by (simp add: db_wf_def db_data_def)

text \<open>Assignment gives a block with the same contents and capacity that is independent of the
  old contents, when memory for the capacity is found; when it is not, the copy that is swapped
  in has a null \<open>_pBegin\<close> and no value in \<open>_pEnd\<close> and \<open>_pEndOfBlock\<close>, which
  \<open>GetSize\<close> and \<open>GetCapacity\<close> then read.\<close>

lemma datablock_assign_copies:
  assumes "db_wf src" and "heap_ok new"
  shows "if new (db_cap src) = None then DataBlock_assign new db src = Inl Uninit
    else \<exists>db'. DataBlock_assign new db src = Inr db' \<and> db_wf db' \<and> db_data db' = db_data src \<and> db_cap db' = db_cap src"
proof (cases "new (db_cap src)")
  case None
  then show ?thesis
    by (simp add: DataBlock_assign_def DataBlock_copy_ctor_def DataBlock_GetCapacity_def NewAllocator_Allocate_def)
next
  case (Some bs)
  let ?t = "\<lparr>db_init = True, db_mem = bs, db_end = 0, db_cap = db_cap src\<rparr>"
  have t: "db_wf ?t" "db_data ?t = []"
    using assms Some by (auto simp: heap_ok_def db_wf_def db_data_def)
  have "unat (db_end src) \<le> length (db_mem src)" using assms(1) db_wf_end by (simp add: db_wf_def word_le_nat_alt)
  with DataBlock_Copy_fits [OF t(1), of 0 "db_end src" "Foreign (db_mem src)" new] db_wf_end [OF assms(1)] t(2)
  show ?thesis using Some
    by (auto simp: DataBlock_assign_def DataBlock_copy_ctor_def DataBlock_GetCapacity_def DataBlock_GetSize_def
        NewAllocator_Allocate_def DataBlock_Append_def DataBlock_Swap_def db_data_def)
qed

lemma datablock_assign_copies_witness:
  "\<exists>db'. DataBlock_assign heap_1M \<lparr>db_init = True, db_mem = [], db_end = 0, db_cap = 0\<rparr>
        \<lparr>db_init = True, db_mem = [1, 2, 3], db_end = 2, db_cap = 3\<rparr> = Inr db'
     \<and> db_wf db' \<and> db_data db' = [1, 2] \<and> db_cap db' = 3"
  using datablock_assign_copies [of "\<lparr>db_init = True, db_mem = [1, 2, 3], db_end = 2, db_cap = 3\<rparr>" heap_1M
      "\<lparr>db_init = True, db_mem = [], db_end = 0, db_cap = 0\<rparr>"]
  by (simp add: db_wf_def db_data_def heap_1M_def)

end
