(* ===== verification/DataBlockRefine.thy ===== *)
theory DataBlockRefine
  imports DataBlockProps
begin

text \<open>
  A \<open>DataBlock\<close> refines a list of bytes: the operations that a connection and a package use, in any order, with any
  arguments and with any heap, do to the contents and the capacity what \<open>db_spec\<close> says on the list.
\<close>

datatype db_op = OpAppend "byte list" | OpCopy u64 "byte list" | OpErase u64 u64 | OpResize u64 | OpDecEnd u64 | OpClear

fun db_apply :: "heap_new \<Rightarrow> db_op \<Rightarrow> DataBlock \<Rightarrow> (int \<times> DataBlock) result" where
  "db_apply new (OpAppend bs) db = DataBlock_Append new db (Foreign bs) (of_nat (length bs))"
| "db_apply new (OpCopy d bs) db = DataBlock_Copy new db d (Foreign bs) (of_nat (length bs))"
| "db_apply new (OpErase b e) db = DataBlock_Erase new db b e"
| "db_apply new (OpResize n) db = DataBlock_Resize new db n"
| "db_apply new (OpDecEnd n) db = Inr (DataBlock_DecEnd db n)"
| "db_apply new OpClear db = Inr (0, DataBlock_Clear db)"

fun db_run :: "heap_new \<Rightarrow> db_op list \<Rightarrow> DataBlock \<Rightarrow> (int list \<times> DataBlock) result" where
  "db_run new [] db = Inr ([], db)"
| "db_run new (x # xs) db = bindR (db_apply new x db) (\<lambda>(r, db1).
     bindR (db_run new xs db1) (\<lambda>(rs, db2). Inr (r # rs, db2)))"

text \<open>
  The abstract operations on a list of bytes and a capacity. An operation that needs more bytes than the capacity
  gets the capacity it needs, when there is memory for it, and otherwise fails; no operation fails for another lack of room.
\<close>

definition db_room :: "heap_new \<Rightarrow> nat \<Rightarrow> nat \<Rightarrow> bool" where
  "db_room new cap need \<longleftrightarrow> need \<le> cap \<or> new (of_nat need) \<noteq> None"

fun db_spec :: "heap_new \<Rightarrow> db_op \<Rightarrow> byte list \<times> nat \<Rightarrow> int \<times> byte list \<times> nat" where
  "db_spec new (OpAppend bs) (xs, cap) =
     (if db_room new cap (length xs + length bs) then (0, xs @ bs, max cap (length xs + length bs)) else (- 1, xs, cap))"
| "db_spec new (OpCopy d bs) (xs, cap) =
     (if unat d > length xs \<or> \<not> db_room new cap (unat d + length bs) then (- 1, xs, cap)
      else (0, take (unat d) xs @ bs @ drop (unat d + length bs) xs, max cap (unat d + length bs)))"
| "db_spec new (OpErase b e) (xs, cap) =
     (if b = e then (0, xs, cap)
      else if unat b > unat e \<or> unat e > length xs then (- 1, xs, cap)
      else (0, take (unat b) xs @ drop (unat e) xs, cap))"
| "db_spec new (OpResize n) (xs, cap) =
     (if db_room new cap (unat n) then (0, take (unat n) xs, max cap (unat n)) else (- 1, xs, cap))"
| "db_spec new (OpDecEnd n) (xs, cap) =
     (if unat n > length xs then (- 1, xs, cap) else (0, take (length xs - unat n) xs, cap))"
| "db_spec new OpClear (xs, cap) = (0, [], cap)"

fun db_spec_run :: "heap_new \<Rightarrow> db_op list \<Rightarrow> byte list \<times> nat \<Rightarrow> int list \<times> byte list \<times> nat" where
  "db_spec_run new [] s = ([], s)"
| "db_spec_run new (x # xs) s = (case db_spec new x s of (r, s1) \<Rightarrow>
     (case db_spec_run new xs s1 of (rs, s2) \<Rightarrow> (r # rs, s2)))"

text \<open>What a block stands for.\<close>

definition db_abs :: "DataBlock \<Rightarrow> byte list \<times> nat" where
  "db_abs db = (db_data db, unat (db_cap db))"

fun db_op_size :: "db_op \<Rightarrow> nat" where
  "db_op_size (OpAppend bs) = length bs"
| "db_op_size (OpCopy d bs) = length bs"
| "db_op_size _ = 0"

lemma db_spec_length: "length (fst (snd (db_spec new x s))) \<le> length (fst s) + db_op_size x"
  by (cases s; cases x) auto

lemma copy_foreign:
  assumes wf: "db_wf db" and ok: "heap_ok new" and size: "length (db_data db) + length bs < 2 ^ 63"
    and d: "unat d \<le> length (db_data db)"
  shows "\<exists>r db'. DataBlock_Copy new db d (Foreign bs) (of_nat (length bs)) = Inr (r, db') \<and> db_wf db'
    \<and> (r, db_abs db') = db_spec new (OpCopy d bs) (db_abs db)"
proof -
  have n: "unat (of_nat (length bs) :: u64) = length bs" using size by (simp add: take_bit_nat_eq_self unat_of_nat)
  have w: "of_nat (unat d + length bs) = d + of_nat (length bs)" by simp
  have d': "unat d \<le> unat (db_end db)" using d wf by simp
  have s: "src_ok db (Foreign bs) (unat (of_nat (length bs) :: u64))" using n by simp
  have sz: "unat d + unat (of_nat (length bs) :: u64) < 2 ^ 63" using n d size by linarith
  note c = DataBlock_Copy_spec [OF wf ok d' s sz, unfolded n]
  show ?thesis
  proof (cases "unat d + length bs > unat (db_cap db) \<and> new (d + of_nat (length bs)) = None")
    case True
    then show ?thesis using c wf d w by (auto simp: db_abs_def db_room_def simp del: of_nat_add)
  next
    case False
    then obtain db' where "DataBlock_Copy new db d (Foreign bs) (of_nat (length bs)) = Inr (0, db')" "db_wf db'"
      "unat (db_cap db') = max (unat (db_cap db)) (unat d + length bs)"
      "db_data db' = take (unat d) (db_data db) @ src_bytes db (Foreign bs) (length bs)
         @ drop (unat d + length bs) (db_data db)" using c by blast
    then show ?thesis using False d w by (auto simp: db_abs_def db_room_def simp del: of_nat_add)
  qed
qed

lemma db_apply_refines:
  assumes wf: "db_wf db" and ok: "heap_ok new" and size: "length (db_data db) + db_op_size x < 2 ^ 63"
  shows "\<exists>r db'. db_apply new x db = Inr (r, db') \<and> db_wf db' \<and> (r, db_abs db') = db_spec new x (db_abs db)"
proof (cases x)
  case (OpAppend bs)
  have e: "unat (db_end db) = length (db_data db)" using wf by simp
  have "db_spec new (OpCopy (db_end db) bs) (db_abs db) = db_spec new x (db_abs db)" using e OpAppend by (simp add: db_abs_def)
  then show ?thesis using copy_foreign [OF wf ok, of bs "db_end db"] size OpAppend e by (simp add: DataBlock_Append_def)
next
  case (OpCopy d bs)
  show ?thesis
  proof (cases "unat d \<le> length (db_data db)")
    case True
    then show ?thesis using copy_foreign [OF wf ok, of bs d] size OpCopy by simp
  next
    case False
    then have "d > db_end db" using wf by (simp add: word_less_nat_alt)
    then have "DataBlock_Copy new db d (Foreign bs) (of_nat (length bs)) = Inr (- 1, db)" by (subst DataBlock_Copy.simps) simp
    then show ?thesis using OpCopy False wf by (simp add: db_abs_def)
  qed
next
  case (OpErase b e)
  show ?thesis
  proof (cases "b = e \<or> \<not> (unat b \<le> unat e \<and> unat e \<le> unat (db_end db))")
    case True
    then show ?thesis using OpErase wf by (auto simp: DataBlock_Erase_def db_abs_def word_less_nat_alt)
  next
    case False
    then have "unat b \<le> unat e" "unat e \<le> unat (db_end db)" by auto
    from DataBlock_Erase_ok [OF wf this, of new] show ?thesis using OpErase False wf by (auto simp: db_abs_def)
  qed
next
  case (OpResize n)
  show ?thesis
  proof (cases "unat n \<le> unat (db_cap db)")
    case True
    from DataBlock_Resize_small [OF wf True, of new] show ?thesis using OpResize True
      by (auto simp: db_abs_def db_room_def)
  next
    case False
    have t: "take (unat n) (db_data db) = db_data db" using False wf db_wf_end [OF wf] by simp
    from DataBlock_Resize_grow [OF wf ok, of n] False show ?thesis using OpResize t wf
      by (cases "new n") (auto simp: db_abs_def db_room_def)
  qed
next
  case (OpDecEnd n)
  show ?thesis
  proof (cases "unat n \<le> unat (db_end db)")
    case True
    from DataBlock_DecEnd_ok [OF wf True] show ?thesis using OpDecEnd True wf by (auto simp: db_abs_def)
  next
    case False
    then show ?thesis using OpDecEnd wf by (simp add: DataBlock_DecEnd_def DataBlock_GetSize_def word_less_nat_alt db_abs_def)
  qed
next
  case OpClear
  then show ?thesis using DataBlock_Clear_wf [OF wf] by (simp add: db_abs_def)
qed

text \<open>C32. \<open>DataBlock\<close> implements a list of bytes with a capacity: every sequence of \<open>Append\<close>, \<open>Copy\<close>, \<open>Erase\<close>, \<open>Resize\<close>,
  \<open>DecEnd\<close> and \<open>Clear\<close>, with any arguments, as long as fewer than 2^63 bytes are involved, runs without leaving the memory of
  the block, keeps the block well formed, and returns the codes and leaves the contents and the capacity that the same
  operations on the list give: one that needs more than the capacity gets exactly what it needs when \<open>new\<close> has memory of
  that size, and only when it has none the operation fails and changes nothing.\<close>

theorem datablock_refines_list:
  assumes "db_wf db" and "heap_ok new" and "length (db_data db) + sum_list (map db_op_size xs) < 2 ^ 63"
  shows "\<exists>rs db'. db_run new xs db = Inr (rs, db') \<and> db_wf db' \<and> (rs, db_abs db') = db_spec_run new xs (db_abs db)"
  using assms(1,3)
proof (induction xs arbitrary: db)
  case Nil
  then show ?case by simp
next
  case (Cons x xs)
  from db_apply_refines [OF Cons.prems(1) assms(2), of x] Cons.prems(2) obtain r db1 where
    one: "db_apply new x db = Inr (r, db1)" "db_wf db1" "(r, db_abs db1) = db_spec new x (db_abs db)" by auto
  have "length (db_data db1) \<le> length (db_data db) + db_op_size x"
    using db_spec_length [of new x "db_abs db"] unfolding one(3) [symmetric] by (simp add: db_abs_def)
  with Cons.prems(2) have "length (db_data db1) + sum_list (map db_op_size xs) < 2 ^ 63" by simp
  from Cons.IH [OF one(2) this] obtain rs db2 where
    two: "db_run new xs db1 = Inr (rs, db2)" "db_wf db2" "(rs, db_abs db2) = db_spec_run new xs (db_abs db1)" by blast
  show ?case
    by (rule exI [of _ "r # rs"], rule exI [of _ db2])
      (use one(1) two(1,2) in \<open>simp add: one(3) [symmetric] two(3) [symmetric]\<close>)
qed

theorem datablock_refines_list_witness:
  "\<exists>rs db'. db_run heap_1M [OpAppend [1, 2, 3], OpErase 0 1, OpCopy 1 [7, 8], OpResize 0x200000, OpDecEnd 9]
      \<lparr>db_init = True, db_mem = [], db_end = 0, db_cap = 0\<rparr> = Inr (rs, db') \<and> db_wf db'
    \<and> rs = [0, 0, 0, - 1, - 1] \<and> db_abs db' = ([2, 7, 8], 3)"
  using datablock_refines_list [of "\<lparr>db_init = True, db_mem = [], db_end = 0, db_cap = 0\<rparr>" heap_1M
      "[OpAppend [1, 2, 3], OpErase 0 1, OpCopy 1 [7, 8], OpResize 0x200000, OpDecEnd 9]"]
  by (auto simp: db_wf_def db_data_def db_abs_def db_room_def heap_1M_def simp del: db_run.simps db_apply.simps)

end
