(* ===== verification/Reactor.thy ===== *)
theory Reactor
  imports Prelude
begin

text \<open>
  \<open>nets/event.h\<close>, \<open>nets/reactor.h\<close> and \<open>nets/eventhandler.h\<close>: event masks, the identity of
  an event handler (its address, by which \<open>std::set\<close> orders handlers), and \<open>Reactor::Run\<close>.
  \<open>HandleClose\<close>, the callback by which a reactor tells a handler that its last event is gone,
  is recorded in the state of a reactor, so that a handler can act on it.
\<close>

type_synonym handler_id = nat
type_synonym timeval = "int \<times> int"
type_synonym timespec = "int \<times> int"

definition ReadMask :: nat where "ReadMask = 1"
definition WriteMask :: nat where "WriteMask = 2"
definition PersistMask :: nat where "PersistMask = 4"

definition masked :: "nat \<Rightarrow> nat \<Rightarrow> bool" where
  "masked msk m \<longleftrightarrow> msk AND m \<noteq> 0"

lemma masked_simps [simp]:
  "masked ReadMask ReadMask" "\<not> masked ReadMask WriteMask" "\<not> masked ReadMask PersistMask"
  "\<not> masked WriteMask ReadMask" "masked WriteMask WriteMask" "\<not> masked WriteMask PersistMask"
  "masked (ReadMask OR WriteMask) ReadMask" "masked (ReadMask OR WriteMask) WriteMask"
  "masked (ReadMask OR PersistMask) ReadMask" "\<not> masked (ReadMask OR PersistMask) WriteMask"
  "masked (ReadMask OR PersistMask) PersistMask"
  by (simp_all add: masked_def ReadMask_def WriteMask_def PersistMask_def)

text \<open>
  \<open>Reactor::Run\<close> over the results of successive \<open>RunOnce\<close> calls, with whether \<open>Stop\<close> was
  called during each; the number of calls made, or \<open>None\<close> while it still runs.
\<close>

fun Reactor_Run :: "(int \<times> bool) list \<Rightarrow> nat option" where
  "Reactor_Run [] = None"
| "Reactor_Run ((ret, stopped) # rs) =
     (if ret = 1 then Some 1
      else if stopped then Some 1
      else map_option Suc (Reactor_Run rs))"

end
