(* ===== verification/LibEventReactor.thy ===== *)
theory LibEventReactor
  imports Reactor
begin

text \<open>
  \<open>nets/libeventreactor.cpp\<close>. Libevent is outside the repository; of its \<open>struct event\<close> the model
  has the flags (\<open>ev_events\<close>), the descriptor and whether the event is pending, with what the
  documentation says: \<open>event_add\<close> makes an event pending or fails, \<open>event_del\<close> makes it
  not pending, and the loop calls the callback of a pending event, after making it not pending
  unless it is persistent. The results of \<open>event_add\<close> and \<open>event_del\<close> are parameters.
\<close>

definition EV_TIMEOUT :: nat where "EV_TIMEOUT = 0x01"
definition EV_READ :: nat where "EV_READ = 0x02"
definition EV_WRITE :: nat where "EV_WRITE = 0x04"
definition EV_PERSIST :: nat where "EV_PERSIST = 0x10"

record event =
  ev_events :: nat
  ev_efd :: int
  ev_pending :: bool

definition event_zero :: event where
  "event_zero = \<lparr>ev_events = 0, ev_efd = 0, ev_pending = False\<rparr>"

definition event_del :: "event \<Rightarrow> event" where
  "event_del e = e\<lparr>ev_pending := False\<rparr>"

definition event_set :: "int \<Rightarrow> nat \<Rightarrow> event \<Rightarrow> event" where
  "event_set fd events e = \<lparr>ev_events = events, ev_efd = fd, ev_pending = False\<rparr>"

definition event_add :: "int \<Rightarrow> event \<Rightarrow> event" where
  "event_add ret e = (if ret = 0 then e\<lparr>ev_pending := True\<rparr> else e)"

record EventData =
  led_readev :: event
  led_writeev :: event
  led_timers :: "(nat \<times> event) list"

definition EventData_new :: EventData where
  "EventData_new = \<lparr>led_readev = event_zero, led_writeev = event_zero, led_timers = []\<rparr>"

record LibEventReactor =
  le_data :: "handler_id \<Rightarrow> EventData option"
  le_handle :: "handler_id \<Rightarrow> int"
  le_fresh :: nat
  le_closed :: "handler_id list"

definition LibEventReactor_new :: "(handler_id \<Rightarrow> int) \<Rightarrow> LibEventReactor" where
  "LibEventReactor_new handle = \<lparr>le_data = (\<lambda>_. None), le_handle = handle, le_fresh = 1, le_closed = []\<rparr>"

definition le_set_data :: "handler_id \<Rightarrow> EventData option \<Rightarrow> LibEventReactor \<Rightarrow> LibEventReactor" where
  "le_set_data h ed r = r\<lparr>le_data := (le_data r)(h := ed)\<rparr>"

definition le_HandleClose :: "handler_id \<Rightarrow> LibEventReactor \<Rightarrow> LibEventReactor" where
  "le_HandleClose h r = r\<lparr>le_closed := h # le_closed r\<rparr>"

section \<open>Registration\<close>

definition LibEventReactor_InitEventHandler :: "bool \<Rightarrow> handler_id \<Rightarrow> LibEventReactor \<Rightarrow> (int \<times> LibEventReactor) result" where
  "LibEventReactor_InitEventHandler mem h r =
     (if le_data r h = None
      then if mem then Inr (0, le_set_data h (Some EventData_new) r) else Inl NullDeref
      else Inr (0, r))"

definition LibEventReactor_UninitEventHander :: "handler_id \<Rightarrow> LibEventReactor \<Rightarrow> LibEventReactor" where
  "LibEventReactor_UninitEventHander h r = le_HandleClose h (le_set_data h None r)"

definition LibEventReactor_HasEvent :: "EventData \<Rightarrow> bool" where
  "LibEventReactor_HasEvent ed \<longleftrightarrow>
     (ev_events (led_readev ed) OR ev_events (led_writeev ed)) \<noteq> 0 \<or> led_timers ed \<noteq> []"

text \<open>The flags that \<open>RegisterHandler\<close> gives to \<open>event_set\<close>.\<close>

definition le_flags :: "nat \<Rightarrow> nat \<Rightarrow> timeval option \<Rightarrow> nat" where
  "le_flags kind msk timeout =
     (kind OR (if timeout \<noteq> None then EV_TIMEOUT else 0)) OR (if masked msk PersistMask then EV_PERSIST else 0)"

text \<open>\<open>event_del\<close>, \<open>event_set\<close>, \<open>event_base_set\<close> and \<open>event_add\<close> on one of the events.\<close>

definition le_arm :: "int \<Rightarrow> nat \<Rightarrow> nat \<Rightarrow> timeval option \<Rightarrow> int \<Rightarrow> event \<Rightarrow> event" where
  "le_arm ret kind msk timeout fd e = event_add ret (event_set fd (le_flags kind msk timeout) (event_del e))"

definition LibEventReactor_RegisterHandler :: "bool \<Rightarrow> int \<Rightarrow> int \<Rightarrow> nat \<Rightarrow> handler_id \<Rightarrow> timeval option
    \<Rightarrow> LibEventReactor \<Rightarrow> (int \<times> LibEventReactor) result" where
  "LibEventReactor_RegisterHandler mem add_read add_write msk h timeout r =
     bindR (LibEventReactor_InitEventHandler mem h r) (\<lambda>(_, r0).
       case le_data r0 h of
         None \<Rightarrow> Inl AssertFail
       | Some ed \<Rightarrow>
           let fd = le_handle r0 h;
               ed1 = (if masked msk ReadMask
                      then ed\<lparr>led_readev := le_arm add_read EV_READ msk timeout fd (led_readev ed)\<rparr> else ed);
               r1 = le_set_data h (Some ed1) r0
           in if masked msk ReadMask \<and> add_read \<noteq> 0 then Inr (- 1, r1)
              else let ed2 = (if masked msk WriteMask
                              then ed1\<lparr>led_writeev := le_arm add_write EV_WRITE msk timeout fd (led_writeev ed1)\<rparr>
                              else ed1);
                       r2 = le_set_data h (Some ed2) r1
                   in if masked msk WriteMask \<and> add_write \<noteq> 0 then Inr (- 1, r2) else Inr (0, r2))"

definition LibEventReactor_RemoveHandler :: "nat \<Rightarrow> handler_id \<Rightarrow> LibEventReactor \<Rightarrow> int \<times> LibEventReactor" where
  "LibEventReactor_RemoveHandler msk h r =
     (case le_data r h of
        None \<Rightarrow> (0, le_HandleClose h r)
      | Some ed \<Rightarrow>
          let ed1 = (if masked msk ReadMask then ed\<lparr>led_readev := event_zero\<rparr> else ed);
              ed2 = (if masked msk WriteMask then ed1\<lparr>led_writeev := event_zero\<rparr> else ed1);
              r2 = le_set_data h (Some ed2) r
          in (0, if \<not> LibEventReactor_HasEvent ed2 then LibEventReactor_UninitEventHander h r2 else r2))"

section \<open>Timers\<close>

definition LibEventReactor_ScheduleTimer :: "bool \<Rightarrow> int \<Rightarrow> handler_id \<Rightarrow> timeval option \<Rightarrow> LibEventReactor
    \<Rightarrow> (int \<times> nat option \<times> LibEventReactor) result" where
  "LibEventReactor_ScheduleTimer mem add h timeout r =
     (if timeout = None then Inr (- 1, None, r)
      else bindR (LibEventReactor_InitEventHandler mem h r) (\<lambda>(_, r0).
        case le_data r0 h of
          None \<Rightarrow> Inl AssertFail
        | Some ed \<Rightarrow>
            let pTimerData = le_fresh r0; r1 = r0\<lparr>le_fresh := pTimerData + 1\<rparr>;
                timer = event_add add (event_set (- 1) EV_TIMEOUT event_zero)
            in if add \<noteq> 0 then Inr (- 1, None, r1)
               else Inr (0, Some pTimerData,
                      le_set_data h (Some (ed\<lparr>led_timers := led_timers ed @ [(pTimerData, timer)]\<rparr>)) r1)))"

definition LibEventReactor_CancelTimer :: "int \<Rightarrow> handler_id \<Rightarrow> nat option \<Rightarrow> LibEventReactor \<Rightarrow> int \<times> LibEventReactor" where
  "LibEventReactor_CancelTimer del h pTimerID r =
     (case le_data r h of
        None \<Rightarrow> (0, le_HandleClose h r)
      | Some ed \<Rightarrow>
          (case (case pTimerID of
                   None \<Rightarrow> Some (ed\<lparr>led_timers := []\<rparr>)
                 | Some t \<Rightarrow> if t \<in> fst ` set (led_timers ed) \<and> del = 0
                            then Some (ed\<lparr>led_timers := filter (\<lambda>(i, e). i \<noteq> t) (led_timers ed)\<rparr>) else None)
           of None \<Rightarrow> (- 1, r)
            | Some ed1 \<Rightarrow>
                let r1 = le_set_data h (Some ed1) r
                in (0, if \<not> LibEventReactor_HasEvent ed1 then LibEventReactor_UninitEventHander h r1 else r1)))"

section \<open>Dispatch\<close>

text \<open>What \<open>__EventCb\<close> calls for the flags that libevent reports.\<close>

datatype handler_call = CallTimeout "nat option" | CallInput | CallOutput

definition EventCb :: "nat \<Rightarrow> handler_call option" where
  "EventCb events =
     (if events AND EV_TIMEOUT \<noteq> 0 then Some (CallTimeout None)
      else if events AND EV_READ \<noteq> 0 then Some CallInput
      else if events AND EV_WRITE \<noteq> 0 then Some CallOutput
      else None)"

text \<open>
  One event of the loop: libevent takes a pending event, makes it not pending unless it is
  persistent, and calls \<open>__EventCb\<close> with the flags \<open>res\<close> that occurred, which runs the
  callback \<open>cb\<close> of the handler.
\<close>

definition le_fired :: "event \<Rightarrow> event" where
  "le_fired e = (if ev_events e AND EV_PERSIST \<noteq> 0 then e else event_del e)"

definition LibEventReactor_fire_read :: "(handler_call \<Rightarrow> LibEventReactor \<Rightarrow> 'b) \<Rightarrow> nat \<Rightarrow> handler_id
    \<Rightarrow> LibEventReactor \<Rightarrow> 'b option" where
  "LibEventReactor_fire_read cb res h r =
     (case le_data r h of
        None \<Rightarrow> None
      | Some ed \<Rightarrow>
          if \<not> ev_pending (led_readev ed) then None
          else map_option (\<lambda>c. cb c (le_set_data h (Some (ed\<lparr>led_readev := le_fired (led_readev ed)\<rparr>)) r))
                 (EventCb res))"

definition LibEventReactor_fire_write :: "(handler_call \<Rightarrow> LibEventReactor \<Rightarrow> 'b) \<Rightarrow> nat \<Rightarrow> handler_id
    \<Rightarrow> LibEventReactor \<Rightarrow> 'b option" where
  "LibEventReactor_fire_write cb res h r =
     (case le_data r h of
        None \<Rightarrow> None
      | Some ed \<Rightarrow>
          if \<not> ev_pending (led_writeev ed) then None
          else map_option (\<lambda>c. cb c (le_set_data h (Some (ed\<lparr>led_writeev := le_fired (led_writeev ed)\<rparr>)) r))
                 (EventCb res))"

text \<open>
  \<open>__EventCb4Timer\<close>: the callback of the handler, then \<open>CancelTimer\<close>, whose \<open>event_del\<close>
  succeeds.
\<close>

definition EventCb4Timer :: "(nat option \<Rightarrow> LibEventReactor \<Rightarrow> LibEventReactor) \<Rightarrow> nat \<Rightarrow> handler_id \<Rightarrow> nat
    \<Rightarrow> LibEventReactor \<Rightarrow> LibEventReactor result" where
  "EventCb4Timer on_timeout events h pTimerData r =
     (if events AND EV_TIMEOUT = 0 then Inr r
      else bindR (guardR AssertFail (le_data r h \<noteq> None)) (\<lambda>_.
             Inr (snd (LibEventReactor_CancelTimer 0 h (Some pTimerData) (on_timeout (Some pTimerData) r)))))"

text \<open>Whether any event of a handler can still be called by the loop.\<close>

definition le_wakeable :: "handler_id \<Rightarrow> LibEventReactor \<Rightarrow> bool" where
  "le_wakeable h r \<longleftrightarrow> (case le_data r h of
      None \<Rightarrow> False
    | Some ed \<Rightarrow> ev_pending (led_readev ed) \<or> ev_pending (led_writeev ed) \<or> list_ex (\<lambda>(i, e). ev_pending e) (led_timers ed))"

end
