(* ===== verification/ConnectEventHandler.thy ===== *)
theory ConnectEventHandler
  imports DataBlockProps LibEventReactor
begin

text \<open>
  \<open>nets/connecteventhandler.cpp\<close>: one connection, under the reactor that the server uses. The
  results of \<open>recv\<close>, \<open>send\<close> and \<open>event_add\<close> are parameters of each call; the bytes that the
  kernel took and the descriptors that were closed are recorded. \<open>HandleClose\<close> runs when the
  reactor says so, at the end of \<open>RemoveHandler\<close>.
\<close>

datatype syscall = SysSend int "byte list" | SysClose int

datatype recv_result = RecvData "byte list" | RecvEOF | RecvErr int
datatype send_result = Sent nat | SendErr int

text \<open>\<open>send\<close> takes at most the bytes that it is offered.\<close>

definition send_takes :: "nat \<Rightarrow> DataBlock \<Rightarrow> nat" where
  "send_takes room db = min room (unat (DataBlock_GetSize db))"

definition RECV_SIZE :: u64 where "RECV_SIZE = 16384"
definition CE_EINTR :: int where "CE_EINTR = 4"
definition CE_EAGAIN :: int where "CE_EAGAIN = 11"

record 'addr ConnectEventHandler =
  ce_peerAddr :: 'addr
  ce_recvbuffer :: DataBlock
  ce_sendbuffer :: DataBlock
  ce_globalid :: u64
  ce_processorid :: u64
  ce_timeout :: int
  ce_closeaftersent :: bool
  ce_received :: bool
  ce_handle :: int

text \<open>A connection, its reactor and the system calls so far, newest first.\<close>

record 'addr conn_world =
  cw_conn :: "'addr ConnectEventHandler"
  cw_reactor :: LibEventReactor
  cw_sys :: "syscall list"

definition ConnectEventHandler_HandleClose :: "'addr conn_world \<Rightarrow> 'addr conn_world" where
  "ConnectEventHandler_HandleClose w = w\<lparr>cw_sys := SysClose (ce_handle (cw_conn w)) # cw_sys w\<rparr>"

definition ce_remove :: "nat \<Rightarrow> handler_id \<Rightarrow> 'addr conn_world \<Rightarrow> int \<times> 'addr conn_world" where
  "ce_remove msk h w =
     (let (ret, r) = LibEventReactor_RemoveHandler msk h (cw_reactor w);
          w1 = w\<lparr>cw_reactor := r\<rparr>
      in (ret, if le_closed r = le_closed (cw_reactor w) then w1 else ConnectEventHandler_HandleClose w1))"

definition ce_register :: "bool \<Rightarrow> int \<Rightarrow> nat \<Rightarrow> handler_id \<Rightarrow> 'addr conn_world \<Rightarrow> (int \<times> 'addr conn_world) result" where
  "ce_register mem add msk h w =
     bindR (LibEventReactor_RegisterHandler mem add add msk h (Some (ce_timeout (cw_conn w), 0)) (cw_reactor w))
       (\<lambda>(ret, r). Inr (ret, w\<lparr>cw_reactor := r\<rparr>))"

definition ConnectEventHandler_Open :: "bool \<Rightarrow> int \<Rightarrow> handler_id \<Rightarrow> 'addr conn_world \<Rightarrow> (int \<times> 'addr conn_world) result" where
  "ConnectEventHandler_Open mem add h w =
     (let c = cw_conn w in
      ce_register mem add ReadMask h (w\<lparr>cw_conn := c\<lparr>ce_sendbuffer := DataBlock_Clear (ce_sendbuffer c),
        ce_recvbuffer := DataBlock_Clear (ce_recvbuffer c), ce_closeaftersent := False, ce_received := False\<rparr>\<rparr>))"

definition ConnectEventHandler_Close :: "handler_id \<Rightarrow> 'addr conn_world \<Rightarrow> int \<times> 'addr conn_world" where
  "ConnectEventHandler_Close h w = ce_remove (ReadMask OR WriteMask) h w"

text \<open>\<open>RegisterHandler\<close>, and \<open>Close\<close> when it returns -1.\<close>

definition ce_rearm :: "bool \<Rightarrow> int \<Rightarrow> nat \<Rightarrow> handler_id \<Rightarrow> 'addr conn_world \<Rightarrow> 'addr conn_world result" where
  "ce_rearm mem add msk h w =
     bindR (ce_register mem add msk h w) (\<lambda>(ret, w1).
       Inr (if ret = - 1 then snd (ConnectEventHandler_Close h w1) else w1))"

definition set_recvbuffer :: "DataBlock \<Rightarrow> 'addr conn_world \<Rightarrow> 'addr conn_world" where
  "set_recvbuffer db w = w\<lparr>cw_conn := (cw_conn w)\<lparr>ce_recvbuffer := db\<rparr>\<rparr>"

definition set_sendbuffer :: "DataBlock \<Rightarrow> 'addr conn_world \<Rightarrow> 'addr conn_world" where
  "set_sendbuffer db w = w\<lparr>cw_conn := (cw_conn w)\<lparr>ce_sendbuffer := db\<rparr>\<rparr>"

text \<open>\<open>recv\<close> stores at \<open>GetBegin () + pos\<close>, whether or not \<open>Resize\<close> has found memory.\<close>

definition recv_store :: "DataBlock \<Rightarrow> u64 \<Rightarrow> byte list \<Rightarrow> DataBlock result" where
  "recv_store db pos bs =
     (if unat pos + length bs \<le> length (db_mem db)
      then Inr (db\<lparr>db_mem := overwrite (db_mem db) (unat pos) bs\<rparr>) else Inl OutOfBounds)"

text \<open>The removal of the bytes that \<open>Extract\<close> used.\<close>

definition eat_front :: "heap_new \<Rightarrow> DataBlock \<Rightarrow> u64 \<Rightarrow> DataBlock result" where
  "eat_front new db eat =
     (if eat > 0
      then bindR (DataBlock_Copy new db 0 (InBlock eat) (DataBlock_GetSize db - eat)) (\<lambda>(r, db1).
             Inr (snd (DataBlock_DecEnd db1 eat)))
      else Inr db)"

definition ConnectEventHandler_HandleInput ::
    "heap_new \<Rightarrow> bool \<Rightarrow> int \<Rightarrow> (u64 \<Rightarrow> u64 \<Rightarrow> 'addr \<Rightarrow> byte list \<Rightarrow> 's \<Rightarrow> (int \<times> 's) result) \<Rightarrow> recv_result
      \<Rightarrow> handler_id \<Rightarrow> 'addr conn_world \<Rightarrow> 's \<Rightarrow> ('addr conn_world \<times> 's) result" where
  "ConnectEventHandler_HandleInput new mem add extract rcv h w s =
     (let pos = DataBlock_GetSize (ce_recvbuffer (cw_conn w)) in
      bindR (DataBlock_Resize new (ce_recvbuffer (cw_conn w)) (pos + RECV_SIZE)) (\<lambda>(_, db).
      case rcv of
        RecvEOF \<Rightarrow> Inr (snd (ConnectEventHandler_Close h (set_recvbuffer db w)), s)
      | RecvErr err \<Rightarrow>
          if err = CE_EINTR then Inr (set_recvbuffer db w, s)
          else Inr (snd (ConnectEventHandler_Close h (set_recvbuffer db w)), s)
      | RecvData bs \<Rightarrow>
          bindR (recv_store db pos bs) (\<lambda>db1.
          let db2 = snd (DataBlock_IncEnd db1 (of_nat (length bs)));
              w1 = set_recvbuffer db2 (w\<lparr>cw_conn := (cw_conn w)\<lparr>ce_received := True\<rparr>\<rparr>) in
          bindR (extract (ce_globalid (cw_conn w1)) (ce_processorid (cw_conn w1)) (ce_peerAddr (cw_conn w1))
                   (db_data db2) s) (\<lambda>(eat, s1).
          if eat < 0 then Inr (snd (ConnectEventHandler_Close h w1), s1)
          else bindR (eat_front new db2 (word_of_int eat)) (\<lambda>db3.
               bindR (ce_rearm mem add ReadMask h (set_recvbuffer db3 w1)) (\<lambda>w2. Inr (w2, s1)))))))"

text \<open>The part of the send buffer that the kernel did not take.\<close>

definition sent_front :: "heap_new \<Rightarrow> DataBlock \<Rightarrow> u64 \<Rightarrow> DataBlock result" where
  "sent_front new db n =
     (if n = DataBlock_GetSize db then Inr (DataBlock_Clear db)
      else bindR (DataBlock_Copy new db 0 (InBlock n) (DataBlock_GetSize db - n)) (\<lambda>(_, db1).
           bindR (DataBlock_Resize new db1 (DataBlock_GetSize db1 - n)) (\<lambda>(_, db2). Inr db2)))"

definition ConnectEventHandler_HandleOutput ::
    "heap_new \<Rightarrow> bool \<Rightarrow> int \<Rightarrow> send_result \<Rightarrow> handler_id \<Rightarrow> 'addr conn_world \<Rightarrow> 'addr conn_world result" where
  "ConnectEventHandler_HandleOutput new mem add snt h w =
     (let db = ce_sendbuffer (cw_conn w) in
      if DataBlock_GetSize db \<le> 0 then Inr w
      else case snt of
        Sent room \<Rightarrow>
          let n = send_takes room db;
              w1 = w\<lparr>cw_sys := SysSend (ce_handle (cw_conn w)) (take n (db_data db)) # cw_sys w\<rparr> in
          if n = 0 then Inr (snd (ConnectEventHandler_Close h w1))
          else bindR (sent_front new db (of_nat n)) (\<lambda>db1.
               let w2 = set_sendbuffer db1 w1 in
               if DataBlock_IsEmpty db1
               then if ce_closeaftersent (cw_conn w2) then Inr (snd (ConnectEventHandler_Close h w2))
                    else Inr (snd (ce_remove WriteMask h w2))
               else ce_rearm mem add WriteMask h w2)
      | SendErr err \<Rightarrow>
          if err = CE_EINTR then Inr w
          else if err = CE_EAGAIN then ce_rearm mem add WriteMask h w
          else Inr (snd (ConnectEventHandler_Close h w)))"

definition ConnectEventHandler_HandleTimeout :: "handler_id \<Rightarrow> 'addr conn_world \<Rightarrow> 'addr conn_world" where
  "ConnectEventHandler_HandleTimeout h w = snd (ConnectEventHandler_Close h w)"

definition ConnectEventHandler_CloseAfterSent :: "'addr conn_world \<Rightarrow> 'addr conn_world" where
  "ConnectEventHandler_CloseAfterSent w = w\<lparr>cw_conn := (cw_conn w)\<lparr>ce_closeaftersent := True\<rparr>\<rparr>"

definition ConnectEventHandler_Send ::
    "heap_new \<Rightarrow> bool \<Rightarrow> int \<Rightarrow> send_result \<Rightarrow> byte list \<Rightarrow> handler_id \<Rightarrow> 'addr conn_world \<Rightarrow> 'addr conn_world result" where
  "ConnectEventHandler_Send new mem add snt data h w =
     bindR (DataBlock_Append new (ce_sendbuffer (cw_conn w)) (Foreign data) (of_nat (length data))) (\<lambda>(_, db).
       ConnectEventHandler_HandleOutput new mem add snt h (set_sendbuffer db w))"

section \<open>Sequences of calls\<close>

text \<open>The bytes that the kernel took from a connection, in order.\<close>

fun sent_bytes :: "syscall list \<Rightarrow> byte list" where
  "sent_bytes [] = []"
| "sent_bytes (SysSend fd bs # cs) = sent_bytes cs @ bs"
| "sent_bytes (SysClose fd # cs) = sent_bytes cs"

text \<open>A sequence of calls of \<open>Send\<close> and of \<open>HandleOutput\<close> by the reactor.\<close>

datatype output_op = OpSend "byte list" int send_result | OpOutput int send_result

fun output_run :: "heap_new \<Rightarrow> handler_id \<Rightarrow> output_op list \<Rightarrow> 'addr conn_world \<Rightarrow> 'addr conn_world result" where
  "output_run new h [] w = Inr w"
| "output_run new h (OpSend data add snt # ops) w =
     bindR (ConnectEventHandler_Send new True add snt data h w) (output_run new h ops)"
| "output_run new h (OpOutput add snt # ops) w =
     bindR (ConnectEventHandler_HandleOutput new True add snt h w) (output_run new h ops)"

fun offered_bytes :: "output_op list \<Rightarrow> byte list" where
  "offered_bytes [] = []"
| "offered_bytes (OpSend data add snt # ops) = data @ offered_bytes ops"
| "offered_bytes (OpOutput add snt # ops) = offered_bytes ops"

text \<open>
  A sequence of readable events of a connection: for each the loop of the reactor calls
  \<open>HandleInput\<close>, if the read event is still pending. Once it is not, nothing more is called.
\<close>

fun input_run :: "heap_new \<Rightarrow> (u64 \<Rightarrow> u64 \<Rightarrow> 'addr \<Rightarrow> byte list \<Rightarrow> 's \<Rightarrow> (int \<times> 's) result) \<Rightarrow> handler_id
    \<Rightarrow> recv_result list \<Rightarrow> 'addr conn_world \<Rightarrow> 's \<Rightarrow> ('addr conn_world \<times> 's) result" where
  "input_run new extract h [] w s = Inr (w, s)"
| "input_run new extract h (rcv # rs) w s =
     (case LibEventReactor_fire_read
             (\<lambda>_ r. ConnectEventHandler_HandleInput new True 0 extract rcv h (w\<lparr>cw_reactor := r\<rparr>) s)
             EV_READ h (cw_reactor w) of
        None \<Rightarrow> Inr (w, s)
      | Some res \<Rightarrow> bindR res (\<lambda>(w1, s1). input_run new extract h rs w1 s1))"

end
