(* ===== verification/SelectReactor.thy ===== *)
theory SelectReactor
  imports Reactor
begin

text \<open>
  \<open>nets/selectreactor.cpp\<close>. The reactor data of a handler is the pointer that the handler
  carries (\<open>sr_data\<close>); \<open>handlers\<close> is an ordered set without duplicates. Timers are known
  by the addresses that \<open>new\<close> gives. The clock, \<open>malloc\<close> and \<open>select\<close> are parameters.
\<close>

section \<open>State\<close>

record Event =
  ev_on :: bool
  ev_persist :: bool
  ev_fd :: int
  ev_timeout :: timespec

definition Event_zero :: Event where
  "Event_zero = \<lparr>ev_on = False, ev_persist = False, ev_fd = 0, ev_timeout = (0, 0)\<rparr>"

definition Event_new :: Event where
  "Event_new = Event_zero\<lparr>ev_fd := - 1\<rparr>"

record SelectEventData =
  ed_readev :: Event
  ed_writeev :: Event
  ed_timers :: "(nat \<times> Event) list"

definition SelectEventData_new :: SelectEventData where
  "SelectEventData_new = \<lparr>ed_readev = Event_zero, ed_writeev = Event_zero, ed_timers = []\<rparr>"

record SelectReactor =
  sr_handlers :: "handler_id list"
  sr_stop :: bool
  sr_data :: "handler_id \<Rightarrow> SelectEventData option"
  sr_handle :: "handler_id \<Rightarrow> int"
  sr_fresh :: nat
  sr_closed :: "handler_id list"

definition SelectReactor_new :: "(handler_id \<Rightarrow> int) \<Rightarrow> SelectReactor" where
  "SelectReactor_new handle = \<lparr>sr_handlers = [], sr_stop = False, sr_data = (\<lambda>_. None),
     sr_handle = handle, sr_fresh = 1, sr_closed = []\<rparr>"

definition SelectReactor_insert :: "handler_id \<Rightarrow> SelectReactor \<Rightarrow> SelectReactor" where
  "SelectReactor_insert h r = r\<lparr>sr_handlers := insort_insert h (sr_handlers r)\<rparr>"

definition SelectReactor_set_data :: "handler_id \<Rightarrow> SelectEventData option \<Rightarrow> SelectReactor \<Rightarrow> SelectReactor" where
  "SelectReactor_set_data h ed r = r\<lparr>sr_data := (sr_data r)(h := ed)\<rparr>"

definition SelectReactor_HandleClose :: "handler_id \<Rightarrow> SelectReactor \<Rightarrow> SelectReactor" where
  "SelectReactor_HandleClose h r = r\<lparr>sr_closed := h # sr_closed r\<rparr>"

section \<open>Registration\<close>

text \<open>
  \<open>AllocEventData\<close> constructs at the address that \<open>malloc\<close> returned, also when that is null;
  \<open>mem\<close> says whether it is not.
\<close>

definition SelectReactor_InitEventHandler :: "bool \<Rightarrow> handler_id \<Rightarrow> SelectReactor \<Rightarrow> (int \<times> SelectReactor) result" where
  "SelectReactor_InitEventHandler mem h r =
     (if sr_data r h = None
      then if mem then Inr (0, SelectReactor_set_data h (Some SelectEventData_new) r) else Inl NullDeref
      else Inr (0, r))"

definition SelectReactor_UninitEventHander :: "handler_id \<Rightarrow> SelectReactor \<Rightarrow> SelectReactor" where
  "SelectReactor_UninitEventHander h r =
     SelectReactor_HandleClose h
       (SelectReactor_set_data h None (r\<lparr>sr_handlers := filter (\<lambda>x. x \<noteq> h) (sr_handlers r)\<rparr>))"

definition SelectReactor_HasEvent :: "SelectEventData \<Rightarrow> bool" where
  "SelectReactor_HasEvent ed \<longleftrightarrow> (ev_on (ed_readev ed) \<or> ev_on (ed_writeev ed)) \<or> ed_timers ed \<noteq> []"

definition add_timeout :: "timespec \<Rightarrow> timeval \<Rightarrow> timespec" where
  "add_timeout now tv = (fst now + fst tv, snd now + snd tv * 1000)"

text \<open>What \<open>RegisterHandler\<close> does to one of the two events.\<close>

definition Event_arm :: "nat \<Rightarrow> int \<Rightarrow> timeval option \<Rightarrow> timespec \<Rightarrow> Event \<Rightarrow> Event" where
  "Event_arm msk fd timeout now e =
     e\<lparr>ev_on := True, ev_fd := fd,
       ev_timeout := (case timeout of None \<Rightarrow> ev_timeout e | Some tv \<Rightarrow> add_timeout now tv),
       ev_persist := masked msk PersistMask\<rparr>"

definition SelectReactor_RegisterHandler :: "bool \<Rightarrow> timespec \<Rightarrow> nat \<Rightarrow> handler_id \<Rightarrow> timeval option
    \<Rightarrow> SelectReactor \<Rightarrow> (int \<times> SelectReactor) result" where
  "SelectReactor_RegisterHandler mem now msk h timeout r =
     bindR (SelectReactor_InitEventHandler mem h r) (\<lambda>(_, r0).
       case sr_data r0 h of
         None \<Rightarrow> Inl AssertFail
       | Some ed0 \<Rightarrow>
           let fd = sr_handle r0 h;
               ed1 = (if masked msk ReadMask
                      then ed0\<lparr>ed_readev := Event_arm msk fd timeout now (ed_readev ed0)\<rparr> else ed0);
               r1 = (if masked msk ReadMask then SelectReactor_insert h r0 else r0);
               ed2 = (if masked msk WriteMask
                      then ed1\<lparr>ed_writeev := Event_arm msk fd timeout now (ed_writeev ed1)\<rparr> else ed1);
               r2 = (if masked msk WriteMask then SelectReactor_insert h r1 else r1)
           in Inr (0, SelectReactor_set_data h (Some ed2) r2))"

definition SelectReactor_RemoveHandler :: "nat \<Rightarrow> handler_id \<Rightarrow> SelectReactor \<Rightarrow> int \<times> SelectReactor" where
  "SelectReactor_RemoveHandler msk h r =
     (case sr_data r h of
        None \<Rightarrow> (0, SelectReactor_HandleClose h r)
      | Some ed \<Rightarrow>
          let ed1 = (if masked msk ReadMask then ed\<lparr>ed_readev := (ed_readev ed)\<lparr>ev_on := False\<rparr>\<rparr> else ed);
              ed2 = (if masked msk WriteMask then ed1\<lparr>ed_writeev := (ed_writeev ed1)\<lparr>ev_on := False\<rparr>\<rparr> else ed1);
              r2 = SelectReactor_set_data h (Some ed2) r
          in (0, if \<not> SelectReactor_HasEvent ed2 then SelectReactor_UninitEventHander h r2 else r2))"

section \<open>Timers\<close>

definition SelectReactor_ScheduleTimer :: "bool \<Rightarrow> timespec \<Rightarrow> handler_id \<Rightarrow> timeval option \<Rightarrow> SelectReactor
    \<Rightarrow> (int \<times> nat option \<times> SelectReactor) result" where
  "SelectReactor_ScheduleTimer mem now h timeout r =
     (case timeout of
        None \<Rightarrow> Inr (- 1, None, r)
      | Some tv \<Rightarrow>
          bindR (SelectReactor_InitEventHandler mem h r) (\<lambda>(_, r0).
            case sr_data r0 h of
              None \<Rightarrow> Inl AssertFail
            | Some ed \<Rightarrow>
                let pTimer = sr_fresh r0;
                    t = Event_new\<lparr>ev_on := True, ev_persist := False, ev_timeout := add_timeout now tv\<rparr>;
                    r1 = SelectReactor_set_data h (Some (ed\<lparr>ed_timers := ed_timers ed @ [(pTimer, t)]\<rparr>)) r0
                in Inr (0, Some pTimer, SelectReactor_insert h (r1\<lparr>sr_fresh := pTimer + 1\<rparr>))))"

definition SelectReactor_CancelTimer :: "handler_id \<Rightarrow> nat option \<Rightarrow> SelectReactor \<Rightarrow> int \<times> SelectReactor" where
  "SelectReactor_CancelTimer h pTimerID r =
     (case sr_data r h of
        None \<Rightarrow> (0, SelectReactor_HandleClose h r)
      | Some ed \<Rightarrow>
          (case (case pTimerID of
                   None \<Rightarrow> Some (ed\<lparr>ed_timers := []\<rparr>)
                 | Some t \<Rightarrow> if t \<in> fst ` set (ed_timers ed)
                            then Some (ed\<lparr>ed_timers := filter (\<lambda>(i, e). i \<noteq> t) (ed_timers ed)\<rparr>) else None)
           of None \<Rightarrow> (- 1, r)
            | Some ed1 \<Rightarrow>
                let r1 = SelectReactor_set_data h (Some ed1) r
                in (0, if \<not> SelectReactor_HasEvent ed1 then SelectReactor_UninitEventHander h r1 else r1)))"

section \<open>RunOnce\<close>

text \<open>The pass over the handlers: what goes into the two sets, and the nearest timeout.\<close>

record scan =
  sc_maxfd :: int
  sc_read :: "int list"
  sc_write :: "int list"
  sc_min :: timespec
  sc_limit :: bool
  sc_current :: "handler_id option"
  sc_timer :: "nat option"

definition scan_start :: scan where
  "scan_start = \<lparr>sc_maxfd = 0, sc_read = [], sc_write = [], sc_min = (0x7fffffff, 0), sc_limit = False,
     sc_current = None, sc_timer = None\<rparr>"

definition FD_SETSIZE :: int where "FD_SETSIZE = 1024"

definition earlier :: "timespec \<Rightarrow> timespec \<Rightarrow> bool" where
  "earlier t m \<longleftrightarrow> fst t < fst m \<or> (fst t = fst m \<and> snd t < snd m)"

definition scan_timeout :: "timespec \<Rightarrow> handler_id \<Rightarrow> scan \<Rightarrow> scan" where
  "scan_timeout t h s =
     (if (fst t \<noteq> 0 \<or> snd t \<noteq> 0) \<and> earlier t (sc_min s)
      then s\<lparr>sc_limit := True, sc_min := t, sc_current := Some h, sc_timer := None\<rparr> else s)"

definition scan_read :: "handler_id \<Rightarrow> SelectEventData \<Rightarrow> scan \<Rightarrow> scan result" where
  "scan_read h ed s =
     (if ev_on (ed_readev ed)
      then let fd = ev_fd (ed_readev ed);
               s1 = (if fd > sc_maxfd s then s\<lparr>sc_maxfd := fd\<rparr> else s)
           in bindR (guardR OutOfBounds (0 \<le> fd \<and> fd < FD_SETSIZE)) (\<lambda>_.
                Inr (scan_timeout (ev_timeout (ed_readev ed)) h (s1\<lparr>sc_read := fd # sc_read s1\<rparr>)))
      else Inr s)"

text \<open>The maximum is taken over the descriptor of the read event here too.\<close>

definition scan_write :: "handler_id \<Rightarrow> SelectEventData \<Rightarrow> scan \<Rightarrow> scan result" where
  "scan_write h ed s =
     (if ev_on (ed_writeev ed)
      then let s1 = (if ev_fd (ed_readev ed) > sc_maxfd s then s\<lparr>sc_maxfd := ev_fd (ed_readev ed)\<rparr> else s);
               fd = ev_fd (ed_writeev ed)
           in bindR (guardR OutOfBounds (0 \<le> fd \<and> fd < FD_SETSIZE)) (\<lambda>_.
                Inr (scan_timeout (ev_timeout (ed_writeev ed)) h (s1\<lparr>sc_write := fd # sc_write s1\<rparr>)))
      else Inr s)"

text \<open>The comparison of the timers uses \<open>min.tv_nsec\<close> where the others use \<open>min.tv_sec\<close>.\<close>

definition scan_timer :: "handler_id \<Rightarrow> nat \<times> Event \<Rightarrow> scan \<Rightarrow> scan" where
  "scan_timer h t s =
     (let (sec, nsec) = ev_timeout (snd t) in
      if sec < fst (sc_min s) \<or> (sec = snd (sc_min s) \<and> nsec < snd (sc_min s))
      then s\<lparr>sc_min := (sec, nsec), sc_limit := True, sc_current := Some h, sc_timer := Some (fst t)\<rparr> else s)"

fun scan_handlers :: "SelectReactor \<Rightarrow> handler_id list \<Rightarrow> scan \<Rightarrow> scan result" where
  "scan_handlers r [] s = Inr s"
| "scan_handlers r (h # hs) s =
     (case sr_data r h of
        None \<Rightarrow> Inl AssertFail
      | Some ed \<Rightarrow>
          bindR (scan_read h ed s) (\<lambda>s1.
          bindR (scan_write h ed s1) (\<lambda>s2.
            scan_handlers r hs (fold (scan_timer h) (ed_timers ed) s2))))"

text \<open>
  The wait: C division truncates towards zero, then \<open>tv_usec\<close> is brought into range and a
  time in the past becomes zero.
\<close>

definition c_div :: "int \<Rightarrow> int \<Rightarrow> int" where
  "c_div a b = sgn a * sgn b * (\<bar>a\<bar> div \<bar>b\<bar>)"

function usec_up :: "timeval \<Rightarrow> timeval" where
  "usec_up (s, u) = (if u < 0 then usec_up (s - 1, u + 1000 * 1000) else (s, u))"
  by pat_completeness auto
termination by (relation "measure (\<lambda>(s, u). nat (- u))") auto

function usec_down :: "timeval \<Rightarrow> timeval" where
  "usec_down (s, u) = (if u \<ge> 1000 * 1000 then usec_down (s + 1, u - 1000 * 1000) else (s, u))"
  by pat_completeness auto
termination by (relation "measure (\<lambda>(s, u). nat u)") auto

declare usec_up.simps [simp del] and usec_down.simps [simp del]

definition select_timeout :: "timespec \<Rightarrow> timespec \<Rightarrow> timeval" where
  "select_timeout mn now =
     (let (s, u) = usec_down (usec_up (fst mn - fst now, c_div (snd mn - snd now) 1000))
      in if s < 0 \<or> u < 0 then (0, 0) else (s, u))"

text \<open>
  \<open>select (nfds, R, W, NULL, timeout)\<close>: an error number or the descriptors that are ready;
  \<open>None\<close> while it waits.
\<close>

datatype select_result = SelectError int | SelectReady "int list" "int list"

type_synonym select_call = "int \<Rightarrow> int list \<Rightarrow> int list \<Rightarrow> timeval option \<Rightarrow> select_result option"

definition EINTR :: int where "EINTR = 4"

text \<open>The first handler, in the order of the loops, that waits for a ready descriptor.\<close>

fun find_handler :: "(SelectEventData \<Rightarrow> Event) \<Rightarrow> SelectReactor \<Rightarrow> int \<Rightarrow> handler_id list \<Rightarrow> handler_id option result" where
  "find_handler ev r i [] = Inr None"
| "find_handler ev r i (h # hs) =
     (case sr_data r h of
        None \<Rightarrow> Inl NullDeref
      | Some ed \<Rightarrow> if ev_on (ev ed) \<and> ev_fd (ev ed) = i then Inr (Some h) else find_handler ev r i hs)"

fun find_ready :: "(SelectEventData \<Rightarrow> Event) \<Rightarrow> SelectReactor \<Rightarrow> int list \<Rightarrow> int list \<Rightarrow> handler_id option result" where
  "find_ready ev r ready [] = Inr None"
| "find_ready ev r ready (i # is) =
     (if i \<in> set ready
      then bindR (find_handler ev r i (sr_handlers r)) (\<lambda>m. case m of
             Some h \<Rightarrow> Inr (Some h) | None \<Rightarrow> find_ready ev r ready is)
      else find_ready ev r ready is)"

text \<open>The three callbacks of the handlers, as changes of the state of the reactor.\<close>

record callbacks =
  cb_input :: "handler_id \<Rightarrow> SelectReactor \<Rightarrow> SelectReactor result"
  cb_output :: "handler_id \<Rightarrow> SelectReactor \<Rightarrow> SelectReactor result"
  cb_timeout :: "handler_id \<Rightarrow> nat option \<Rightarrow> SelectReactor \<Rightarrow> SelectReactor result"

definition clear_read :: "handler_id \<Rightarrow> SelectReactor \<Rightarrow> SelectReactor" where
  "clear_read h r = (case sr_data r h of None \<Rightarrow> r | Some ed \<Rightarrow>
     if ev_persist (ed_readev ed) then r
     else SelectReactor_set_data h (Some (ed\<lparr>ed_readev := (ed_readev ed)\<lparr>ev_on := False\<rparr>\<rparr>)) r)"

definition clear_write :: "handler_id \<Rightarrow> SelectReactor \<Rightarrow> SelectReactor" where
  "clear_write h r = (case sr_data r h of None \<Rightarrow> r | Some ed \<Rightarrow>
     if ev_persist (ed_writeev ed) then r
     else SelectReactor_set_data h (Some (ed\<lparr>ed_writeev := (ed_writeev ed)\<lparr>ev_on := False\<rparr>\<rparr>)) r)"

definition SelectReactor_timeout :: "callbacks \<Rightarrow> handler_id option \<Rightarrow> nat option \<Rightarrow> SelectReactor \<Rightarrow> SelectReactor result" where
  "SelectReactor_timeout cb current timer r =
     (case current of
        None \<Rightarrow> Inl NullDeref
      | Some h \<Rightarrow>
          bindR (cb_timeout cb h timer r) (\<lambda>r1. case timer of
            None \<Rightarrow> Inr r1
          | Some t \<Rightarrow>
              (case sr_data r1 h of
                 None \<Rightarrow> Inl NullDeref
               | Some ed \<Rightarrow>
                   if t \<notin> fst ` set (ed_timers ed) then Inl AssertFail
                   else Inr (SelectReactor_set_data h
                          (Some (ed\<lparr>ed_timers := filter (\<lambda>(i, e). i \<noteq> t) (ed_timers ed)\<rparr>)) r1))))"

definition SelectReactor_dispatch :: "callbacks \<Rightarrow> int \<Rightarrow> int list \<Rightarrow> int list \<Rightarrow> SelectReactor \<Rightarrow> SelectReactor result" where
  "SelectReactor_dispatch cb maxfd rd wr r =
     bindR (find_ready ed_readev r rd [0..maxfd]) (\<lambda>m. case m of
       Some h \<Rightarrow> cb_input cb h (clear_read h r)
     | None \<Rightarrow>
         bindR (find_ready ed_writeev r wr [0..maxfd]) (\<lambda>m. case m of
           Some h \<Rightarrow> cb_output cb h (clear_write h r)
         | None \<Rightarrow> Inr r))"

definition SelectReactor_RunOnce :: "callbacks \<Rightarrow> select_call \<Rightarrow> timespec \<Rightarrow> SelectReactor
    \<Rightarrow> (int \<times> SelectReactor) result option" where
  "SelectReactor_RunOnce cb select now r =
     (case scan_handlers r (sr_handlers r) scan_start of
        Inl e \<Rightarrow> Some (Inl e)
      | Inr s \<Rightarrow>
          (case select (sc_maxfd s + 1) (sc_read s) (sc_write s)
                  (if sc_limit s \<and> sc_current s \<noteq> None then Some (select_timeout (sc_min s) now) else None) of
             None \<Rightarrow> None
           | Some (SelectError err) \<Rightarrow> Some (Inr (if err = EINTR then 0 else - 1, r))
           | Some (SelectReady rd wr) \<Rightarrow>
               Some (bindR (if rd = [] \<and> wr = [] then SelectReactor_timeout cb (sc_current s) (sc_timer s) r
                            else SelectReactor_dispatch cb (sc_maxfd s) rd wr r) (\<lambda>r'. Inr (0, r')))))"

text \<open>\<open>Run\<close> over successive calls, each with its \<open>select\<close> and clock; \<open>None\<close> while it runs.\<close>

definition SelectReactor_Stop :: "SelectReactor \<Rightarrow> SelectReactor" where
  "SelectReactor_Stop r = r\<lparr>sr_stop := True\<rparr>"

fun SelectReactor_loop :: "callbacks \<Rightarrow> (select_call \<times> timespec) list \<Rightarrow> SelectReactor \<Rightarrow> SelectReactor result option" where
  "SelectReactor_loop cb [] r = (if sr_stop r then Some (Inr r) else None)"
| "SelectReactor_loop cb ((sel, now) # env) r =
     (if sr_stop r then Some (Inr r)
      else case SelectReactor_RunOnce cb sel now r of
          None \<Rightarrow> None
        | Some (Inl e) \<Rightarrow> Some (Inl e)
        | Some (Inr (ret, r')) \<Rightarrow> if ret \<noteq> 0 then Some (Inr r') else SelectReactor_loop cb env r')"

definition SelectReactor_Run :: "callbacks \<Rightarrow> (select_call \<times> timespec) list \<Rightarrow> SelectReactor \<Rightarrow> SelectReactor result option" where
  "SelectReactor_Run cb env r = SelectReactor_loop cb env (r\<lparr>sr_stop := False\<rparr>)"

end
