(* ===== verification/ReactorProps.thy ===== *)
theory ReactorProps
  imports SelectReactor LibEventReactor
begin

text \<open>
  The interface \<open>event_reactor\<close> that the handlers use, interpreted by both reactors: what a
  handler waits for after \<open>RegisterHandler\<close> and \<open>RemoveHandler\<close>, and when \<open>HandleClose\<close> is
  called. Then the properties of one turn of the select reactor.
\<close>

locale event_reactor =
  fixes reg :: "nat \<Rightarrow> handler_id \<Rightarrow> timeval option \<Rightarrow> 'r \<Rightarrow> (int \<times> 'r) result"
    and rem :: "nat \<Rightarrow> handler_id \<Rightarrow> 'r \<Rightarrow> int \<times> 'r"
    and waits :: "'r \<Rightarrow> handler_id \<Rightarrow> bool \<times> bool \<times> nat"
    and closed :: "'r \<Rightarrow> handler_id list"
  assumes reg_law: "\<exists>r'. reg msk h timeout r = Inr (0, r')
      \<and> waits r' h = (fst (waits r h) \<or> masked msk ReadMask,
           fst (snd (waits r h)) \<or> masked msk WriteMask, snd (snd (waits r h)))
      \<and> (\<forall>g. g \<noteq> h \<longrightarrow> waits r' g = waits r g) \<and> closed r' = closed r"
    and rem_law: "\<exists>r'. rem msk h r = (0, r')
      \<and> waits r' h = (fst (waits r h) \<and> \<not> masked msk ReadMask,
           fst (snd (waits r h)) \<and> \<not> masked msk WriteMask, snd (snd (waits r h)))
      \<and> (\<forall>g. g \<noteq> h \<longrightarrow> waits r' g = waits r g)
      \<and> closed r' = (if waits r' h = (False, False, 0) then h # closed r else closed r)"
begin

text \<open>A handler without timers that is registered and removed is told once.\<close>

lemma open_close:
  assumes "snd (snd (waits r h)) = 0" and "reg msk h timeout r = Inr (ret, r1)"
  shows "\<exists>r2. rem (ReadMask OR WriteMask) h r1 = (0, r2) \<and> waits r2 h = (False, False, 0)
    \<and> closed r2 = h # closed r \<and> (\<forall>g. g \<noteq> h \<longrightarrow> waits r2 g = waits r g)"
proof -
  have a: "closed r1 = closed r" "snd (snd (waits r1 h)) = 0" "\<forall>g. g \<noteq> h \<longrightarrow> waits r1 g = waits r g"
    using reg_law [of msk h timeout r] assms by auto
  obtain r2 where "rem (ReadMask OR WriteMask) h r1 = (0, r2)" "waits r2 h = (False, False, snd (snd (waits r1 h)))"
    "\<forall>g. g \<noteq> h \<longrightarrow> waits r2 g = waits r1 g"
    "closed r2 = (if waits r2 h = (False, False, 0) then h # closed r1 else closed r1)"
    using rem_law [of "ReadMask OR WriteMask" h r1] by auto
  with a show ?thesis by auto
qed

text \<open>A second removal tells it again.\<close>

lemma close_again:
  assumes "waits r h = (False, False, 0)"
  shows "\<exists>r2. rem (ReadMask OR WriteMask) h r = (0, r2) \<and> closed r2 = h # closed r"
  using rem_law [of "ReadMask OR WriteMask" h r] assms by auto

end

definition sr_waits :: "SelectReactor \<Rightarrow> handler_id \<Rightarrow> bool \<times> bool \<times> nat" where
  "sr_waits r h = (case sr_data r h of None \<Rightarrow> (False, False, 0)
     | Some ed \<Rightarrow> (ev_on (ed_readev ed), ev_on (ed_writeev ed), length (ed_timers ed)))"

definition le_waits :: "LibEventReactor \<Rightarrow> handler_id \<Rightarrow> bool \<times> bool \<times> nat" where
  "le_waits r h = (case le_data r h of None \<Rightarrow> (False, False, 0)
     | Some ed \<Rightarrow> (ev_events (led_readev ed) \<noteq> 0, ev_events (led_writeev ed) \<noteq> 0, length (led_timers ed)))"

lemma or_eq_0: "(a :: nat) OR b = 0 \<longleftrightarrow> a = 0 \<and> b = 0"
  by (auto simp: or_eq_0_iff)

lemma le_flags_nonzero: "0 < le_flags EV_READ m t" "0 < le_flags EV_WRITE m t"
  by (simp_all only: neq0_conv [symmetric] le_flags_def EV_READ_def EV_WRITE_def or_eq_0, simp_all)

interpretation select_reactor: event_reactor "SelectReactor_RegisterHandler True now"
    SelectReactor_RemoveHandler sr_waits sr_closed
proof unfold_locales
  fix msk h timeout and r :: SelectReactor
  show "\<exists>r'. SelectReactor_RegisterHandler True now msk h timeout r = Inr (0, r')
      \<and> sr_waits r' h = (fst (sr_waits r h) \<or> masked msk ReadMask,
           fst (snd (sr_waits r h)) \<or> masked msk WriteMask, snd (snd (sr_waits r h)))
      \<and> (\<forall>g. g \<noteq> h \<longrightarrow> sr_waits r' g = sr_waits r g) \<and> sr_closed r' = sr_closed r"
    by (cases "sr_data r h")
      (simp_all add: SelectReactor_RegisterHandler_def SelectReactor_InitEventHandler_def sr_waits_def
        SelectReactor_set_data_def SelectReactor_insert_def SelectEventData_new_def Event_zero_def Event_arm_def Let_def)
  show "\<exists>r'. SelectReactor_RemoveHandler msk h r = (0, r')
      \<and> sr_waits r' h = (fst (sr_waits r h) \<and> \<not> masked msk ReadMask,
           fst (snd (sr_waits r h)) \<and> \<not> masked msk WriteMask, snd (snd (sr_waits r h)))
      \<and> (\<forall>g. g \<noteq> h \<longrightarrow> sr_waits r' g = sr_waits r g)
      \<and> sr_closed r' = (if sr_waits r' h = (False, False, 0) then h # sr_closed r else sr_closed r)"
    by (cases "sr_data r h")
      (auto simp: SelectReactor_RemoveHandler_def SelectReactor_HandleClose_def sr_waits_def SelectReactor_HasEvent_def
        SelectReactor_UninitEventHander_def SelectReactor_set_data_def Let_def)
qed

interpretation libevent_reactor: event_reactor "LibEventReactor_RegisterHandler True 0 0"
    LibEventReactor_RemoveHandler le_waits le_closed
proof unfold_locales
  fix msk h timeout and r :: LibEventReactor
  show "\<exists>r'. LibEventReactor_RegisterHandler True 0 0 msk h timeout r = Inr (0, r')
      \<and> le_waits r' h = (fst (le_waits r h) \<or> masked msk ReadMask,
           fst (snd (le_waits r h)) \<or> masked msk WriteMask, snd (snd (le_waits r h)))
      \<and> (\<forall>g. g \<noteq> h \<longrightarrow> le_waits r' g = le_waits r g) \<and> le_closed r' = le_closed r"
    by (cases "le_data r h")
      (simp_all add: LibEventReactor_RegisterHandler_def LibEventReactor_InitEventHandler_def le_waits_def
        le_set_data_def EventData_new_def event_zero_def le_arm_def event_add_def event_set_def le_flags_nonzero Let_def)
  show "\<exists>r'. LibEventReactor_RemoveHandler msk h r = (0, r')
      \<and> le_waits r' h = (fst (le_waits r h) \<and> \<not> masked msk ReadMask,
           fst (snd (le_waits r h)) \<and> \<not> masked msk WriteMask, snd (snd (le_waits r h)))
      \<and> (\<forall>g. g \<noteq> h \<longrightarrow> le_waits r' g = le_waits r g)
      \<and> le_closed r' = (if le_waits r' h = (False, False, 0) then h # le_closed r else le_closed r)"
    by (cases "le_data r h")
      (auto simp: LibEventReactor_RemoveHandler_def le_HandleClose_def le_waits_def LibEventReactor_HasEvent_def or_eq_0
        LibEventReactor_UninitEventHander_def le_set_data_def event_zero_def Let_def)
qed

section \<open>One turn of the select reactor\<close>

text \<open>What \<open>select\<close> documents: it examines the first \<open>nfds\<close> descriptors of the sets, and without
  a timeout it returns only when one is ready.\<close>

definition select_doc :: "select_call \<Rightarrow> bool" where
  "select_doc select \<longleftrightarrow> (\<forall>n R W t rd wr. select n R W t = Some (SelectReady rd wr) \<longrightarrow>
     set rd \<subseteq> {i \<in> set R. 0 \<le> i \<and> i < n} \<and> set wr \<subseteq> {i \<in> set W. 0 \<le> i \<and> i < n}
     \<and> (rd = [] \<and> wr = [] \<longrightarrow> t \<noteq> None))"

lemma scan_timeout_sel [simp]:
  "sc_maxfd (scan_timeout t h s) = sc_maxfd s" "sc_read (scan_timeout t h s) = sc_read s"
  "sc_write (scan_timeout t h s) = sc_write s"
  by (simp_all add: scan_timeout_def)

lemma scan_timers_sel [simp]:
  "sc_maxfd (fold (scan_timer h) ts s) = sc_maxfd s" "sc_read (fold (scan_timer h) ts s) = sc_read s"
  "sc_write (fold (scan_timer h) ts s) = sc_write s"
  by (induction ts arbitrary: s) (simp_all add: scan_timer_def split: prod.splits)

definition read_fds :: "SelectReactor \<Rightarrow> handler_id list \<Rightarrow> int set" where
  "read_fds r hs = {ev_fd (ed_readev ed) |h ed. h \<in> set hs \<and> sr_data r h = Some ed \<and> ev_on (ed_readev ed)}"

definition write_fds :: "SelectReactor \<Rightarrow> handler_id list \<Rightarrow> int set" where
  "write_fds r hs = {ev_fd (ed_writeev ed) |h ed. h \<in> set hs \<and> sr_data r h = Some ed \<and> ev_on (ed_writeev ed)}"

lemma read_fds_Cons: "sr_data r h = Some ed \<Longrightarrow> read_fds r (h # hs)
    = (if ev_on (ed_readev ed) then {ev_fd (ed_readev ed)} else {}) \<union> read_fds r hs"
  by (auto simp: read_fds_def)

lemma write_fds_Cons: "sr_data r h = Some ed \<Longrightarrow> write_fds r (h # hs)
    = (if ev_on (ed_writeev ed) then {ev_fd (ed_writeev ed)} else {}) \<union> write_fds r hs"
  by (auto simp: write_fds_def)

lemma scan_read_sel:
  assumes "scan_read h ed s = Inr s1"
  shows "set (sc_read s1) = (if ev_on (ed_readev ed) then {ev_fd (ed_readev ed)} else {}) \<union> set (sc_read s)"
    "sc_write s1 = sc_write s" "sc_maxfd s \<le> sc_maxfd s1"
    "sc_maxfd s1 \<le> max (sc_maxfd s) (ev_fd (ed_readev ed))"
    "ev_on (ed_readev ed) \<Longrightarrow> ev_fd (ed_readev ed) \<le> sc_maxfd s1"
  using assms by (auto simp: scan_read_def Let_def bindR_Inr_iff split: if_splits)

lemma scan_write_sel:
  assumes "scan_write h ed s = Inr s1"
  shows "set (sc_write s1) = (if ev_on (ed_writeev ed) then {ev_fd (ed_writeev ed)} else {}) \<union> set (sc_write s)"
    "sc_read s1 = sc_read s" "sc_maxfd s \<le> sc_maxfd s1"
    "sc_maxfd s1 \<le> max (sc_maxfd s) (ev_fd (ed_readev ed))"
  using assms by (auto simp: scan_write_def Let_def bindR_Inr_iff split: if_splits)

lemma scan_handlers_sel:
  assumes "scan_handlers r hs s = Inr s'"
  shows "set (sc_read s') = read_fds r hs \<union> set (sc_read s) \<and> set (sc_write s') = write_fds r hs \<union> set (sc_write s)
    \<and> sc_maxfd s \<le> sc_maxfd s' \<and> (\<forall>h\<in>set hs. sr_data r h \<noteq> None)
    \<and> (\<forall>M. sc_maxfd s \<le> M \<and> (\<forall>h\<in>set hs. \<forall>ed. sr_data r h = Some ed \<longrightarrow> ev_fd (ed_readev ed) \<le> M) \<longrightarrow> sc_maxfd s' \<le> M)"
  using assms
proof (induction hs arbitrary: s)
  case Nil
  then show ?case by (simp add: read_fds_def write_fds_def)
next
  case (Cons h hs)
  then obtain ed s1 s2 where a: "sr_data r h = Some ed" "scan_read h ed s = Inr s1" "scan_write h ed s1 = Inr s2"
    "scan_handlers r hs (fold (scan_timer h) (ed_timers ed) s2) = Inr s'"
    by (auto split: option.splits simp: bindR_Inr_iff)
  note ih = Cons.IH [OF a(4), simplified] and x = scan_read_sel [OF a(2)] and y = scan_write_sel [OF a(3)]
  have "sc_maxfd s' \<le> M" if M: "sc_maxfd s \<le> M"
      "\<forall>g\<in>set (h # hs). \<forall>ed. sr_data r g = Some ed \<longrightarrow> ev_fd (ed_readev ed) \<le> M" for M
  proof -
    have "ev_fd (ed_readev ed) \<le> M" using M(2) a(1) by simp
    then have "sc_maxfd s2 \<le> M" using M(1) x(4) y(4) by linarith
    with ih M(2) show ?thesis by simp
  qed
  moreover have "sc_maxfd s \<le> sc_maxfd s'" using ih x(3) y(3) by linarith
  ultimately show ?case using ih x(1,2) y(1,2) a(1)
    by (simp add: read_fds_Cons write_fds_Cons)
qed

text \<open>The handlers that wait for a descriptor; the dispatch takes the first of those of the lowest ready one.\<close>

definition waiting :: "(SelectEventData \<Rightarrow> Event) \<Rightarrow> SelectReactor \<Rightarrow> int \<Rightarrow> handler_id \<Rightarrow> bool" where
  "waiting ev r i h = (case sr_data r h of None \<Rightarrow> False | Some ed \<Rightarrow> ev_on (ev ed) \<and> ev_fd (ev ed) = i)"

lemma find_handler_first:
  "\<forall>h\<in>set hs. sr_data r h \<noteq> None \<Longrightarrow> find_handler ev r i hs = Inr (List.find (waiting ev r i) hs)"
  by (induction hs) (auto simp: waiting_def split: option.splits)

lemma find_ready_skip: "set is \<inter> set ready = {} \<Longrightarrow> find_ready ev r ready (is @ js) = find_ready ev r ready js"
  by (induction "is") auto

lemma find_ready_none: "find_ready ev r [] is = Inr None"
  by (induction "is") simp_all

lemma find_ready_first:
  assumes data: "\<forall>h\<in>set (sr_handlers r). sr_data r h \<noteq> None"
    and ready: "ready \<noteq> []" "set ready \<subseteq> {0..mx}"
    and some: "\<exists>h\<in>set (sr_handlers r). waiting ev r (Min (set ready)) h"
  shows "\<exists>h. find_ready ev r ready [0..mx] = Inr (Some h)
    \<and> List.find (waiting ev r (Min (set ready))) (sr_handlers r) = Some h"
proof -
  let ?m = "Min (set ready)"
  have m: "?m \<in> set ready" using ready(1) by simp
  with ready(2) have "0 \<le> ?m" "?m \<le> mx" by auto
  then have "[0..mx] = [0..?m - 1] @ ?m # [?m + 1..mx]" by (rule upto_split3)
  moreover have "set [0..?m - 1] \<inter> set ready = {}" by (auto dest!: Min_le [OF finite_set])
  ultimately have "find_ready ev r ready [0..mx] = find_ready ev r ready (?m # [?m + 1..mx])"
    by (simp add: find_ready_skip del: find_ready.simps)
  moreover obtain h where "List.find (waiting ev r ?m) (sr_handlers r) = Some h"
    using some by (cases "List.find (waiting ev r ?m) (sr_handlers r)") (auto simp: find_None_iff)
  ultimately show ?thesis using find_handler_first [OF data, of ev ?m] m by simp
qed

lemma clear_read_eq: "sr_data r h = Some ed \<Longrightarrow> ev_on (ed_readev ed) \<Longrightarrow>
    clear_read h r = r\<lparr>sr_data := (sr_data r)(h \<mapsto> ed\<lparr>ed_readev := (ed_readev ed)\<lparr>ev_on := ev_persist (ed_readev ed)\<rparr>\<rparr>)\<rparr>"
  by (cases r; cases ed; cases "ed_readev ed") (auto simp: clear_read_def SelectReactor_set_data_def)

lemma clear_write_eq: "sr_data r h = Some ed \<Longrightarrow> ev_on (ed_writeev ed) \<Longrightarrow>
    clear_write h r = r\<lparr>sr_data := (sr_data r)(h \<mapsto> ed\<lparr>ed_writeev := (ed_writeev ed)\<lparr>ev_on := ev_persist (ed_writeev ed)\<rparr>\<rparr>)\<rparr>"
  by (cases r; cases ed; cases "ed_writeev ed") (auto simp: clear_write_def SelectReactor_set_data_def)

lemma dispatch_first:
  assumes data: "\<forall>h\<in>set (sr_handlers r). sr_data r h \<noteq> None"
    and rd: "set rd \<subseteq> {i \<in> read_fds r (sr_handlers r). 0 \<le> i \<and> i \<le> mx}"
    and wr: "set wr \<subseteq> {i \<in> write_fds r (sr_handlers r). 0 \<le> i \<and> i \<le> mx}"
    and some: "rd \<noteq> [] \<or> wr \<noteq> []"
  shows "\<exists>h ed. sr_data r h = Some ed \<and> (if rd \<noteq> []
      then List.find (waiting ed_readev r (Min (set rd))) (sr_handlers r) = Some h
        \<and> SelectReactor_dispatch cb mx rd wr r = cb_input cb h (r\<lparr>sr_data := (sr_data r)(h \<mapsto>
            ed\<lparr>ed_readev := (ed_readev ed)\<lparr>ev_on := ev_persist (ed_readev ed)\<rparr>\<rparr>)\<rparr>)
      else List.find (waiting ed_writeev r (Min (set wr))) (sr_handlers r) = Some h
        \<and> SelectReactor_dispatch cb mx rd wr r = cb_output cb h (r\<lparr>sr_data := (sr_data r)(h \<mapsto>
            ed\<lparr>ed_writeev := (ed_writeev ed)\<lparr>ev_on := ev_persist (ed_writeev ed)\<rparr>\<rparr>)\<rparr>))"
proof (cases "rd = []")
  case False
  then have m: "Min (set rd) \<in> set rd" by simp
  with rd have "Min (set rd) \<in> read_fds r (sr_handlers r)" by blast
  then have "\<exists>h\<in>set (sr_handlers r). waiting ed_readev r (Min (set rd)) h"
    by (force simp: read_fds_def waiting_def)
  moreover have "set rd \<subseteq> {0..mx}" using rd by auto
  ultimately obtain h where
    h: "find_ready ed_readev r rd [0..mx] = Inr (Some h)" "List.find (waiting ed_readev r (Min (set rd))) (sr_handlers r) = Some h"
    using find_ready_first [OF data False, of mx ed_readev] by blast
  then obtain ed where "sr_data r h = Some ed" "ev_on (ed_readev ed)"
    by (auto simp: find_Some_iff waiting_def split: option.splits)
  with h False show ?thesis by (auto simp: SelectReactor_dispatch_def clear_read_eq)
next
  case True
  with some have ne: "wr \<noteq> []" by simp
  then have m: "Min (set wr) \<in> set wr" by simp
  with wr have "Min (set wr) \<in> write_fds r (sr_handlers r)" by blast
  then have "\<exists>h\<in>set (sr_handlers r). waiting ed_writeev r (Min (set wr)) h"
    by (force simp: write_fds_def waiting_def)
  moreover have "set wr \<subseteq> {0..mx}" using wr by auto
  ultimately obtain h where
    h: "find_ready ed_writeev r wr [0..mx] = Inr (Some h)" "List.find (waiting ed_writeev r (Min (set wr))) (sr_handlers r) = Some h"
    using find_ready_first [OF data ne, of mx ed_writeev] by blast
  then obtain ed where "sr_data r h = Some ed" "ev_on (ed_writeev ed)"
    by (auto simp: find_Some_iff waiting_def split: option.splits)
  with h True show ?thesis by (auto simp: SelectReactor_dispatch_def clear_write_eq find_ready_none)
qed

section \<open>The wait\<close>

lemma usec_up_sum: "fst (usec_up tv) * 1000000 + snd (usec_up tv) = fst tv * 1000000 + snd tv \<and> 0 \<le> snd (usec_up tv)
    \<and> (snd tv < 1000000 \<longrightarrow> snd (usec_up tv) < 1000000)"
  by (induction tv rule: usec_up.induct) (subst (1 2 3 4) usec_up.simps, auto)

lemma usec_down_sum: "fst (usec_down tv) * 1000000 + snd (usec_down tv) = fst tv * 1000000 + snd tv
    \<and> snd (usec_down tv) < 1000000 \<and> (0 \<le> snd tv \<longrightarrow> 0 \<le> snd (usec_down tv))"
  by (induction tv rule: usec_down.induct) (subst (1 2 3 4) usec_down.simps, auto)

lemma timeval_split:
  fixes s u :: int
  assumes "0 \<le> u" and "u < 1000000"
  shows "s = (s * 1000000 + u) div 1000000" and "u = (s * 1000000 + u) mod 1000000"
  using assms by simp_all

section \<open>Properties\<close>

text \<open>The time that the select reactor waits: with \<open>d\<close> microseconds from now to the nearest
  timeout (the nanoseconds divided as C does), the two loops that bring \<open>tv_usec\<close> into range end,
  and \<open>select\<close> gets exactly \<open>d\<close> as seconds and microseconds below a million, or zero when the
  timeout has passed.\<close>

lemma select_wait_exact:
  defines "d \<equiv> \<lambda>mn now. (fst mn - fst now) * 1000000 + c_div (snd mn - snd now) 1000"
  shows "select_timeout mn now = (if d mn now < 0 then (0, 0) else (d mn now div 1000000, d mn now mod 1000000))"
proof -
  let ?p = "usec_down (usec_up (fst mn - fst now, c_div (snd mn - snd now) 1000))"
  obtain s u where p: "?p = (s, u)" by (cases ?p)
  have su: "s * 1000000 + u = d mn now" "0 \<le> u" "u < 1000000"
    using usec_up_sum [of "(fst mn - fst now, c_div (snd mn - snd now) 1000)"]
      usec_down_sum [of "usec_up (fst mn - fst now, c_div (snd mn - snd now) 1000)"] p
    by (simp_all add: d_def)
  have "d mn now < 0 \<longleftrightarrow> s < 0" using su by linarith
  moreover have "s = d mn now div 1000000" "u = d mn now mod 1000000"
    using timeval_split [OF su(2,3), of s] unfolding su(1) by simp_all
  ultimately show ?thesis using p su(2) by (simp add: select_timeout_def)
qed

text \<open>C28. When \<open>select\<close> reports descriptors, one turn of the select reactor makes exactly one
  callback, and returns 0: \<open>HandleInput\<close> of the first registered handler that waits to read the lowest descriptor
  reported readable, or, when none is readable, \<open>HandleOutput\<close> of the first one that waits to write the lowest
  one reported writable. The event of the handler is switched off before the call, unless it is persistent, and the call
  finds nothing else changed.\<close>

theorem select_dispatch_one:
  assumes "select_doc select" and "scan_handlers r (sr_handlers r) scan_start = Inr s"
    and "select (sc_maxfd s + 1) (sc_read s) (sc_write s)
      (if sc_limit s \<and> sc_current s \<noteq> None then Some (select_timeout (sc_min s) now) else None) = Some (SelectReady rd wr)"
    and "rd \<noteq> [] \<or> wr \<noteq> []"
  shows "\<exists>h ed. sr_data r h = Some ed \<and> (if rd \<noteq> []
      then List.find (waiting ed_readev r (Min (set rd))) (sr_handlers r) = Some h
        \<and> SelectReactor_RunOnce cb select now r = Some (bindR (cb_input cb h (r\<lparr>sr_data := (sr_data r)(h \<mapsto>
            ed\<lparr>ed_readev := (ed_readev ed)\<lparr>ev_on := ev_persist (ed_readev ed)\<rparr>\<rparr>)\<rparr>)) (\<lambda>r'. Inr (0, r')))
      else List.find (waiting ed_writeev r (Min (set wr))) (sr_handlers r) = Some h
        \<and> SelectReactor_RunOnce cb select now r = Some (bindR (cb_output cb h (r\<lparr>sr_data := (sr_data r)(h \<mapsto>
            ed\<lparr>ed_writeev := (ed_writeev ed)\<lparr>ev_on := ev_persist (ed_writeev ed)\<rparr>\<rparr>)\<rparr>)) (\<lambda>r'. Inr (0, r'))))"
proof -
  note sc = scan_handlers_sel [OF assms(2)]
  have "set rd \<subseteq> {i \<in> set (sc_read s). 0 \<le> i \<and> i < sc_maxfd s + 1}"
    "set wr \<subseteq> {i \<in> set (sc_write s). 0 \<le> i \<and> i < sc_maxfd s + 1}"
    using assms(1,3) unfolding select_doc_def by blast+
  then have "set rd \<subseteq> {i \<in> read_fds r (sr_handlers r). 0 \<le> i \<and> i \<le> sc_maxfd s}"
    "set wr \<subseteq> {i \<in> write_fds r (sr_handlers r). 0 \<le> i \<and> i \<le> sc_maxfd s}"
    using sc by (auto simp: scan_start_def)
  with dispatch_first [OF _ this assms(4), of cb] sc obtain h ed where
    first: "sr_data r h = Some ed" "if rd \<noteq> []
      then List.find (waiting ed_readev r (Min (set rd))) (sr_handlers r) = Some h
        \<and> SelectReactor_dispatch cb (sc_maxfd s) rd wr r = cb_input cb h (r\<lparr>sr_data := (sr_data r)(h \<mapsto>
            ed\<lparr>ed_readev := (ed_readev ed)\<lparr>ev_on := ev_persist (ed_readev ed)\<rparr>\<rparr>)\<rparr>)
      else List.find (waiting ed_writeev r (Min (set wr))) (sr_handlers r) = Some h
        \<and> SelectReactor_dispatch cb (sc_maxfd s) rd wr r = cb_output cb h (r\<lparr>sr_data := (sr_data r)(h \<mapsto>
            ed\<lparr>ed_writeev := (ed_writeev ed)\<lparr>ev_on := ev_persist (ed_writeev ed)\<rparr>\<rparr>)\<rparr>)" by blast
  have "SelectReactor_RunOnce cb select now r
      = Some (bindR (SelectReactor_dispatch cb (sc_maxfd s) rd wr r) (\<lambda>r'. Inr (0, r')))"
    using assms(2-4) by (auto simp: SelectReactor_RunOnce_def)
  with first show ?thesis by (intro exI [of _ h] exI [of _ ed]) (cases "rd = []"; simp)
qed

definition select_all :: select_call where
  "select_all n R W t = (let rd = filter (\<lambda>i. 0 \<le> i \<and> i < n) R; wr = filter (\<lambda>i. 0 \<le> i \<and> i < n) W in
     if rd = [] \<and> wr = [] \<and> t = None then None else Some (SelectReady rd wr))"

lemma select_all_doc [simp]: "select_doc select_all"
  by (auto simp: select_doc_def select_all_def Let_def split: if_splits)

definition ids :: callbacks where
  "ids = \<lparr>cb_input = \<lambda>_ r. Inr r, cb_output = \<lambda>_ r. Inr r, cb_timeout = \<lambda>_ _ r. Inr r\<rparr>"

definition two_readers :: SelectReactor where
  "two_readers = (SelectReactor_new (\<lambda>_. 5))\<lparr>sr_handlers := [3, 4], sr_data := (\<lambda>_. None)
     (3 := Some (SelectEventData_new\<lparr>ed_readev := \<lparr>ev_on = True, ev_persist = False, ev_fd = 6, ev_timeout = (0, 0)\<rparr>\<rparr>),
      4 := Some (SelectEventData_new\<lparr>ed_readev := \<lparr>ev_on = True, ev_persist = False, ev_fd = 5, ev_timeout = (0, 0)\<rparr>\<rparr>))\<rparr>"

theorem select_dispatch_one_witness:
  "\<exists>r. SelectReactor_RunOnce ids select_all (0, 0) two_readers = Some (Inr (0, r))
    \<and> sr_data r 4 = Some (SelectEventData_new\<lparr>ed_readev := \<lparr>ev_on = False, ev_persist = False, ev_fd = 5, ev_timeout = (0, 0)\<rparr>\<rparr>)
    \<and> sr_data r 3 = sr_data two_readers 3"
proof -
  have s: "scan_handlers two_readers (sr_handlers two_readers) scan_start = Inr (scan_start\<lparr>sc_maxfd := 6, sc_read := [5, 6]\<rparr>)"
    by (simp add: two_readers_def SelectReactor_new_def SelectEventData_new_def Event_zero_def scan_start_def
      scan_read_def scan_write_def scan_timeout_def FD_SETSIZE_def)
  have sel: "select_all (sc_maxfd (scan_start\<lparr>sc_maxfd := 6, sc_read := [5, 6]\<rparr>) + 1)
      (sc_read (scan_start\<lparr>sc_maxfd := 6, sc_read := [5, 6]\<rparr>)) (sc_write (scan_start\<lparr>sc_maxfd := 6, sc_read := [5, 6]\<rparr>)) to
    = Some (SelectReady [5, 6] [])" for to
    by (simp add: scan_start_def select_all_def Let_def)
  show ?thesis using select_dispatch_one [OF select_all_doc s sel, of ids]
    by (auto simp: two_readers_def SelectReactor_new_def SelectEventData_new_def Event_zero_def waiting_def ids_def)
qed

text \<open>The select reactor computes \<open>nfds\<close> from the descriptors of the read events only, also for
  handlers that wait to write: if every handler that waits to write has a larger descriptor than
  all read events carry (0 for one that never read, as of a connector), no turn ever calls
  \<open>HandleOutput\<close>, whatever \<open>select\<close> reports.\<close>

lemma select_never_writes:
  assumes "select_doc select"
    and "\<forall>h\<in>set (sr_handlers r). \<forall>ed. sr_data r h = Some ed \<longrightarrow> ev_on (ed_writeev ed) \<longrightarrow> 0 < ev_fd (ed_writeev ed)
      \<and> (\<forall>g\<in>set (sr_handlers r). \<forall>ed'. sr_data r g = Some ed' \<longrightarrow> ev_fd (ed_readev ed') < ev_fd (ed_writeev ed))"
  shows "SelectReactor_RunOnce (cb\<lparr>cb_output := o1\<rparr>) select now r = SelectReactor_RunOnce (cb\<lparr>cb_output := o2\<rparr>) select now r"
proof (cases "scan_handlers r (sr_handlers r) scan_start")
  case (Inl e)
  then show ?thesis by (simp add: SelectReactor_RunOnce_def)
next
  case (Inr s)
  note sc = scan_handlers_sel [OF Inr]
  have mx: "sc_maxfd s < ev_fd (ed_writeev ed)"
    if "h \<in> set (sr_handlers r)" "sr_data r h = Some ed" "ev_on (ed_writeev ed)" for h ed
  proof -
    have w: "0 < ev_fd (ed_writeev ed)" "\<forall>g\<in>set (sr_handlers r). \<forall>ed'. sr_data r g = Some ed' \<longrightarrow>
        ev_fd (ed_readev ed') < ev_fd (ed_writeev ed)" using assms(2) that by blast+
    from sc have "sc_maxfd scan_start \<le> M \<Longrightarrow>
        (\<forall>g\<in>set (sr_handlers r). \<forall>ed'. sr_data r g = Some ed' \<longrightarrow> ev_fd (ed_readev ed') \<le> M) \<Longrightarrow> sc_maxfd s \<le> M" for M
      by simp
    from this [of "ev_fd (ed_writeev ed) - 1"] w have "sc_maxfd s \<le> ev_fd (ed_writeev ed) - 1"
      by (simp add: scan_start_def)
    then show ?thesis by simp
  qed
  let ?to = "if sc_limit s \<and> sc_current s \<noteq> None then Some (select_timeout (sc_min s) now) else None"
  have wr: "wr = []" if "select (sc_maxfd s + 1) (sc_read s) (sc_write s) ?to = Some (SelectReady rd wr)" for rd wr
  proof -
    have "set wr \<subseteq> {i \<in> write_fds r (sr_handlers r). i \<le> sc_maxfd s}"
      using assms(1) that sc unfolding select_doc_def by (fastforce simp: scan_start_def)
    moreover have "sc_maxfd s < i" if "i \<in> write_fds r (sr_handlers r)" for i
      using that mx by (auto simp: write_fds_def)
    ultimately have "i \<notin> set wr" for i by fastforce
    then show ?thesis by (cases wr) auto
  qed
  show ?thesis using Inr wr find_ready_none
    by (auto simp: SelectReactor_RunOnce_def SelectReactor_dispatch_def SelectReactor_timeout_def
        split: option.splits select_result.splits)
qed

definition one_connector :: SelectReactor where
  "one_connector = (SelectReactor_new (\<lambda>_. 5))\<lparr>sr_handlers := [3], sr_data := (\<lambda>_. None)(3 := Some
     (SelectEventData_new\<lparr>ed_writeev := \<lparr>ev_on = True, ev_persist = False, ev_fd = 5, ev_timeout = (0, 0)\<rparr>\<rparr>))\<rparr>"

lemma select_never_writes_witness:
  "SelectReactor_RunOnce (ids\<lparr>cb_output := \<lambda>_ _. Inl Dangling\<rparr>) select_all (0, 0) one_connector
    = SelectReactor_RunOnce (ids\<lparr>cb_output := \<lambda>_ r. Inr r\<rparr>) select_all (0, 0) one_connector"
  by (rule select_never_writes)
    (auto simp: one_connector_def SelectReactor_new_def SelectEventData_new_def Event_zero_def)



end
