(* ===== verification/Package.thy ===== *)
theory Package
  imports DataBlockProps
begin

text \<open>
  \<open>Package\<close> of \<open>pros/package.cpp\<close>: the message that the reactor hands to the worker
  threads, with its payload in a \<open>DataBlock\<close>. The peer address is of a type \<open>'addr\<close> (the
  package stores and returns it), and the time stamps, which no operation of the class reads,
  are left out. \<open>sizeof (DataBlock)\<close> is four pointers and \<open>sizeof (size_t)\<close> is 8; an
  object in memory has the little-endian representation.
\<close>

record 'addr Package =
  pk_allocator :: bool
  pk_handlerid :: u64
  pk_processorid :: u64
  pk_protocol :: u64
  pk_retcode :: u32
  pk_data :: "DataBlock option"
  pk_peerAddr :: 'addr

definition Package_new :: "'addr \<Rightarrow> 'addr Package" where
  "Package_new addr = \<lparr>pk_allocator = False, pk_handlerid = 0, pk_processorid = 0, pk_protocol = 0,
     pk_retcode = 0, pk_data = None, pk_peerAddr = addr\<rparr>"

definition sizeof_DataBlock :: u64 where "sizeof_DataBlock = 32"

definition Package_block :: "'addr Package \<Rightarrow> DataBlock result" where
  "Package_block p = (case pk_data p of None \<Rightarrow> Inl NullDeref | Some db \<Rightarrow> Inr db)"

definition Package_GetDataLen :: "'addr Package \<Rightarrow> u64 result" where
  "Package_GetDataLen p = bindR (Package_block p) (\<lambda>db. Inr (DataBlock_GetSize db))"

text \<open>The bytes that \<open>GetData\<close> and \<open>GetDataLen\<close> describe.\<close>

definition Package_GetData :: "'addr Package \<Rightarrow> byte list result" where
  "Package_GetData p = bindR (Package_block p) (\<lambda>db. Inr (db_data db))"

definition Package_SetAllocator :: "bool \<Rightarrow> 'addr Package \<Rightarrow> 'addr Package result" where
  "Package_SetAllocator allocator p =
     bindR (guardR AssertFail allocator) (\<lambda>_. Inr (p\<lparr>pk_allocator := allocator\<rparr>))"

definition Package_SetPeerAddr :: "'addr \<Rightarrow> 'addr Package \<Rightarrow> 'addr Package" where
  "Package_SetPeerAddr addr p = p\<lparr>pk_peerAddr := addr\<rparr>"

definition Package_GetPeerAddr :: "'addr Package \<Rightarrow> 'addr" where
  "Package_GetPeerAddr p = pk_peerAddr p"

definition Package_SetHandlerId :: "u64 \<Rightarrow> 'addr Package \<Rightarrow> 'addr Package" where
  "Package_SetHandlerId handlerid p = p\<lparr>pk_handlerid := handlerid\<rparr>"

definition Package_SetProcessorId :: "u64 \<Rightarrow> 'addr Package \<Rightarrow> 'addr Package" where
  "Package_SetProcessorId processorid p = p\<lparr>pk_processorid := processorid\<rparr>"

definition Package_SetProtocol :: "u64 \<Rightarrow> 'addr Package \<Rightarrow> 'addr Package" where
  "Package_SetProtocol protocol p = p\<lparr>pk_protocol := protocol\<rparr>"

definition Package_SetRetCode :: "u32 \<Rightarrow> 'addr Package \<Rightarrow> 'addr Package" where
  "Package_SetRetCode retcode p = p\<lparr>pk_retcode := retcode\<rparr>"

text \<open>The block of a package, made at the first call of \<open>SetData\<close>.\<close>

definition Package_make_block :: "heap_new \<Rightarrow> 'addr Package \<Rightarrow> DataBlock result" where
  "Package_make_block new p =
     (case pk_data p of
        Some db \<Rightarrow> Inr db
      | None \<Rightarrow>
          bindR (guardR NullDeref (pk_allocator p)) (\<lambda>_.
          bindR (guardR AssertFail (fst (NewAllocator_Allocate new sizeof_DataBlock) \<noteq> None)) (\<lambda>_.
            Inr (DataBlock_new new DEFAULT_BLOCK_SIZE))))"

definition Package_SetData :: "heap_new \<Rightarrow> srcptr \<Rightarrow> u64 \<Rightarrow> 'addr Package \<Rightarrow> 'addr Package result" where
  "Package_SetData new ptr len p =
     bindR (Package_make_block new p) (\<lambda>db.
     bindR (DataBlock_Resize new (DataBlock_Clear db) len) (\<lambda>(r1, db1).
     bindR (DataBlock_Copy new db1 0 ptr len) (\<lambda>(r2, db2).
       Inr (p\<lparr>pk_data := Some db2\<rparr>))))"

definition Package_GetSize :: "'addr Package \<Rightarrow> u64 result" where
  "Package_GetSize p = bindR (Package_GetDataLen p) (\<lambda>datalen. Inr (8 + 8 + 8 + datalen))"

text \<open>\<open>memcpy (p, src, n); p += n\<close> on a buffer, and the load in the other direction.\<close>

definition buf_put :: "byte list \<Rightarrow> byte list \<times> nat \<Rightarrow> (byte list \<times> nat) result" where
  "buf_put bs = (\<lambda>(buf, p). if p + length bs \<le> length buf then Inr (overwrite buf p bs, p + length bs)
                            else Inl OutOfBounds)"

definition Package_Serialize :: "'addr Package \<Rightarrow> byte list \<Rightarrow> u64 \<Rightarrow> byte list result" where
  "Package_Serialize p buf bufsize =
     bindR (Package_GetSize p) (\<lambda>sz.
     bindR (guardR AssertFail (bufsize \<ge> sz)) (\<lambda>_.
     bindR (buf_put (le_bytes 8 (pk_handlerid p)) (buf, 0)) (\<lambda>b1.
     bindR (buf_put (le_bytes 8 (pk_protocol p)) b1) (\<lambda>b2.
     bindR (Package_GetDataLen p) (\<lambda>datalen.
     bindR (buf_put (le_bytes 8 datalen) b2) (\<lambda>b3.
     bindR (Package_GetData p) (\<lambda>data.
     bindR (buf_put data b3) (\<lambda>b4. Inr (fst b4)))))))))"

text \<open>Reading \<open>n\<close> bytes at \<open>p\<close>, with \<open>remain\<close> as the code counts it.\<close>

definition buf_get :: "byte list \<Rightarrow> nat \<times> u64 \<Rightarrow> (u64 \<times> nat \<times> u64) result" where
  "buf_get buf = (\<lambda>(p, remain).
     bindR (guardR AssertFail (remain \<ge> 8)) (\<lambda>_.
       if p + 8 \<le> length buf then Inr (le_word (take 8 (drop p buf)), p + 8, remain - 8) else Inl OutOfBounds))"

definition Package_Unserialize :: "heap_new \<Rightarrow> byte list \<Rightarrow> u64 \<Rightarrow> 'addr Package \<Rightarrow> 'addr Package result" where
  "Package_Unserialize new buf bufsize pk =
     bindR (case pk_data pk of None \<Rightarrow> Inl AssertFail | Some db \<Rightarrow> Inr db) (\<lambda>db.
     bindR (buf_get buf (0, bufsize)) (\<lambda>(v1, s1).
     let pk1 = pk\<lparr>pk_handlerid := v1\<rparr> in
     bindR (buf_get buf s1) (\<lambda>(v2, s2).
     let pk2 = pk1\<lparr>pk_handlerid := v2\<rparr> in
     bindR (buf_get buf s2) (\<lambda>(datalen, p, remain).
     bindR (guardR AssertFail (remain \<ge> datalen)) (\<lambda>_.
     bindR (DataBlock_Resize new db datalen) (\<lambda>(r1, db1).
     bindR (DataBlock_Copy new db1 0 (Foreign (drop p buf)) datalen) (\<lambda>(r2, db2).
       Inr (pk2\<lparr>pk_data := Some db2\<rparr>))))))))"

end
