(* ===== verification/Queue.thy ===== *)
theory Queue
  imports Prelude "HOL-Library.Multiset"
begin

text \<open>
  \<open>utils/queue.h\<close>: the queue between the reactor and the worker threads, as \<open>SyncQueue\<close> (first
  in, first out) and as \<open>SyncStack\<close> (last in, first out, with an optional eviction of the oldest
  entry). Every operation runs under the mutex of the queue, so each call is one step.
  \<open>notify_p_\<close> is the presence of a notification and \<open>sq_notified\<close> counts its calls.
\<close>

record 'a SyncQueue =
  sq_queue :: "'a list"
  sq_limit :: u64
  sq_count :: u64
  sq_notify :: bool
  sq_notified :: nat

definition DEFAULT_LIMIT :: u64 where "DEFAULT_LIMIT = 1000"

definition SyncQueue_new :: "u64 \<Rightarrow> 'a SyncQueue" where
  "SyncQueue_new limit = \<lparr>sq_queue = [], sq_limit = limit, sq_count = 0, sq_notify = False, sq_notified = 0\<rparr>"

definition SyncQueue_GetSize :: "'a SyncQueue \<Rightarrow> u64" where
  "SyncQueue_GetSize q = sq_count q"

definition SyncQueue_GetLimit :: "'a SyncQueue \<Rightarrow> u64" where
  "SyncQueue_GetLimit q = sq_limit q"

definition SyncQueue_SetLimit :: "u64 \<Rightarrow> 'a SyncQueue \<Rightarrow> 'a SyncQueue" where
  "SyncQueue_SetLimit limit q = q\<lparr>sq_limit := limit\<rparr>"

definition Queue_SetNotification :: "bool \<Rightarrow> 'a SyncQueue \<Rightarrow> 'a SyncQueue" where
  "Queue_SetNotification notify q = q\<lparr>sq_notify := notify\<rparr>"

text \<open>
  \<open>PushImp\<close> returns the code, the entry stored in \<open>*removed\<close> and the queue; \<open>want\<close> says
  that \<open>removed\<close> is not null.
\<close>

definition SyncQueue_PushImp :: "'a \<Rightarrow> bool \<Rightarrow> bool \<Rightarrow> 'a SyncQueue \<Rightarrow> (int \<times> 'a option \<times> 'a SyncQueue) result" where
  "SyncQueue_PushImp value want limit q =
     (if limit \<and> sq_count q \<ge> sq_limit q then Inr (- 1, None, q)
      else Inr (0, None, q\<lparr>sq_queue := sq_queue q @ [value], sq_count := sq_count q + 1\<rparr>))"

definition SyncStack_PushImp :: "'a \<Rightarrow> bool \<Rightarrow> bool \<Rightarrow> 'a SyncQueue \<Rightarrow> (int \<times> 'a option \<times> 'a SyncQueue) result" where
  "SyncStack_PushImp value want limit q =
     (if limit \<and> sq_count q \<ge> sq_limit q
      then if want
           then if sq_queue q = [] then Inl EmptyFront
                else let q1 = q\<lparr>sq_queue := butlast (sq_queue q), sq_count := sq_count q - 1\<rparr>
                     in Inr (0, Some (last (sq_queue q)),
                             q1\<lparr>sq_queue := value # sq_queue q1, sq_count := sq_count q1 + 1\<rparr>)
           else Inr (- 1, None, q)
      else Inr (0, None, q\<lparr>sq_queue := value # sq_queue q, sq_count := sq_count q + 1\<rparr>))"

definition Queue_Push :: "('a \<Rightarrow> bool \<Rightarrow> bool \<Rightarrow> 'a SyncQueue \<Rightarrow> (int \<times> 'a option \<times> 'a SyncQueue) result)
    \<Rightarrow> 'a \<Rightarrow> bool \<Rightarrow> bool \<Rightarrow> 'a SyncQueue \<Rightarrow> (int \<times> 'a option \<times> 'a SyncQueue) result" where
  "Queue_Push PushImp value want limit q =
     bindR (PushImp value want limit q) (\<lambda>(ret, removed, q').
       Inr (ret, removed, if ret = 0 \<and> sq_notify q' then q'\<lparr>sq_notified := sq_notified q' + 1\<rparr> else q'))"

text \<open>
  \<open>PopImp\<close>, whose waits return with the queue in the states of \<open>env\<close>, as the other threads left
  it; \<open>None\<close> is a call that is still waiting.
\<close>

fun SyncQueue_PopImp :: "bool \<Rightarrow> 'a SyncQueue \<Rightarrow> 'a SyncQueue list \<Rightarrow> (int \<times> 'a option \<times> 'a SyncQueue) option" where
  "SyncQueue_PopImp block q env =
     (if sq_queue q \<noteq> []
      then Some (0, Some (hd (sq_queue q)), q\<lparr>sq_queue := tl (sq_queue q), sq_count := sq_count q - 1\<rparr>)
      else if \<not> block then Some (- 1, None, q)
      else case env of [] \<Rightarrow> None | q' # env' \<Rightarrow> SyncQueue_PopImp block q' env')"

definition Queue_Pop :: "bool \<Rightarrow> 'a SyncQueue \<Rightarrow> 'a SyncQueue list \<Rightarrow> (int \<times> 'a option \<times> 'a SyncQueue) option" where
  "Queue_Pop block q env = SyncQueue_PopImp block q env"

section \<open>Runs of pushes and pops\<close>

text \<open>
  A run of calls by any threads, in the order in which they take the mutex. It gives the entries
  accepted, the entries popped and the entries removed, each in order, and the queue.
\<close>

datatype 'a queue_op = OpPush 'a bool bool | OpPop

fun queue_run :: "('a \<Rightarrow> bool \<Rightarrow> bool \<Rightarrow> 'q \<Rightarrow> (int \<times> 'a option \<times> 'q) result) \<Rightarrow> ('q \<Rightarrow> (int \<times> 'a option \<times> 'q) option)
    \<Rightarrow> 'a queue_op list \<Rightarrow> 'q \<Rightarrow> ('a list \<times> 'a list \<times> 'a list \<times> 'q) result" where
  "queue_run push pop [] q = Inr ([], [], [], q)"
| "queue_run push pop (OpPush x want limit # ops) q =
     bindR (push x want limit q) (\<lambda>(r, rem, q1).
     bindR (queue_run push pop ops q1) (\<lambda>(acc, popped, removed, q2).
       Inr (if r = 0 then x # acc else acc, popped, (case rem of None \<Rightarrow> removed | Some y \<Rightarrow> y # removed), q2)))"
| "queue_run push pop (OpPop # ops) q =
     (case pop q of
        None \<Rightarrow> Inl Diverges
      | Some (r, v, q1) \<Rightarrow>
          bindR (queue_run push pop ops q1) (\<lambda>(acc, popped, removed, q2).
            Inr (acc, (case v of None \<Rightarrow> popped | Some y \<Rightarrow> y # popped), removed, q2)))"

definition SyncQueue_run :: "'a queue_op list \<Rightarrow> 'a SyncQueue \<Rightarrow> ('a list \<times> 'a list \<times> 'a list \<times> 'a SyncQueue) result" where
  "SyncQueue_run = queue_run (Queue_Push SyncQueue_PushImp) (\<lambda>q. Queue_Pop False q [])"

definition SyncStack_run :: "'a queue_op list \<Rightarrow> 'a SyncQueue \<Rightarrow> ('a list \<times> 'a list \<times> 'a list \<times> 'a SyncQueue) result" where
  "SyncStack_run = queue_run (Queue_Push SyncStack_PushImp) (\<lambda>q. Queue_Pop False q [])"

end
