(* ===== verification/Mutex.thy ===== *)
theory Mutex
  imports Prelude
begin

text \<open>
  \<open>utils/mutex.h\<close> and \<open>utils/mutex.cpp\<close>. A mutex is the thread that holds it, if one
  does. POSIX and the System V semaphores are outside the repository; the part of their
  documentation that the code uses is in \<open>pthread_mutex_lock\<close> and in the outcomes of
  \<open>semop\<close>: an operation that has to wait gives \<open>None\<close>, the caller does not return yet.
\<close>

section \<open>The mutexes\<close>

type_synonym tid = nat
type_synonym mutex_state = "tid option"

definition EBUSY :: int where "EBUSY = 16"
definition EPERM :: int where "EPERM = 1"

definition pthread_mutex_lock :: "tid \<Rightarrow> mutex_state \<Rightarrow> (int \<times> mutex_state) option" where
  "pthread_mutex_lock t m = (case m of None \<Rightarrow> Some (0, Some t) | Some _ \<Rightarrow> None)"

definition pthread_mutex_trylock :: "tid \<Rightarrow> mutex_state \<Rightarrow> (int \<times> mutex_state) option" where
  "pthread_mutex_trylock t m = (case m of None \<Rightarrow> Some (0, Some t) | Some _ \<Rightarrow> Some (EBUSY, m))"

definition pthread_mutex_unlock :: "tid \<Rightarrow> mutex_state \<Rightarrow> int \<times> mutex_state" where
  "pthread_mutex_unlock t m = (if m = Some t then (0, None) else (EPERM, m))"

definition NullMutex_Acquire :: "tid \<Rightarrow> bool \<Rightarrow> mutex_state \<Rightarrow> (int \<times> mutex_state) option" where
  "NullMutex_Acquire t block m = Some (0, m)"

definition NullMutex_Release :: "tid \<Rightarrow> mutex_state \<Rightarrow> int \<times> mutex_state" where
  "NullMutex_Release t m = (0, m)"

definition ThreadMutex_Acquire :: "tid \<Rightarrow> bool \<Rightarrow> mutex_state \<Rightarrow> (int \<times> mutex_state) option" where
  "ThreadMutex_Acquire t block m = (if block then pthread_mutex_lock t m else pthread_mutex_trylock t m)"

definition ThreadMutex_Release :: "tid \<Rightarrow> mutex_state \<Rightarrow> int \<times> mutex_state" where
  "ThreadMutex_Release t m = pthread_mutex_unlock t m"

text \<open>
  The loops of \<open>SemMutex\<close> over the outcomes of successive \<open>semop\<close> calls: interrupted calls
  are repeated, any other failure is reported.
\<close>

datatype semop_result = SemDone | SemEINTR | SemError

fun SemMutex_Acquire :: "semop_result list \<Rightarrow> int option" where
  "SemMutex_Acquire [] = None"
| "SemMutex_Acquire (SemDone # rs) = Some 0"
| "SemMutex_Acquire (SemEINTR # rs) = SemMutex_Acquire rs"
| "SemMutex_Acquire (SemError # rs) = Some (- 1)"

fun SemMutex_Release :: "semop_result list \<Rightarrow> int option" where
  "SemMutex_Release [] = None"
| "SemMutex_Release (SemDone # rs) = Some 0"
| "SemMutex_Release (SemEINTR # rs) = SemMutex_Release rs"
| "SemMutex_Release (SemError # rs) = Some (- 1)"

text \<open>
  The constructor of \<open>SemMutex\<close>: the process that creates the semaphore initialises it and
  passes through it once, which sets \<open>sem_otime\<close>; another process waits until it is set. The
  arguments are the result of the exclusive \<open>semget\<close>, its \<open>errno\<close>, the result of the second
  \<open>semget\<close> and the \<open>sem_otime\<close> values of successive \<open>semctl\<close> calls; the result is
  \<open>semid_\<close> and whether this process has initialised the semaphore.
\<close>

fun SemMutex_wait_init :: "int list \<Rightarrow> bool" where
  "SemMutex_wait_init [] = False"
| "SemMutex_wait_init (otime # ts) = (if otime \<noteq> 0 then True else SemMutex_wait_init ts)"

definition EEXIST :: int where "EEXIST = 17"

definition SemMutex_new :: "int \<Rightarrow> int \<Rightarrow> int \<Rightarrow> int list \<Rightarrow> (int \<times> bool) option" where
  "SemMutex_new semid err semid2 otimes =
     (if semid \<ge> 0 then Some (semid, True)
      else if err = EEXIST then (if SemMutex_wait_init otimes then Some (semid2, False) else None)
      else Some (semid, False))"

section \<open>LockGuard\<close>

record LockGuard =
  lg_acquired :: bool

definition LockGuard_new :: LockGuard where
  "LockGuard_new = \<lparr>lg_acquired = False\<rparr>"

definition LockGuard_Lock :: "(tid \<Rightarrow> bool \<Rightarrow> 'm \<Rightarrow> (int \<times> 'm) option) \<Rightarrow> tid \<Rightarrow> bool \<Rightarrow> LockGuard \<Rightarrow> 'm
    \<Rightarrow> (int \<times> LockGuard \<times> 'm) option" where
  "LockGuard_Lock acquire t block g m =
     (if lg_acquired g then Some (- 1, g, m)
      else case acquire t block m of
        None \<Rightarrow> None
      | Some (r, m') \<Rightarrow> if r \<noteq> 0 then Some (- 1, g, m') else Some (0, g\<lparr>lg_acquired := True\<rparr>, m'))"

definition LockGuard_Unlock :: "(tid \<Rightarrow> 'm \<Rightarrow> int \<times> 'm) \<Rightarrow> tid \<Rightarrow> LockGuard \<Rightarrow> 'm \<Rightarrow> int \<times> LockGuard \<times> 'm" where
  "LockGuard_Unlock release t g m =
     (if \<not> lg_acquired g then (- 1, g, m)
      else case release t m of (r, m') \<Rightarrow>
        if r \<noteq> 0 then (- 1, g, m') else (0, g\<lparr>lg_acquired := False\<rparr>, m'))"

definition LockGuard_destroy :: "(tid \<Rightarrow> 'm \<Rightarrow> int \<times> 'm) \<Rightarrow> tid \<Rightarrow> LockGuard \<Rightarrow> 'm \<Rightarrow> 'm" where
  "LockGuard_destroy release t g m = (if lg_acquired g then snd (release t m) else m)"

text \<open>A body under a guard, as the operations of the object pool have it.\<close>

definition with_guard :: "(tid \<Rightarrow> bool \<Rightarrow> 'm \<Rightarrow> (int \<times> 'm) option) \<Rightarrow> (tid \<Rightarrow> 'm \<Rightarrow> int \<times> 'm) \<Rightarrow> tid
    \<Rightarrow> 'b \<Rightarrow> ('s \<Rightarrow> 'b \<times> 's) \<Rightarrow> 's \<times> 'm \<Rightarrow> ('b \<times> 's \<times> 'm) option" where
  "with_guard acquire release t failed body = (\<lambda>(s, m).
     case LockGuard_Lock acquire t True LockGuard_new m of
       None \<Rightarrow> None
     | Some (r, g, m') \<Rightarrow>
         if r \<noteq> 0 then Some (failed, s, LockGuard_destroy release t g m')
         else case body s of (b, s') \<Rightarrow> Some (b, s', LockGuard_destroy release t g m'))"

section \<open>The contract of a mutex\<close>

text \<open>
  \<open>free\<close> says that the mutex can be taken. Taking and releasing it gives the state before;
  the lock of a mutex that is not free does not succeed.
\<close>

locale mutex =
  fixes acquire :: "tid \<Rightarrow> bool \<Rightarrow> 'm \<Rightarrow> (int \<times> 'm) option"
    and release :: "tid \<Rightarrow> 'm \<Rightarrow> int \<times> 'm"
    and free :: "'m \<Rightarrow> bool"
  assumes take_free: "free m \<Longrightarrow> \<exists>m'. acquire t block m = Some (0, m') \<and> release t m' = (0, m)"
    and take_busy: "\<not> free m \<Longrightarrow> (case acquire t block m of None \<Rightarrow> block | Some (r, m') \<Rightarrow> r \<noteq> 0 \<and> m' = m)"
begin

lemma guard_pairs:
  "free m \<Longrightarrow> with_guard acquire release t failed body (s, m)
     = Some (fst (body s), snd (body s), m)"
  using take_free [of m t True]
  by (auto simp: with_guard_def LockGuard_Lock_def LockGuard_new_def LockGuard_destroy_def split: prod.splits)

lemma guard_waits:
  assumes "\<not> free m"
  shows "case with_guard acquire release t failed body (s, m) of
     None \<Rightarrow> True | Some (b, s', m') \<Rightarrow> b = failed \<and> s' = s \<and> m' = m"
  using take_busy [OF assms, of True t]
  by (auto simp: with_guard_def LockGuard_Lock_def LockGuard_new_def LockGuard_destroy_def split: option.splits prod.splits)

lemma lock_unlock:
  assumes "free m"
  shows "\<exists>g m'. LockGuard_Lock acquire t block LockGuard_new m = Some (0, g, m') \<and> lg_acquired g
    \<and> LockGuard_Lock acquire t block g m' = Some (- 1, g, m')
    \<and> LockGuard_Unlock release t g m' = (0, LockGuard_new, m)
    \<and> LockGuard_destroy release t g m' = m"
  using take_free [OF assms, of t block]
  by (auto simp: LockGuard_Lock_def LockGuard_new_def LockGuard_Unlock_def LockGuard_destroy_def)

end

interpretation null_mutex: mutex NullMutex_Acquire NullMutex_Release "\<lambda>m. True"
  by unfold_locales (auto simp: NullMutex_Acquire_def NullMutex_Release_def)

interpretation thread_mutex: mutex ThreadMutex_Acquire ThreadMutex_Release "\<lambda>m. m = None"
  by unfold_locales (auto simp: ThreadMutex_Acquire_def ThreadMutex_Release_def pthread_mutex_lock_def
      pthread_mutex_trylock_def pthread_mutex_unlock_def EBUSY_def)

lemma SemMutex_Acquire_result:
  "SemMutex_Acquire rs = (case dropWhile (\<lambda>r. r = SemEINTR) rs of [] \<Rightarrow> None
     | r # _ \<Rightarrow> Some (if r = SemDone then 0 else - 1))"
  by (induction rs rule: SemMutex_Acquire.induct) simp_all

end
