(* ===== verification/ObjectPool.thy ===== *)
theory ObjectPool
  imports Mutex
begin

text \<open>
  \<open>utils/objectpool.h\<close>, \<open>utils/objectallocator.h\<close>, \<open>utils/objectmanager.h\<close> and
  \<open>utils/destroyable.cpp\<close>: the pool from which packages and connections are taken and to
  which \<open>Destroy\<close> returns them. An object is the pair of its chunk and its index in it;
  distinct chunks are disjoint memory. The allocator is the parameter \<open>alc\<close>, which says for
  the number of the call and the number of bytes whether memory is found.
\<close>

type_synonym obj = "nat \<times> nat"
type_synonym chunk_alloc = "nat \<Rightarrow> u64 \<Rightarrow> bool"

record ObjectPool =
  pl_curr :: u64
  pl_max :: u64
  pl_inc :: u64
  pl_objects :: "obj list"
  pl_chunks :: "nat list"

text \<open>
  \<open>IncreaseObjects\<close>: the product \<open>sizeof(T)*iIncNum\<close> wraps, and then the objects are
  constructed past the end of the chunk.
\<close>

definition ObjectPool_IncreaseObjects :: "chunk_alloc \<Rightarrow> u64 \<Rightarrow> u64 \<Rightarrow> ObjectPool \<Rightarrow> (int \<times> ObjectPool) result" where
  "ObjectPool_IncreaseObjects alc sizeofT iIncNum p =
     (if pl_curr p \<ge> pl_max p then Inr (- 1, p)
      else
        let n = (if pl_curr p + iIncNum > pl_max p then pl_max p - pl_curr p else iIncNum) in
        if \<not> alc (length (pl_chunks p)) (sizeofT * n) then Inr (- 1, p)
        else if unat sizeofT * unat n \<ge> 2 ^ 64 then Inl OutOfBounds
        else Inr (0, p\<lparr>pl_objects := pl_objects p @ map (Pair (length (pl_chunks p))) [0..<unat n],
                      pl_chunks := pl_chunks p @ [unat n],
                      pl_curr := pl_curr p + n\<rparr>))"

definition ObjectPool_new :: "chunk_alloc \<Rightarrow> u64 \<Rightarrow> u64 \<Rightarrow> u64 \<Rightarrow> u64 \<Rightarrow> ObjectPool result" where
  "ObjectPool_new alc sizeofT iInitNum iMaxNum iIncNum =
     (let p0 = \<lparr>pl_curr = 0, pl_max = iMaxNum, pl_inc = iIncNum, pl_objects = [], pl_chunks = []\<rparr>;
          p1 = (if pl_max p0 < iInitNum then p0\<lparr>pl_max := iInitNum, pl_inc := 0\<rparr> else p0)
      in bindR (ObjectPool_IncreaseObjects alc sizeofT iInitNum p1) (\<lambda>(r, p). Inr p))"

definition ObjectPool_SetMaxNum :: "u64 \<Rightarrow> ObjectPool \<Rightarrow> ObjectPool" where
  "ObjectPool_SetMaxNum iMaxNum p =
     (if pl_curr p \<ge> iMaxNum then p\<lparr>pl_max := pl_curr p\<rparr> else p\<lparr>pl_max := iMaxNum\<rparr>)"

definition ObjectPool_SetIncNum :: "u64 \<Rightarrow> ObjectPool \<Rightarrow> ObjectPool" where
  "ObjectPool_SetIncNum iIncNum p = p\<lparr>pl_inc := iIncNum\<rparr>"

definition ObjectPool_IsInit :: "ObjectPool \<Rightarrow> bool" where
  "ObjectPool_IsInit p \<longleftrightarrow> pl_curr p > 0"

text \<open>The bodies of \<open>Create\<close> and \<open>Destroy\<close> under their guard.\<close>

definition ObjectPool_take :: "ObjectPool \<Rightarrow> obj option result \<times> ObjectPool" where
  "ObjectPool_take p =
     (if pl_objects p = [] then (Inl EmptyFront, p)
      else (Inr (Some (hd (pl_objects p))), p\<lparr>pl_objects := tl (pl_objects p)\<rparr>))"

definition ObjectPool_Create_body :: "chunk_alloc \<Rightarrow> u64 \<Rightarrow> ObjectPool \<Rightarrow> obj option result \<times> ObjectPool" where
  "ObjectPool_Create_body alc sizeofT p =
     (if pl_objects p = []
      then case ObjectPool_IncreaseObjects alc sizeofT (pl_inc p) p of
             Inl e \<Rightarrow> (Inl e, p)
           | Inr (r, p') \<Rightarrow> if r \<noteq> 0 then (Inr None, p') else ObjectPool_take p'
      else ObjectPool_take p)"

definition ObjectPool_Destroy_body :: "obj option \<Rightarrow> ObjectPool \<Rightarrow> unit \<times> ObjectPool" where
  "ObjectPool_Destroy_body pObject p =
     (case pObject of None \<Rightarrow> ((), p) | Some x \<Rightarrow> ((), p\<lparr>pl_objects := x # pl_objects p\<rparr>))"

definition ObjectPool_Create where
  "ObjectPool_Create acquire release t alc sizeofT =
     with_guard acquire release t (Inr None) (ObjectPool_Create_body alc sizeofT)"

definition ObjectPool_Destroy where
  "ObjectPool_Destroy acquire release t pObject =
     with_guard acquire release t () (ObjectPool_Destroy_body pObject)"

text \<open>The destructor: the objects that are free are destroyed and every chunk is released.\<close>

definition ObjectPool_destroy :: "ObjectPool \<Rightarrow> obj list \<times> nat list" where
  "ObjectPool_destroy p = (pl_objects p, [0..<length (pl_chunks p)])"

section \<open>ObjectManager and Destroyable\<close>

text \<open>
  A destroyable object with its callback: none, the manager of a pool, or \<open>delete\<close>. The manager
  sets itself as the callback of what it creates, and \<open>Destroy\<close> calls it.
\<close>

datatype destroy_callback = NoCallback | ManagerCallback | DeleteCallback

definition ObjectManager_Create :: "(ObjectPool \<Rightarrow> obj option result \<times> ObjectPool) \<Rightarrow> ObjectPool \<times> (obj \<Rightarrow> destroy_callback)
    \<Rightarrow> obj option result \<times> ObjectPool \<times> (obj \<Rightarrow> destroy_callback)" where
  "ObjectManager_Create create = (\<lambda>(p, cb).
     case create p of (r, p') \<Rightarrow>
       (r, p', case r of Inr (Some x) \<Rightarrow> cb(x := ManagerCallback) | _ \<Rightarrow> cb))"

definition ObjectManager_call :: "obj \<Rightarrow> ObjectPool \<Rightarrow> ObjectPool" where
  "ObjectManager_call x p = snd (ObjectPool_Destroy_body (Some x) p)"

text \<open>\<open>deleted\<close> collects the objects given to \<open>delete\<close>.\<close>

definition Destroyable_Destroy :: "obj \<Rightarrow> ObjectPool \<times> (obj \<Rightarrow> destroy_callback) \<times> obj list
    \<Rightarrow> ObjectPool \<times> (obj \<Rightarrow> destroy_callback) \<times> obj list" where
  "Destroyable_Destroy x = (\<lambda>(p, cb, deleted). case cb x of
       NoCallback \<Rightarrow> (p, cb, deleted)
     | ManagerCallback \<Rightarrow> (ObjectManager_call x p, cb, deleted)
     | DeleteCallback \<Rightarrow> (p, cb, x # deleted))"

section \<open>A client of the pool\<close>

text \<open>
  The steps of a program that destroys only objects it holds: the pool and the objects in use.
\<close>

inductive pool_step :: "chunk_alloc \<Rightarrow> u64 \<Rightarrow> ObjectPool \<times> obj list \<Rightarrow> ObjectPool \<times> obj list \<Rightarrow> bool"
  for alc sizeofT where
  create_some: "ObjectPool_Create_body alc sizeofT p = (Inr (Some x), p') \<Longrightarrow>
     pool_step alc sizeofT (p, live) (p', x # live)"
| create_null: "ObjectPool_Create_body alc sizeofT p = (Inr None, p') \<Longrightarrow>
     pool_step alc sizeofT (p, live) (p', live)"
| destroy: "x \<in> set live \<Longrightarrow> ObjectPool_Destroy_body (Some x) p = ((), p') \<Longrightarrow>
     pool_step alc sizeofT (p, live) (p', remove1 x live)"

inductive pool_reachable :: "chunk_alloc \<Rightarrow> u64 \<Rightarrow> u64 \<Rightarrow> u64 \<Rightarrow> u64 \<Rightarrow> ObjectPool \<times> obj list \<Rightarrow> bool"
  for alc sizeofT iInitNum iMaxNum iIncNum where
  init: "ObjectPool_new alc sizeofT iInitNum iMaxNum iIncNum = Inr p \<Longrightarrow>
     pool_reachable alc sizeofT iInitNum iMaxNum iIncNum (p, [])"
| step: "pool_reachable alc sizeofT iInitNum iMaxNum iIncNum s \<Longrightarrow> pool_step alc sizeofT s s' \<Longrightarrow>
     pool_reachable alc sizeofT iInitNum iMaxNum iIncNum s'"

text \<open>\<open>n\<close> calls of \<open>Create\<close> in a row and their results.\<close>

fun pool_creates :: "chunk_alloc \<Rightarrow> u64 \<Rightarrow> nat \<Rightarrow> ObjectPool \<Rightarrow> obj option result list \<times> ObjectPool" where
  "pool_creates alc sizeofT 0 p = ([], p)"
| "pool_creates alc sizeofT (Suc n) p =
     (case ObjectPool_Create_body alc sizeofT p of (r, p1) \<Rightarrow>
        case pool_creates alc sizeofT n p1 of (rs, p2) \<Rightarrow> (r # rs, p2))"

end
