(* ===== verification/Procpack.thy ===== *)
theory Procpack
  imports CLib Package Queue ObjectPool
begin

text \<open>
  \<open>pros/procpack.cpp\<close>: cutting the received bytes into packages (\<open>Extract\<close>) and putting each
  into the receive queue (\<open>OnPackage\<close>). \<open>ptr\<close> and \<open>len\<close> are the received bytes as a list.
  A method that \<open>Extract\<close> calls through the class is the parameter \<open>onp\<close> on a state of any type.
  The return value is the C \<open>int\<close>: the bytes used, or -1.
\<close>

section \<open>Extract\<close>

definition PROC_TEXT_PACKLEN_LEN :: nat where "PROC_TEXT_PACKLEN_LEN = 4"
definition PROC_BINARY_PACKLEN_LEN :: nat where "PROC_BINARY_PACKLEN_LEN = 2"

text \<open>\<open>unsigned short packlen = strtol (buf, NULL, 16)\<close>.\<close>

definition text_packlen :: "byte list \<Rightarrow> u16" where
  "text_packlen ptr = word_of_int (strtol 16 (take PROC_TEXT_PACKLEN_LEN ptr))"

text \<open>The conversion of \<open>used\<close>, a \<open>size_t\<close>, to the \<open>int\<close> returned.\<close>

definition c_int :: "nat \<Rightarrow> int" where
  "c_int n = sint (of_nat n :: u32)"

function TextStreamProcpack_loop ::
    "('s \<Rightarrow> byte list \<Rightarrow> (int \<times> 's) result) \<Rightarrow> byte list \<Rightarrow> nat \<Rightarrow> 's \<Rightarrow> (int \<times> 's) result" where
  "TextStreamProcpack_loop onp ptr used s =
     (if length ptr \<le> PROC_TEXT_PACKLEN_LEN then Inr (c_int used, s)
      else
        let packlen = unat (text_packlen ptr) in
        if length ptr < packlen + PROC_TEXT_PACKLEN_LEN then Inr (c_int used, s)
        else
          let eat = PROC_TEXT_PACKLEN_LEN + packlen in
          case onp s (take eat ptr) of
            Inl e \<Rightarrow> Inl e
          | Inr (r, s') \<Rightarrow>
              if r \<noteq> 0 then Inr (- 1, s')
              else TextStreamProcpack_loop onp (drop eat ptr) (used + eat) s')"
  by pat_completeness auto

termination by (relation "measure (\<lambda>(onp, ptr, used, s). length ptr)") (auto simp: PROC_TEXT_PACKLEN_LEN_def)

declare TextStreamProcpack_loop.simps [simp del]

definition TextStreamProcpack_Extract ::
    "('s \<Rightarrow> byte list \<Rightarrow> (int \<times> 's) result) \<Rightarrow> byte list \<Rightarrow> 's \<Rightarrow> (int \<times> 's) result" where
  "TextStreamProcpack_Extract onp ptr s = TextStreamProcpack_loop onp ptr 0 s"

definition binary_packlen :: "byte list \<Rightarrow> u16" where
  "binary_packlen ptr = bswap (le_word (take PROC_BINARY_PACKLEN_LEN ptr))"

function BinaryStreamProcpack_loop ::
    "('s \<Rightarrow> byte list \<Rightarrow> (int \<times> 's) result) \<Rightarrow> byte list \<Rightarrow> nat \<Rightarrow> 's \<Rightarrow> (int \<times> 's) result" where
  "BinaryStreamProcpack_loop onp ptr used s =
     (if length ptr \<le> PROC_BINARY_PACKLEN_LEN then Inr (c_int used, s)
      else
        let packlen = unat (binary_packlen ptr) in
        if packlen \<le> PROC_BINARY_PACKLEN_LEN then Inr (- 1, s)
        else if length ptr < packlen then Inr (c_int used, s)
        else
          let eat = packlen in
          case onp s (take eat ptr) of
            Inl e \<Rightarrow> Inl e
          | Inr (r, s') \<Rightarrow>
              if r \<noteq> 0 then Inr (- 1, s')
              else BinaryStreamProcpack_loop onp (drop eat ptr) (used + eat) s')"
  by pat_completeness auto

termination by (relation "measure (\<lambda>(onp, ptr, used, s). length ptr)") (auto simp: PROC_BINARY_PACKLEN_LEN_def)

declare BinaryStreamProcpack_loop.simps [simp del]

definition BinaryStreamProcpack_Extract ::
    "('s \<Rightarrow> byte list \<Rightarrow> (int \<times> 's) result) \<Rightarrow> byte list \<Rightarrow> 's \<Rightarrow> (int \<times> 's) result" where
  "BinaryStreamProcpack_Extract onp ptr s = BinaryStreamProcpack_loop onp ptr 0 s"

section \<open>OnPackage\<close>

text \<open>
  The members of \<open>AppTextStreamProcpack\<close> and \<open>AppBinaryStreamProcpack\<close>; \<open>None\<close> is a member that
  has not been initialised. The pointers are to the one receive queue, allocator, manager
  and error callback of the server, so of each it matters whether it is set
  (for \<open>errorcb_p_\<close> also whether it is null).
\<close>

record AppProcpack =
  ap_errorcb :: "bool option"
  ap_queuepackage :: "unit option"
  ap_allocator :: "bool option"
  ap_packageManager :: "unit option"
  ap_queuelimit :: "u64 option"
  ap_protocol :: "u32 option"

text \<open>The constructors have empty bodies and no initialisers.\<close>

definition AppTextStreamProcpack_new :: "unit \<Rightarrow> bool \<Rightarrow> unit \<Rightarrow> u32 \<Rightarrow> AppProcpack" where
  "AppTextStreamProcpack_new queue allocator pPackageManager protocol =
     \<lparr>ap_errorcb = None, ap_queuepackage = None, ap_allocator = None, ap_packageManager = None,
      ap_queuelimit = None, ap_protocol = None\<rparr>"

definition AppBinaryStreamProcpack_new :: "unit \<Rightarrow> bool \<Rightarrow> unit \<Rightarrow> u32 \<Rightarrow> AppProcpack" where
  "AppBinaryStreamProcpack_new queue allocator pPackageManager protocol =
     \<lparr>ap_errorcb = None, ap_queuepackage = None, ap_allocator = None, ap_packageManager = None,
      ap_queuelimit = None, ap_protocol = None\<rparr>"

definition Procpack_SetErrorCallback :: "bool \<Rightarrow> AppProcpack \<Rightarrow> AppProcpack" where
  "Procpack_SetErrorCallback ecb ap = ap\<lparr>ap_errorcb := Some ecb\<rparr>"

definition AppProcpack_SetQueueLimit :: "u64 \<Rightarrow> AppProcpack \<Rightarrow> AppProcpack" where
  "AppProcpack_SetQueueLimit queuelimit ap = ap\<lparr>ap_queuelimit := Some queuelimit\<rparr>"

definition read_member :: "'a option \<Rightarrow> 'a result" where
  "read_member m = (case m of None \<Rightarrow> Inl Uninit | Some x \<Rightarrow> Inr x)"

text \<open>
  The objects of the server that \<open>OnPackage\<close> works on: the receive queue (a \<open>SyncStack\<close>), the
  pool of packages and the packages, the destroy callbacks, and how often
  \<open>OnInputQueueFull\<close> was called.
\<close>

record 'addr server_objs =
  so_queue :: "obj SyncQueue"
  so_pool :: ObjectPool
  so_pkgs :: "obj \<Rightarrow> 'addr Package"
  so_callbacks :: "obj \<Rightarrow> destroy_callback"
  so_fullcalls :: nat

definition so_Create :: "chunk_alloc \<Rightarrow> u64 \<Rightarrow> 'addr server_objs \<Rightarrow> (obj option \<times> 'addr server_objs) result" where
  "so_Create alc sizeofT so =
     (case ObjectManager_Create (ObjectPool_Create_body alc sizeofT) (so_pool so, so_callbacks so) of
        (r, p, cb) \<Rightarrow> bindR r (\<lambda>x. Inr (x, so\<lparr>so_pool := p, so_callbacks := cb\<rparr>)))"

definition so_Destroy :: "obj \<Rightarrow> 'addr server_objs \<Rightarrow> 'addr server_objs" where
  "so_Destroy x so =
     (case Destroyable_Destroy x (so_pool so, so_callbacks so, []) of
        (p, cb, _) \<Rightarrow> so\<lparr>so_pool := p, so_callbacks := cb\<rparr>)"

text \<open>The fields that \<open>OnPackage\<close> sets on the new package.\<close>

definition fill_package :: "heap_new \<Rightarrow> bool \<Rightarrow> u64 \<Rightarrow> u64 \<Rightarrow> u32 \<Rightarrow> byte list \<Rightarrow> 'addr \<Rightarrow> 'addr Package
    \<Rightarrow> 'addr Package result" where
  "fill_package new allocator sockid processorid protocol ptr addr pack =
     bindR (Package_SetAllocator allocator pack) (\<lambda>p1.
     bindR (Package_SetData new (Foreign ptr) (of_nat (length ptr))
             (Package_SetProtocol (scast protocol) (Package_SetProcessorId processorid
               (Package_SetHandlerId sockid p1)))) (\<lambda>p2.
     Inr (Package_SetPeerAddr addr p2)))"

text \<open>
  \<open>OnPackage\<close>, the same in both classes up to the two time stamps of the text class, and
  built without \<open>KEEP_CONNECTION\<close>.
\<close>

definition AppTextStreamProcpack_OnPackage :: "heap_new \<Rightarrow> chunk_alloc \<Rightarrow> u64 \<Rightarrow> AppProcpack \<Rightarrow> u64 \<Rightarrow> u64 \<Rightarrow> 'addr
    \<Rightarrow> 'addr server_objs \<Rightarrow> byte list \<Rightarrow> (int \<times> 'addr server_objs) result" where
  "AppTextStreamProcpack_OnPackage new alc sizeofT ap sockid processorid addr so ptr =
     bindR (read_member (ap_queuelimit ap)) (\<lambda>queuelimit.
     bindR (if queuelimit > 0
            then bindR (read_member (ap_queuepackage ap)) (\<lambda>_.
                   Inr (SyncQueue_GetSize (so_queue so) \<ge> queuelimit))
            else Inr False) (\<lambda>full.
     if full then Inr (- 1, so)
     else
       bindR (read_member (ap_packageManager ap)) (\<lambda>_.
       bindR (so_Create alc sizeofT so) (\<lambda>(pack, so1). case pack of
         None \<Rightarrow> Inr (- 1, so1)
       | Some x \<Rightarrow>
           bindR (read_member (ap_allocator ap)) (\<lambda>allocator.
           bindR (read_member (ap_protocol ap)) (\<lambda>protocol.
           bindR (fill_package new allocator sockid processorid protocol ptr addr (so_pkgs so1 x)) (\<lambda>pk.
           let so2 = so1\<lparr>so_pkgs := (so_pkgs so1)(x := pk)\<rparr> in
           bindR (read_member (ap_queuepackage ap)) (\<lambda>_.
           bindR (Queue_Push SyncStack_PushImp x False True (so_queue so2)) (\<lambda>(r, removed, q).
           if r \<noteq> 0 then
             let so3 = so_Destroy x so2 in
             bindR (read_member (ap_errorcb ap)) (\<lambda>errorcb.
               if errorcb then Inr (- 1, so3\<lparr>so_fullcalls := so_fullcalls so3 + 1\<rparr>)
               else Inr (- 1, so3))
           else Inr (0, so2\<lparr>so_queue := q\<rparr>))))))))))"

definition AppBinaryStreamProcpack_OnPackage :: "heap_new \<Rightarrow> chunk_alloc \<Rightarrow> u64 \<Rightarrow> AppProcpack \<Rightarrow> u64 \<Rightarrow> u64 \<Rightarrow> 'addr
    \<Rightarrow> 'addr server_objs \<Rightarrow> byte list \<Rightarrow> (int \<times> 'addr server_objs) result" where
  "AppBinaryStreamProcpack_OnPackage = AppTextStreamProcpack_OnPackage"

section \<open>The receive loop of a connection\<close>

text \<open>
  What \<open>ConnectEventHandler\<close> does with the chunks that \<open>recv\<close> returns: each is appended to
  the bytes kept, \<open>Extract\<close> is called, and the bytes it used are removed from the front;
  -1 closes the connection (\<open>None\<close>).
\<close>

fun receive_all :: "(byte list \<Rightarrow> 's \<Rightarrow> (int \<times> 's) result) \<Rightarrow> byte list \<Rightarrow> byte list list \<Rightarrow> 's
    \<Rightarrow> (byte list option \<times> 's) result" where
  "receive_all extract buf [] s = Inr (Some buf, s)"
| "receive_all extract buf (c # cs) s =
     bindR (extract (buf @ c) s) (\<lambda>(eat, s').
       if eat < 0 then Inr (None, s') else receive_all extract (drop (nat eat) (buf @ c)) cs s')"

end
