(* ===== verification/QueueProps.thy ===== *)
theory QueueProps
  imports Queue
begin

text \<open>
  The contract \<open>task_queue\<close> of the queues as the reactor and the worker threads use them: no
  call loses or duplicates an entry. It is interpreted by both queues of the code. The
  properties are the order of \<open>SyncQueue\<close>, the bound, and the eviction of \<open>SyncStack\<close>.
\<close>

locale task_queue =
  fixes push :: "'a \<Rightarrow> bool \<Rightarrow> bool \<Rightarrow> 'q \<Rightarrow> (int \<times> 'a option \<times> 'q) result"
    and pop :: "'q \<Rightarrow> (int \<times> 'a option \<times> 'q) option"
    and items :: "'q \<Rightarrow> 'a list"
    and inv :: "'q \<Rightarrow> bool"
  assumes push_law: "inv q \<Longrightarrow> push x want limit q = Inr (r, rem, q') \<Longrightarrow>
      inv q' \<and> mset (items q') + mset (case rem of None \<Rightarrow> [] | Some y \<Rightarrow> [y])
        = mset (items q) + (if r = 0 then {#x#} else {#})"
    and pop_law: "inv q \<Longrightarrow> pop q = Some (r, v, q') \<Longrightarrow>
      inv q' \<and> mset (items q') + mset (case v of None \<Rightarrow> [] | Some y \<Rightarrow> [y]) = mset (items q)"
begin

lemma run_conserves:
  assumes "inv q" and "queue_run push pop ops q = Inr (acc, popped, removed, q')"
  shows "inv q' \<and> mset (items q) + mset acc = mset popped + mset removed + mset (items q')"
  using assms
proof (induction ops arbitrary: q acc popped removed q')
  case Nil
  then show ?case by simp
next
  case (Cons op ops)
  show ?case
  proof (cases op)
    case (OpPush x want limit)
    from Cons.prems(2)[unfolded OpPush] obtain r rem q1 acc1 removed1 where
      a: "push x want limit q = Inr (r, rem, q1)"
      "queue_run push pop ops q1 = Inr (acc1, popped, removed1, q')"
      "acc = (if r = 0 then x # acc1 else acc1)"
      "removed = (case rem of None \<Rightarrow> removed1 | Some y \<Rightarrow> y # removed1)"
      by (auto simp: bindR_Inr_iff)
    have b: "inv q1" "mset (items q1) + mset (case rem of None \<Rightarrow> [] | Some y \<Rightarrow> [y])
        = mset (items q) + (if r = 0 then {#x#} else {#})"
      using push_law [OF Cons.prems(1) a(1)] by simp_all
    have ih: "inv q'" "mset (items q1) + mset acc1 = mset popped + mset removed1 + mset (items q')"
      using Cons.IH [OF b(1) a(2)] by simp_all
    have "mset (items q) + mset acc = mset (items q1) + mset acc1
        + mset (case rem of None \<Rightarrow> [] | Some y \<Rightarrow> [y])"
      using b(2) a(3) by (auto simp: ac_simps split: if_splits)
    with ih a(4) show ?thesis by (cases rem) (simp_all add: ac_simps)
  next
    case OpPop
    from Cons.prems(2)[unfolded OpPop] obtain r v q1 popped1 where
      a: "pop q = Some (r, v, q1)" "queue_run push pop ops q1 = Inr (acc, popped1, removed, q')"
      "popped = (case v of None \<Rightarrow> popped1 | Some y \<Rightarrow> y # popped1)"
      by (auto simp: bindR_Inr_iff split: option.splits)
    have b: "inv q1" "mset (items q1) + mset (case v of None \<Rightarrow> [] | Some y \<Rightarrow> [y]) = mset (items q)"
      using pop_law [OF Cons.prems(1) a(1)] by simp_all
    from Cons.IH [OF b(1) a(2)] b(2) [symmetric] a(3) show ?thesis by (cases v) (simp_all add: ac_simps)
  qed
qed

end

section \<open>The queues of the code\<close>

definition sq_wf :: "'a SyncQueue \<Rightarrow> bool" where
  "sq_wf q \<longleftrightarrow> sq_count q = of_nat (length (sq_queue q))"

lemma Queue_Pop_nonblock:
  "Queue_Pop False q env = Some (if sq_queue q \<noteq> []
      then (0, Some (hd (sq_queue q)), q\<lparr>sq_queue := tl (sq_queue q), sq_count := sq_count q - 1\<rparr>)
      else (- 1, None, q))"
  by (simp add: Queue_Pop_def)

lemma Queue_Pop_law:
  assumes "sq_wf q" and "Queue_Pop False q [] = Some (r, v, q')"
  shows "sq_wf q' \<and> mset (sq_queue q') + mset (case v of None \<Rightarrow> [] | Some y \<Rightarrow> [y]) = mset (sq_queue q)"
  using assms by (cases "sq_queue q") (auto simp: Queue_Pop_nonblock sq_wf_def)

lemma mset_butlast_last: "xs \<noteq> [] \<Longrightarrow> add_mset (last xs) (mset (butlast xs)) = mset xs"
  by (metis append_butlast_last_id mset_append mset.simps add_mset_add_single)

lemma SyncQueue_push_law:
  assumes "sq_wf q" and "Queue_Push SyncQueue_PushImp x want limit q = Inr (r, rem, q')"
  shows "sq_wf q' \<and> mset (sq_queue q') + mset (case rem of None \<Rightarrow> [] | Some y \<Rightarrow> [y])
      = mset (sq_queue q) + (if r = 0 then {#x#} else {#})"
  using assms by (auto simp: Queue_Push_def SyncQueue_PushImp_def sq_wf_def split: if_splits)

lemma SyncStack_push_law:
  assumes "sq_wf q" and "Queue_Push SyncStack_PushImp x want limit q = Inr (r, rem, q')"
  shows "sq_wf q' \<and> mset (sq_queue q') + mset (case rem of None \<Rightarrow> [] | Some y \<Rightarrow> [y])
      = mset (sq_queue q) + (if r = 0 then {#x#} else {#})"
proof (cases "sq_queue q")
  case Nil
  then show ?thesis using assms
    by (auto simp: Queue_Push_def SyncStack_PushImp_def sq_wf_def split: if_splits)
next
  case (Cons y ys)
  then show ?thesis using assms mset_butlast_last [of "y # ys"]
    by (auto simp: Queue_Push_def SyncStack_PushImp_def sq_wf_def Let_def split: if_splits)
qed

interpretation fifo: task_queue "Queue_Push SyncQueue_PushImp" "\<lambda>q. Queue_Pop False q []" sq_queue sq_wf
  by (unfold_locales, erule (1) SyncQueue_push_law, erule (1) Queue_Pop_law)

interpretation lifo: task_queue "Queue_Push SyncStack_PushImp" "\<lambda>q. Queue_Pop False q []" sq_queue sq_wf
  by (unfold_locales, erule (1) SyncStack_push_law, erule (1) Queue_Pop_law)

section \<open>Order and bound\<close>

lemma SyncQueue_run_order:
  assumes "queue_run (Queue_Push SyncQueue_PushImp) (\<lambda>q. Queue_Pop False q []) ops q = Inr (acc, popped, removed, q')"
  shows "removed = [] \<and> sq_queue q @ acc = popped @ sq_queue q'"
  using assms
proof (induction ops arbitrary: q acc popped removed q')
  case Nil
  then show ?case by simp
next
  case (Cons op ops)
  show ?case
  proof (cases op)
    case (OpPush x want limit)
    with Cons.prems obtain r rem q1 acc1 removed1 where
      a: "Queue_Push SyncQueue_PushImp x want limit q = Inr (r, rem, q1)"
      "queue_run (Queue_Push SyncQueue_PushImp) (\<lambda>q. Queue_Pop False q []) ops q1 = Inr (acc1, popped, removed1, q')"
      "acc = (if r = 0 then x # acc1 else acc1)"
      "removed = (case rem of None \<Rightarrow> removed1 | Some y \<Rightarrow> y # removed1)"
      by (auto simp: bindR_Inr_iff)
    from a(1) have "rem = None" "sq_queue q1 = (if r = 0 then sq_queue q @ [x] else sq_queue q)"
      by (auto simp: Queue_Push_def SyncQueue_PushImp_def split: if_splits)
    with Cons.IH [OF a(2)] a(3,4) show ?thesis by auto
  next
    case OpPop
    with Cons.prems obtain r v q1 popped1 where
      a: "Queue_Pop False q [] = Some (r, v, q1)"
      "queue_run (Queue_Push SyncQueue_PushImp) (\<lambda>q. Queue_Pop False q []) ops q1 = Inr (acc, popped1, removed, q')"
      "popped = (case v of None \<Rightarrow> popped1 | Some y \<Rightarrow> y # popped1)"
      by (auto simp: bindR_Inr_iff split: option.splits)
    from Cons.IH [OF a(2)] a(1,3) show ?thesis
      by (cases "sq_queue q") (auto simp: Queue_Pop_nonblock)
  qed
qed

text \<open>A queue within its limit, whose \<open>count_\<close> is then the number of entries.\<close>

definition sq_bounded :: "'a SyncQueue \<Rightarrow> bool" where
  "sq_bounded q \<longleftrightarrow> sq_wf q \<and> length (sq_queue q) \<le> unat (sq_limit q)"

lemma sq_full: "sq_bounded q \<Longrightarrow> sq_count q \<ge> sq_limit q \<longleftrightarrow> length (sq_queue q) = unat (sq_limit q)"
  using unat_u64 [of "sq_limit q"]
  by (auto simp: sq_bounded_def sq_wf_def word_le_nat_alt unat_of_nat_small)

lemma SyncStack_evict_all:
  assumes "sq_bounded q" and "0 < sq_limit q"
  shows "\<exists>q'. SyncStack_run (map (\<lambda>x. OpPush x True True) xs) q
      = Inr (xs, [], take (length (sq_queue q) + length xs - unat (sq_limit q)) (rev (sq_queue q) @ xs), q')
    \<and> sq_bounded q' \<and> sq_limit q' = sq_limit q
    \<and> sq_queue q' = take (unat (sq_limit q)) (rev xs @ sq_queue q)"
  using assms
proof (induction xs arbitrary: q)
  case Nil
  then show ?case by (auto simp: SyncStack_run_def sq_bounded_def)
next
  case (Cons x xs)
  let ?L = "unat (sq_limit q)"
  have L: "0 < ?L" using Cons.prems(2) by (simp add: word_less_nat_alt)
  show ?case
  proof (cases "length (sq_queue q) = ?L")
    case True
    then have ne: "sq_queue q \<noteq> []" using L by auto
    define q1 where "q1 = q\<lparr>sq_queue := x # butlast (sq_queue q), sq_count := sq_count q - 1 + 1,
        sq_notified := (if sq_notify q then sq_notified q + 1 else sq_notified q)\<rparr>"
    have p: "Queue_Push SyncStack_PushImp x True True q = Inr (0, Some (last (sq_queue q)), q1)"
      using sq_full [OF Cons.prems(1)] True ne
      by (simp add: Queue_Push_def SyncStack_PushImp_def q1_def Let_def)
    have b: "sq_bounded q1" "sq_limit q1 = sq_limit q" "sq_queue q1 = x # butlast (sq_queue q)"
      using Cons.prems(1) ne True L by (simp_all add: sq_bounded_def sq_wf_def q1_def)
    from Cons.IH [OF b(1)] b Cons.prems(2) obtain q' where
      q': "SyncStack_run (map (\<lambda>x. OpPush x True True) xs) q1
          = Inr (xs, [], take (length (sq_queue q1) + length xs - ?L) (rev (sq_queue q1) @ xs), q')"
      "sq_bounded q'" "sq_limit q' = sq_limit q" "sq_queue q' = take ?L (rev xs @ sq_queue q1)" by auto
    have "length (sq_queue q1) = ?L" using b(3) True ne L by simp
    moreover have "take (Suc k) (rev (sq_queue q)) = last (sq_queue q) # take k (rev (butlast (sq_queue q)))" for k
      using ne by (cases "sq_queue q" rule: rev_cases) auto
    moreover have "take ?L (rev xs @ x # butlast (sq_queue q)) = take ?L (rev xs @ x # sq_queue q)"
      using True L by (simp add: butlast_conv_take take_Cons' min_def)
    ultimately show ?thesis using p q' b(3) True by (auto simp: SyncStack_run_def)
  next
    case False
    then have lt: "length (sq_queue q) < ?L" using Cons.prems(1) by (simp add: sq_bounded_def)
    define q1 where "q1 = q\<lparr>sq_queue := x # sq_queue q, sq_count := sq_count q + 1,
        sq_notified := (if sq_notify q then sq_notified q + 1 else sq_notified q)\<rparr>"
    have p: "Queue_Push SyncStack_PushImp x True True q = Inr (0, None, q1)"
      using sq_full [OF Cons.prems(1)] False
      by (simp add: Queue_Push_def SyncStack_PushImp_def q1_def Let_def)
    have b: "sq_bounded q1" "sq_limit q1 = sq_limit q" "sq_queue q1 = x # sq_queue q"
      using Cons.prems(1) lt by (simp_all add: sq_bounded_def sq_wf_def q1_def)
    from Cons.IH [OF b(1)] b Cons.prems(2) p show ?thesis by (auto simp: SyncStack_run_def)
  qed
qed

section \<open>Properties\<close>

text \<open>\<open>SyncQueue\<close> is first in, first out: in every interleaving of pushes and pops by any
  threads, the entries popped so far followed by those still queued are the entries queued at
  the start followed by the accepted ones, in order.\<close>

lemma syncqueue_fifo:
  assumes "SyncQueue_run ops q = Inr (acc, popped, removed, q')"
  shows "removed = [] \<and> sq_queue q @ acc = popped @ sq_queue q'"
  by (rule SyncQueue_run_order [OF assms [unfolded SyncQueue_run_def]])

lemma syncqueue_fifo_witness:
  "SyncQueue_run [OpPush 1 False True, OpPush 2 False True, OpPop, OpPush 3 False True] (SyncQueue_new 2)
     = Inr ([1, 2, 3 :: nat], [1], [], (SyncQueue_new 2)\<lparr>sq_queue := [2, 3], sq_count := 2\<rparr>)
   \<and> [1, 2, 3] = [1 :: nat] @ [2, 3]"
proof -
  have r: "SyncQueue_run [OpPush 1 False True, OpPush 2 False True, OpPop, OpPush 3 False True] (SyncQueue_new 2)
     = Inr ([1, 2, 3 :: nat], [1], [], (SyncQueue_new 2)\<lparr>sq_queue := [2, 3], sq_count := 2\<rparr>)"
    by (simp add: SyncQueue_run_def Queue_Push_def SyncQueue_PushImp_def Queue_Pop_def SyncQueue_new_def
        word_le_nat_alt)
  from syncqueue_fifo [OF r] r show ?thesis by (simp add: SyncQueue_new_def)
qed

text \<open>No entry is lost or duplicated by either queue: in every run, the entries at the start and
  the accepted ones are, with multiplicity, those popped, those handed back through
  \<open>removed\<close> and those still queued, and \<open>count_\<close> is the number of entries modulo
  \<open>2 ^ 64\<close>.\<close>

lemma queues_conserve:
  assumes "sq_wf q"
    and "SyncQueue_run ops q = Inr (acc, popped, removed, q') \<or> SyncStack_run ops q = Inr (acc, popped, removed, q')"
  shows "sq_wf q' \<and> mset (sq_queue q) + mset acc = mset popped + mset removed + mset (sq_queue q')"
  using assms fifo.run_conserves lifo.run_conserves unfolding SyncQueue_run_def SyncStack_run_def by blast

lemma queues_conserve_witness:
  "sq_wf ((SyncQueue_new 1)\<lparr>sq_queue := [2], sq_count := 1\<rparr>)
   \<and> mset [1, 2 :: nat] = mset [] + mset [1] + mset [2]"
proof -
  have r: "SyncStack_run [OpPush 1 True True, OpPush 2 True True] (SyncQueue_new 1)
     = Inr ([1, 2 :: nat], [], [1], (SyncQueue_new 1)\<lparr>sq_queue := [2], sq_count := 1\<rparr>)"
    by (simp add: SyncStack_run_def Queue_Push_def SyncStack_PushImp_def Queue_Pop_def SyncQueue_new_def)
  from queues_conserve [OF _ disjI2 [OF r]] show ?thesis
    by (simp add: sq_wf_def SyncQueue_new_def)
qed

text \<open>A \<open>SyncStack\<close> with a positive limit to which entries are pushed with \<open>removed\<close> accepts every
  one of them, never holds more than its limit, keeps the newest entries with the newest first
  and hands back the others, oldest first. (With the limit 0 it takes the back of an empty list.)\<close>

lemma syncstack_keeps_newest:
  assumes "sq_bounded q" and "0 < sq_limit q"
  shows "\<exists>q'. SyncStack_run (map (\<lambda>x. OpPush x True True) xs) q
      = Inr (xs, [], take (length (sq_queue q) + length xs - unat (sq_limit q)) (rev (sq_queue q) @ xs), q')
    \<and> sq_bounded q' \<and> sq_queue q' = take (unat (sq_limit q)) (rev xs @ sq_queue q)
    \<and> SyncStack_PushImp x True True (SyncQueue_new 0) = Inl EmptyFront"
  using SyncStack_evict_all [OF assms, of xs]
  by (auto simp: SyncStack_PushImp_def SyncQueue_new_def)

lemma syncstack_keeps_newest_witness:
  "\<exists>q'. SyncStack_run (map (\<lambda>x. OpPush x True True) [1, 2, 3 :: nat]) (SyncQueue_new 2)
      = Inr ([1, 2, 3], [], [1], q')
    \<and> sq_bounded q' \<and> sq_queue q' = [3, 2]
    \<and> SyncStack_PushImp (0 :: nat) True True (SyncQueue_new 0) = Inl EmptyFront"
  using syncstack_keeps_newest [of "SyncQueue_new 2" "[1, 2, 3 :: nat]" 0]
  by (simp add: sq_bounded_def sq_wf_def SyncQueue_new_def)

end
