(* ===== verification/ObjectPoolProps.thy ===== *)
theory ObjectPoolProps
  imports ObjectPool
begin

text \<open>
  The invariant of the pool: the free objects and those in use are pairwise distinct and are
  together the objects of the chunks, whose number is \<open>iCurrNum_\<close> and at most \<open>iMaxNum_\<close>.
\<close>

definition chunk_objs :: "nat list \<Rightarrow> obj set" where
  "chunk_objs cs = {(c, i). c < length cs \<and> i < cs ! c}"

definition pool_inv :: "ObjectPool \<times> obj list \<Rightarrow> bool" where
  "pool_inv = (\<lambda>(p, live). distinct (pl_objects p @ live)
     \<and> set (pl_objects p @ live) = chunk_objs (pl_chunks p)
     \<and> unat (pl_curr p) = length (pl_objects p) + length live \<and> pl_curr p \<le> pl_max p)"

lemma chunk_objs_snoc:
  "chunk_objs (cs @ [n]) = chunk_objs cs \<union> Pair (length cs) ` {0..<n}"
  by (auto simp: chunk_objs_def nth_append less_Suc_eq)

lemma chunk_objs_fresh: "Pair (length cs) ` {0..<n} \<inter> chunk_objs cs = {}"
  by (auto simp: chunk_objs_def)

lemma inc_amount:
  fixes curr mx inc :: u64
  assumes "curr < mx" and "unat curr + unat inc < 2 ^ 64"
  defines "n \<equiv> if curr + inc > mx then mx - curr else inc"
  shows "unat (curr + n) = unat curr + unat n" and "curr + n \<le> mx"
proof -
  have a: "unat (curr + inc) = unat curr + unat inc" by (rule unat_add_nowrap) (use assms(2) in simp)
  have b: "unat (mx - curr) = unat mx - unat curr" using unat_sub_le [of curr mx] assms(1) by simp
  have c: "unat curr < unat mx" using assms(1) by (simp add: word_less_nat_alt)
  show 1: "unat (curr + n) = unat curr + unat n" using a b c by (auto simp: n_def)
  show "curr + n \<le> mx" using a b c 1 by (auto simp: n_def word_le_nat_alt word_less_nat_alt)
qed

lemma IncreaseObjects_inv:
  assumes inv: "pool_inv (p, live)" and "ObjectPool_IncreaseObjects alc sz inc p = Inr (r, p')"
    and w: "unat (pl_curr p) + unat inc < 2 ^ 64"
  shows "pool_inv (p', live) \<and> pl_max p' = pl_max p \<and> pl_inc p' = pl_inc p"
proof (cases "r = 0 \<and> p' \<noteq> p")
  case False
  then show ?thesis using assms
    by (auto simp: ObjectPool_IncreaseObjects_def Let_def split: if_splits)
next
  case True
  let ?n = "if pl_curr p + inc > pl_max p then pl_max p - pl_curr p else inc"
  let ?c = "length (pl_chunks p)"
  have lt: "pl_curr p < pl_max p" and p': "p' = p\<lparr>pl_objects := pl_objects p @ map (Pair ?c) [0..<unat ?n],
      pl_chunks := pl_chunks p @ [unat ?n], pl_curr := pl_curr p + ?n\<rparr>"
    using True assms(2) by (auto simp: ObjectPool_IncreaseObjects_def Let_def split: if_splits)
  note n = inc_amount [OF lt w]
  have "set (map (Pair ?c) [0..<unat ?n]) \<inter> set (pl_objects p @ live) = {}"
    using inv chunk_objs_fresh [of "pl_chunks p" "unat ?n"] by (auto simp: pool_inv_def)
  moreover have "distinct (map (Pair ?c) [0..<unat ?n])" by (simp add: distinct_map inj_on_def)
  ultimately show ?thesis using inv n unfolding p' pool_inv_def
    by (simp add: chunk_objs_snoc Un_ac Int_Un_distrib split del: if_split) blast
qed

text \<open>A pool whose numbers are far from the end of \<open>size_t\<close>, as every caller's are.\<close>

definition pool_small :: "ObjectPool \<Rightarrow> bool" where
  "pool_small p \<longleftrightarrow> unat (pl_max p) < 2 ^ 63 \<and> unat (pl_inc p) < 2 ^ 63"

lemma take_inv:
  assumes "pool_inv (p, live)" and "ObjectPool_take p = (Inr (Some x), p')"
  shows "pool_inv (p', x # live) \<and> x \<notin> set live \<and> pl_max p' = pl_max p \<and> pl_inc p' = pl_inc p"
  using assms by (cases "pl_objects p") (auto simp: ObjectPool_take_def pool_inv_def)

lemma small_sum: "pool_inv (p, live) \<Longrightarrow> pool_small p \<Longrightarrow> unat (pl_curr p) + unat (pl_inc p) < 2 ^ 64"
  by (auto simp: pool_inv_def pool_small_def word_le_nat_alt)

lemma Create_inv:
  assumes inv: "pool_inv (p, live)" and small: "pool_small p"
    and c: "ObjectPool_Create_body alc sz p = (Inr (Some x), p')"
  shows "pool_inv (p', x # live) \<and> x \<notin> set live \<and> pool_small p'"
proof (cases "pl_objects p = []")
  case False
  then show ?thesis using take_inv [OF inv] c small
    by (auto simp: ObjectPool_Create_body_def pool_small_def)
next
  case True
  with c obtain p1 where p1: "ObjectPool_IncreaseObjects alc sz (pl_inc p) p = Inr (0, p1)"
    "ObjectPool_take p1 = (Inr (Some x), p')"
    by (auto simp: ObjectPool_Create_body_def split: sum.splits if_splits)
  with IncreaseObjects_inv [OF inv p1(1) small_sum [OF inv small]] take_inv [of p1 live x p'] small
  show ?thesis by (auto simp: pool_small_def)
qed

lemma Create_null:
  "ObjectPool_Create_body alc sz p = (Inr None, p') \<Longrightarrow> p' = p"
  by (auto simp: ObjectPool_Create_body_def ObjectPool_take_def ObjectPool_IncreaseObjects_def Let_def
      split: if_splits sum.splits)

lemma Destroy_inv:
  assumes "pool_inv (p, live)" and "x \<in> set live"
  shows "pool_inv (snd (ObjectPool_Destroy_body (Some x) p), remove1 x live)"
proof -
  have d: "distinct live" using assms(1) by (simp add: pool_inv_def)
  have "length live = Suc (length (remove1 x live))" using assms(2) by (simp add: length_remove1) (cases live; simp)
  then show ?thesis using assms d by (auto simp: pool_inv_def ObjectPool_Destroy_body_def set_remove1_eq)
qed

inductive_cases pool_stepE: "pool_step alc sz (p, live) s'"

lemma pool_step_inv:
  assumes "pool_step alc sz s s'" and "pool_inv s" and "pool_small (fst s)"
  shows "pool_inv s' \<and> pool_small (fst s')"
  using assms
proof (induction rule: pool_step.induct)
  case (create_some p x p' live)
  then show ?case using Create_inv [of p live alc sz x p'] by simp
next
  case (create_null p p' live)
  then show ?case using Create_null by auto
next
  case (destroy x live p p')
  then show ?case using Destroy_inv [of p live x]
    by (auto simp: ObjectPool_Destroy_body_def pool_small_def)
qed

lemma pool_new_inv:
  assumes "ObjectPool_new alc sz iInit iMax iInc = Inr p"
    and "unat iInit < 2 ^ 63" and "unat iMax < 2 ^ 63" and "unat iInc < 2 ^ 63"
  shows "pool_inv (p, []) \<and> pool_small p"
proof -
  let ?p0 = "\<lparr>pl_curr = 0, pl_max = iMax, pl_inc = iInc, pl_objects = [], pl_chunks = []\<rparr>"
  let ?p1 = "if iMax < iInit then ?p0\<lparr>pl_max := iInit, pl_inc := 0\<rparr> else ?p0"
  from assms(1) obtain r where r: "ObjectPool_IncreaseObjects alc sz iInit ?p1 = Inr (r, p)"
    by (auto simp: ObjectPool_new_def Let_def bindR_Inr_iff split: if_splits)
  have "pool_inv (?p1, [])" by (auto simp: pool_inv_def chunk_objs_def)
  moreover have "pool_small ?p1" using assms by (auto simp: pool_small_def)
  moreover have "unat (pl_curr ?p1) + unat iInit < 2 ^ 64" using assms by simp
  ultimately show ?thesis using IncreaseObjects_inv [OF _ r, of "[]"] by (simp add: pool_small_def)
qed

lemma pool_reachable_inv:
  assumes "pool_reachable alc sz iInit iMax iInc s"
    and "unat iInit < 2 ^ 63" and "unat iMax < 2 ^ 63" and "unat iInc < 2 ^ 63"
  shows "pool_inv s \<and> pool_small (fst s)"
  using assms(1)
proof (induction rule: pool_reachable.induct)
  case (init p)
  then show ?case using pool_new_inv [OF _ assms(2-4)] by simp
next
  case (step s s')
  then show ?case using pool_step_inv by blast
qed

section \<open>Exhaustion\<close>

lemma pool_creates_free:
  "n \<le> length (pl_objects p) \<Longrightarrow> pool_creates alc sz n p
     = (map (\<lambda>x. Inr (Some x)) (take n (pl_objects p)), p\<lparr>pl_objects := drop n (pl_objects p)\<rparr>)"
proof (induction n arbitrary: p)
  case 0
  then show ?case by simp
next
  case (Suc n)
  then obtain x xs where "pl_objects p = x # xs" by (cases "pl_objects p") auto
  with Suc show ?case by (simp add: ObjectPool_Create_body_def ObjectPool_take_def)
qed

lemma pool_new_init:
  assumes "iInit < iMax" and "alc 0 (sz * iInit)" and "unat sz * unat iInit < 2 ^ 64"
  shows "ObjectPool_new alc sz iInit iMax iInc = Inr \<lparr>pl_curr = iInit, pl_max = iMax, pl_inc = iInc,
     pl_objects = map (Pair 0) [0..<unat iInit], pl_chunks = [unat iInit]\<rparr>"
proof -
  have "0 < iMax" using assms(1) by (auto simp: word_less_nat_alt)
  then show ?thesis using assms by (auto simp: ObjectPool_new_def ObjectPool_IncreaseObjects_def Let_def)
qed

text \<open>The number of objects by which a pool grows, and the outcomes of \<open>Create\<close> when it can grow.\<close>

definition pool_grow :: "ObjectPool \<Rightarrow> u64" where
  "pool_grow p = (if pl_curr p + pl_inc p > pl_max p then pl_max p - pl_curr p else pl_inc p)"

lemma pool_grow_bounds:
  assumes "pool_inv (p, live)" and "pool_small p" and "0 < pl_inc p" and "pl_curr p < pl_max p"
  shows "0 < unat (pool_grow p)" and "unat (pool_grow p) \<le> unat (pl_max p)"
proof -
  note a = inc_amount [OF assms(4) small_sum [OF assms(1,2)], folded pool_grow_def]
  have b: "unat (pl_max p - pl_curr p) = unat (pl_max p) - unat (pl_curr p)"
    using unat_sub_le [of "pl_curr p" "pl_max p"] assms(4) by simp
  show "0 < unat (pool_grow p)"
    using b assms(3,4) by (auto simp: pool_grow_def word_less_nat_alt)
  show "unat (pool_grow p) \<le> unat (pl_max p)" using a by (simp add: word_le_nat_alt)
qed

lemma Create_cases:
  assumes "pool_inv (p, live)" and "pool_small p" and "0 < pl_inc p"
    and "unat sz * unat (pl_max p) < 2 ^ 64"
  shows "\<exists>r p'. ObjectPool_Create_body alc sz p = (Inr r, p') \<and> (r = None \<longleftrightarrow> pl_objects p = []
        \<and> (pl_curr p = pl_max p \<or> \<not> alc (length (pl_chunks p)) (sz * pool_grow p)))"
proof (cases "pl_objects p = [] \<and> pl_curr p < pl_max p \<and> alc (length (pl_chunks p)) (sz * pool_grow p)")
  case False
  moreover have "pl_curr p \<le> pl_max p" using assms(1) by (simp add: pool_inv_def)
  ultimately show ?thesis
    by (auto simp: ObjectPool_Create_body_def ObjectPool_take_def ObjectPool_IncreaseObjects_def
        Let_def pool_grow_def not_le)
next
  case True
  have g: "0 < unat (pool_grow p)" "unat (pool_grow p) \<le> unat (pl_max p)"
    using pool_grow_bounds [OF assms(1-3)] True by simp_all
  have "unat sz * unat (pool_grow p) < 2 ^ 64"
    by (rule le_less_trans [OF _ assms(4)]) (use g in simp)
  moreover have "\<not> pl_curr p \<ge> pl_max p" "pl_curr p \<noteq> pl_max p" using True by auto
  ultimately show ?thesis using True g
    by (simp add: ObjectPool_Create_body_def ObjectPool_take_def ObjectPool_IncreaseObjects_def
        Let_def pool_grow_def [symmetric])
qed

section \<open>Properties\<close>

text \<open>C26. In every reachable state of a pool whose client destroys only objects that it holds, the
  objects in use are distinct objects of the chunks and at most \<open>iMaxNum_\<close> (or \<open>iInitNum\<close>
  when that is larger) many, and \<open>Create\<close> never hands out an object that is in use.\<close>

theorem pool_no_alias:
  assumes "pool_reachable alc sz iInit iMax iInc (p, live)"
    and "unat iInit < 2 ^ 63" and "unat iMax < 2 ^ 63" and "unat iInc < 2 ^ 63"
    and "ObjectPool_Create_body alc sz p = (Inr (Some x), p')"
  shows "x \<notin> set live \<and> distinct live \<and> x \<in> chunk_objs (pl_chunks p')
    \<and> set live \<subseteq> chunk_objs (pl_chunks p') \<and> Suc (length live) \<le> unat (pl_max p')"
proof -
  have "pool_inv (p, live)" "pool_small p" using pool_reachable_inv [OF assms(1-4)] by simp_all
  from Create_inv [OF this assms(5)] show ?thesis
    by (auto simp: pool_inv_def word_le_nat_alt)
qed

theorem pool_no_alias_witness:
  "(0 :: nat, 1 :: nat) \<notin> set [(0, 0)] \<and> distinct [(0 :: nat, 0 :: nat)] \<and> (0, 1) \<in> chunk_objs [2]
    \<and> set [(0, 0)] \<subseteq> chunk_objs [2] \<and> Suc (length [(0 :: nat, 0 :: nat)]) \<le> unat (5 :: u64)"
proof -
  let ?p0 = "\<lparr>pl_curr = 2, pl_max = 5, pl_inc = 0, pl_objects = [(0, 0), (0, 1)], pl_chunks = [2]\<rparr>"
  let ?p1 = "?p0\<lparr>pl_objects := [(0, 1)]\<rparr>"
  have n: "ObjectPool_new (\<lambda>_ _. True) 8 2 5 0 = Inr ?p0"
    using pool_new_init [of 2 5 "\<lambda>_ _. True" 8 0] by (simp add: upt_rec)
  have c: "ObjectPool_Create_body (\<lambda>_ _. True) 8 ?p0 = (Inr (Some (0, 0)), ?p1)"
    by (simp add: ObjectPool_Create_body_def ObjectPool_take_def)
  have r: "pool_reachable (\<lambda>_ _. True) 8 2 5 0 (?p1, [(0, 0)])"
    by (rule pool_reachable.step [OF pool_reachable.init [OF n] pool_step.create_some [OF c]])
  have "ObjectPool_Create_body (\<lambda>_ _. True) 8 ?p1 = (Inr (Some (0, 1)), ?p1\<lparr>pl_objects := []\<rparr>)"
    by (simp add: ObjectPool_Create_body_def ObjectPool_take_def)
  from pool_no_alias [OF r _ _ _ this] show ?thesis by simp
qed

text \<open>The pool of the server, made with \<open>package_allocator_(128, 1000)\<close> and so with
  \<open>iIncNum\<close> 0: the first \<open>iInitNum\<close> calls of \<open>Create\<close> succeed with distinct objects,
  and the next one, although \<open>iMaxNum\<close> is not reached and memory is available, does not
  return null but takes the front of the empty list, since \<open>IncreaseObjects\<close> succeeds with a
  chunk of no objects.\<close>

lemma pool_exhausted_reads_empty:
  assumes "iInit < iMax" and "unat sz * unat iInit < 2 ^ 64" and "\<And>k n. alc k n"
  shows "\<exists>p p'. ObjectPool_new alc sz iInit iMax 0 = Inr p
    \<and> pool_creates alc sz (unat iInit) p = (map (\<lambda>i. Inr (Some (0, i))) [0..<unat iInit], p')
    \<and> fst (ObjectPool_Create_body alc sz p') = Inl EmptyFront"
proof -
  let ?p = "\<lparr>pl_curr = iInit, pl_max = iMax, pl_inc = 0,
     pl_objects = map (Pair 0) [0..<unat iInit], pl_chunks = [unat iInit]\<rparr>"
  let ?p' = "?p\<lparr>pl_objects := []\<rparr>"
  have "ObjectPool_new alc sz iInit iMax 0 = Inr ?p" by (rule pool_new_init [OF assms(1,3,2)])
  moreover have "pool_creates alc sz (unat iInit) ?p = (map (\<lambda>i. Inr (Some (0, i))) [0..<unat iInit], ?p')"
    using pool_creates_free [of "unat iInit" ?p alc sz] by simp
  moreover have "fst (ObjectPool_Create_body alc sz ?p') = Inl EmptyFront"
    using assms by (auto simp: ObjectPool_Create_body_def ObjectPool_IncreaseObjects_def ObjectPool_take_def Let_def)
  ultimately show ?thesis by blast
qed

lemma pool_exhausted_reads_empty_witness:
  "\<exists>p p'. ObjectPool_new (\<lambda>_ _. True) 200 128 1000 0 = Inr p
    \<and> pool_creates (\<lambda>_ _. True) 200 (unat (128 :: u64)) p = (map (\<lambda>i. Inr (Some (0, i))) [0..<unat (128 :: u64)], p')
    \<and> fst (ObjectPool_Create_body (\<lambda>_ _. True) 200 p') = Inl EmptyFront"
  by (rule pool_exhausted_reads_empty) simp_all

text \<open>With a positive \<open>iIncNum\<close>, or with no room left, \<open>Create\<close> of a pool with free objects, with
  memory, or at its maximum never faults: it returns an object, or null exactly when no object is
  free and the maximum is reached or no memory is found. Under a mutex of the library that is free
  the guarded operation returns the same and releases the mutex.\<close>

lemma pool_create_total:
  assumes "pool_inv (p, live)" and "pool_small p" and "0 < pl_inc p"
    and "unat sz * unat (pl_max p) < 2 ^ 64"
  shows "\<exists>r p'. ObjectPool_Create_body alc sz p = (Inr r, p')
    \<and> (r = None \<longleftrightarrow> pl_objects p = []
        \<and> (pl_curr p = pl_max p \<or> \<not> alc (length (pl_chunks p)) (sz * pool_grow p)))
    \<and> ObjectPool_Create ThreadMutex_Acquire ThreadMutex_Release t alc sz (p, None) = Some (Inr r, p', None)"
proof -
  obtain r p' where c: "ObjectPool_Create_body alc sz p = (Inr r, p')"
    "r = None \<longleftrightarrow> pl_objects p = []
        \<and> (pl_curr p = pl_max p \<or> \<not> alc (length (pl_chunks p)) (sz * pool_grow p))"
    using Create_cases [OF assms] by blast
  with thread_mutex.guard_pairs [of None t "Inr None" "ObjectPool_Create_body alc sz" p]
  show ?thesis by (auto simp: ObjectPool_Create_def)
qed

lemma pool_create_total_witness:
  "\<exists>r p'. ObjectPool_Create_body (\<lambda>_ _. True) 8 \<lparr>pl_curr = 0, pl_max = 3, pl_inc = 2, pl_objects = [], pl_chunks = []\<rparr> = (Inr r, p')
    \<and> (r = None \<longleftrightarrow> False)
    \<and> ObjectPool_Create ThreadMutex_Acquire ThreadMutex_Release 1 (\<lambda>_ _. True) 8
        (\<lparr>pl_curr = 0, pl_max = 3, pl_inc = 2, pl_objects = [], pl_chunks = []\<rparr>, None) = Some (Inr r, p', None)"
  using pool_create_total [of "\<lparr>pl_curr = 0, pl_max = 3, pl_inc = 2, pl_objects = [], pl_chunks = []\<rparr>" "[]" 8
      "\<lambda>_ _. True" 1]
  by (simp add: pool_inv_def pool_small_def chunk_objs_def)

end
