(* ===== verification/PackageProps.thy ===== *)
theory PackageProps
  imports Package
begin

text \<open>
  Properties of packages: what \<open>SetData\<close> stores, the layout of the serialised form and its
  size, and what \<open>Unserialize\<close> makes of it.
\<close>

definition pk_wf :: "'addr Package \<Rightarrow> bool" where
  "pk_wf p \<longleftrightarrow> (case pk_data p of None \<Rightarrow> True | Some db \<Rightarrow> db_wf db)"

lemma unat_size_data: "db_wf db \<Longrightarrow> length (db_data db) = unat (DataBlock_GetSize db)"
  by (simp add: DataBlock_GetSize_def)

text \<open>\<open>Resize\<close> to the new size and \<open>Copy\<close> to the front, as \<open>SetData\<close> and
  \<open>Unserialize\<close> do, replace the contents.\<close>

lemma DataBlock_replace:
  assumes wf: "db_wf db" and ok: "heap_ok new" and n: "unat n \<le> length bs" "unat n < 2 ^ 63"
    and mem: "unat n \<le> unat (db_cap db) \<or> new n \<noteq> None"
  shows "\<exists>db1 db2. DataBlock_Resize new db n = Inr (0, db1)
    \<and> DataBlock_Copy new db1 0 (Foreign bs) n = Inr (0, db2) \<and> db_wf db2 \<and> db_data db2 = take (unat n) bs"
proof -
  have "\<exists>db1. DataBlock_Resize new db n = Inr (0, db1) \<and> db_wf db1 \<and> unat n \<le> unat (db_cap db1)
      \<and> length (db_data db1) \<le> unat n"
  proof (cases "unat n \<le> unat (db_cap db)")
    case True
    from DataBlock_Resize_small [OF wf this, of new] show ?thesis
      using True by fastforce
  next
    case False
    with DataBlock_Resize_grow [OF wf ok, of n] mem db_wf_end [OF wf] length_db_data [OF wf]
    show ?thesis by fastforce
  qed
  then obtain db1 where db1: "DataBlock_Resize new db n = Inr (0, db1)" "db_wf db1"
    "unat n \<le> unat (db_cap db1)" "length (db_data db1) \<le> unat n" by blast
  with DataBlock_Copy_fits [OF db1(2), of 0 n "Foreign bs" new] n show ?thesis by auto
qed

lemma Package_SetData_ok:
  assumes "pk_wf p" and "heap_ok new" and "unat n \<le> length bs" and "unat n < 2 ^ 63"
    and "pk_data p = None \<longrightarrow> pk_allocator p \<and> new sizeof_DataBlock \<noteq> None"
    and "(case pk_data p of None \<Rightarrow> False | Some db \<Rightarrow> unat n \<le> unat (db_cap db)) \<or> new n \<noteq> None"
  shows "\<exists>db. Package_SetData new (Foreign bs) n p = Inr (p\<lparr>pk_data := Some db\<rparr>) \<and> db_wf db
    \<and> db_data db = take (unat n) bs"
proof -
  have "\<exists>db. Package_make_block new p = Inr db \<and> db_wf db
      \<and> (unat n \<le> unat (db_cap db) \<or> new n \<noteq> None)"
  proof (cases "pk_data p")
    case None
    then have "Package_make_block new p = Inr (DataBlock_new new DEFAULT_BLOCK_SIZE)" "new n \<noteq> None"
      using assms(5,6) by (simp_all add: Package_make_block_def NewAllocator_Allocate_def)
    moreover have "db_wf (DataBlock_new new DEFAULT_BLOCK_SIZE)"
      by (rule DataBlock_new_cases [OF assms(2), of DEFAULT_BLOCK_SIZE])
    ultimately show ?thesis by blast
  next
    case (Some db)
    then show ?thesis using assms by (simp add: Package_make_block_def pk_wf_def)
  qed
  then obtain db where db: "Package_make_block new p = Inr db" "db_wf db"
    "unat n \<le> unat (db_cap db) \<or> new n \<noteq> None" by blast
  have "db_wf (DataBlock_Clear db)" "unat n \<le> unat (db_cap (DataBlock_Clear db)) \<or> new n \<noteq> None"
    using db DataBlock_Clear_wf [OF db(2)] by simp_all
  from DataBlock_replace [OF this(1) assms(2-4) this(2)] db(1) show ?thesis
    by (auto simp: Package_SetData_def)
qed

section \<open>Serialisation\<close>

definition pk_bytes :: "'addr Package \<Rightarrow> byte list \<Rightarrow> byte list" where
  "pk_bytes p data = le_bytes 8 (pk_handlerid p) @ le_bytes 8 (pk_protocol p)
     @ le_bytes 8 (of_nat (length data) :: u64) @ data"

lemma buf_put_ok:
  "p + length bs \<le> length buf \<Longrightarrow> buf_put bs (buf, p) = Inr (overwrite buf p bs, p + length bs)"
  by (simp add: buf_put_def)

lemma overwrite_append:
  "p + length xs + length ys \<le> length buf \<Longrightarrow>
    overwrite (overwrite buf p xs) (p + length xs) ys = overwrite buf p (xs @ ys)"
  by (simp add: overwrite_def ac_simps)

lemma Package_Serialize_ok:
  assumes db: "pk_data p = Some db" "db_wf db"
    and size: "24 + length (db_data db) \<le> unat bufsize" "unat bufsize \<le> length buf" "length buf < 2 ^ 63"
  shows "Package_Serialize p buf bufsize
    = Inr (pk_bytes p (db_data db) @ drop (24 + length (db_data db)) buf)"
proof -
  have len: "length (db_data db) = unat (DataBlock_GetSize db)" by (rule unat_size_data [OF db(2)])
  have sz: "DataBlock_GetSize db = of_nat (length (db_data db))" by (rule eq_of_nat) (simp add: len)
  have "unat (24 + DataBlock_GetSize db) = 24 + length (db_data db)"
    by (subst unat_add_nowrap) (use size len in simp_all)
  then have a: "24 + DataBlock_GetSize db \<le> bufsize" using size by (simp add: word_le_nat_alt)
  have b: "24 + length (db_data db) \<le> length buf" using size by linarith
  let ?h = "le_bytes 8 (pk_handlerid p)" and ?r = "le_bytes 8 (pk_protocol p)"
    and ?l = "le_bytes 8 (of_nat (length (db_data db)) :: u64)"
  have ov: "overwrite (overwrite (overwrite (overwrite buf 0 ?h) 8 ?r) 16 ?l) 24 (db_data db)
      = pk_bytes p (db_data db) @ drop (24 + length (db_data db)) buf"
    using b overwrite_append [of 0 ?h ?r buf] overwrite_append [of 0 "?h @ ?r" ?l buf]
      overwrite_append [of 0 "?h @ ?r @ ?l" "db_data db" buf]
    by (simp add: pk_bytes_def overwrite_0)
  have s1: "buf_put ?h (buf, 0) = Inr (overwrite buf 0 ?h, 8)" using b by (simp add: buf_put_ok)
  let ?b1 = "overwrite buf 0 ?h"
  have l1: "length ?b1 = length buf" using b by simp
  have s2: "buf_put ?r (?b1, 8) = Inr (overwrite ?b1 8 ?r, 16)" using b l1 by (simp add: buf_put_ok)
  let ?b2 = "overwrite ?b1 8 ?r"
  have l2: "length ?b2 = length buf" using b l1 by simp
  have s3: "buf_put ?l (?b2, 16) = Inr (overwrite ?b2 16 ?l, 24)" using b l2 by (simp add: buf_put_ok)
  let ?b3 = "overwrite ?b2 16 ?l"
  have l3: "length ?b3 = length buf" using b l2 by simp
  have s4: "buf_put (db_data db) (?b3, 24) = Inr (overwrite ?b3 24 (db_data db), 24 + length (db_data db))"
    using b l3 by (simp add: buf_put_ok)
  show ?thesis using a db(1) ov s1 s2 s3 s4 sz
    by (simp add: Package_Serialize_def Package_GetSize_def Package_GetDataLen_def Package_GetData_def
        Package_block_def)
qed

lemma buf_get_ok:
  assumes "drop p buf = le_bytes 8 (v :: u64) @ ys" and "8 \<le> unat r" and "p \<le> length buf"
  shows "buf_get buf (p, r) = Inr (v, p + 8, r - 8)"
proof -
  have "length (drop p buf) = 8 + length ys" by (simp add: assms(1))
  then have "p + 8 \<le> length buf" by simp
  moreover have "take 8 (drop p buf) = le_bytes 8 v" by (simp add: assms(1))
  ultimately show ?thesis using assms(2) by (simp add: buf_get_def le_word_le_bytes word_le_nat_alt)
qed

lemma Package_Unserialize_ok:
  assumes q: "pk_data q = Some db" "db_wf db" and ok: "heap_ok new"
    and buf: "buf = pk_bytes p data @ ys" "24 + length data \<le> unat bufsize" "unat bufsize < 2 ^ 63"
    and mem: "length data \<le> unat (db_cap db) \<or> new (of_nat (length data)) \<noteq> None"
  shows "\<exists>db'. Package_Unserialize new buf bufsize q
      = Inr (q\<lparr>pk_handlerid := pk_protocol p, pk_data := Some db'\<rparr>) \<and> db_wf db' \<and> db_data db' = data"
proof -
  let ?n = "of_nat (length data) :: u64"
  have n: "unat ?n = length data" by (rule unat_of_nat_small) (use buf in simp)
  have r8: "unat (bufsize - 8) = unat bufsize - 8"
    using unat_sub_le [of 8 bufsize] buf by (simp add: word_le_nat_alt)
  have r16: "unat (bufsize - 16) = unat bufsize - 16"
    using unat_sub_le [of 16 bufsize] buf by (simp add: word_le_nat_alt)
  have r24: "unat (bufsize - 24) = unat bufsize - 24"
    using unat_sub_le [of 24 bufsize] buf by (simp add: word_le_nat_alt)
  have g1: "buf_get buf (0, bufsize) = Inr (pk_handlerid p, 8, bufsize - 8)"
    using buf_get_ok [of 0 buf "pk_handlerid p"] buf by (simp add: pk_bytes_def)
  have g2: "buf_get buf (8, bufsize - 8) = Inr (pk_protocol p, 16, bufsize - 16)"
    using buf_get_ok [of 8 buf "pk_protocol p" _ "bufsize - 8"] buf r8 by (simp add: pk_bytes_def)
  have g3: "buf_get buf (16, bufsize - 16) = Inr (?n, 24, bufsize - 24)"
    using buf_get_ok [of 16 buf ?n _ "bufsize - 16"] buf r16 by (simp add: pk_bytes_def)
  have rest: "drop 24 buf = data @ ys" using buf by (simp add: pk_bytes_def)
  have le: "?n \<le> bufsize - 24" using n r24 buf by (simp add: word_le_nat_alt)
  from DataBlock_replace [OF q(2) ok, of ?n "data @ ys"] n mem buf obtain db1 db2 where
    "DataBlock_Resize new db ?n = Inr (0, db1)" "DataBlock_Copy new db1 0 (Foreign (data @ ys)) ?n = Inr (0, db2)"
    "db_wf db2" "db_data db2 = data" by auto
  then show ?thesis using q(1) g1 g2 g3 le rest
    by (intro exI [of _ db2]) (simp add: Package_Unserialize_def Let_def)
qed

section \<open>Properties\<close>

text \<open>\<open>SetData\<close> on a package that has an allocator and, for more than the capacity of its block,
  finds memory, stores exactly the bytes given, whatever the package held before (a pooled
  package keeps its old block), and changes no other member; \<open>GetData\<close> returns them.\<close>

lemma package_set_get_data:
  assumes "pk_wf p" and "heap_ok new" and "unat n \<le> length bs" and "unat n < 2 ^ 63"
    and "pk_data p = None \<longrightarrow> pk_allocator p \<and> new sizeof_DataBlock \<noteq> None"
    and "(case pk_data p of None \<Rightarrow> False | Some db \<Rightarrow> unat n \<le> unat (db_cap db)) \<or> new n \<noteq> None"
  shows "\<exists>db. Package_SetData new (Foreign bs) n p = Inr (p\<lparr>pk_data := Some db\<rparr>)
    \<and> pk_wf (p\<lparr>pk_data := Some db\<rparr>) \<and> Package_GetData (p\<lparr>pk_data := Some db\<rparr>) = Inr (take (unat n) bs)
    \<and> Package_GetDataLen (p\<lparr>pk_data := Some db\<rparr>) = Inr n"
proof -
  from Package_SetData_ok [OF assms] obtain db where
    db: "Package_SetData new (Foreign bs) n p = Inr (p\<lparr>pk_data := Some db\<rparr>)" "db_wf db"
      "db_data db = take (unat n) bs" by blast
  have "unat (DataBlock_GetSize db) = unat n" using unat_size_data [OF db(2)] db(3) assms(3) by simp
  then have "DataBlock_GetSize db = n" by (simp add: word_unat_eq_iff)
  with db show ?thesis
    by (auto simp: pk_wf_def Package_GetData_def Package_GetDataLen_def Package_block_def)
qed

lemma package_set_get_data_witness:
  "\<exists>db. Package_SetData heap_1M (Foreign [1, 2, 3]) 2 ((Package_new ())\<lparr>pk_allocator := True\<rparr>)
      = Inr ((Package_new ())\<lparr>pk_allocator := True, pk_data := Some db\<rparr>)
    \<and> pk_wf ((Package_new ())\<lparr>pk_allocator := True, pk_data := Some db\<rparr>)
    \<and> Package_GetData ((Package_new ())\<lparr>pk_allocator := True, pk_data := Some db\<rparr>) = Inr [1, 2]
    \<and> Package_GetDataLen ((Package_new ())\<lparr>pk_allocator := True, pk_data := Some db\<rparr>) = Inr 2"
  using package_set_get_data [of "(Package_new ())\<lparr>pk_allocator := True\<rparr>" heap_1M 2 "[1, 2, 3]"]
  by (simp add: Package_new_def pk_wf_def heap_1M_def sizeof_DataBlock_def)

text \<open>\<open>Serialize\<close> into a buffer of at least \<open>GetSize ()\<close> bytes writes the handler id, the
  protocol, the length and the payload, each integer little-endian in 8 bytes, and leaves
  the rest of the buffer as it was; \<open>GetSize ()\<close> is the number of bytes written.\<close>

lemma package_serialize_layout:
  assumes "pk_data p = Some db" and "db_wf db" and "24 + length (db_data db) \<le> unat bufsize"
    and "unat bufsize \<le> length buf" and "length buf < 2 ^ 63"
  shows "Package_GetSize p = Inr (of_nat (24 + length (db_data db)))
    \<and> Package_Serialize p buf bufsize = Inr (pk_bytes p (db_data db) @ drop (24 + length (db_data db)) buf)"
  using Package_Serialize_ok [OF assms] assms(1) unat_size_data [OF assms(2)]
  by (simp add: Package_GetSize_def Package_GetDataLen_def Package_block_def)

lemma package_serialize_layout_witness:
  "Package_GetSize ((Package_new ())\<lparr>pk_data := Some \<lparr>db_init = True, db_mem = [7, 8], db_end = 1, db_cap = 2\<rparr>\<rparr>) = Inr 25
   \<and> Package_Serialize ((Package_new ())\<lparr>pk_data := Some \<lparr>db_init = True, db_mem = [7, 8], db_end = 1, db_cap = 2\<rparr>\<rparr>)
       (replicate 26 9) 26
     = Inr (le_bytes 8 (0 :: u64) @ le_bytes 8 (0 :: u64) @ le_bytes 8 (1 :: u64) @ [7, 9])"
  using package_serialize_layout
    [of "(Package_new ())\<lparr>pk_data := Some \<lparr>db_init = True, db_mem = [7, 8], db_end = 1, db_cap = 2\<rparr>\<rparr>"
      "\<lparr>db_init = True, db_mem = [7, 8], db_end = 1, db_cap = 2\<rparr>" 26 "replicate 26 9"]
  by (simp add: db_wf_def db_data_def pk_bytes_def Package_new_def)

text \<open>\<open>Unserialize\<close> of a serialised package restores the payload but not the header: it reads the
  protocol into \<open>handlerid\<close>, so that the handler id of the sender is lost and the protocol of the
  receiving package stays what it was.\<close>

lemma package_unserialize_loses_header:
  assumes "pk_data p = Some db" and "db_wf db" and "24 + length (db_data db) \<le> unat bufsize"
    and "unat bufsize \<le> length buf" and "length buf < 2 ^ 63"
    and "pk_data q = Some dq" and "db_wf dq" and "heap_ok new"
    and "length (db_data db) \<le> unat (db_cap dq) \<or> new (of_nat (length (db_data db))) \<noteq> None"
  shows "\<exists>q'. bindR (Package_Serialize p buf bufsize) (\<lambda>b. Package_Unserialize new b bufsize q) = Inr q'
    \<and> Package_GetData q' = Inr (db_data db) \<and> pk_handlerid q' = pk_protocol p \<and> pk_protocol q' = pk_protocol q"
proof -
  have "unat bufsize < 2 ^ 63" using assms by linarith
  from Package_Unserialize_ok [OF assms(6-8) refl assms(3) this assms(9), of p
      "drop (24 + length (db_data db)) buf"] Package_Serialize_ok [OF assms(1-5)]
  show ?thesis by (auto simp: Package_GetData_def Package_block_def)
qed

lemma package_unserialize_loses_header_witness:
  "\<exists>q'. bindR (Package_Serialize (\<lparr>pk_allocator = True, pk_handlerid = 5, pk_processorid = 0, pk_protocol = 6,
          pk_retcode = 0, pk_data = Some \<lparr>db_init = True, db_mem = [7], db_end = 1, db_cap = 1\<rparr>, pk_peerAddr = ()\<rparr>)
        (replicate 25 0) 25)
      (\<lambda>b. Package_Unserialize heap_1M b 25 (\<lparr>pk_allocator = True, pk_handlerid = 1, pk_processorid = 0, pk_protocol = 2,
          pk_retcode = 0, pk_data = Some \<lparr>db_init = True, db_mem = [], db_end = 0, db_cap = 0\<rparr>, pk_peerAddr = ()\<rparr>)) = Inr q'
    \<and> Package_GetData q' = Inr [7] \<and> pk_handlerid q' = 6 \<and> pk_protocol q' = 2"
  using package_unserialize_loses_header
    [of "\<lparr>pk_allocator = True, pk_handlerid = 5, pk_processorid = 0, pk_protocol = 6,
          pk_retcode = 0, pk_data = Some \<lparr>db_init = True, db_mem = [7], db_end = 1, db_cap = 1\<rparr>, pk_peerAddr = ()\<rparr>"
        "\<lparr>db_init = True, db_mem = [7], db_end = 1, db_cap = 1\<rparr>" 25 "replicate 25 0"
        "\<lparr>pk_allocator = True, pk_handlerid = 1, pk_processorid = 0, pk_protocol = 2,
          pk_retcode = 0, pk_data = Some \<lparr>db_init = True, db_mem = [], db_end = 0, db_cap = 0\<rparr>, pk_peerAddr = ()\<rparr>"
        "\<lparr>db_init = True, db_mem = [], db_end = 0, db_cap = 0\<rparr>" heap_1M]
  by (simp add: db_wf_def db_data_def heap_1M_def)

end
