(* ===== verification/ProcpackProps.thy ===== *)
theory ProcpackProps
  imports Procpack TextCodec BinaryCodec QueueProps ObjectPoolProps PackageProps
begin

text \<open>
  Framing: the interface \<open>framing\<close> of a rule that finds the first package in a buffer, with
  the proof that cutting a stream into packages does not depend on how the stream was cut into
  chunks, and its two instances; then the effects of \<open>OnPackage\<close>.
\<close>

datatype frame = More | Bad | Frame nat

definition text_next :: "byte list \<Rightarrow> frame" where
  "text_next b = (if length b \<le> 4 then More
     else if length b < unat (text_packlen b) + 4 then More else Frame (4 + unat (text_packlen b)))"

definition binary_next :: "byte list \<Rightarrow> frame" where
  "binary_next b = (if length b \<le> 2 then More
     else if unat (binary_packlen b) \<le> 2 then Bad
     else if length b < unat (binary_packlen b) then More else Frame (unat (binary_packlen b)))"

text \<open>The loop over the packages of a buffer: the rest, or \<open>None\<close> after a refusal.\<close>

function frame_loop :: "(byte list \<Rightarrow> frame) \<Rightarrow> ('s \<Rightarrow> byte list \<Rightarrow> (int \<times> 's) result) \<Rightarrow> byte list \<Rightarrow> 's
    \<Rightarrow> (byte list option \<times> 's) result" where
  "frame_loop nxt onp b s = (case nxt b of
       More \<Rightarrow> Inr (Some b, s)
     | Bad \<Rightarrow> Inr (None, s)
     | Frame n \<Rightarrow>
         if n = 0 \<or> n > length b then Inr (None, s)
         else case onp s (take n b) of
             Inl e \<Rightarrow> Inl e
           | Inr (r, s') \<Rightarrow> if r \<noteq> 0 then Inr (None, s') else frame_loop nxt onp (drop n b) s')"
  by pat_completeness auto

termination by (relation "measure (\<lambda>(nxt, onp, b, s). length b)") auto

declare frame_loop.simps [simp del]

lemma c_int_small: "n < 2 ^ 31 \<Longrightarrow> c_int n = int n"
proof -
  assume "n < 2 ^ 31"
  then have "signed_take_bit 31 (int n) = int n" by (intro signed_take_bit_int_eq_self) simp_all
  then show ?thesis by (simp add: c_int_def signed_of_nat)
qed

locale framing =
  fixes nxt :: "byte list \<Rightarrow> frame"
    and loop :: "('s \<Rightarrow> byte list \<Rightarrow> (int \<times> 's) result) \<Rightarrow> byte list \<Rightarrow> nat \<Rightarrow> 's \<Rightarrow> (int \<times> 's) result"
  assumes frame_pos: "nxt b = Frame n \<Longrightarrow> 0 < n \<and> n \<le> length b"
    and frame_ext: "nxt b = Frame n \<Longrightarrow> nxt (b @ x) = Frame n"
    and bad_ext: "nxt b = Bad \<Longrightarrow> nxt (b @ x) = Bad"
    and nil_more: "nxt [] = More"
    and loop_eq: "loop onp b used s = (case nxt b of
         More \<Rightarrow> Inr (c_int used, s)
       | Bad \<Rightarrow> Inr (- 1, s)
       | Frame n \<Rightarrow> (case onp s (take n b) of
             Inl e \<Rightarrow> Inl e
           | Inr (r, s') \<Rightarrow> if r \<noteq> 0 then Inr (- 1, s') else loop onp (drop n b) (used + n) s'))"
begin

lemma frame_loop_rest:
  "frame_loop nxt onp b s = Inr (Some rest, s') \<Longrightarrow> nxt rest = More \<and> length rest \<le> length b
     \<and> drop (length b - length rest) b = rest"
proof (induction b arbitrary: s rule: length_induct)
  case (1 b)
  show ?case
  proof (cases "nxt b")
    case (Frame n)
    have n: "0 < n" "n \<le> length b" using frame_pos [OF Frame] by auto
    with 1(2) Frame obtain s1 where a: "frame_loop nxt onp (drop n b) s1 = Inr (Some rest, s')"
      by (subst (asm) frame_loop.simps) (auto split: sum.splits prod.splits if_splits)
    have "length (drop n b) < length b" using n by simp
    from 1(1)[rule_format, OF this a] have ih: "nxt rest = More" "length rest \<le> length b - n"
      "drop (length b - n - length rest) (drop n b) = rest" by simp_all
    moreover have "length b - n - length rest + n = length b - length rest" using ih(2) n by linarith
    ultimately show ?thesis by simp
  next
    case More
    then show ?thesis using 1(2) by (subst (asm) frame_loop.simps) auto
  next
    case Bad
    then show ?thesis using 1(2) by (subst (asm) frame_loop.simps) simp
  qed
qed

lemma frame_loop_append:
  "frame_loop nxt onp (b @ x) s = bindR (frame_loop nxt onp b s) (\<lambda>(r, s'). case r of
       None \<Rightarrow> Inr (None, s') | Some rest \<Rightarrow> frame_loop nxt onp (rest @ x) s')"
proof (induction b arbitrary: s rule: length_induct)
  case (1 b)
  show ?case
  proof (cases "nxt b")
    case More
    then show ?thesis by (subst (2) frame_loop.simps) simp
  next
    case Bad
    with bad_ext [OF Bad, of x] show ?thesis by (subst (1 2) frame_loop.simps) simp
  next
    case (Frame n)
    have n: "0 < n" "n \<le> length b" using frame_pos [OF Frame] by auto
    note e = frame_ext [OF Frame, of x]
    have "frame_loop nxt onp (drop n b @ x) s' = bindR (frame_loop nxt onp (drop n b) s') (\<lambda>(r, s'). case r of
        None \<Rightarrow> Inr (None, s') | Some rest \<Rightarrow> frame_loop nxt onp (rest @ x) s')" for s'
      by (rule 1 [rule_format]) (use n in simp)
    then show ?thesis using n e Frame
      by (subst (1 2) frame_loop.simps) (auto split: sum.splits prod.splits if_splits)
  qed
qed

lemma loop_frame_loop:
  assumes "used + length b < 2 ^ 31"
  shows "loop onp b used s = bindR (frame_loop nxt onp b s) (\<lambda>(r, s'). case r of
       None \<Rightarrow> Inr (- 1, s') | Some rest \<Rightarrow> Inr (int (used + length b - length rest), s'))"
  using assms
proof (induction b arbitrary: s used rule: length_induct)
  case (1 b)
  show ?case
  proof (cases "nxt b")
    case More
    then show ?thesis using 1(2) by (subst loop_eq, subst frame_loop.simps) (simp add: c_int_small)
  next
    case Bad
    then show ?thesis by (subst loop_eq, subst frame_loop.simps) simp
  next
    case (Frame n)
    have n: "0 < n" "n \<le> length b" using frame_pos [OF Frame] by auto
    have ih: "loop onp (drop n b) (used + n) s' = bindR (frame_loop nxt onp (drop n b) s') (\<lambda>(r, s'). case r of
        None \<Rightarrow> Inr (- 1, s') | Some rest \<Rightarrow> Inr (int (used + length b - length rest), s'))" for s'
    proof -
      have eq: "used + n + length (drop n b) = used + length b" and lt: "length (drop n b) < length b" using n by auto
      show ?thesis using 1(1)[rule_format, OF lt, of "used + n" s', unfolded eq] 1(2) by simp
    qed
    show ?thesis using n Frame ih
      by (subst loop_eq, subst frame_loop.simps) (auto split: sum.splits prod.splits if_splits)
  qed
qed

lemma receive_frame_loop:
  assumes "nxt b = More" and "length b + length (concat cs) < 2 ^ 31"
  shows "receive_all (\<lambda>b s. loop onp b 0 s) b cs s = frame_loop nxt onp (b @ concat cs) s"
  using assms
proof (induction cs arbitrary: b s)
  case Nil
  then show ?case by (subst frame_loop.simps) simp
next
  case (Cons c cs)
  have len: "length (b @ c) < 2 ^ 31" using Cons.prems by simp
  have l: "loop onp (b @ c) 0 s = bindR (frame_loop nxt onp (b @ c) s) (\<lambda>(r, s'). case r of
       None \<Rightarrow> Inr (- 1, s') | Some rest \<Rightarrow> Inr (int (length (b @ c) - length rest), s'))"
    using loop_frame_loop [of 0 "b @ c" onp s, unfolded add_0] len by blast
  have ap: "frame_loop nxt onp (b @ concat (c # cs)) s = bindR (frame_loop nxt onp (b @ c) s) (\<lambda>(r, s'). case r of
       None \<Rightarrow> Inr (None, s') | Some rest \<Rightarrow> frame_loop nxt onp (rest @ concat cs) s')"
    using frame_loop_append [of onp "b @ c" "concat cs" s] by simp
  show ?case
  proof (cases "frame_loop nxt onp (b @ c) s")
    case (Inl e)
    then show ?thesis using l ap by simp
  next
    case (Inr z)
    obtain r s' where z: "z = (r, s')" by (cases z)
    show ?thesis
    proof (cases r)
      case None
      then show ?thesis using l ap Inr z by simp
    next
      case (Some rest)
      have rest: "nxt rest = More" "length rest \<le> length (b @ c)"
        "drop (length (b @ c) - length rest) (b @ c) = rest"
        using frame_loop_rest [of onp "b @ c" s rest s'] Inr z Some by simp_all
      have "length rest + length (concat cs) < 2 ^ 31" using Cons.prems(2) rest(2) by simp
      from Cons.IH [OF rest(1) this, of s'] rest(3) l ap Inr z Some show ?thesis by simp
    qed
  qed
qed

lemma chunking:
  assumes "length (concat cs) < 2 ^ 31"
  shows "receive_all (\<lambda>b s. loop onp b 0 s) [] cs s = receive_all (\<lambda>b s. loop onp b 0 s) [] [concat cs] s"
  using receive_frame_loop [OF nil_more, of cs] receive_frame_loop [OF nil_more, of "[concat cs]"] assms
  by simp

text \<open>A stream that is a sequence of packages, each found by the rule when something follows or not.\<close>

lemma frame_loop_packets:
  assumes "\<And>p y. p \<in> set ps \<Longrightarrow> p \<noteq> [] \<and> nxt (p @ y) = Frame (length p)"
    and "\<And>p s. p \<in> set ps \<Longrightarrow> \<exists>s'. onp s p = Inr (0, s')"
  shows "frame_loop nxt onp (concat ps) s = Inr (Some [], fold (\<lambda>p s. snd (projr (onp s p))) ps s)"
  using assms
proof (induction ps arbitrary: s)
  case Nil
  then show ?case using nil_more by (subst frame_loop.simps) simp
next
  case (Cons p ps)
  have "nxt (p @ concat ps) = Frame (length p)" "p \<noteq> []" using Cons.prems(1) by simp_all
  moreover obtain s' where "onp s p = Inr (0, s')" using Cons.prems(2) by force
  moreover have "frame_loop nxt onp (concat ps) s' = Inr (Some [], fold (\<lambda>p s. snd (projr (onp s p))) ps s')" for s'
    using Cons by simp
  ultimately show ?case by (subst frame_loop.simps) simp
qed

end

lemma text_packlen_append: "4 < length b \<Longrightarrow> text_packlen (b @ x) = text_packlen b"
  by (simp add: text_packlen_def PROC_TEXT_PACKLEN_LEN_def)

lemma binary_packlen_append: "2 < length b \<Longrightarrow> binary_packlen (b @ x) = binary_packlen b"
  by (simp add: binary_packlen_def PROC_BINARY_PACKLEN_LEN_def)

interpretation text_framing: framing text_next TextStreamProcpack_loop
proof unfold_locales
  fix onp :: "'a \<Rightarrow> byte list \<Rightarrow> (int \<times> 'a) result" and b used and s :: 'a
  show "TextStreamProcpack_loop onp b used s = (case text_next b of
         More \<Rightarrow> Inr (c_int used, s) | Bad \<Rightarrow> Inr (- 1, s)
       | Frame n \<Rightarrow> (case onp s (take n b) of Inl e \<Rightarrow> Inl e
           | Inr (r, s') \<Rightarrow> if r \<noteq> 0 then Inr (- 1, s') else TextStreamProcpack_loop onp (drop n b) (used + n) s'))"
    by (subst TextStreamProcpack_loop.simps) (simp add: text_next_def PROC_TEXT_PACKLEN_LEN_def Let_def)
qed (auto simp: text_next_def text_packlen_append split: if_splits)

interpretation binary_framing: framing binary_next BinaryStreamProcpack_loop
proof unfold_locales
  fix onp :: "'a \<Rightarrow> byte list \<Rightarrow> (int \<times> 'a) result" and b used and s :: 'a
  show "BinaryStreamProcpack_loop onp b used s = (case binary_next b of
         More \<Rightarrow> Inr (c_int used, s) | Bad \<Rightarrow> Inr (- 1, s)
       | Frame n \<Rightarrow> (case onp s (take n b) of Inl e \<Rightarrow> Inl e
           | Inr (r, s') \<Rightarrow> if r \<noteq> 0 then Inr (- 1, s') else BinaryStreamProcpack_loop onp (drop n b) (used + n) s'))"
    by (subst BinaryStreamProcpack_loop.simps) (simp add: binary_next_def PROC_BINARY_PACKLEN_LEN_def Let_def)
qed (auto simp: binary_next_def binary_packlen_append split: if_splits)

section \<open>Packets of the writers\<close>

lemma text_next_packet:
  assumes "bs \<noteq> []" and "length bs < 2 ^ 16"
  shows "text_next (text_frame 4 bs @ y) = Frame (length (text_frame 4 bs))"
proof -
  have b: "length bs < 16 ^ 4" using assms(2) by simp
  have "take 4 (text_frame 4 bs @ y) = text_len 4 (length bs)" using b by (simp add: text_frame_def)
  then have "text_packlen (text_frame 4 bs @ y) = of_nat (length bs)"
    using strtol_text_len [of 4 "length bs"] b by (simp add: text_packlen_def PROC_TEXT_PACKLEN_LEN_def)
  then have "unat (text_packlen (text_frame 4 bs @ y)) = length bs"
    using assms(2) by (simp add: unat_of_nat_small)
  then show ?thesis using assms b by (simp add: text_next_def)
qed

lemma binary_next_packet:
  assumes "bs \<noteq> []" and "length bs + 2 < 2 ^ 16"
  shows "binary_next (bin_packet LENGTH_INCLUDE_SELF 2 bs @ y) = Frame (length (bin_packet LENGTH_INCLUDE_SELF 2 bs))"
proof -
  have lfl: "bin_lfl 2" by (simp add: bin_lfl_def BINARY_PACKLEN_LEN_def)
  have "take 2 (bin_packet LENGTH_INCLUDE_SELF 2 bs @ y) = be_bytes 2 (of_nat (length bs + 2) :: u16)"
    by (simp add: bin_packet_def bin_len_def bin_total_def)
  then have "binary_packlen (bin_packet LENGTH_INCLUDE_SELF 2 bs @ y) = of_nat (length bs + 2)"
    by (simp add: binary_packlen_def PROC_BINARY_PACKLEN_LEN_def bswap_le_word_be)
  moreover have "unat (of_nat (length bs + 2) :: u16) = length bs + 2"
    by (rule unat_of_nat_small) (use assms(2) in simp)
  ultimately have "unat (binary_packlen (bin_packet LENGTH_INCLUDE_SELF 2 bs @ y)) = length bs + 2" by (simp only:)
  then show ?thesis using assms(1) lfl by (simp add: binary_next_def)
qed

text \<open>The handler that records what it is given.\<close>

definition record_packet :: "byte list list \<Rightarrow> byte list \<Rightarrow> (int \<times> byte list list) result" where
  "record_packet ps p = Inr (0, ps @ [p])"

lemma fold_record: "fold (\<lambda>p s. snd (projr (record_packet s p))) ps acc = acc @ ps"
  by (induction ps arbitrary: acc) (simp_all add: record_packet_def)

section \<open>OnPackage\<close>

definition ap_ready :: "AppProcpack \<Rightarrow> bool \<Rightarrow> u64 \<Rightarrow> u32 \<Rightarrow> bool" where
  "ap_ready ap cb ql proto \<longleftrightarrow> ap = \<lparr>ap_errorcb = Some cb, ap_queuepackage = Some (), ap_allocator = Some True,
     ap_packageManager = Some (), ap_queuelimit = Some ql, ap_protocol = Some proto\<rparr>"

lemma fill_package_ok:
  assumes "pk_wf p" and "heap_ok new" and "length ptr < 2 ^ 63"
    and "new sizeof_DataBlock \<noteq> None" and "new (of_nat (length ptr)) \<noteq> None"
  shows "\<exists>db. fill_package new True sockid procid proto ptr addr p
      = Inr (p\<lparr>pk_allocator := True, pk_handlerid := sockid, pk_processorid := procid,
               pk_protocol := scast proto, pk_data := Some db, pk_peerAddr := addr\<rparr>)
    \<and> db_wf db \<and> db_data db = ptr"
proof -
  let ?p = "Package_SetProtocol (scast proto) (Package_SetProcessorId procid
      (Package_SetHandlerId sockid (p\<lparr>pk_allocator := True\<rparr>)))"
  have wf: "pk_wf ?p" using assms(1)
    by (simp add: pk_wf_def Package_SetProtocol_def Package_SetProcessorId_def Package_SetHandlerId_def)
  have al: "pk_allocator ?p"
    by (simp add: Package_SetProtocol_def Package_SetProcessorId_def Package_SetHandlerId_def)
  have n: "unat (of_nat (length ptr) :: u64) = length ptr"
    by (rule unat_of_nat_small) (use assms(3) in simp)
  from Package_SetData_ok [OF wf assms(2), of "of_nat (length ptr)" ptr] n assms(3-5) al obtain db where
    "Package_SetData new (Foreign ptr) (of_nat (length ptr)) ?p = Inr (?p\<lparr>pk_data := Some db\<rparr>)"
    "db_wf db" "db_data db = ptr" by auto
  then show ?thesis
    by (auto simp: fill_package_def Package_SetAllocator_def Package_SetPeerAddr_def Package_SetProtocol_def
        Package_SetProcessorId_def Package_SetHandlerId_def)
qed

lemma onpackage_spec:
  assumes ap: "ap_ready ap cb ql proto" and free: "pl_objects (so_pool so) = x # xs"
    and wf: "pk_wf (so_pkgs so x)" and ok: "heap_ok new" and len: "length ptr < 2 ^ 63"
    and mem: "new sizeof_DataBlock \<noteq> None" "new (of_nat (length ptr)) \<noteq> None"
  shows "\<exists>r so'. AppTextStreamProcpack_OnPackage new alc sz ap sockid procid addr so ptr = Inr (r, so')
    \<and> (if ql > 0 \<and> SyncQueue_GetSize (so_queue so) \<ge> ql then r = - 1 \<and> so' = so
       else if sq_count (so_queue so) \<ge> sq_limit (so_queue so)
       then r = - 1 \<and> so_queue so' = so_queue so \<and> so_pool so' = so_pool so
         \<and> so_fullcalls so' = so_fullcalls so + (if cb then 1 else 0)
       else r = 0 \<and> sq_queue (so_queue so') = x # sq_queue (so_queue so)
         \<and> sq_count (so_queue so') = sq_count (so_queue so) + 1 \<and> sq_limit (so_queue so') = sq_limit (so_queue so)
         \<and> pl_objects (so_pool so') = xs \<and> so_callbacks so' x = ManagerCallback
         \<and> Package_GetData (so_pkgs so' x) = Inr ptr \<and> pk_handlerid (so_pkgs so' x) = sockid
         \<and> pk_processorid (so_pkgs so' x) = procid \<and> pk_protocol (so_pkgs so' x) = scast proto
         \<and> pk_peerAddr (so_pkgs so' x) = addr \<and> (\<forall>y. y \<noteq> x \<longrightarrow> so_pkgs so' y = so_pkgs so y))"
proof -
  from fill_package_ok [OF wf ok len mem, of sockid procid proto addr] obtain db where
    db: "fill_package new True sockid procid proto ptr addr (so_pkgs so x)
      = Inr ((so_pkgs so x)\<lparr>pk_allocator := True, pk_handlerid := sockid, pk_processorid := procid,
               pk_protocol := scast proto, pk_data := Some db, pk_peerAddr := addr\<rparr>)"
      "db_wf db" "db_data db = ptr" by blast
  have cr: "so_Create alc sz so = Inr (Some x, so\<lparr>so_pool := (so_pool so)\<lparr>pl_objects := xs\<rparr>,
      so_callbacks := (so_callbacks so)(x := ManagerCallback)\<rparr>)"
    using free by (simp add: so_Create_def ObjectManager_Create_def ObjectPool_Create_body_def ObjectPool_take_def)
  have restored: "(so_pool so)\<lparr>pl_objects := x # xs\<rparr> = so_pool so" using free by simp
  show ?thesis using ap cr db restored
    by (simp add: ap_ready_def AppTextStreamProcpack_OnPackage_def read_member_def Queue_Push_def
        SyncStack_PushImp_def so_Destroy_def Destroyable_Destroy_def ObjectManager_call_def
        ObjectPool_Destroy_body_def Package_GetData_def Package_block_def Let_def)
qed

section \<open>Properties\<close>

text \<open>C7. Cutting the stream into packages does not depend on how \<open>recv\<close> cut it into chunks: for both
  stream formats, every \<open>OnPackage\<close> (also one that refuses or faults) and every way of splitting
  the bytes, the receive loop hands over the same packages in the same order, ends in the same state
  and keeps the same rest (or closes the connection) as when all bytes arrive at once.\<close>

theorem extract_chunking_independent:
  assumes "length (concat chunks) < 2 ^ 31"
    and "extract \<in> {TextStreamProcpack_Extract onp, BinaryStreamProcpack_Extract onp}"
  shows "receive_all extract [] chunks s = receive_all extract [] [concat chunks] s"
  using assms(2) text_framing.chunking [OF assms(1)] binary_framing.chunking [OF assms(1)]
  by (auto simp: TextStreamProcpack_Extract_def [abs_def] BinaryStreamProcpack_Extract_def [abs_def])

theorem extract_chunking_independent_witness:
  "receive_all (BinaryStreamProcpack_Extract record_packet) [] [[0], [4, 9], [9, 0], [3, 7]] []
     = receive_all (BinaryStreamProcpack_Extract record_packet) [] [[0, 4, 9, 9, 0, 3, 7]] []"
  using extract_chunking_independent [of "[[0], [4, 9], [9, 0], [3, 7]]"
      "BinaryStreamProcpack_Extract record_packet" record_packet "[]"] by simp

text \<open>\<open>Extract\<close> on a sequence of packets made by the writers of the library (text packets with 4
  digits, binary packets with a 2-byte length that counts itself, none of them empty) calls
  \<open>OnPackage\<close> once for each, in order, with exactly its bytes, and returns the total length.\<close>

lemma extract_finds_packets:
  assumes "\<forall>bs\<in>set bss. bs \<noteq> [] \<and> length bs + 4 < 2 ^ 16"
    and "length (concat bss) + 4 * length bss < 2 ^ 31"
  shows "TextStreamProcpack_Extract record_packet (concat (map (text_frame 4) bss)) []
      = Inr (int (length (concat (map (text_frame 4) bss))), map (text_frame 4) bss)
    \<and> BinaryStreamProcpack_Extract record_packet (concat (map (bin_packet LENGTH_INCLUDE_SELF 2) bss)) []
      = Inr (int (length (concat (map (bin_packet LENGTH_INCLUDE_SELF 2) bss))), map (bin_packet LENGTH_INCLUDE_SELF 2) bss)"
proof -
  have lt: "length (concat (map (text_frame 4) bss)) = length (concat bss) + 4 * length bss"
    using assms(1) by (induction bss) (auto simp: text_frame_def)
  have lb: "length (concat (map (bin_packet LENGTH_INCLUDE_SELF 2) bss)) = length (concat bss) + 2 * length bss"
    by (induction bss) (simp_all add: bin_lfl_def BINARY_PACKLEN_LEN_def)
  have tp: "p \<noteq> [] \<and> text_next (p @ y) = Frame (length p)" if "p \<in> set (map (text_frame 4) bss)" for p y
  proof -
    from that assms(1) obtain bs where "p = text_frame 4 bs" "bs \<noteq> []" "length bs < 2 ^ 16" by fastforce
    then show ?thesis using text_next_packet [of bs y] by (simp add: text_frame_def)
  qed
  have bp: "p \<noteq> [] \<and> binary_next (p @ y) = Frame (length p)"
    if "p \<in> set (map (bin_packet LENGTH_INCLUDE_SELF 2) bss)" for p y
  proof -
    from that assms(1) obtain bs where "p = bin_packet LENGTH_INCLUDE_SELF 2 bs" "bs \<noteq> []" "length bs + 2 < 2 ^ 16"
      by fastforce
    then show ?thesis using binary_next_packet [of bs y] by (simp add: bin_packet_def)
  qed
  have rec: "\<exists>s'. record_packet s p = Inr (0, s')" for s p by (simp add: record_packet_def)
  note t = text_framing.frame_loop_packets [where onp = record_packet and s = "[]" and ps = "map (text_frame 4) bss",
      OF tp rec, unfolded fold_record append_Nil]
  note b = binary_framing.frame_loop_packets [where onp = record_packet and s = "[]"
      and ps = "map (bin_packet LENGTH_INCLUDE_SELF 2) bss", OF bp rec, unfolded fold_record append_Nil]
  have "TextStreamProcpack_Extract record_packet (concat (map (text_frame 4) bss)) []
      = Inr (int (length (concat (map (text_frame 4) bss))), map (text_frame 4) bss)"
    unfolding TextStreamProcpack_Extract_def
    by (subst text_framing.loop_frame_loop) (use lt assms(2) t in simp_all)
  moreover have "BinaryStreamProcpack_Extract record_packet (concat (map (bin_packet LENGTH_INCLUDE_SELF 2) bss)) []
      = Inr (int (length (concat (map (bin_packet LENGTH_INCLUDE_SELF 2) bss))), map (bin_packet LENGTH_INCLUDE_SELF 2) bss)"
    unfolding BinaryStreamProcpack_Extract_def
    by (subst binary_framing.loop_frame_loop) (use lb assms(2) b in simp_all)
  ultimately show ?thesis by simp
qed

lemma extract_finds_packets_witness:
  "TextStreamProcpack_Extract record_packet (concat (map (text_frame 4) [[65], [66, 67]])) []
      = Inr (int (length (concat (map (text_frame 4) [[65], [66, 67]]))), map (text_frame 4) [[65], [66, 67]])
    \<and> BinaryStreamProcpack_Extract record_packet (concat (map (bin_packet LENGTH_INCLUDE_SELF 2) [[65], [66, 67]])) []
      = Inr (int (length (concat (map (bin_packet LENGTH_INCLUDE_SELF 2) [[65], [66, 67]]))), map (bin_packet LENGTH_INCLUDE_SELF 2) [[65], [66, 67]])"
  by (rule extract_finds_packets) simp_all

text \<open>\<open>OnPackage\<close> with its members set, a free package in the pool and memory for the bytes: when
  the queue limit of the object is reached nothing changes; when the queue itself is full the
  package goes back and the pool is as before; otherwise exactly one package, with the bytes,
  the ids, the protocol and the address, is at the front of the queue.\<close>

lemma onpackage_effect:
  assumes ap: "ap_ready ap cb ql proto" and free: "pl_objects (so_pool so) = x # xs"
    and wf: "pk_wf (so_pkgs so x)" and ok: "heap_ok new" and len: "length ptr < 2 ^ 63"
    and mem: "new sizeof_DataBlock \<noteq> None" "new (of_nat (length ptr)) \<noteq> None"
  shows "\<exists>r so'. AppTextStreamProcpack_OnPackage new alc sz ap sockid procid addr so ptr = Inr (r, so')
    \<and> (if ql > 0 \<and> SyncQueue_GetSize (so_queue so) \<ge> ql then r = - 1 \<and> so' = so
       else if sq_count (so_queue so) \<ge> sq_limit (so_queue so)
       then r = - 1 \<and> so_queue so' = so_queue so \<and> so_pool so' = so_pool so
         \<and> so_fullcalls so' = so_fullcalls so + (if cb then 1 else 0)
       else r = 0 \<and> sq_queue (so_queue so') = x # sq_queue (so_queue so)
         \<and> sq_count (so_queue so') = sq_count (so_queue so) + 1 \<and> sq_limit (so_queue so') = sq_limit (so_queue so)
         \<and> pl_objects (so_pool so') = xs \<and> so_callbacks so' x = ManagerCallback
         \<and> Package_GetData (so_pkgs so' x) = Inr ptr \<and> pk_handlerid (so_pkgs so' x) = sockid
         \<and> pk_processorid (so_pkgs so' x) = procid \<and> pk_protocol (so_pkgs so' x) = scast proto
         \<and> pk_peerAddr (so_pkgs so' x) = addr \<and> (\<forall>y. y \<noteq> x \<longrightarrow> so_pkgs so' y = so_pkgs so y))"
  by (rule onpackage_spec [OF assms])

lemma onpackage_effect_witness:
  "\<exists>r so'. AppTextStreamProcpack_OnPackage heap_1M (\<lambda>_ _. True) 200
      \<lparr>ap_errorcb = Some True, ap_queuepackage = Some (), ap_allocator = Some True,
       ap_packageManager = Some (), ap_queuelimit = Some 5, ap_protocol = Some 1\<rparr> 7 8 ()
      \<lparr>so_queue = SyncQueue_new 10, so_pool = \<lparr>pl_curr = 1, pl_max = 1, pl_inc = 0, pl_objects = [(0, 0)], pl_chunks = [1]\<rparr>,
       so_pkgs = \<lambda>_. Package_new (), so_callbacks = \<lambda>_. NoCallback, so_fullcalls = 0\<rparr> [1, 2] = Inr (r, so')
    \<and> r = 0 \<and> sq_queue (so_queue so') = [(0, 0)] \<and> Package_GetData (so_pkgs so' (0, 0)) = Inr [1, 2]"
  using onpackage_effect [of "\<lparr>ap_errorcb = Some True, ap_queuepackage = Some (), ap_allocator = Some True,
       ap_packageManager = Some (), ap_queuelimit = Some 5, ap_protocol = Some 1\<rparr>" True 5 1
      "\<lparr>so_queue = SyncQueue_new 10, so_pool = \<lparr>pl_curr = 1, pl_max = 1, pl_inc = 0, pl_objects = [(0, 0)], pl_chunks = [1]\<rparr>,
       so_pkgs = \<lambda>_. Package_new (), so_callbacks = \<lambda>_. NoCallback, so_fullcalls = 0\<rparr>" "(0, 0)" "[]" heap_1M "[1, 2]"
      "\<lambda>_ _. True" 200 7 8 "()"]
  by (auto simp: ap_ready_def pk_wf_def Package_new_def heap_1M_def sizeof_DataBlock_def SyncQueue_GetSize_def
      SyncQueue_new_def word_le_nat_alt word_less_nat_alt)

text \<open>The constructors of \<open>AppTextStreamProcpack\<close> and \<open>AppBinaryStreamProcpack\<close> ignore their
  arguments and initialise nothing, and no setter of the classes sets the queue, the allocator, the
  manager or the protocol: as soon as a first package is complete, \<open>Extract\<close> of such an object
  reads a member without a value, whatever the queue limit and the callback were set to.\<close>

lemma procpack_members_uninitialised:
  assumes "text_next buf = Frame n" and "binary_next buf' = Frame n'"
    and "ap \<in> {AppTextStreamProcpack_new u a m pr, AppBinaryStreamProcpack_new u a m pr}"
    and "ap' \<in> {ap, AppProcpack_SetQueueLimit ql ap}"
  shows "TextStreamProcpack_Extract (AppTextStreamProcpack_OnPackage new alc sz
      (Procpack_SetErrorCallback ecb ap') sockid procid addr) buf so = Inl Uninit
    \<and> BinaryStreamProcpack_Extract (AppBinaryStreamProcpack_OnPackage new alc sz
      (Procpack_SetErrorCallback ecb ap') sockid procid addr) buf' so = Inl Uninit"
proof -
  have u: "AppTextStreamProcpack_OnPackage new alc sz (Procpack_SetErrorCallback ecb ap') sockid procid addr so p = Inl Uninit" for p
    using assms(3,4)
    by (auto simp: AppTextStreamProcpack_OnPackage_def read_member_def Procpack_SetErrorCallback_def
        AppTextStreamProcpack_new_def AppBinaryStreamProcpack_new_def AppProcpack_SetQueueLimit_def)
  show ?thesis unfolding TextStreamProcpack_Extract_def BinaryStreamProcpack_Extract_def
    by (subst text_framing.loop_eq, subst binary_framing.loop_eq)
      (simp add: assms(1,2) u AppBinaryStreamProcpack_OnPackage_def)
qed

lemma procpack_members_uninitialised_witness:
  "TextStreamProcpack_Extract (AppTextStreamProcpack_OnPackage heap_1M (\<lambda>_ _. True) 200
      (Procpack_SetErrorCallback True (AppTextStreamProcpack_new () True () 1)) 1 1 ()) (text_frame 4 [65])
      \<lparr>so_queue = SyncQueue_new 10, so_pool = \<lparr>pl_curr = 0, pl_max = 0, pl_inc = 0, pl_objects = [], pl_chunks = []\<rparr>,
       so_pkgs = \<lambda>_. Package_new (), so_callbacks = \<lambda>_. NoCallback, so_fullcalls = 0\<rparr> = Inl Uninit"
  using procpack_members_uninitialised [of "text_frame 4 [65]" "length (text_frame 4 [65])"
      "bin_packet LENGTH_INCLUDE_SELF 2 [65]" "length (bin_packet LENGTH_INCLUDE_SELF 2 [65])"
      "AppTextStreamProcpack_new () True () 1" "()" True "()" 1 "AppTextStreamProcpack_new () True () 1" 0
      heap_1M "\<lambda>_ _. True" 200 True 1 1 "()" "\<lparr>so_queue = SyncQueue_new 10, so_pool = \<lparr>pl_curr = 0, pl_max = 0, pl_inc = 0, pl_objects = [], pl_chunks = []\<rparr>,
       so_pkgs = \<lambda>_. Package_new (), so_callbacks = \<lambda>_. NoCallback, so_fullcalls = 0\<rparr>"]
    text_next_packet [of "[65]" "[]"] binary_next_packet [of "[65]" "[]"]
  by simp

end
