(* ===== verification/ConnectEventHandlerProps.thy ===== *)
theory ConnectEventHandlerProps
  imports ConnectEventHandler ReactorProps ProcpackProps
begin

text \<open>
  Properties of a connection: no byte that was given to \<open>Send\<close> is lost, repeated or reordered,
  the bytes that arrive are what \<open>Extract\<close> sees, and the ways a connection can be left without
  any event.
\<close>

section \<open>The buffers\<close>

lemma eat_front_ok:
  assumes wf: "db_wf db" and e: "unat e \<le> unat (db_end db)"
  shows "\<exists>db'. eat_front new db e = Inr db' \<and> db_wf db' \<and> db_cap db' = db_cap db
    \<and> db_data db' = drop (unat e) (db_data db)"
proof (cases "e = 0")
  case True
  then show ?thesis using wf by (simp add: eat_front_def)
next
  case False
  then have pos: "e > 0" by (simp add: word_gt_0)
  note ls = length_db_data [OF wf]
  have n: "unat (db_end db - e) = unat (db_end db) - unat e"
    by (rule unat_sub_le) (use e in \<open>simp add: word_le_nat_alt\<close>)
  have "unat (0 :: u64) + unat (db_end db - e) \<le> unat (db_cap db)" using n db_wf_end [OF wf] by simp
  from DataBlock_Copy_fits [OF wf _ this, of "InBlock e" new] n e ls obtain db1 where
    c: "DataBlock_Copy new db 0 (InBlock e) (db_end db - e) = Inr (0, db1)" "db_wf db1" "db_cap db1 = db_cap db"
      "db_data db1 = drop (unat e) (db_data db) @ drop (unat (db_end db) - unat e) (db_data db)" by auto
  have e1: "unat (db_end db1) = unat (db_end db)"
    using length_db_data [OF c(2)] c(4) ls e by simp
  from DataBlock_DecEnd_ok [OF c(2), of e] e e1 obtain db2 where
    d: "DataBlock_DecEnd db1 e = (0, db2)" "db_wf db2" "db_cap db2 = db_cap db1"
      "db_data db2 = take (unat (db_end db) - unat e) (db_data db1)" by auto
  have "db_data db2 = drop (unat e) (db_data db)" unfolding d(4) c(4) using ls by simp
  then show ?thesis using c d pos by (simp add: eat_front_def DataBlock_GetSize_def)
qed

lemma sent_front_ok:
  assumes wf: "db_wf db" and e: "unat n \<le> unat (db_end db)"
  shows "\<exists>db'. sent_front new db n = Inr db' \<and> db_wf db' \<and> db_cap db' = db_cap db
    \<and> db_data db' = drop (unat n) (db_data db)"
proof (cases "n = db_end db")
  case True
  then show ?thesis using DataBlock_Clear_wf [OF wf] length_db_data [OF wf]
    by (simp add: sent_front_def DataBlock_GetSize_def)
next
  case False
  note ls = length_db_data [OF wf]
  have k: "unat (db_end db - n) = unat (db_end db) - unat n"
    by (rule unat_sub_le) (use e in \<open>simp add: word_le_nat_alt\<close>)
  have "unat (0 :: u64) + unat (db_end db - n) \<le> unat (db_cap db)" using k db_wf_end [OF wf] by simp
  from DataBlock_Copy_fits [OF wf _ this, of "InBlock n" new] k e ls obtain db1 where
    c: "DataBlock_Copy new db 0 (InBlock n) (db_end db - n) = Inr (0, db1)" "db_wf db1" "db_cap db1 = db_cap db"
      "db_data db1 = drop (unat n) (db_data db) @ drop (unat (db_end db) - unat n) (db_data db)" by auto
  have "unat (db_end db1) = unat (db_end db)" using length_db_data [OF c(2)] c(4) ls e by simp
  then have e1: "db_end db1 = db_end db" by (simp add: word_unat_eq_iff)
  have "unat (db_end db1 - n) \<le> unat (db_cap db1)" using k c(3) e1 db_wf_end [OF wf] by simp
  from DataBlock_Resize_small [OF c(2) this, of new] e1 k obtain db2 where
    d: "DataBlock_Resize new db1 (db_end db - n) = Inr (0, db2)" "db_wf db2" "db_cap db2 = db_cap db1"
      "db_data db2 = take (unat (db_end db) - unat n) (db_data db1)" by auto
  have "db_data db2 = drop (unat n) (db_data db)" unfolding d(4) c(4) using ls by simp
  then show ?thesis using c d False e1 by (simp add: sent_front_def DataBlock_GetSize_def)
qed

lemma recv_store_ok:
  assumes wf: "db_wf db" and room: "unat (db_end db) + length bs \<le> unat (db_cap db)"
  shows "\<exists>db1. recv_store db (db_end db) bs = Inr db1
    \<and> db_wf (snd (DataBlock_IncEnd db1 (of_nat (length bs))))
    \<and> db_cap (snd (DataBlock_IncEnd db1 (of_nat (length bs)))) = db_cap db
    \<and> db_data (snd (DataBlock_IncEnd db1 (of_nat (length bs)))) = db_data db @ bs"
proof -
  let ?n = "of_nat (length bs) :: u64"
  let ?m = "overwrite (db_mem db) (unat (db_end db)) bs"
  have lm: "length (db_mem db) = unat (db_cap db)" "unat (db_cap db) < 2 ^ 63" using wf by (simp_all add: db_wf_def)
  have n: "unat ?n = length bs" by (rule unat_of_nat_small) (use room lm in simp)
  have av: "unat (db_cap db - db_end db) = unat (db_cap db) - unat (db_end db)"
    by (rule unat_sub_le) (use wf in \<open>simp add: db_wf_def\<close>)
  have s: "unat (db_end db + ?n) = unat (db_end db) + length bs"
    using size_add [of "db_end db" ?n] room lm n by simp
  have fit: "\<not> ?n > db_cap db - db_end db" using av n room by (simp add: word_less_nat_alt)
  have "take (unat (db_end db) + length bs) ?m = take (unat (db_end db)) (db_mem db) @ bs"
    by (rule take_overwrite_upto) (use room lm in simp)
  then show ?thesis using lm room s fit
    by (simp add: recv_store_def DataBlock_IncEnd_def DataBlock_GetAvailable_def db_wf_def db_data_def word_le_nat_alt)
qed

section \<open>The reactor of a connection\<close>

lemma ce_remove_conn [simp]: "cw_conn (snd (ce_remove m h w)) = cw_conn w"
  by (auto simp: ce_remove_def ConnectEventHandler_HandleClose_def Let_def split: prod.splits)

lemma ce_remove_sent [simp]: "sent_bytes (cw_sys (snd (ce_remove m h w))) = sent_bytes (cw_sys w)"
  by (auto simp: ce_remove_def ConnectEventHandler_HandleClose_def Let_def split: prod.splits)

lemma Close_frame [simp]:
  "cw_conn (snd (ConnectEventHandler_Close h w)) = cw_conn w"
  "sent_bytes (cw_sys (snd (ConnectEventHandler_Close h w))) = sent_bytes (cw_sys w)"
  by (simp_all add: ConnectEventHandler_Close_def)

lemma le_register_total:
  "\<exists>ret r'. LibEventReactor_RegisterHandler True add1 add2 m h t r = Inr (ret, r')"
  by (auto simp: LibEventReactor_RegisterHandler_def LibEventReactor_InitEventHandler_def le_set_data_def Let_def
      split: option.splits)

lemma ce_rearm_frame:
  "\<exists>w'. ce_rearm True add m h w = Inr w' \<and> cw_conn w' = cw_conn w \<and> sent_bytes (cw_sys w') = sent_bytes (cw_sys w)"
  using le_register_total [of add add m h "Some (ce_timeout (cw_conn w), 0)" "cw_reactor w"]
  by (auto simp: ce_rearm_def ce_register_def)

lemma set_buffer_simps [simp]:
  "cw_conn (set_sendbuffer db w) = (cw_conn w)\<lparr>ce_sendbuffer := db\<rparr>"
  "cw_sys (set_sendbuffer db w) = cw_sys w" "cw_reactor (set_sendbuffer db w) = cw_reactor w"
  "cw_conn (set_recvbuffer db w) = (cw_conn w)\<lparr>ce_recvbuffer := db\<rparr>"
  "cw_sys (set_recvbuffer db w) = cw_sys w" "cw_reactor (set_recvbuffer db w) = cw_reactor w"
  by (simp_all add: set_sendbuffer_def set_recvbuffer_def)

section \<open>Output\<close>

lemma HandleOutput_stream:
  assumes wf: "db_wf (ce_sendbuffer (cw_conn w))"
  shows "\<exists>w'. ConnectEventHandler_HandleOutput new True add snt h w = Inr w' \<and> db_wf (ce_sendbuffer (cw_conn w'))
    \<and> db_cap (ce_sendbuffer (cw_conn w')) = db_cap (ce_sendbuffer (cw_conn w))
    \<and> sent_bytes (cw_sys w') @ db_data (ce_sendbuffer (cw_conn w'))
        = sent_bytes (cw_sys w) @ db_data (ce_sendbuffer (cw_conn w))
    \<and> length (db_data (ce_sendbuffer (cw_conn w'))) \<le> length (db_data (ce_sendbuffer (cw_conn w)))"
proof (cases "DataBlock_GetSize (ce_sendbuffer (cw_conn w)) \<le> 0")
  case True
  then show ?thesis using wf by (simp add: ConnectEventHandler_HandleOutput_def)
next
  case some: False
  let ?db = "ce_sendbuffer (cw_conn w)"
  show ?thesis
  proof (cases snt)
    case (SendErr e)
    then show ?thesis using some wf ce_rearm_frame [of add WriteMask h w]
      by (auto simp: ConnectEventHandler_HandleOutput_def)
  next
    case (Sent room)
    define n where "n = send_takes room ?db"
    define w1 where "w1 = w\<lparr>cw_sys := SysSend (ce_handle (cw_conn w)) (take n (db_data ?db)) # cw_sys w\<rparr>"
    have un: "unat (of_nat n :: u64) = n" "n \<le> unat (db_end ?db)"
      by (rule unat_of_nat_small, use unat_u64 [of "db_end ?db"] in \<open>simp_all add: n_def send_takes_def DataBlock_GetSize_def\<close>)
    then obtain db1 where s: "sent_front new ?db (of_nat n) = Inr db1" "db_wf db1" "db_cap db1 = db_cap ?db"
      "db_data db1 = drop n (db_data ?db)"
      using sent_front_ok [OF wf, of "of_nat n" new] by auto
    define w2 where "w2 = set_sendbuffer db1 w1"
    have ou: "ConnectEventHandler_HandleOutput new True add snt h w =
      (if n = 0 then Inr (snd (ConnectEventHandler_Close h w1))
       else if DataBlock_IsEmpty db1
       then if ce_closeaftersent (cw_conn w2) then Inr (snd (ConnectEventHandler_Close h w2))
            else Inr (snd (ce_remove WriteMask h w2))
       else ce_rearm True add WriteMask h w2)"
      using some Sent s(1) by (simp add: ConnectEventHandler_HandleOutput_def n_def w1_def w2_def Let_def)
    have sc: "ce_sendbuffer (cw_conn w2) = db1"
      "sent_bytes (cw_sys w1) @ drop n (db_data ?db) = sent_bytes (cw_sys w) @ db_data ?db"
      "cw_conn w1 = cw_conn w" "cw_sys w2 = cw_sys w1"
      by (simp_all add: w1_def w2_def)
    show ?thesis unfolding ou using wf s sc ce_rearm_frame [of add WriteMask h w2] by auto
  qed
qed

lemma Send_stream:
  assumes "db_wf (ce_sendbuffer (cw_conn w))" and "heap_ok new" and "\<forall>n. unat n \<le> B \<longrightarrow> new n \<noteq> None"
    and "length (db_data (ce_sendbuffer (cw_conn w))) + length data \<le> B" and "B < 2 ^ 63"
  shows "\<exists>w'. ConnectEventHandler_Send new True add snt data h w = Inr w' \<and> db_wf (ce_sendbuffer (cw_conn w'))
    \<and> sent_bytes (cw_sys w') @ db_data (ce_sendbuffer (cw_conn w'))
        = sent_bytes (cw_sys w) @ db_data (ce_sendbuffer (cw_conn w)) @ data
    \<and> length (db_data (ce_sendbuffer (cw_conn w'))) \<le> length (db_data (ce_sendbuffer (cw_conn w))) + length data"
proof -
  let ?db = "ce_sendbuffer (cw_conn w)"
  have len: "unat (db_end ?db) + length data \<le> B" using assms(1,4) by simp
  have n: "unat (of_nat (length data) :: u64) = length data"
    by (rule unat_of_nat_small) (use len assms(5) in simp)
  have "new (db_end ?db + of_nat (length data)) \<noteq> None"
    using assms(3,5) len n size_add [of "db_end ?db" "of_nat (length data)"] by simp
  from DataBlock_Append_spec [OF assms(1,2) _ n] this len assms(5) obtain db1 where
    a: "DataBlock_Append new ?db (Foreign data) (of_nat (length data)) = Inr (0, db1)" "db_wf db1"
      "db_data db1 = db_data ?db @ data" by fastforce
  have "db_wf (ce_sendbuffer (cw_conn (set_sendbuffer db1 w)))" using a(2) by simp
  from HandleOutput_stream [OF this, of new add snt h] a show ?thesis
    by (auto simp: ConnectEventHandler_Send_def)
qed

lemma output_run_stream:
  assumes "heap_ok new" and "\<forall>n. unat n \<le> B \<longrightarrow> new n \<noteq> None" and "B < 2 ^ 63"
  shows "db_wf (ce_sendbuffer (cw_conn w)) \<Longrightarrow> length (db_data (ce_sendbuffer (cw_conn w))) + length (offered_bytes ops) \<le> B \<Longrightarrow>
    \<exists>w'. output_run new h ops w = Inr w' \<and> db_wf (ce_sendbuffer (cw_conn w'))
      \<and> sent_bytes (cw_sys w') @ db_data (ce_sendbuffer (cw_conn w'))
          = sent_bytes (cw_sys w) @ db_data (ce_sendbuffer (cw_conn w)) @ offered_bytes ops"
proof (induction ops arbitrary: w)
  case Nil
  then show ?case by simp
next
  case (Cons op ops)
  show ?case
  proof (cases op)
    case (OpOutput add snt)
    then show ?thesis using Cons HandleOutput_stream [OF Cons.prems(1), of new add snt h] by fastforce
  next
    case (OpSend data add snt)
    have "length (db_data (ce_sendbuffer (cw_conn w))) + length data \<le> B" using Cons.prems(2) OpSend by simp
    from Send_stream [OF Cons.prems(1) assms(1,2) this assms(3), of add snt h] obtain w1 where
      o: "ConnectEventHandler_Send new True add snt data h w = Inr w1" "db_wf (ce_sendbuffer (cw_conn w1))"
        "sent_bytes (cw_sys w1) @ db_data (ce_sendbuffer (cw_conn w1))
          = sent_bytes (cw_sys w) @ db_data (ce_sendbuffer (cw_conn w)) @ data"
        "length (db_data (ce_sendbuffer (cw_conn w1))) \<le> length (db_data (ce_sendbuffer (cw_conn w))) + length data" by blast
    then have "length (db_data (ce_sendbuffer (cw_conn w1))) + length (offered_bytes ops) \<le> B"
      using Cons.prems OpSend by simp
    from Cons.IH [OF o(2) this] show ?thesis using OpSend o by auto
  qed
qed

section \<open>Input\<close>

text \<open>A connection that is waiting for bytes, without timers.\<close>

definition conn_ready :: "handler_id \<Rightarrow> 'addr conn_world \<Rightarrow> bool" where
  "conn_ready h w \<longleftrightarrow> db_wf (ce_recvbuffer (cw_conn w)) \<and>
     (case le_data (cw_reactor w) h of None \<Rightarrow> False
      | Some ed \<Rightarrow> ev_pending (led_readev ed) \<and> ev_events (led_readev ed) AND EV_PERSIST = 0 \<and> led_timers ed = [])"

text \<open>The bytes that a connection keeps, unless it is closed.\<close>

definition conn_view :: "handler_id \<Rightarrow> 'addr conn_world \<Rightarrow> byte list option" where
  "conn_view h w = (if le_data (cw_reactor w) h = None then None else Some (db_data (ce_recvbuffer (cw_conn w))))"

lemma Close_closes:
  assumes "le_data (cw_reactor w) h = Some ed" and "led_timers ed = []"
  shows "le_data (cw_reactor (snd (ConnectEventHandler_Close h w))) h = None
    \<and> cw_sys (snd (ConnectEventHandler_Close h w)) = SysClose (ce_handle (cw_conn w)) # cw_sys w"
  using assms by (simp add: ConnectEventHandler_Close_def ce_remove_def LibEventReactor_RemoveHandler_def
      LibEventReactor_HasEvent_def LibEventReactor_UninitEventHander_def ConnectEventHandler_HandleClose_def
      event_zero_def le_HandleClose_def le_set_data_def Let_def)

lemma ev_read_flags: "le_flags EV_READ ReadMask (Some t) AND EV_PERSIST = 0"
  by (simp add: le_flags_def EV_READ_def EV_TIMEOUT_def EV_PERSIST_def)

lemma rearm_read:
  assumes "le_data (cw_reactor w) h = Some ed" and "led_timers ed = []" and "db_wf (ce_recvbuffer (cw_conn w))"
  shows "\<exists>w'. ce_rearm True 0 ReadMask h w = Inr w' \<and> conn_ready h w' \<and> cw_conn w' = cw_conn w \<and> cw_sys w' = cw_sys w"
  using assms ev_read_flags [of "(ce_timeout (cw_conn w), 0)"]
  by (simp add: ce_rearm_def ce_register_def LibEventReactor_RegisterHandler_def LibEventReactor_InitEventHandler_def
      conn_ready_def le_set_data_def le_arm_def event_add_def event_set_def Let_def)

lemma recv_room:
  assumes wf: "db_wf db" and ok: "heap_ok new" and mem: "\<forall>n. unat n \<le> B \<longrightarrow> new n \<noteq> None"
    and B: "B < 2 ^ 63" "unat (db_end db) + 16384 \<le> B"
  shows "\<exists>r db'. DataBlock_Resize new db (DataBlock_GetSize db + RECV_SIZE) = Inr (r, db') \<and> db_wf db'
    \<and> db_data db' = db_data db \<and> db_end db' = db_end db \<and> unat (db_end db) + 16384 \<le> unat (db_cap db')"
proof -
  have s: "unat (db_end db + RECV_SIZE) = unat (db_end db) + 16384"
    using size_add [of "db_end db" RECV_SIZE] B by (simp add: RECV_SIZE_def)
  show ?thesis
  proof (cases "unat (db_end db + RECV_SIZE) \<le> unat (db_cap db)")
    case True
    from DataBlock_Resize_small [OF wf this, of new] obtain db' where
      r: "DataBlock_Resize new db (db_end db + RECV_SIZE) = Inr (0, db')" "db_wf db'" "db_cap db' = db_cap db"
        "db_data db' = db_data db" using s wf by auto
    have "unat (db_end db') = unat (db_end db)"
      using length_db_data [OF r(2)] length_db_data [OF wf] r(4) by simp
    then have "db_end db' = db_end db" by (simp add: word_unat_eq_iff)
    with r True s show ?thesis by (auto simp: DataBlock_GetSize_def)
  next
    case False
    have "new (db_end db + RECV_SIZE) \<noteq> None" using mem s B by simp
    with DataBlock_Resize_grow [OF wf ok, of "db_end db + RECV_SIZE"] False s show ?thesis
      by (auto simp: DataBlock_GetSize_def)
  qed
qed

locale extractor =
  fixes extr :: "('s \<Rightarrow> byte list \<Rightarrow> (int \<times> 's) result) \<Rightarrow> byte list \<Rightarrow> 's \<Rightarrow> (int \<times> 's) result"
  assumes eat_bound: "length b < 2 ^ 31 \<Longrightarrow> extr onp b s = Inr (eat, s') \<Longrightarrow> eat \<le> int (length b)"
begin

text \<open>One readable event of a connection.\<close>

lemma input_step:
  fixes onp :: "u64 \<Rightarrow> u64 \<Rightarrow> 'addr \<Rightarrow> 's \<Rightarrow> byte list \<Rightarrow> (int \<times> 's) result" and s :: 's
  assumes ready: "conn_ready h w" and ok: "heap_ok new" and mem: "\<forall>n. unat n \<le> B \<longrightarrow> new n \<noteq> None"
    and B: "B < 2 ^ 31" "length (db_data (ce_recvbuffer (cw_conn w))) + 16384 \<le> B" "length bs \<le> 16384"
  defines "data \<equiv> db_data (ce_recvbuffer (cw_conn w)) @ bs" and "c \<equiv> cw_conn w"
  defines "x \<equiv> extr (onp (ce_globalid c) (ce_processorid c) (ce_peerAddr c)) data s"
  defines "f \<equiv> LibEventReactor_fire_read (\<lambda>_ r. ConnectEventHandler_HandleInput new True 0
      (\<lambda>g p a. extr (onp g p a)) (RecvData bs) h (w\<lparr>cw_reactor := r\<rparr>) s) EV_READ h (cw_reactor w)"
  shows "\<exists>w1. f = Some (bindR x (\<lambda>(eat, s1). Inr (w1 eat, s1)))
    \<and> (\<forall>eat s1. x = Inr (eat, s1) \<longrightarrow> (if eat < 0
         then le_data (cw_reactor (w1 eat)) h = None \<and> cw_sys (w1 eat) = SysClose (ce_handle c) # cw_sys w
         else conn_ready h (w1 eat) \<and> cw_sys (w1 eat) = cw_sys w
           \<and> db_data (ce_recvbuffer (cw_conn (w1 eat))) = drop (nat eat) data
           \<and> ce_globalid (cw_conn (w1 eat)) = ce_globalid c \<and> ce_processorid (cw_conn (w1 eat)) = ce_processorid c
           \<and> ce_peerAddr (cw_conn (w1 eat)) = ce_peerAddr c \<and> ce_handle (cw_conn (w1 eat)) = ce_handle c))"
proof -
  let ?db = "ce_recvbuffer c"
  obtain ed where ed: "le_data (cw_reactor w) h = Some ed" "ev_pending (led_readev ed)"
    "ev_events (led_readev ed) AND EV_PERSIST = 0" "led_timers ed = []" and wf: "db_wf ?db"
    using ready by (auto simp: conn_ready_def c_def split: option.splits)
  define r0 where "r0 = le_set_data h (Some (ed\<lparr>led_readev := event_del (led_readev ed)\<rparr>)) (cw_reactor w)"
  define w0 where "w0 = w\<lparr>cw_reactor := r0\<rparr>"
  have B63: "B < 2 ^ 63" using B(1) by simp
  have endB: "unat (db_end ?db) + 16384 \<le> B" using B(2) wf by (simp add: c_def)
  from recv_room [OF wf ok mem B63 endB] obtain r db where
    rs: "DataBlock_Resize new ?db (DataBlock_GetSize ?db + RECV_SIZE) = Inr (r, db)" "db_wf db"
      "db_data db = db_data ?db" "db_end db = db_end ?db" "unat (db_end ?db) + 16384 \<le> unat (db_cap db)" by auto
  have "unat (db_end db) + length bs \<le> unat (db_cap db)" using rs(4,5) B(3) by simp
  from recv_store_ok [OF rs(2) this] obtain db1 where
    st: "recv_store db (db_end db) bs = Inr db1" "db_wf (snd (DataBlock_IncEnd db1 (of_nat (length bs))))"
      "db_data (snd (DataBlock_IncEnd db1 (of_nat (length bs)))) = data"
    using rs(3) by (auto simp: data_def c_def)
  define db2 where "db2 = snd (DataBlock_IncEnd db1 (of_nat (length bs)))"
  define w1 where "w1 = set_recvbuffer db2 (w0\<lparr>cw_conn := c\<lparr>ce_received := True\<rparr>\<rparr>)"
  define out where "out = (\<lambda>eat. if eat < 0 then snd (ConnectEventHandler_Close h w1)
      else projr (bindR (eat_front new db2 (word_of_int eat)) (\<lambda>db3. ce_rearm True 0 ReadMask h (set_recvbuffer db3 w1))))"
  have ed0: "le_data (cw_reactor w1) h = Some (ed\<lparr>led_readev := event_del (led_readev ed)\<rparr>)"
    "cw_sys w1 = cw_sys w" "cw_conn w1 = c\<lparr>ce_received := True, ce_recvbuffer := db2\<rparr>"
    by (simp_all add: w1_def w0_def r0_def le_set_data_def)
  have f: "f = Some (ConnectEventHandler_HandleInput new True 0 (\<lambda>g p a. extr (onp g p a)) (RecvData bs) h w0 s)"
    using ed by (simp add: f_def LibEventReactor_fire_read_def le_fired_def EventCb_def EV_READ_def EV_TIMEOUT_def
        w0_def r0_def)
  have hi: "ConnectEventHandler_HandleInput new True 0 (\<lambda>g p a. extr (onp g p a)) (RecvData bs) h w0 s
    = bindR x (\<lambda>(eat, s1). if eat < 0 then Inr (snd (ConnectEventHandler_Close h w1), s1)
        else bindR (eat_front new db2 (word_of_int eat)) (\<lambda>db3.
          bindR (ce_rearm True 0 ReadMask h (set_recvbuffer db3 w1)) (\<lambda>w2. Inr (w2, s1))))"
    using rs(1,4) st(1,3) by (simp add: ConnectEventHandler_HandleInput_def w0_def c_def x_def w1_def db2_def
        DataBlock_GetSize_def set_recvbuffer_def Let_def cong del: if_weak_cong)
  have pos: "\<exists>db3 w2. eat_front new db2 (word_of_int eat) = Inr db3 \<and> db_data db3 = drop (nat eat) data
      \<and> ce_rearm True 0 ReadMask h (set_recvbuffer db3 w1) = Inr w2 \<and> conn_ready h w2
      \<and> cw_conn w2 = c\<lparr>ce_received := True, ce_recvbuffer := db3\<rparr> \<and> cw_sys w2 = cw_sys w"
    if "x = Inr (eat, s1)" "\<not> eat < 0" for eat s1
  proof -
    have "length data < 2 ^ 31" using B by (simp add: data_def)
    from eat_bound [OF this] that(1) have le: "eat \<le> int (length data)" by (simp add: x_def)
    have ld: "length data = unat (db_end db2)" using length_db_data [OF st(2)] st(3) by (simp add: db2_def)
    have we: "unat (word_of_int eat :: u64) = nat eat"
      using that(2) le \<open>length data < 2 ^ 31\<close> by (simp add: unsigned_of_int take_bit_int_eq_self)
    have "unat (word_of_int eat :: u64) \<le> unat (db_end db2)" unfolding we using le ld by linarith
    from eat_front_ok [OF st(2)[folded db2_def] this, of new] obtain db3 where
      e: "eat_front new db2 (word_of_int eat) = Inr db3" "db_wf db3" "db_data db3 = drop (nat eat) data"
      using we st(3) by (auto simp: db2_def)
    have "le_data (cw_reactor (set_recvbuffer db3 w1)) h = Some (ed\<lparr>led_readev := event_del (led_readev ed)\<rparr>)"
      "led_timers (ed\<lparr>led_readev := event_del (led_readev ed)\<rparr>) = []"
      "db_wf (ce_recvbuffer (cw_conn (set_recvbuffer db3 w1)))" using ed0 e(2) ed(4) by simp_all
    from rearm_read [OF this] e(1,3) show ?thesis by (auto simp: ed0)
  qed
  show ?thesis
  proof (intro exI [of _ out] conjI allI impI)
    show "f = Some (bindR x (\<lambda>(eat, s1). Inr (out eat, s1)))"
      unfolding f hi using pos by (cases x) (auto simp: out_def)
    show "if eat < 0 then le_data (cw_reactor (out eat)) h = None \<and> cw_sys (out eat) = SysClose (ce_handle c) # cw_sys w
         else conn_ready h (out eat) \<and> cw_sys (out eat) = cw_sys w
           \<and> db_data (ce_recvbuffer (cw_conn (out eat))) = drop (nat eat) data
           \<and> ce_globalid (cw_conn (out eat)) = ce_globalid c \<and> ce_processorid (cw_conn (out eat)) = ce_processorid c
           \<and> ce_peerAddr (cw_conn (out eat)) = ce_peerAddr c \<and> ce_handle (cw_conn (out eat)) = ce_handle c"
      if "x = Inr (eat, s1)" for eat s1
      using pos [OF that] Close_closes [OF ed0(1)] ed(4) ed0 by (auto simp: out_def)
  qed
qed

text \<open>A run of readable events against the list function \<open>receive_all\<close>.\<close>

lemma input_run_refines:
  fixes onp :: "u64 \<Rightarrow> u64 \<Rightarrow> 'addr \<Rightarrow> 's \<Rightarrow> byte list \<Rightarrow> (int \<times> 's) result"
  assumes ok: "heap_ok new" and mem: "\<forall>n. unat n \<le> B \<longrightarrow> new n \<noteq> None" and B: "B < 2 ^ 31"
  shows "conn_ready h w \<Longrightarrow> \<forall>c\<in>set cs. length c \<le> 16384
    \<Longrightarrow> length (db_data (ce_recvbuffer (cw_conn w))) + length (concat cs) + 16384 \<le> B
    \<Longrightarrow> g = ce_globalid (cw_conn w) \<Longrightarrow> p = ce_processorid (cw_conn w) \<Longrightarrow> a = ce_peerAddr (cw_conn w)
    \<Longrightarrow> fd = ce_handle (cw_conn w) \<Longrightarrow> calls = cw_sys w
    \<Longrightarrow> case receive_all (extr (onp g p a)) (db_data (ce_recvbuffer (cw_conn w))) cs s of
        Inl e \<Rightarrow> input_run new (\<lambda>g p a. extr (onp g p a)) h (map RecvData cs) w s = Inl e
      | Inr (r, s') \<Rightarrow> \<exists>w'. input_run new (\<lambda>g p a. extr (onp g p a)) h (map RecvData cs) w s = Inr (w', s')
          \<and> conn_view h w' = r \<and> cw_sys w' = (if r = None then SysClose fd # calls else calls)"
proof (induction cs arbitrary: w s)
  case Nil
  then show ?case by (auto simp: conn_view_def conn_ready_def split: option.splits)
next
  case (Cons c cs)
  let ?data = "db_data (ce_recvbuffer (cw_conn w)) @ c"
  have len: "length (db_data (ce_recvbuffer (cw_conn w))) + 16384 \<le> B" "length c \<le> 16384" using Cons.prems by simp_all
  note step = input_step [OF Cons.prems(1) ok mem B len, of onp s, folded Cons.prems(4-8)]
  show ?case
  proof (cases "extr (onp g p a) ?data s")
    case (Inl e)
    with step show ?thesis by auto
  next
    case (Inr x)
    obtain eat s1 where x: "extr (onp g p a) ?data s = Inr (eat, s1)" using Inr by (cases x) auto
    show ?thesis
    proof (cases "eat < 0")
      case True
      have stop: "input_run new ex h rs w1 s1 = Inr (w1, s1)" if "le_data (cw_reactor w1) h = None" for ex rs w1
        using that by (cases rs) (simp_all add: LibEventReactor_fire_read_def)
      show ?thesis using step x True Cons.prems(7,8) by (auto simp: stop conn_view_def)
    next
      case False
      from step x False obtain w1 where
        w1: "LibEventReactor_fire_read (\<lambda>_ r. ConnectEventHandler_HandleInput new True 0
            (\<lambda>g p a. extr (onp g p a)) (RecvData c) h (w\<lparr>cw_reactor := r\<rparr>) s) EV_READ h (cw_reactor w) = Some (Inr (w1, s1))"
          "conn_ready h w1" "cw_sys w1 = calls" "db_data (ce_recvbuffer (cw_conn w1)) = drop (nat eat) ?data"
          "g = ce_globalid (cw_conn w1)" "p = ce_processorid (cw_conn w1)" "a = ce_peerAddr (cw_conn w1)"
          "fd = ce_handle (cw_conn w1)"
        using Cons.prems(4-8) by auto
      have room: "length (db_data (ce_recvbuffer (cw_conn w1))) + length (concat cs) + 16384 \<le> B"
        using Cons.prems(3) w1(4) by simp
      have small: "\<forall>c\<in>set cs. length c \<le> 16384" using Cons.prems(2) by simp
      note ih = Cons.IH [OF w1(2) small room w1(5-8) w1(3)[symmetric], of s1, unfolded w1(4)]
      have "receive_all (extr (onp g p a)) (db_data (ce_recvbuffer (cw_conn w))) (c # cs) s
          = receive_all (extr (onp g p a)) (drop (nat eat) ?data) cs s1" using x False by simp
      moreover have "input_run new (\<lambda>g p a. extr (onp g p a)) h (map RecvData (c # cs)) w s
          = input_run new (\<lambda>g p a. extr (onp g p a)) h (map RecvData cs) w1 s1" using w1(1) by simp
      ultimately show ?thesis using ih by (simp only:)
    qed
  qed
qed

end

context framing
begin

lemma loop_eats:
  assumes "length b < 2 ^ 31" and "loop onp b 0 s = Inr (eat, s')"
  shows "eat \<le> int (length b)"
proof -
  have "loop onp b 0 s = bindR (frame_loop nxt onp b s) (\<lambda>(r, s'). case r of
       None \<Rightarrow> Inr (- 1, s') | Some rest \<Rightarrow> Inr (int (0 + length b - length rest), s'))"
    by (rule loop_frame_loop) (use assms(1) in simp)
  with assms(2) show ?thesis by (cases "frame_loop nxt onp b s") (auto split: option.splits)
qed

end

interpretation text_input: extractor TextStreamProcpack_Extract
  by unfold_locales (unfold TextStreamProcpack_Extract_def, erule (1) text_framing.loop_eats)

interpretation binary_input: extractor BinaryStreamProcpack_Extract
  by unfold_locales (unfold BinaryStreamProcpack_Extract_def, erule (1) binary_framing.loop_eats)

section \<open>Properties\<close>

text \<open>C8. With memory for the bytes that are offered, any sequence of \<open>Send\<close> and \<open>HandleOutput\<close> calls
  under any results of \<open>send\<close> and \<open>event_add\<close> (short writes, errors, failed registrations)
  returns, and the bytes that the kernel has taken followed by those that are still in the send buffer
  are the bytes offered, in order: none is lost, repeated or reordered.\<close>

theorem send_stream_exact:
  assumes "heap_ok new" and "\<forall>n. unat n \<le> B \<longrightarrow> new n \<noteq> None" and "B < 2 ^ 63"
    and "db_wf (ce_sendbuffer (cw_conn w))"
    and "length (db_data (ce_sendbuffer (cw_conn w))) + length (offered_bytes ops) \<le> B"
  shows "\<exists>w'. output_run new h ops w = Inr w' \<and> db_wf (ce_sendbuffer (cw_conn w'))
    \<and> sent_bytes (cw_sys w') @ db_data (ce_sendbuffer (cw_conn w'))
        = sent_bytes (cw_sys w) @ db_data (ce_sendbuffer (cw_conn w)) @ offered_bytes ops"
  by (rule output_run_stream [OF assms])

definition conn_example :: "unit conn_world" where
  "conn_example = \<lparr>cw_conn = \<lparr>ce_peerAddr = (), ce_recvbuffer = DataBlock_new heap_1M DEFAULT_BLOCK_SIZE,
      ce_sendbuffer = DataBlock_new heap_1M DEFAULT_BLOCK_SIZE, ce_globalid = 1, ce_processorid = 2, ce_timeout = 60,
      ce_closeaftersent = False, ce_received = False, ce_handle = 9\<rparr>,
    cw_reactor = (LibEventReactor_new (\<lambda>_. 9))\<lparr>le_data := [7 \<mapsto> EventData_new\<lparr>led_readev :=
      \<lparr>ev_events = EV_READ, ev_efd = 9, ev_pending = True\<rparr>\<rparr>]\<rparr>,
    cw_sys = []\<rparr>"

lemma heap_1M_small: "unat n \<le> 100000 \<Longrightarrow> heap_1M n \<noteq> None"
  by (simp add: heap_1M_def word_less_nat_alt)

lemma conn_example_bufs:
  "db_wf (DataBlock_new heap_1M DEFAULT_BLOCK_SIZE)" "db_data (DataBlock_new heap_1M DEFAULT_BLOCK_SIZE) = []"
  by (simp_all add: DataBlock_new_def NewAllocator_Allocate_def heap_1M_def DEFAULT_BLOCK_SIZE_def db_wf_def db_data_def)

theorem send_stream_exact_witness:
  "\<exists>w'. output_run heap_1M 7 [OpSend [1, 2, 3] 0 (Sent 2), OpOutput 0 (SendErr CE_EAGAIN), OpSend [4] 0 (Sent 5)] conn_example = Inr w'
    \<and> sent_bytes (cw_sys w') @ db_data (ce_sendbuffer (cw_conn w')) = [1, 2, 3, 4]"
  using send_stream_exact [of heap_1M 100000 conn_example
      "[OpSend [1, 2, 3] 0 (Sent 2), OpOutput 0 (SendErr CE_EAGAIN), OpSend [4] 0 (Sent 5)]" 7] heap_1M_small
    conn_example_bufs by (auto simp: conn_example_def)

text \<open>C6. The whole receive path of a connection with either packet format and any \<open>OnPackage\<close>, under the
  one-shot events of libevent: with memory for the bytes, a sequence of readable events
  keeps exactly the bytes that \<open>Extract\<close> has not used yet, hands every byte to \<open>Extract\<close> in
  order, re-arms the event after each chunk and, when \<open>Extract\<close> returns -1, closes the descriptor
  once and calls nothing more. It computes what the list function \<open>receive_all\<close> does, faults included.\<close>

theorem input_refines_receive_all:
  fixes onp :: "u64 \<Rightarrow> u64 \<Rightarrow> 'addr \<Rightarrow> 's \<Rightarrow> byte list \<Rightarrow> (int \<times> 's) result"
  assumes "conn_ready h w" and "heap_ok new" and "\<forall>n. unat n \<le> B \<longrightarrow> new n \<noteq> None" and "B < 2 ^ 31"
    and "\<forall>c\<in>set cs. length c \<le> 16384"
    and "length (db_data (ce_recvbuffer (cw_conn w))) + length (concat cs) + 16384 \<le> B"
    and "extr \<in> {TextStreamProcpack_Extract, BinaryStreamProcpack_Extract}"
  shows "case receive_all (extr (onp (ce_globalid (cw_conn w)) (ce_processorid (cw_conn w)) (ce_peerAddr (cw_conn w))))
        (db_data (ce_recvbuffer (cw_conn w))) cs s of
      Inl e \<Rightarrow> input_run new (\<lambda>g p a. extr (onp g p a)) h (map RecvData cs) w s = Inl e
    | Inr (r, s') \<Rightarrow> \<exists>w'. input_run new (\<lambda>g p a. extr (onp g p a)) h (map RecvData cs) w s = Inr (w', s')
        \<and> conn_view h w' = r
        \<and> cw_sys w' = (if r = None then SysClose (ce_handle (cw_conn w)) # cw_sys w else cw_sys w)"
  using text_input.input_run_refines [OF assms(2-4,1,5,6) refl refl refl refl refl, of onp s]
    binary_input.input_run_refines [OF assms(2-4,1,5,6) refl refl refl refl refl, of onp s] assms(7)
  by (auto simp only: insert_iff empty_iff)

lemma conn_example_ready: "conn_ready 7 conn_example"
  using conn_example_bufs by (simp add: conn_ready_def conn_example_def EventData_new_def EV_READ_def EV_PERSIST_def)

theorem input_refines_receive_all_witness:
  "\<exists>w'. input_run heap_1M (\<lambda>g p a. TextStreamProcpack_Extract record_packet) 7
        (map RecvData [text_frame 4 [65] @ [48]]) conn_example [] = Inr (w', [text_frame 4 [65]])
    \<and> conn_view 7 w' = Some [48] \<and> cw_sys w' = []"
proof -
  have "receive_all (TextStreamProcpack_Extract record_packet) [] [text_frame 4 [65] @ [48]] [] = Inr (Some [48], [text_frame 4 [65]])"
    by code_simp
  moreover have "\<forall>n. unat n \<le> 100000 \<longrightarrow> heap_1M n \<noteq> None" using heap_1M_small by blast
  ultimately show ?thesis
    using input_refines_receive_all [OF conn_example_ready heap_1M_ok, of 100000 "[text_frame 4 [65] @ [48]]"
        TextStreamProcpack_Extract "\<lambda>_ _ _. record_packet" "[]"] conn_example_bufs
    by (simp add: conn_example_def)
qed

text \<open>C38. A connection that waits only to read and whose \<open>recv\<close> is interrupted by a signal is left
  without any pending event: \<open>HandleInput\<close> returns without \<open>RegisterHandler\<close>, and the event was
  one-shot. No later data, and not even the idle timeout, which is part of that event, reaches the
  connection; it is never closed.\<close>

theorem recv_eintr_stalls:
  assumes "conn_ready h w" and "le_data (cw_reactor w) h = Some ed" and "\<not> ev_pending (led_writeev ed)"
    and "heap_ok new" and "\<forall>n. unat n \<le> B \<longrightarrow> new n \<noteq> None" and "B < 2 ^ 63"
    and "unat (db_end (ce_recvbuffer (cw_conn w))) + 16384 \<le> B"
  shows "\<exists>w'. input_run new extr h (RecvErr CE_EINTR # rs) w s = Inr (w', s)
    \<and> \<not> le_wakeable h (cw_reactor w') \<and> cw_sys w' = cw_sys w"
proof -
  have ed: "ev_pending (led_readev ed)" "ev_events (led_readev ed) AND EV_PERSIST = 0" "led_timers ed = []"
    and wf: "db_wf (ce_recvbuffer (cw_conn w))" using assms(1,2) by (simp_all add: conn_ready_def)
  from recv_room [OF wf assms(4-7)] obtain r db where
    rs: "DataBlock_Resize new (ce_recvbuffer (cw_conn w)) (DataBlock_GetSize (ce_recvbuffer (cw_conn w)) + RECV_SIZE) = Inr (r, db)"
    by blast
  define w1 where "w1 = set_recvbuffer db (w\<lparr>cw_reactor :=
      le_set_data h (Some (ed\<lparr>led_readev := event_del (led_readev ed)\<rparr>)) (cw_reactor w)\<rparr>)"
  have d: "le_data (cw_reactor w1) h = Some (ed\<lparr>led_readev := event_del (led_readev ed)\<rparr>)" "cw_sys w1 = cw_sys w"
    by (simp_all add: w1_def le_set_data_def)
  have "input_run new extr h (RecvErr CE_EINTR # rs) w s = input_run new extr h rs w1 s" for rs
    using assms(2) ed rs by (simp add: LibEventReactor_fire_read_def le_fired_def EventCb_def EV_READ_def EV_TIMEOUT_def
        ConnectEventHandler_HandleInput_def CE_EINTR_def w1_def Let_def)
  moreover have "input_run new extr h rs w1 s = Inr (w1, s)"
    using d by (cases rs) (simp_all add: LibEventReactor_fire_read_def event_del_def)
  ultimately show ?thesis using d assms(3) ed(3) by (auto simp: le_wakeable_def event_del_def)
qed

theorem recv_eintr_stalls_witness:
  "\<exists>w'. input_run heap_1M (\<lambda>g p a. TextStreamProcpack_Extract record_packet) 7
        [RecvErr CE_EINTR, RecvData (text_frame 4 [65])] conn_example [] = Inr (w', [])
    \<and> \<not> le_wakeable 7 (cw_reactor w') \<and> cw_sys w' = []"
  using recv_eintr_stalls [OF conn_example_ready, of "EventData_new\<lparr>led_readev := \<lparr>ev_events = EV_READ, ev_efd = 9, ev_pending = True\<rparr>\<rparr>"
      heap_1M 100000 "\<lambda>g p a. TextStreamProcpack_Extract record_packet" "[RecvData (text_frame 4 [65])]" "[]"] heap_1M_small
  by (simp add: conn_example_def EventData_new_def event_zero_def LibEventReactor_new_def DataBlock_new_def
      NewAllocator_Allocate_def DEFAULT_BLOCK_SIZE_def heap_1M_def)

end
