(* ===== verification/Delivery.thy ===== *)
theory Delivery
  imports ConnectEventHandlerProps
begin

text \<open>
  The lemmas behind the composition of the stream classes, the connections and \<open>Extract\<close>:
  a run of \<open>OnPackage\<close> calls, the interface \<open>packet_receiver\<close> of
  a packet format on a connection, with the proof that exactly the packets that have arrived in whole are
  delivered, and the packets that the streams make of the fields of a message.
\<close>

section \<open>Packages fed to OnPackage\<close>

text \<open>A run of \<open>OnPackage\<close> calls that all return 0.\<close>

fun feed :: "('s \<Rightarrow> byte list \<Rightarrow> (int \<times> 's) result) \<Rightarrow> byte list list \<Rightarrow> 's \<Rightarrow> 's option" where
  "feed onp [] s = Some s"
| "feed onp (p # ps) s =
     (case onp s p of Inl e \<Rightarrow> None | Inr (r, s1) \<Rightarrow> if r = 0 then feed onp ps s1 else None)"

lemma feed_Cons_iff:
  "feed onp (p # ps) s = Some s' \<longleftrightarrow> (\<exists>s1. onp s p = Inr (0, s1) \<and> feed onp ps s1 = Some s')"
  by (auto split: sum.splits)

lemma feed_total: "(\<And>p s. p \<in> set ps \<Longrightarrow> \<exists>s'. onp s p = Inr (0, s')) \<Longrightarrow> \<exists>s'. feed onp ps s = Some s'"
proof (induction ps arbitrary: s)
  case (Cons p ps)
  from Cons.prems [of p s] obtain s1 where "onp s p = Inr (0, s1)" by auto
  moreover obtain s' where "feed onp ps s1 = Some s'" using Cons.IH [of s1] Cons.prems by auto
  ultimately show ?case by simp
qed simp

context framing
begin

lemma frame_loop_feed:
  assumes "\<And>p y. p \<in> set ps \<Longrightarrow> nxt (p @ y) = Frame (length p)" and "feed onp ps s = Some s'"
  shows "frame_loop nxt onp (concat ps @ rest) s = frame_loop nxt onp rest s'"
  using assms
proof (induction ps arbitrary: s)
  case Nil
  then show ?case by simp
next
  case (Cons p ps)
  from Cons.prems(2) obtain s1 where s1: "onp s p = Inr (0, s1)" "feed onp ps s1 = Some s'"
    by (auto simp only: feed_Cons_iff)
  have n: "nxt (p @ concat ps @ rest) = Frame (length p)" using Cons.prems(1) by simp
  with frame_pos [OF this] s1(1)
  have "frame_loop nxt onp (p @ concat ps @ rest) s = frame_loop nxt onp (concat ps @ rest) s1"
    by (subst frame_loop.simps) simp
  also have "\<dots> = frame_loop nxt onp rest s'" using Cons.IH s1(2) Cons.prems(1) by simp
  finally show ?case by simp
qed

text \<open>What has arrived of a sequence of packets: some whole ones and a part of the next.\<close>

lemma frame_loop_arrived:
  assumes "\<And>p y. p \<in> set ps \<Longrightarrow> nxt (p @ y) = Frame (length p)" and "nxt rest = More"
    and "feed onp ps s = Some s'"
  shows "frame_loop nxt onp (concat ps @ rest) s = Inr (Some rest, s')"
proof -
  have "frame_loop nxt onp rest s' = Inr (Some rest, s')" by (subst frame_loop.simps) (simp add: assms(2))
  with frame_loop_feed [of ps onp s s' rest] assms(1,3) show ?thesis by simp
qed

lemma receive_feed:
  assumes "\<And>p y. p \<in> set ps \<Longrightarrow> nxt (p @ y) = Frame (length p)" and "nxt rest = More"
    and "feed onp ps s = Some s'" and "concat cs = concat ps @ rest" and "length (concat cs) < 2 ^ 31"
  shows "receive_all (\<lambda>b s. loop onp b 0 s) [] cs s = Inr (Some rest, s')"
  using receive_frame_loop [OF nil_more, of cs onp s] frame_loop_arrived [OF assms(1,2,3)] assms(4,5)
  by simp

end

text \<open>A prefix of a sequence of packets.\<close>

lemma prefix_of_concat:
  assumes "concat ps = b @ x"
  shows "\<exists>k rest. k \<le> length ps \<and> b = concat (take k ps) @ rest
    \<and> (if k < length ps then length rest < length (ps ! k) \<and> rest = take (length rest) (ps ! k) else rest = [])"
  using assms
proof (induction ps arbitrary: b)
  case Nil
  then show ?case by simp
next
  case (Cons p ps)
  show ?case
  proof (cases "length b < length p")
    case True
    with Cons.prems have "b = take (length b) p" by (auto simp: append_eq_append_conv_if)
    with True show ?thesis by (intro exI [of _ 0] exI [of _ b]) auto
  next
    case False
    with Cons.prems have tk: "take (length p) b = p" and cs: "concat ps = drop (length p) b @ x"
      by (auto simp: append_eq_append_conv_if)
    have b: "b = p @ drop (length p) b" "concat ps = drop (length p) b @ x"
      by (rule append_take_drop_id [of "length p" b, unfolded tk, symmetric]) (rule cs)
    from Cons.IH [OF b(2)] obtain k rest where
      "k \<le> length ps" "drop (length p) b = concat (take k ps) @ rest"
      "if k < length ps then length rest < length (ps ! k) \<and> rest = take (length rest) (ps ! k) else rest = []"
      by blast
    with b(1) show ?thesis by (intro exI [of _ "Suc k"] exI [of _ rest]) simp
  qed
qed

lemma text_next_part:
  assumes "text_next p = Frame (length p)" and "n < length p"
  shows "text_next (take n p) = More"
proof (cases "n \<le> 4")
  case False
  then have "text_packlen (take n p) = text_packlen p"
    by (simp add: text_packlen_def PROC_TEXT_PACKLEN_LEN_def min_def)
  with assms False show ?thesis by (auto simp: text_next_def split: if_splits)
qed (simp add: text_next_def)

lemma binary_next_part:
  assumes "binary_next p = Frame (length p)" and "n < length p"
  shows "binary_next (take n p) = More"
proof (cases "n \<le> 2")
  case False
  then have "binary_packlen (take n p) = binary_packlen p"
    by (simp add: binary_packlen_def PROC_BINARY_PACKLEN_LEN_def min_def)
  with assms False show ?thesis by (auto simp: binary_next_def split: if_splits)
next
  case True
  then show ?thesis by (auto simp: binary_next_def)
qed

text \<open>
  A connection with either format: the packages that \<open>OnPackage\<close> has accepted are the whole
  packets that have arrived, and the connection keeps the part of the next one.
\<close>

locale packet_receiver = framing nxt loop + extractor extr
  for nxt :: "byte list \<Rightarrow> frame"
    and loop :: "('s \<Rightarrow> byte list \<Rightarrow> (int \<times> 's) result) \<Rightarrow> byte list \<Rightarrow> nat \<Rightarrow> 's \<Rightarrow> (int \<times> 's) result"
    and extr :: "('s \<Rightarrow> byte list \<Rightarrow> (int \<times> 's) result) \<Rightarrow> byte list \<Rightarrow> 's \<Rightarrow> (int \<times> 's) result" +
  assumes extr_loop: "extr onp b s = loop onp b 0 s"
    and next_part: "nxt p = Frame (length p) \<Longrightarrow> n < length p \<Longrightarrow> nxt (take n p) = More"
begin

lemma delivery:
  fixes onp :: "u64 \<Rightarrow> u64 \<Rightarrow> 'addr \<Rightarrow> 's \<Rightarrow> byte list \<Rightarrow> (int \<times> 's) result" and v :: "'addr conn_world"
  defines "c \<equiv> cw_conn v"
  defines "acc \<equiv> onp (ce_globalid c) (ce_processorid c) (ce_peerAddr c)"
  assumes ready: "conn_ready h v" "db_data (ce_recvbuffer c) = []"
    and alloc: "heap_ok new" "\<forall>n. unat n \<le> B \<longrightarrow> new n \<noteq> None" "B < 2 ^ 31"
    and chunks: "\<forall>c\<in>set cs. length c \<le> 16384" "length (concat cs) + 16384 \<le> B"
    and packets: "\<And>p y. p \<in> set ps \<Longrightarrow> nxt (p @ y) = Frame (length p)" "concat ps = concat cs @ x"
    and accepts: "\<And>k. k \<le> length ps \<Longrightarrow> \<exists>s'. feed acc (take k ps) s = Some s'"
  shows "\<exists>k rest v' s'. k \<le> length ps \<and> concat cs = concat (take k ps) @ rest
    \<and> (if k < length ps then length rest < length (ps ! k) else rest = [])
    \<and> feed acc (take k ps) s = Some s'
    \<and> input_run new (\<lambda>g p a. extr (onp g p a)) h (map RecvData cs) v s = Inr (v', s')
    \<and> conn_view h v' = Some rest \<and> cw_sys v' = cw_sys v"
proof -
  from prefix_of_concat [OF packets(2)] obtain k rest where
    k: "k \<le> length ps" "concat cs = concat (take k ps) @ rest"
      "if k < length ps then length rest < length (ps ! k) \<and> rest = take (length rest) (ps ! k) else rest = []"
    by blast
  have "nxt rest = More"
  proof (cases "k < length ps")
    case True
    then have "nxt (ps ! k) = Frame (length (ps ! k))" using packets(1) [of "ps ! k" "[]"] by simp
    with True k(3) next_part [of "ps ! k" "length rest"] show ?thesis by simp
  qed (use k(3) nil_more in simp)
  moreover obtain s' where s': "feed acc (take k ps) s = Some s'" using accepts [OF k(1)] by blast
  moreover have "nxt (p @ y) = Frame (length p)" if "p \<in> set (take k ps)" for p y
    using packets(1) that by (meson in_set_takeD)
  ultimately have rec: "receive_all (extr acc) [] cs s = Inr (Some rest, s')"
    using receive_feed [of "take k ps" rest acc s s' cs] k(2) chunks(2) alloc(3) by (simp add: extr_loop [abs_def])
  have "length (db_data (ce_recvbuffer (cw_conn v))) + length (concat cs) + 16384 \<le> B"
    using ready(2) chunks(2) by (simp add: c_def)
  note run = input_run_refines [OF alloc ready(1) chunks(1) this refl refl refl refl refl, of onp s,
      folded c_def, folded acc_def]
  have "\<exists>v'. input_run new (\<lambda>g p a. extr (onp g p a)) h (map RecvData cs) v s = Inr (v', s')
      \<and> conn_view h v' = Some rest \<and> cw_sys v' = cw_sys v"
    using run unfolding ready(2) rec by simp
  then obtain v' where v': "input_run new (\<lambda>g p a. extr (onp g p a)) h (map RecvData cs) v s = Inr (v', s')"
    "conn_view h v' = Some rest" "cw_sys v' = cw_sys v" by blast
  have "if k < length ps then length rest < length (ps ! k) else rest = []" using k(3) by (auto split: if_splits)
  with k(1,2) s' v' show ?thesis by blast
qed

end

interpretation text_receiver: packet_receiver text_next TextStreamProcpack_loop TextStreamProcpack_Extract
  by unfold_locales (simp_all add: TextStreamProcpack_Extract_def text_next_part)

interpretation binary_receiver: packet_receiver binary_next BinaryStreamProcpack_loop BinaryStreamProcpack_Extract
  by unfold_locales (simp_all add: BinaryStreamProcpack_Extract_def binary_next_part)

section \<open>Messages\<close>

text \<open>
  What a client of the streams does: it writes the fields of a message, flushes, and takes the
  bytes from \<open>GetData\<close> and \<open>GetSize\<close>; and what a reader of a package does with its
  bytes, which lie at any address.
\<close>

definition text_message :: "byte list \<Rightarrow> u64 \<Rightarrow> u64 \<Rightarrow> field list \<Rightarrow> byte list result" where
  "text_message obj p n fs =
     bindR (write_all TextWriteStream_wr (TextWriteStream_new obj p n TEXT_PACKLEN_LEN) fs) (\<lambda>(ok, w).
     bindR (guardR AssertFail ok) (\<lambda>_.
     bindR (TextWriteStream_Flush w) (\<lambda>w'. Inr (take (unat (TextWriteStream_GetSize w')) (ws_obj w')))))"

definition text_reads :: "byte list \<Rightarrow> field list \<Rightarrow> bool" where
  "text_reads bs fs \<longleftrightarrow> (\<forall>a :: u64. unat a + length bs < 2 ^ 63 \<longrightarrow>
     (let s = TextReadStream_new bs a (of_nat (length bs)) TEXT_PACKLEN_LEN in
      TextReadStream_IsValid s = Inr True
      \<and> (\<exists>r. read_all TextReadStream_rd s fs = Inr (Some fs, r) \<and> TextReadStream_IsEnd r = Inr True)))"

definition bin_message :: "byte list \<Rightarrow> u64 \<Rightarrow> u64 \<Rightarrow> field list \<Rightarrow> byte list result" where
  "bin_message obj p n fs =
     bindR (write_all BinaryWriteStream_wr (BinaryWriteStream_new obj p n BINARY_PACKLEN_LEN LENGTH_INCLUDE_SELF) fs)
       (\<lambda>(ok, w).
     bindR (guardR AssertFail ok) (\<lambda>_.
     bindR (BinaryWriteStream_Flush w) (\<lambda>w'. Inr (take (unat (BinaryWriteStream_GetSize w')) (ws_obj w')))))"

definition bin_reads :: "byte list \<Rightarrow> field list \<Rightarrow> bool" where
  "bin_reads bs fs \<longleftrightarrow> (\<forall>a :: u64. unat a + length bs < 2 ^ 63 \<longrightarrow>
     (let s = BinaryReadStream_new bs a (of_nat (length bs)) BINARY_PACKLEN_LEN LENGTH_INCLUDE_SELF in
      BinaryReadStream_IsValid s = Inr True
      \<and> (\<exists>r. read_all BinaryReadStream_rd s fs = Inr (Some fs, r) \<and> BinaryReadStream_IsEnd r = Inr True)))"

text \<open>A message that fits into the buffer of \<open>n\<close> bytes and into its length field.\<close>

definition text_sendable :: "u64 \<Rightarrow> field list \<Rightarrow> bool" where
  "text_sendable n fs \<longleftrightarrow> fs \<noteq> [] \<and> list_all (text_fits 4) fs
     \<and> 4 + length (concat (map (text_enc 4) fs)) \<le> unat n \<and> length (concat (map (text_enc 4) fs)) < 2 ^ 16"

definition bin_sendable :: "u64 \<Rightarrow> field list \<Rightarrow> bool" where
  "bin_sendable n fs \<longleftrightarrow> fs \<noteq> [] \<and> list_all (bin_fits BINARY_PACKLEN_LEN) fs
     \<and> 2 + length (concat (map (bin_enc BINARY_PACKLEN_LEN) fs)) \<le> unat n
     \<and> 2 + length (concat (map (bin_enc BINARY_PACKLEN_LEN) fs)) < 2 ^ 16"

lemma text_message_frame:
  assumes "text_sendable n fs" and "unat p + length obj < 2 ^ 63" and "unat n \<le> length obj"
  shows "text_message obj p n fs = Inr (text_frame 4 (concat (map (text_enc 4) fs)))"
    and "text_reads (text_frame 4 (concat (map (text_enc 4) fs))) fs"
    and "text_next (text_frame 4 (concat (map (text_enc 4) fs)) @ y)
      = Frame (length (text_frame 4 (concat (map (text_enc 4) fs))))"
    and "length (text_frame 4 (concat (map (text_enc 4) fs))) < 2 ^ 17"
proof -
  let ?es = "concat (map (text_enc 4) fs)"
  have fs: "list_all (text_fits (unat TEXT_PACKLEN_LEN)) fs" and tot: "length ?es < 2 ^ 16"
    and room: "unat TEXT_PACKLEN_LEN + length (concat (map (text_enc (unat TEXT_PACKLEN_LEN)) fs)) \<le> unat n"
    and total: "length (concat (map (text_enc (unat TEXT_PACKLEN_LEN)) fs)) < 16 ^ unat TEXT_PACKLEN_LEN"
    using assms(1) by (simp_all add: text_sendable_def TEXT_PACKLEN_LEN_def)
  have lfl: "0 < TEXT_PACKLEN_LEN" "unat TEXT_PACKLEN_LEN \<le> 15" by (simp_all add: TEXT_PACKLEN_LEN_def)
  note codec = text_codec [OF lfl]
  from text_packet [OF codec lfl assms(2,3) fs room total] obtain w w' ys where
    w: "write_all TextWriteStream_wr (TextWriteStream_new obj p n TEXT_PACKLEN_LEN) fs = Inr (True, w)"
      "TextWriteStream_Flush w = Inr w'" "ws_obj w' = text_frame 4 ?es @ ys"
      "unat (TextWriteStream_GetSize w') = 4 + length ?es"
    by (auto simp: TEXT_PACKLEN_LEN_def)
  have lf: "length (text_frame 4 ?es) = 4 + length ?es" using tot by simp
  with w show "text_message obj p n fs = Inr (text_frame 4 ?es)" by (simp add: text_message_def)
  show "length (text_frame 4 ?es) < 2 ^ 17" using lf tot by simp
  have ne: "?es \<noteq> []"
  proof (cases fs)
    case (Cons f fs')
    then have "text_enc 4 f \<noteq> []" using assms(1)
      by (auto simp: text_sendable_def text_enc_def text_fits_def dest!: arg_cong [of _ "[]" length])
    with Cons show ?thesis by simp
  qed (use assms(1) in \<open>simp add: text_sendable_def\<close>)
  show "text_next (text_frame 4 ?es @ y) = Frame (length (text_frame 4 ?es))" by (rule text_next_packet [OF ne tot])
  show "text_reads (text_frame 4 ?es) fs"
    unfolding text_reads_def Let_def
  proof (intro allI impI conjI)
    fix a :: u64
    assume a: "unat a + length (text_frame 4 ?es) < 2 ^ 63"
    have n: "unat (of_nat (length (text_frame 4 ?es)) :: u64) = length (text_frame 4 ?es)"
      by (rule unat_of_nat_small) (use lf tot in simp)
    have obj: "text_frame 4 ?es = text_frame (unat TEXT_PACKLEN_LEN) (concat (map (text_enc (unat TEXT_PACKLEN_LEN)) fs)) @ []"
      by (simp add: TEXT_PACKLEN_LEN_def)
    have n': "unat (of_nat (length (text_frame 4 ?es)) :: u64)
        = unat TEXT_PACKLEN_LEN + length (concat (map (text_enc (unat TEXT_PACKLEN_LEN)) fs))"
      using n lf by (simp add: TEXT_PACKLEN_LEN_def)
    show "TextReadStream_IsValid (TextReadStream_new (text_frame 4 ?es) a (of_nat (length (text_frame 4 ?es))) TEXT_PACKLEN_LEN)
        = Inr True"
      using TextRead_IsValid [OF lfl n', of "[]" a] total obj by simp
    show "\<exists>r. read_all TextReadStream_rd (TextReadStream_new (text_frame 4 ?es) a
          (of_nat (length (text_frame 4 ?es))) TEXT_PACKLEN_LEN) fs = Inr (Some fs, r) \<and> TextReadStream_IsEnd r = Inr True"
      by (rule text_reread [OF codec lfl fs obj a n' total])
  qed
qed

lemma bin_message_packet:
  assumes "bin_sendable n fs" and "unat p + length obj < 2 ^ 63" and "unat n \<le> length obj"
  defines "pkt \<equiv> bin_packet LENGTH_INCLUDE_SELF BINARY_PACKLEN_LEN (concat (map (bin_enc BINARY_PACKLEN_LEN) fs))"
  shows "bin_message obj p n fs = Inr pkt" and "bin_reads pkt fs"
    and "binary_next (pkt @ y) = Frame (length pkt)" and "length pkt < 2 ^ 17"
proof -
  let ?es = "concat (map (bin_enc BINARY_PACKLEN_LEN) fs)"
  have lfl: "bin_lfl BINARY_PACKLEN_LEN" by (simp add: bin_lfl_def)
  have l2: "unat BINARY_PACKLEN_LEN = 2" "BINARY_PACKLEN_LEN = 2" by (simp_all add: BINARY_PACKLEN_LEN_def)
  have fs: "list_all (bin_fits BINARY_PACKLEN_LEN) fs" and tot: "2 + length ?es < 2 ^ 16"
    and room: "unat BINARY_PACKLEN_LEN + length ?es \<le> unat n" and nf: "fs \<noteq> []"
    using assms(1) by (simp_all add: bin_sendable_def l2)
  have total: "bin_total LENGTH_INCLUDE_SELF BINARY_PACKLEN_LEN (length ?es) < 2 ^ (8 * unat BINARY_PACKLEN_LEN)"
    using tot by (simp add: bin_total_def l2)
  note codec = bin_codec [OF lfl]
  from bin_packet_written [OF codec lfl assms(2,3) fs room] obtain w w' ys where
    w: "write_all BinaryWriteStream_wr (BinaryWriteStream_new obj p n BINARY_PACKLEN_LEN LENGTH_INCLUDE_SELF) fs = Inr (True, w)"
      "BinaryWriteStream_Flush w = Inr w'"
      "ws_obj w' = bin_packet LENGTH_INCLUDE_SELF BINARY_PACKLEN_LEN ?es @ ys"
      "unat (BinaryWriteStream_GetSize w') = unat BINARY_PACKLEN_LEN + length ?es"
    by blast
  have lf: "length pkt = 2 + length ?es" using lfl by (simp add: pkt_def l2(1))
  then have "take (unat (BinaryWriteStream_GetSize w')) (ws_obj w') = pkt"
    using w(3,4) by (simp add: pkt_def [symmetric] l2(1))
  with w(1,2) show "bin_message obj p n fs = Inr pkt" by (simp add: bin_message_def)
  show "length pkt < 2 ^ 17" using lf tot by simp
  have ne: "?es \<noteq> []"
  proof (cases fs)
    case (Cons f fs')
    have "bin_enc BINARY_PACKLEN_LEN f \<noteq> []"
    proof (cases f)
      case (FStr bs)
      then have "length (bin_enc BINARY_PACKLEN_LEN f) \<noteq> 0" using lfl by (simp add: l2(1))
      then show ?thesis by auto
    qed (auto simp: be_bytes_def le_bytes_def)
    with Cons show ?thesis by simp
  qed (use nf in simp)
  show "binary_next (pkt @ y) = Frame (length pkt)"
    using binary_next_packet [OF ne, of y] tot by (simp add: pkt_def BINARY_PACKLEN_LEN_def)
  show "bin_reads pkt fs"
    unfolding bin_reads_def Let_def
  proof (intro allI impI conjI)
    fix a :: u64
    assume a: "unat a + length pkt < 2 ^ 63"
    have "unat (of_nat (length pkt) :: u64) = length pkt" by (rule unat_of_nat_small) (use lf tot in simp)
    then have n: "unat (of_nat (length pkt) :: u64) = unat BINARY_PACKLEN_LEN + length ?es" using lf by (simp add: l2)
    have obj: "pkt = bin_packet LENGTH_INCLUDE_SELF BINARY_PACKLEN_LEN ?es @ []" by (simp add: pkt_def)
    show "BinaryReadStream_IsValid (BinaryReadStream_new pkt a (of_nat (length pkt)) BINARY_PACKLEN_LEN LENGTH_INCLUDE_SELF) = Inr True"
      using BinRead_IsValid [OF lfl n total, of "[]" a] obj by simp
    show "\<exists>r. read_all BinaryReadStream_rd (BinaryReadStream_new pkt a (of_nat (length pkt)) BINARY_PACKLEN_LEN
        LENGTH_INCLUDE_SELF) fs = Inr (Some fs, r) \<and> BinaryReadStream_IsEnd r = Inr True"
      by (rule bin_reread [OF codec lfl fs obj a n])
  qed
qed

section \<open>Packets from one program to another\<close>

text \<open>
  Packets that one connection sends and the other receives. \<open>onp\<close> is the \<open>OnPackage\<close> that the class of the receiver has,
  which gets the ids and the address of the connection and accepts the packets.
\<close>

lemma deliver_packets:
  fixes v :: "'addr conn_world" and w :: "'b conn_world"
    and onp :: "u64 \<Rightarrow> u64 \<Rightarrow> 'addr \<Rightarrow> 's \<Rightarrow> byte list \<Rightarrow> (int \<times> 's) result"
  defines "acc \<equiv> onp (ce_globalid (cw_conn v)) (ce_processorid (cw_conn v)) (ce_peerAddr (cw_conn v))"
  assumes R: "packet_receiver nxt loop extr"
    and packets: "\<And>p. p \<in> set pkts \<Longrightarrow> \<forall>y. nxt (p @ y) = Frame (length p)"
    and alloc: "heap_ok new" "\<forall>n. unat n \<le> B \<longrightarrow> new n \<noteq> None" "B < 2 ^ 31"
    and sender: "db_wf (ce_sendbuffer (cw_conn w))" "db_data (ce_sendbuffer (cw_conn w)) = []" "sent_bytes (cw_sys w) = []"
      "offered_bytes ops = concat pkts" "length (concat pkts) + 16384 \<le> B" "output_run new h ops w = Inr w'"
    and network: "sent_bytes (cw_sys w') = concat cs @ in_flight" "\<forall>c\<in>set cs. length c \<le> 16384"
    and receiver: "conn_ready h' v" "db_data (ce_recvbuffer (cw_conn v)) = []"
    and accepts: "\<forall>p\<in>set pkts. \<forall>s. \<exists>s'. acc s p = Inr (0, s')"
  shows "\<exists>k rest v' s'. k \<le> length pkts \<and> concat cs = concat (take k pkts) @ rest
    \<and> (if k < length pkts then length rest < length (pkts ! k) else rest = [])
    \<and> feed acc (take k pkts) s = Some s'
    \<and> input_run new (\<lambda>g p a. extr (onp g p a)) h' (map RecvData cs) v s = Inr (v', s')
    \<and> conn_view h' v' = Some rest \<and> cw_sys v' = cw_sys v"
proof -
  have B63: "B < 2 ^ 63" using alloc(3) by simp
  have off: "length (db_data (ce_sendbuffer (cw_conn w))) + length (offered_bytes ops) \<le> B" using sender by simp
  from output_run_stream [OF alloc(1,2) B63 sender(1) off, of h] sender(2-4,6)
  have "concat pkts = concat cs @ in_flight @ db_data (ce_sendbuffer (cw_conn w'))" using network(1) by simp
  note all = this
  have small: "length (concat cs) + 16384 \<le> B" using arg_cong [OF all, of length] sender(5) by simp
  have acc: "\<exists>s'. feed acc (take k pkts) s = Some s'" for k
    by (rule feed_total) (use accepts in \<open>meson in_set_takeD\<close>)
  have nx: "nxt (p @ y) = Frame (length p)" if "p \<in> set pkts" for p y using packets [OF that] by blast
  show ?thesis unfolding acc_def
    by (rule packet_receiver.delivery [OF R receiver alloc network(2) small nx all]) (use acc in \<open>simp_all add: acc_def\<close>)
qed

lemma map_Inr_eq: "map Inr xs = map (\<lambda>x. Inr (f x)) ys \<longleftrightarrow> xs = map f ys"
  by (induction xs arbitrary: ys) (auto simp: Cons_eq_map_conv)

end
