(* ===== verification/EndToEnd.thy ===== *)
theory EndToEnd
  imports Delivery
begin

text \<open>
  The composition of the stream classes, the two directions of a connection and \<open>Extract\<close>: what one program writes
  into a \<open>WriteStream\<close> and hands to \<open>Send\<close> is what \<open>OnPackage\<close> gets on the other side, package by package, and a
  \<open>ReadStream\<close> on the bytes it gets returns the fields. The network between the two
  connections is any way of cutting the bytes that \<open>send\<close> has taken, or the part of them
  that has arrived so far, into chunks. \<open>OnPackage\<close> is pure virtual in \<open>TextStreamProcpack\<close> and \<open>BinaryStreamProcpack\<close>;
  here it is that of any derived class, on a state of its own.
\<close>

section \<open>A receiver and a connection for the witnesses\<close>

definition record_delivery :: "u64 \<Rightarrow> u64 \<Rightarrow> 'addr \<Rightarrow> (u64 \<times> u64 \<times> 'addr \<times> byte list) list \<Rightarrow> byte list
    \<Rightarrow> (int \<times> (u64 \<times> u64 \<times> 'addr \<times> byte list) list) result" where
  "record_delivery g p a ds bs = Inr (0, ds @ [(g, p, a, bs)])"

lemma record_accepts: "\<forall>p\<in>set pkts. \<forall>s. \<exists>s'. record_delivery g pid a s p = Inr (0, s')"
  by (simp add: record_delivery_def)

lemma feed_record: "feed (record_delivery g p a) ps ds = Some (ds @ map (\<lambda>bs. (g, p, a, bs)) ps)"
  by (induction ps arbitrary: ds) (simp_all add: record_delivery_def)

lemma e2e_text_run:
  "sent_bytes (cw_sys (projr (output_run heap_1M 7
     [OpSend [48, 48, 48, 53, 48, 48, 48, 49, 65] 0 (Sent 3), OpSend [48, 48, 48, 53, 48, 48, 48, 49, 66] 0 (Sent 12)] conn_example)))
   = [48, 48, 48, 53, 48, 48, 48, 49, 65] @ [48, 48, 48, 53, 48, 48]"
  by code_simp
lemma e2e_text_msgs:
  "map (text_message (replicate 64 0) 4096 64) [[FChr 65], [FChr 66]]
    = map Inr [[48, 48, 48, 53, 48, 48, 48, 49, 65], [48, 48, 48, 53, 48, 48, 48, 49, 66]]"
  by code_simp

lemma e2e_alloc: "\<forall>n. unat n \<le> 900000 \<longrightarrow> heap_1M n \<noteq> None"
  by (simp add: heap_1M_def word_less_nat_alt)

lemma e2e_conn: "db_wf (ce_sendbuffer (cw_conn conn_example))" "db_data (ce_sendbuffer (cw_conn conn_example)) = []"
    "sent_bytes (cw_sys conn_example) = []" "db_data (ce_recvbuffer (cw_conn conn_example)) = []"
  using conn_example_bufs by (simp_all add: conn_example_def)

lemma e2e_one:
  assumes "concat cs = concat (take k [p1, p2]) @ rest" and "k \<le> length [m1, m2]"
    and "if k < length [m1, m2] then length rest < length ([p1, p2] ! k) else rest = []"
    and "length p1 \<le> length (concat cs)" and "length (concat cs) < length p1 + length p2"
  shows "k = 1"
proof -
  have "k = 0 \<or> k = 1 \<or> k = 2" using assms(2) by auto
  moreover note len = arg_cong [OF assms(1), of length]
  have "k \<noteq> 0" using len assms(3,4) by (intro notI) simp
  moreover have "k \<noteq> 2" using len assms(3,5) by (intro notI) simp
  ultimately show ?thesis by blast
qed

lemma e2e_bin_run:
  "sent_bytes (cw_sys (projr (output_run heap_1M 7 [OpSend [0, 3, 65] 0 (Sent 2), OpSend [0, 3, 66] 0 (Sent 2)] conn_example)))
   = [0, 3, 65, 0]"
  by code_simp

lemma e2e_bin_msgs:
  "map (bin_message (replicate 64 0) 4096 64) [[FChr 65], [FChr 66]] = map Inr [[0, 3, 65], [0, 3, 66]]"
  by code_simp

section \<open>Properties\<close>

text \<open>C1. From fields to fields across two programs, text format. One program writes messages with a
  \<open>TextWriteStream\<close>, flushes each and hands it to \<open>Send\<close> of its connection, under any results of
  \<open>send\<close> and \<open>event_add\<close>. Of the bytes that the kernel took, any part arrives at the other
  program, cut into any chunks. Then the \<open>OnPackage\<close> of the class that the receiver has derived from \<open>TextStreamProcpack\<close>, if it
  accepts these packages, has been called exactly once for each message that has arrived in whole, in order, with the ids and
  the address of the connection and bytes in which a \<open>TextReadStream\<close> finds a valid package, reads the fields of the message
  and is at the end; and the connection keeps exactly the bytes of the unfinished message and is not closed.\<close>

theorem text_end_to_end:
  fixes v :: "'addr conn_world" and w :: "'b conn_world"
    and onp :: "u64 \<Rightarrow> u64 \<Rightarrow> 'addr \<Rightarrow> 's \<Rightarrow> byte list \<Rightarrow> (int \<times> 's) result"
  assumes msgs: "\<forall>fs\<in>set msgs. text_sendable n fs" "unat p + length obj < 2 ^ 63" "unat n \<le> length obj"
      "map (text_message obj p n) msgs = map Inr pkts"
    and alloc: "heap_ok new" "\<forall>n. unat n \<le> B \<longrightarrow> new n \<noteq> None" "B < 2 ^ 31"
    and sender: "db_wf (ce_sendbuffer (cw_conn w))" "db_data (ce_sendbuffer (cw_conn w)) = []" "sent_bytes (cw_sys w) = []"
      "offered_bytes ops = concat pkts" "length (concat pkts) + 16384 \<le> B" "output_run new h ops w = Inr w'"
    and network: "sent_bytes (cw_sys w') = concat cs @ in_flight" "\<forall>c\<in>set cs. length c \<le> 16384"
    and receiver: "conn_ready h' v" "db_data (ce_recvbuffer (cw_conn v)) = []"
    and accepts: "\<forall>p\<in>set pkts. \<forall>s. \<exists>s'. onp (ce_globalid (cw_conn v)) (ce_processorid (cw_conn v)) (ce_peerAddr (cw_conn v)) s p
      = Inr (0, s')"
  shows "\<exists>k rest v' s'. k \<le> length msgs
    \<and> concat cs = concat (take k pkts) @ rest \<and> (if k < length msgs then length rest < length (pkts ! k) else rest = [])
    \<and> input_run new (\<lambda>g p a. TextStreamProcpack_Extract (onp g p a)) h' (map RecvData cs) v s = Inr (v', s')
    \<and> feed (onp (ce_globalid (cw_conn v)) (ce_processorid (cw_conn v)) (ce_peerAddr (cw_conn v))) (take k pkts) s = Some s'
    \<and> list_all2 text_reads (take k pkts) (take k msgs)
    \<and> conn_view h' v' = Some rest \<and> cw_sys v' = cw_sys v"
proof -
  let ?pkt = "\<lambda>fs. text_frame 4 (concat (map (text_enc 4) fs))"
  have "map (text_message obj p n) msgs = map (\<lambda>fs. Inr (?pkt fs)) msgs"
    by (rule map_cong [OF refl]) (use msgs(1) in \<open>simp add: text_message_frame(1) [OF _ msgs(2,3)]\<close>)
  then have pkts: "pkts = map ?pkt msgs" unfolding msgs(4) map_Inr_eq .
  have P: "nxt_ok \<in> set pkts \<Longrightarrow> \<forall>y. text_next (nxt_ok @ y) = Frame (length nxt_ok)" for nxt_ok
    using msgs(1) text_message_frame(3) [OF _ msgs(2,3)] by (auto simp: pkts)
  have reads: "list_all2 (\<lambda>bs fs. text_reads bs fs) (take k pkts) (take k msgs)" for k
    unfolding pkts list_all2_conv_all_nth using msgs(1) text_message_frame(2) [OF _ msgs(2,3)] by simp
  have "length pkts = length msgs" using pkts by simp
  note deliver_packets [where onp = onp and s = s, OF text_receiver.packet_receiver_axioms P alloc sender network receiver accepts, unfolded this]
  with reads show ?thesis by blast
qed

theorem text_end_to_end_witness:
  "\<exists>v'. input_run heap_1M (\<lambda>g p a. TextStreamProcpack_Extract (record_delivery g p a)) 7 (map RecvData [[48, 48, 48], [53, 48, 48, 48, 49, 65, 48, 48, 48, 53, 48, 48]]) conn_example []
      = Inr (v', [(1, 2, (), [48, 48, 48, 53, 48, 48, 48, 49, 65])])
    \<and> text_reads [48, 48, 48, 53, 48, 48, 48, 49, 65] [FChr 65] \<and> conn_view 7 v' = Some [48, 48, 48, 53, 48, 48]"
proof -
  let ?ops = "[OpSend [48, 48, 48, 53, 48, 48, 48, 49, 65] 0 (Sent 3), OpSend [48, 48, 48, 53, 48, 48, 48, 49, 66] 0 (Sent 12)]"
  obtain w' where w': "output_run heap_1M 7 ?ops conn_example = Inr w'"
    using output_run_stream [OF heap_1M_ok e2e_alloc, of conn_example ?ops 7] e2e_conn by auto
  have sent: "sent_bytes (cw_sys w') = concat [[48, 48, 48], [53, 48, 48, 48, 49, 65, 48, 48, 48, 53, 48, 48]] @ []"
    using e2e_text_run w' by simp
  have ms: "\<forall>fs\<in>set [[FChr 65], [FChr 66]]. text_sendable 64 fs"
    by (simp add: text_sendable_def text_fits_def text_enc_def text_frame_def text_len_def show_nat_def nat_digits_small)
  have c: "ce_globalid (cw_conn conn_example) = 1" "ce_processorid (cw_conn conn_example) = 2"
    "ce_peerAddr (cw_conn conn_example) = ()" by (simp_all add: conn_example_def)
  have small: "unat (4096 :: u64) + length (replicate 64 (0 :: byte)) < 2 ^ 63"
    "unat (64 :: u64) \<le> length (replicate 64 (0 :: byte))" "(900000 :: nat) < 2 ^ 31" by simp_all
  let ?pkts = "[[48, 48, 48, 53, 48, 48, 48, 49, 65], [48, 48, 48, 53, 48, 48, 48, 49, 66]] :: byte list list"
  have o: "offered_bytes ?ops = concat ?pkts" "length (concat ?pkts) + 16384 \<le> 900000" by simp_all
  have ch: "\<forall>c\<in>set ([[48, 48, 48], [53, 48, 48, 48, 49, 65, 48, 48, 48, 53, 48, 48]] :: byte list list). length c \<le> 16384" by simp
  from text_end_to_end [where onp = record_delivery and s = "[]", OF ms small(1,2) e2e_text_msgs heap_1M_ok e2e_alloc small(3)
      e2e_conn(1-3) o w' sent ch conn_example_ready e2e_conn(4) record_accepts, unfolded c feed_record]
  obtain k rest v' s' where
    r: "k \<le> length [[FChr 65], [FChr 66]]" "concat [[48, 48, 48], [53, 48, 48, 48, 49, 65, 48, 48, 48, 53, 48, 48]] = concat (take k ?pkts) @ rest"
      "if k < length [[FChr 65], [FChr 66]] then length rest < length (?pkts ! k) else rest = []"
      "input_run heap_1M (\<lambda>g p a. TextStreamProcpack_Extract (record_delivery g p a)) 7 (map RecvData [[48, 48, 48], [53, 48, 48, 48, 49, 65, 48, 48, 48, 53, 48, 48]]) conn_example []
        = Inr (v', s')"
      "Some ([] @ map (\<lambda>bs. (1, 2, (), bs)) (take k ?pkts)) = Some s'"
      "list_all2 text_reads (take k ?pkts) (take k [[FChr 65], [FChr 66]])" "conn_view 7 v' = Some rest" by blast
  have "k = 1" by (rule e2e_one [OF r(2,1,3)]) simp_all
  with r(2,5,6) have "rest = [48, 48, 48, 53, 48, 48]" "s' = [(1, 2, (), [48, 48, 48, 53, 48, 48, 48, 49, 65])]" "text_reads [48, 48, 48, 53, 48, 48, 48, 49, 65] [FChr 65]" by simp_all
  with r(4,7) show ?thesis by blast
qed

text \<open>C2. From fields to fields across two programs, binary format. One program writes messages with a
  \<open>BinaryWriteStream\<close>, flushes each and hands it to \<open>Send\<close> of its connection, under any results of
  \<open>send\<close> and \<open>event_add\<close>. Of the bytes that the kernel took, any part arrives at the other
  program, cut into any chunks. Then the \<open>OnPackage\<close> of the class that the receiver has derived from \<open>BinaryStreamProcpack\<close>, if it
  accepts these packages, has been called exactly once for each message that has arrived in whole, in order, with the ids and
  the address of the connection and bytes in which a \<open>BinaryReadStream\<close> finds a valid package, reads the fields of the message
  and is at the end; and the connection keeps exactly the bytes of the unfinished message and is not closed.\<close>

theorem binary_end_to_end:
  fixes v :: "'addr conn_world" and w :: "'b conn_world"
    and onp :: "u64 \<Rightarrow> u64 \<Rightarrow> 'addr \<Rightarrow> 's \<Rightarrow> byte list \<Rightarrow> (int \<times> 's) result"
  assumes msgs: "\<forall>fs\<in>set msgs. bin_sendable n fs" "unat p + length obj < 2 ^ 63" "unat n \<le> length obj"
      "map (bin_message obj p n) msgs = map Inr pkts"
    and alloc: "heap_ok new" "\<forall>n. unat n \<le> B \<longrightarrow> new n \<noteq> None" "B < 2 ^ 31"
    and sender: "db_wf (ce_sendbuffer (cw_conn w))" "db_data (ce_sendbuffer (cw_conn w)) = []" "sent_bytes (cw_sys w) = []"
      "offered_bytes ops = concat pkts" "length (concat pkts) + 16384 \<le> B" "output_run new h ops w = Inr w'"
    and network: "sent_bytes (cw_sys w') = concat cs @ in_flight" "\<forall>c\<in>set cs. length c \<le> 16384"
    and receiver: "conn_ready h' v" "db_data (ce_recvbuffer (cw_conn v)) = []"
    and accepts: "\<forall>p\<in>set pkts. \<forall>s. \<exists>s'. onp (ce_globalid (cw_conn v)) (ce_processorid (cw_conn v)) (ce_peerAddr (cw_conn v)) s p
      = Inr (0, s')"
  shows "\<exists>k rest v' s'. k \<le> length msgs
    \<and> concat cs = concat (take k pkts) @ rest \<and> (if k < length msgs then length rest < length (pkts ! k) else rest = [])
    \<and> input_run new (\<lambda>g p a. BinaryStreamProcpack_Extract (onp g p a)) h' (map RecvData cs) v s = Inr (v', s')
    \<and> feed (onp (ce_globalid (cw_conn v)) (ce_processorid (cw_conn v)) (ce_peerAddr (cw_conn v))) (take k pkts) s = Some s'
    \<and> list_all2 bin_reads (take k pkts) (take k msgs)
    \<and> conn_view h' v' = Some rest \<and> cw_sys v' = cw_sys v"
proof -
  let ?pkt = "\<lambda>fs. bin_packet LENGTH_INCLUDE_SELF BINARY_PACKLEN_LEN (concat (map (bin_enc BINARY_PACKLEN_LEN) fs))"
  have "map (bin_message obj p n) msgs = map (\<lambda>fs. Inr (?pkt fs)) msgs"
    by (rule map_cong [OF refl]) (use msgs(1) in \<open>simp add: bin_message_packet(1) [OF _ msgs(2,3)]\<close>)
  then have pkts: "pkts = map ?pkt msgs" unfolding msgs(4) map_Inr_eq .
  have P: "nxt_ok \<in> set pkts \<Longrightarrow> \<forall>y. binary_next (nxt_ok @ y) = Frame (length nxt_ok)" for nxt_ok
    using msgs(1) bin_message_packet(3) [OF _ msgs(2,3)] by (auto simp: pkts)
  have reads: "list_all2 (\<lambda>bs fs. bin_reads bs fs) (take k pkts) (take k msgs)" for k
    unfolding pkts list_all2_conv_all_nth using msgs(1) bin_message_packet(2) [OF _ msgs(2,3)] by simp
  have "length pkts = length msgs" using pkts by simp
  note deliver_packets [where onp = onp and s = s, OF binary_receiver.packet_receiver_axioms P alloc sender network receiver accepts, unfolded this]
  with reads show ?thesis by blast
qed

theorem binary_end_to_end_witness:
  "\<exists>v'. input_run heap_1M (\<lambda>g p a. BinaryStreamProcpack_Extract (record_delivery g p a)) 7 (map RecvData [[0, 3], [65, 0]]) conn_example []
      = Inr (v', [(1, 2, (), [0, 3, 65])])
    \<and> bin_reads [0, 3, 65] [FChr 65] \<and> conn_view 7 v' = Some [0]"
proof -
  let ?ops = "[OpSend [0, 3, 65] 0 (Sent 2), OpSend [0, 3, 66] 0 (Sent 2)]"
  obtain w' where w': "output_run heap_1M 7 ?ops conn_example = Inr w'"
    using output_run_stream [OF heap_1M_ok e2e_alloc, of conn_example ?ops 7] e2e_conn by auto
  have sent: "sent_bytes (cw_sys w') = concat [[0, 3], [65, 0]] @ []"
    using e2e_bin_run w' by simp
  have ms: "\<forall>fs\<in>set [[FChr 65], [FChr 66]]. bin_sendable 64 fs"
    by (simp add: bin_sendable_def text_fits_def text_enc_def text_frame_def text_len_def show_nat_def nat_digits_small)
  have c: "ce_globalid (cw_conn conn_example) = 1" "ce_processorid (cw_conn conn_example) = 2"
    "ce_peerAddr (cw_conn conn_example) = ()" by (simp_all add: conn_example_def)
  have small: "unat (4096 :: u64) + length (replicate 64 (0 :: byte)) < 2 ^ 63"
    "unat (64 :: u64) \<le> length (replicate 64 (0 :: byte))" "(900000 :: nat) < 2 ^ 31" by simp_all
  let ?pkts = "[[0, 3, 65], [0, 3, 66]] :: byte list list"
  have o: "offered_bytes ?ops = concat ?pkts" "length (concat ?pkts) + 16384 \<le> 900000" by simp_all
  have ch: "\<forall>c\<in>set ([[0, 3], [65, 0]] :: byte list list). length c \<le> 16384" by simp
  from binary_end_to_end [where onp = record_delivery and s = "[]", OF ms small(1,2) e2e_bin_msgs heap_1M_ok e2e_alloc small(3)
      e2e_conn(1-3) o w' sent ch conn_example_ready e2e_conn(4) record_accepts, unfolded c feed_record]
  obtain k rest v' s' where
    r: "k \<le> length [[FChr 65], [FChr 66]]" "concat [[0, 3], [65, 0]] = concat (take k ?pkts) @ rest"
      "if k < length [[FChr 65], [FChr 66]] then length rest < length (?pkts ! k) else rest = []"
      "input_run heap_1M (\<lambda>g p a. BinaryStreamProcpack_Extract (record_delivery g p a)) 7 (map RecvData [[0, 3], [65, 0]]) conn_example []
        = Inr (v', s')"
      "Some ([] @ map (\<lambda>bs. (1, 2, (), bs)) (take k ?pkts)) = Some s'"
      "list_all2 bin_reads (take k ?pkts) (take k [[FChr 65], [FChr 66]])" "conn_view 7 v' = Some rest" by blast
  have "k = 1" by (rule e2e_one [OF r(2,1,3)]) simp_all
  with r(2,5,6) have "rest = [0]" "s' = [(1, 2, (), [0, 3, 65])]" "bin_reads [0, 3, 65] [FChr 65]" by simp_all
  with r(4,7) show ?thesis by blast
qed

end
