(* ===== verification/MutexCond.thy ===== *)
theory MutexCond
  imports Mutex
begin

text \<open>
  \<open>utils/mutexcond.cpp\<close>: condition variables. A monitor is a mutex with the threads that are blocked on its
  condition variable. POSIX is outside the repository; the part of its documentation that the code uses is here:
  \<open>pthread_cond_wait\<close> gives the mutex up and blocks in one step and returns with the mutex held,
  \<open>pthread_cond_signal\<close> unblocks one of the blocked threads (\<open>k\<close> says which) and
  \<open>pthread_cond_broadcast\<close> all of them; without a blocked thread both have no effect.
\<close>

record monitor =
  mo_mutex :: mutex_state
  mo_waiting :: "tid list"

definition monitor_new :: monitor where
  "monitor_new = \<lparr>mo_mutex = None, mo_waiting = []\<rparr>"

definition mo_lock :: "tid \<Rightarrow> monitor \<Rightarrow> monitor option" where
  "mo_lock t m = (case pthread_mutex_lock t (mo_mutex m) of
     None \<Rightarrow> None | Some (r, x) \<Rightarrow> Some (m\<lparr>mo_mutex := x\<rparr>))"

definition mo_unlock :: "tid \<Rightarrow> monitor \<Rightarrow> monitor" where
  "mo_unlock t m = m\<lparr>mo_mutex := snd (pthread_mutex_unlock t (mo_mutex m))\<rparr>"

definition cond_block :: "tid \<Rightarrow> monitor \<Rightarrow> monitor" where
  "cond_block t m = (mo_unlock t m)\<lparr>mo_waiting := mo_waiting m @ [t]\<rparr>"

definition cond_unblock :: "tid \<Rightarrow> monitor \<Rightarrow> monitor" where
  "cond_unblock t m = m\<lparr>mo_waiting := removeAll t (mo_waiting m)\<rparr>"

definition pthread_cond_signal :: "nat \<Rightarrow> monitor \<Rightarrow> int \<times> monitor" where
  "pthread_cond_signal k m = (0, if mo_waiting m = [] then m
     else cond_unblock (mo_waiting m ! (k mod length (mo_waiting m))) m)"

definition pthread_cond_broadcast :: "monitor \<Rightarrow> int \<times> monitor" where
  "pthread_cond_broadcast m = (0, m\<lparr>mo_waiting := []\<rparr>)"

definition ETIMEDOUT :: int where "ETIMEDOUT = 110"

text \<open>
  The rest of a wait of thread \<open>t\<close> after it has blocked, over the monitors \<open>env\<close> in which it is scheduled
  (as the other threads have left them) and whether its time is over: it returns once it is unblocked or out of
  time and the mutex is free. \<open>None\<close> is a wait that has not returned.
\<close>

fun cond_wait :: "tid \<Rightarrow> bool \<Rightarrow> (monitor \<times> bool) list \<Rightarrow> (int \<times> monitor) option" where
  "cond_wait t timed [] = None"
| "cond_wait t timed ((m, over) # env) =
     (if t \<in> set (mo_waiting m) \<and> \<not> (timed \<and> over) then cond_wait t timed env
      else case mo_lock t (cond_unblock t m) of
             None \<Rightarrow> cond_wait t timed env
           | Some m' \<Rightarrow> Some (if t \<in> set (mo_waiting m) then ETIMEDOUT else 0, m'))"

section \<open>The classes\<close>

text \<open>\<open>Wait\<close> from the state \<open>m\<close>: the monitor while it waits, and its result.\<close>

definition ThreadMutexCond_Wait :: "(int \<times> int) option \<Rightarrow> tid \<Rightarrow> (monitor \<times> bool) list \<Rightarrow> monitor
    \<Rightarrow> monitor \<times> (int \<times> monitor) option" where
  "ThreadMutexCond_Wait pTimeout t env m =
     (cond_block t m,
      case cond_wait t (pTimeout \<noteq> None) env of
        None \<Rightarrow> None
      | Some (r, m') \<Rightarrow> Some (if pTimeout = None then if r \<noteq> 0 then - 1 else 0 else if r \<noteq> 0 then - 1 else 0, m'))"

definition ThreadMutexCond_Signal :: "nat \<Rightarrow> monitor \<Rightarrow> int \<times> monitor" where
  "ThreadMutexCond_Signal k m = pthread_cond_signal k m"

definition ThreadMutexCond_Broadcast :: "monitor \<Rightarrow> int \<times> monitor" where
  "ThreadMutexCond_Broadcast m = pthread_cond_broadcast m"

definition NullMutexCond_Wait :: "(int \<times> int) option \<Rightarrow> int" where
  "NullMutexCond_Wait pTimeout = 0"

definition NullMutexCond_Signal :: int where "NullMutexCond_Signal = 0"

definition NullMutexCond_Broadcast :: int where "NullMutexCond_Broadcast = 0"

section \<open>Lemmas\<close>

lemma mo_lock_iff:
  "mo_lock t m = Some m' \<longleftrightarrow> mo_mutex m = None \<and> m' = m\<lparr>mo_mutex := Some t\<rparr>"
  by (auto simp: mo_lock_def pthread_mutex_lock_def split: option.splits)

lemma mo_lock_None: "mo_lock t m = None \<longleftrightarrow> mo_mutex m \<noteq> None"
  by (auto simp: mo_lock_def pthread_mutex_lock_def split: option.splits)

lemma mo_unlock_held: "mo_mutex m = Some t \<Longrightarrow> mo_unlock t m = m\<lparr>mo_mutex := None\<rparr>"
  by (simp add: mo_unlock_def pthread_mutex_unlock_def)

lemma cond_unblock_mutex [simp]: "mo_mutex (cond_unblock t m) = mo_mutex m"
  by (simp add: cond_unblock_def)

text \<open>\<open>Wait\<close> gives the mutex up while it waits and holds it when it returns; it fails only for its time.\<close>

lemma cond_wait_returns:
  "cond_wait t timed env = Some (r, m') \<Longrightarrow> mo_mutex m' = Some t \<and> t \<notin> set (mo_waiting m')
     \<and> (r = 0 \<or> r = ETIMEDOUT \<and> timed)"
  by (induction t timed env rule: cond_wait.induct)
    (auto simp: mo_lock_iff cond_unblock_def split: if_splits option.splits)

lemma ThreadMutexCond_Wait_spec:
  assumes "mo_mutex m = Some t" and "ThreadMutexCond_Wait pTimeout t env m = (m1, res)"
  shows "mo_mutex m1 = None \<and> t \<in> set (mo_waiting m1)"
    and "res = Some (r, m') \<Longrightarrow> mo_mutex m' = Some t \<and> (r = 0 \<or> r = - 1 \<and> pTimeout \<noteq> None)"
  using assms cond_wait_returns [of t "pTimeout \<noteq> None" env]
  by (auto simp: ThreadMutexCond_Wait_def cond_block_def mo_unlock_held split: option.splits if_splits)

text \<open>A signal unblocks one thread if there is one, a broadcast all; neither touches the mutex.\<close>

lemma Signal_spec:
  assumes "distinct (mo_waiting m)" and "ThreadMutexCond_Signal k m = (r, m')"
  shows "r = 0 \<and> mo_mutex m' = mo_mutex m \<and> length (mo_waiting m') = length (mo_waiting m) - 1
     \<and> set (mo_waiting m') \<subseteq> set (mo_waiting m)"
  using assms
  by (auto simp: ThreadMutexCond_Signal_def pthread_cond_signal_def cond_unblock_def distinct_remove1_removeAll [symmetric]
      length_remove1 split: if_splits)

lemma Broadcast_spec:
  "ThreadMutexCond_Broadcast m = (r, m') \<Longrightarrow> r = 0 \<and> mo_mutex m' = mo_mutex m \<and> mo_waiting m' = []"
  by (auto simp: ThreadMutexCond_Broadcast_def pthread_cond_broadcast_def)

text \<open>A thread that is unblocked returns the next time it is scheduled with the mutex free.\<close>

lemma cond_wait_progress:
  "t \<notin> set (mo_waiting m) \<Longrightarrow> mo_mutex m = None
     \<Longrightarrow> \<exists>m'. cond_wait t timed ((m, over) # env) = Some (0, m')"
  by (auto simp: mo_lock_iff mo_lock_None split: option.splits)

end
