(* ===== verification/QueueThreads.thy ===== *)
theory QueueThreads
  imports MutexCond QueueProps
begin

text \<open>
  The queues of \<open>utils/queue.h\<close> under any interleaving of threads: one step is one access to the queue or one call of
  pthread, so that another thread may run between any two statements of \<open>PushImp\<close> and \<open>PopImp\<close>. Theory Queue has
  every call as one step; here this is proved to be right, for both queues.
\<close>

section \<open>The threads\<close>

text \<open>
  Where a thread is: at the lock, at the test of the limit, at the eviction (\<open>back\<close> and \<open>pop_back\<close>, then
  \<open>count_--\<close>), at the insertion, at \<open>count_++\<close>, at the signal, at the unlock and at the notification of \<open>Push\<close>; at the
  lock of \<open>Pop\<close>, at the test for an entry, at its removal, at \<open>count_--\<close>, at the unlock, and in
  \<open>pthread_cond_timedwait\<close>. \<open>Faulted\<close> is a thread that has used \<open>back\<close> of an empty list.
\<close>

datatype 'a pc =
    Idle
  | PushLock 'a bool bool
  | PushCheck 'a bool bool
  | EvictBack 'a
  | EvictCount 'a 'a
  | PushInsert 'a bool bool "'a option"
  | PushCount 'a bool bool "'a option"
  | PushSignal 'a bool bool "'a option"
  | PushUnlock 'a bool bool int "'a option"
  | PushNotify int
  | PopLock bool
  | PopTest bool
  | PopFront
  | PopCount 'a
  | PopUnlock int "'a option"
  | PopWait
  | Faulted

text \<open>
  The queue with its mutex and condition variable, the threads, the number of notifications, and the calls
  in the order in which they have given the mutex back, with their results.
\<close>

record 'a qthreads =
  qt_mon :: monitor
  qt_q :: "'a SyncQueue"
  qt_pc :: "tid \<Rightarrow> 'a pc"
  qt_notified :: nat
  qt_log :: "('a queue_op \<times> int \<times> 'a option) list"

definition qt_new :: "'a SyncQueue \<Rightarrow> 'a qthreads" where
  "qt_new q = \<lparr>qt_mon = monitor_new, qt_q = q, qt_pc = (\<lambda>t. Idle), qt_notified = 0, qt_log = []\<rparr>"

definition goto :: "tid \<Rightarrow> 'a pc \<Rightarrow> 'a qthreads \<Rightarrow> 'a qthreads" where
  "goto t p s = s\<lparr>qt_pc := (qt_pc s)(t := p)\<rparr>"

definition qt_full :: "'a SyncQueue \<Rightarrow> bool" where
  "qt_full q \<longleftrightarrow> sq_count q \<ge> sq_limit q"

text \<open>
  The next step of thread \<open>t\<close>; \<open>None\<close> while it has to wait. \<open>stack\<close> is the class, \<open>k\<close> the choice of
  \<open>pthread_cond_signal\<close>.
\<close>

definition PushImp_step :: "bool \<Rightarrow> nat \<Rightarrow> tid \<Rightarrow> 'a qthreads \<Rightarrow> 'a qthreads option" where
  "PushImp_step stack k t s =
     (let q = qt_q s in case qt_pc s t of
        PushLock x w l \<Rightarrow>
          map_option (\<lambda>m. goto t (PushCheck x w l) (s\<lparr>qt_mon := m\<rparr>)) (mo_lock t (qt_mon s))
      | PushCheck x w l \<Rightarrow>
          Some (goto t (if l \<and> qt_full q
                        then if stack \<and> w then EvictBack x else PushUnlock x w l (- 1) None
                        else PushInsert x w l None) s)
      | EvictBack x \<Rightarrow>
          Some (if sq_queue q = [] then goto t Faulted s
                else goto t (EvictCount x (last (sq_queue q))) (s\<lparr>qt_q := q\<lparr>sq_queue := butlast (sq_queue q)\<rparr>\<rparr>))
      | EvictCount x y \<Rightarrow>
          Some (goto t (PushInsert x True True (Some y)) (s\<lparr>qt_q := q\<lparr>sq_count := sq_count q - 1\<rparr>\<rparr>))
      | PushInsert x w l rem \<Rightarrow>
          Some (goto t (PushCount x w l rem)
            (s\<lparr>qt_q := q\<lparr>sq_queue := if stack then x # sq_queue q else sq_queue q @ [x]\<rparr>\<rparr>))
      | PushCount x w l rem \<Rightarrow>
          Some (goto t (PushSignal x w l rem) (s\<lparr>qt_q := q\<lparr>sq_count := sq_count q + 1\<rparr>\<rparr>))
      | PushSignal x w l rem \<Rightarrow>
          Some (goto t (PushUnlock x w l 0 rem) (s\<lparr>qt_mon := snd (pthread_cond_signal k (qt_mon s))\<rparr>))
      | PushUnlock x w l r rem \<Rightarrow>
          Some (goto t (PushNotify r)
            (s\<lparr>qt_mon := mo_unlock t (qt_mon s), qt_log := qt_log s @ [(OpPush x w l, r, rem)]\<rparr>))
      | PushNotify r \<Rightarrow>
          Some (goto t Idle (if r = 0 \<and> sq_notify q then s\<lparr>qt_notified := qt_notified s + 1\<rparr> else s))
      | _ \<Rightarrow> None)"

definition PopImp_step :: "tid \<Rightarrow> 'a qthreads \<Rightarrow> 'a qthreads option" where
  "PopImp_step t s =
     (let q = qt_q s in case qt_pc s t of
        PopLock b \<Rightarrow> map_option (\<lambda>m. goto t (PopTest b) (s\<lparr>qt_mon := m\<rparr>)) (mo_lock t (qt_mon s))
      | PopTest b \<Rightarrow>
          Some (if sq_queue q \<noteq> [] then goto t PopFront s
                else if \<not> b then goto t (PopUnlock (- 1) None) s
                else goto t PopWait (s\<lparr>qt_mon := cond_block t (qt_mon s)\<rparr>))
      | PopFront \<Rightarrow>
          Some (goto t (PopCount (hd (sq_queue q))) (s\<lparr>qt_q := q\<lparr>sq_queue := tl (sq_queue q)\<rparr>\<rparr>))
      | PopCount v \<Rightarrow>
          Some (goto t (PopUnlock 0 (Some v)) (s\<lparr>qt_q := q\<lparr>sq_count := sq_count q - 1\<rparr>\<rparr>))
      | PopUnlock r v \<Rightarrow>
          Some (goto t Idle (s\<lparr>qt_mon := mo_unlock t (qt_mon s), qt_log := qt_log s @ [(OpPop, r, v)]\<rparr>))
      | PopWait \<Rightarrow>
          if t \<in> set (mo_waiting (qt_mon s)) then None
          else map_option (\<lambda>m. goto t (PopTest True) (s\<lparr>qt_mon := m\<rparr>)) (mo_lock t (qt_mon s))
      | _ \<Rightarrow> None)"

text \<open>The steps of the program: calls by threads, the steps of the calls, and waits that run out of time.\<close>

inductive qt_step :: "bool \<Rightarrow> 'a qthreads \<Rightarrow> 'a qthreads \<Rightarrow> bool" for stack where
  call_push: "qt_pc s t = Idle \<Longrightarrow> qt_step stack s (goto t (PushLock x w l) s)"
| call_pop: "qt_pc s t = Idle \<Longrightarrow> qt_step stack s (goto t (PopLock b) s)"
| push: "PushImp_step stack k t s = Some s' \<Longrightarrow> qt_step stack s s'"
| pop: "PopImp_step t s = Some s' \<Longrightarrow> qt_step stack s s'"
| timeout: "qt_pc s t = PopWait \<Longrightarrow> qt_step stack s (s\<lparr>qt_mon := cond_unblock t (qt_mon s)\<rparr>)"

inductive qt_reachable :: "bool \<Rightarrow> 'a SyncQueue \<Rightarrow> 'a qthreads \<Rightarrow> bool" for stack q0 where
  init: "qt_reachable stack q0 (qt_new q0)"
| step: "qt_reachable stack q0 s \<Longrightarrow> qt_step stack s s' \<Longrightarrow> qt_reachable stack q0 s'"

text \<open>
  A run of the program along a schedule: \<open>Start t op b\<close> is the call of \<open>op\<close> by thread \<open>t\<close> (\<open>b\<close> is the \<open>block\<close> of \<open>Pop\<close>),
  \<open>Step t k\<close> its next step, \<open>Wakes t\<close> the end of its wait without a signal.
\<close>

datatype 'a event = Start tid "'a queue_op" bool | Step tid nat | Wakes tid

fun qt_event :: "bool \<Rightarrow> 'a event \<Rightarrow> 'a qthreads \<Rightarrow> 'a qthreads option" where
  "qt_event stack (Start t op b) s =
     (case qt_pc s t of
        Idle \<Rightarrow> Some (case op of OpPush x w l \<Rightarrow> goto t (PushLock x w l) s | OpPop \<Rightarrow> goto t (PopLock b) s)
      | _ \<Rightarrow> None)"
| "qt_event stack (Step t k) s =
     (case PushImp_step stack k t s of Some s' \<Rightarrow> Some s' | None \<Rightarrow> PopImp_step t s)"
| "qt_event stack (Wakes t) s =
     (case qt_pc s t of PopWait \<Rightarrow> Some (s\<lparr>qt_mon := cond_unblock t (qt_mon s)\<rparr>) | _ \<Rightarrow> None)"

fun qt_run :: "bool \<Rightarrow> 'a event list \<Rightarrow> 'a qthreads \<Rightarrow> 'a qthreads option" where
  "qt_run stack [] s = Some s"
| "qt_run stack (e # es) s = (case qt_event stack e s of None \<Rightarrow> None | Some s' \<Rightarrow> qt_run stack es s')"

lemma qt_event_step: "qt_event stack e s = Some s' \<Longrightarrow> qt_step stack s s'"
  by (cases e) (auto intro: qt_step.intros split: pc.splits queue_op.splits option.splits)

lemma qt_run_reachable:
  "qt_reachable stack q0 s \<Longrightarrow> qt_run stack es s = Some s' \<Longrightarrow> qt_reachable stack q0 s'"
  by (induction es arbitrary: s) (auto dest: qt_reachable.step [OF _ qt_event_step] split: option.splits)

text \<open>\<open>GetSize\<close> reads \<open>count_\<close> without the mutex.\<close>

definition qt_GetSize :: "'a qthreads \<Rightarrow> u64" where
  "qt_GetSize s = SyncQueue_GetSize (qt_q s)"

section \<open>The calls as single steps\<close>

definition atomic_op :: "bool \<Rightarrow> 'a queue_op \<Rightarrow> 'a SyncQueue \<Rightarrow> (int \<times> 'a option \<times> 'a SyncQueue) result" where
  "atomic_op stack op a = (case op of
       OpPush x w l \<Rightarrow> if stack then SyncStack_PushImp x w l a else SyncQueue_PushImp x w l a
     | OpPop \<Rightarrow> (case SyncQueue_PopImp False a [] of None \<Rightarrow> Inl Diverges | Some r \<Rightarrow> Inr r))"

text \<open>The calls of a log, one after the other, with the results that the log has.\<close>

fun replay :: "bool \<Rightarrow> ('a queue_op \<times> int \<times> 'a option) list \<Rightarrow> 'a SyncQueue \<Rightarrow> 'a SyncQueue option" where
  "replay stack [] a = Some a"
| "replay stack ((op, r, v) # es) a =
     (case atomic_op stack op a of
        Inl e \<Rightarrow> None
      | Inr (r', v', a') \<Rightarrow> if r' = r \<and> v' = v then replay stack es a' else None)"

lemma replay_snoc:
  "replay stack es q0 = Some a \<Longrightarrow> atomic_op stack op a = Inr (r, v, a')
    \<Longrightarrow> replay stack (es @ [(op, r, v)]) q0 = Some a'"
  by (induction stack es q0 rule: replay.induct) (auto split: sum.splits prod.splits if_splits)

section \<open>The invariant\<close>

fun critical :: "'a pc \<Rightarrow> bool" where
  "critical (PushCheck x w l) = True"
| "critical (EvictBack x) = True"
| "critical (EvictCount x y) = True"
| "critical (PushInsert x w l rem) = True"
| "critical (PushCount x w l rem) = True"
| "critical (PushSignal x w l rem) = True"
| "critical (PushUnlock x w l r rem) = True"
| "critical (PopTest b) = True"
| "critical PopFront = True"
| "critical (PopCount v) = True"
| "critical (PopUnlock r v) = True"
| "critical p = False"

text \<open>How far the queue \<open>q\<close> is from \<open>a\<close>, the queue when the mutex was taken.\<close>

fun midway :: "bool \<Rightarrow> 'a SyncQueue \<Rightarrow> 'a SyncQueue \<Rightarrow> 'a pc \<Rightarrow> bool" where
  "midway stack a q (PushCheck x w l) = (q = a)"
| "midway stack a q (EvictBack x) = (q = a \<and> stack \<and> qt_full a \<and> sq_queue a \<noteq> [])"
| "midway stack a q (EvictCount x y) = (stack \<and> qt_full a \<and> sq_queue a \<noteq> [] \<and> y = last (sq_queue a)
     \<and> q = a\<lparr>sq_queue := butlast (sq_queue a)\<rparr>)"
| "midway stack a q (PushInsert x w l rem) = (case rem of
       None \<Rightarrow> q = a \<and> \<not> (l \<and> qt_full a)
     | Some y \<Rightarrow> stack \<and> w \<and> l \<and> qt_full a \<and> sq_queue a \<noteq> [] \<and> y = last (sq_queue a)
         \<and> q = a\<lparr>sq_queue := butlast (sq_queue a), sq_count := sq_count a - 1\<rparr>)"
| "midway stack a q (PushCount x w l rem) =
     (atomic_op stack (OpPush x w l) a = Inr (0, rem, q\<lparr>sq_count := sq_count q + 1\<rparr>))"
| "midway stack a q (PushSignal x w l rem) = (atomic_op stack (OpPush x w l) a = Inr (0, rem, q))"
| "midway stack a q (PushUnlock x w l r rem) = (atomic_op stack (OpPush x w l) a = Inr (r, rem, q))"
| "midway stack a q (PopTest b) = (q = a)"
| "midway stack a q PopFront = (q = a \<and> sq_queue a \<noteq> [])"
| "midway stack a q (PopCount v) = (sq_queue a \<noteq> [] \<and> v = hd (sq_queue a) \<and> q = a\<lparr>sq_queue := tl (sq_queue a)\<rparr>)"
| "midway stack a q (PopUnlock r v) = (atomic_op stack OpPop a = Inr (r, v, q))"
| "midway stack a q p = True"

definition qt_abs :: "bool \<Rightarrow> 'a SyncQueue \<Rightarrow> 'a qthreads \<Rightarrow> 'a SyncQueue \<Rightarrow> bool" where
  "qt_abs stack q0 s a \<longleftrightarrow> replay stack (qt_log s) q0 = Some a \<and> sq_wf a \<and> sq_limit a = sq_limit q0
     \<and> (case mo_mutex (qt_mon s) of None \<Rightarrow> qt_q s = a | Some t \<Rightarrow> midway stack a (qt_q s) (qt_pc s t))"

definition qt_excl :: "'a qthreads \<Rightarrow> bool" where
  "qt_excl s \<longleftrightarrow> (\<forall>t. critical (qt_pc s t) \<longleftrightarrow> mo_mutex (qt_mon s) = Some t) \<and> (\<forall>t. qt_pc s t \<noteq> Faulted)
     \<and> (\<forall>t\<in>set (mo_waiting (qt_mon s)). qt_pc s t = PopWait)"

definition qt_inv :: "bool \<Rightarrow> 'a SyncQueue \<Rightarrow> 'a qthreads \<Rightarrow> bool" where
  "qt_inv stack q0 s \<longleftrightarrow> qt_excl s \<and> (\<exists>a. qt_abs stack q0 s a)"

lemmas atomic_defs = atomic_op_def SyncStack_PushImp_def SyncQueue_PushImp_def

lemma atomic_op_wf:
  assumes "atomic_op stack op a = Inr (r, v, a')" and "sq_wf a"
  shows "sq_wf a' \<and> sq_limit a' = sq_limit a"
  using assms
  by (cases op; cases "sq_queue a") (auto simp: atomic_defs sq_wf_def Let_def qt_full_def split: if_splits option.splits)

lemma full_nonempty: "qt_full a \<Longrightarrow> sq_wf a \<Longrightarrow> 0 < sq_limit a \<Longrightarrow> sq_queue a \<noteq> []"
  by (auto simp: qt_full_def sq_wf_def)

lemma signal_sub:
  "mo_mutex (snd (pthread_cond_signal k m)) = mo_mutex m"
  "u \<in> set (mo_waiting (snd (pthread_cond_signal k m))) \<Longrightarrow> u \<in> set (mo_waiting m)"
  by (auto simp: pthread_cond_signal_def cond_unblock_def Let_def split: if_splits)

text \<open>Mutual exclusion.\<close>

lemma PushImp_excl:
  assumes "qt_excl s" and "PushImp_step stack k t s = Some s'" 
    and "\<And>x. qt_pc s t = EvictBack x \<Longrightarrow> sq_queue (qt_q s) \<noteq> []"
  shows "qt_excl s'"
proof -
  have c: "critical (qt_pc s u) \<longleftrightarrow> mo_mutex (qt_mon s) = Some u" "qt_pc s u \<noteq> Faulted" for u
    using assms(1) by (simp_all add: qt_excl_def)
  have w: "u \<in> set (mo_waiting (qt_mon s)) \<Longrightarrow> qt_pc s u = PopWait" for u
    using assms(1) by (simp add: qt_excl_def)
  show ?thesis
  proof (cases "qt_pc s t")
    case (PushLock x w l)
    with assms(2) c w show ?thesis
      by (auto simp: PushImp_step_def qt_excl_def goto_def mo_lock_iff split: if_splits)
  qed (use assms(2,3) c c(1) [of t] w in
      \<open>auto dest!: signal_sub(2) simp: signal_sub(1) PushImp_step_def qt_excl_def goto_def mo_unlock_held Let_def split: if_splits\<close>)
qed

lemma PopImp_excl:
  assumes "qt_excl s" and "PopImp_step t s = Some s'"
  shows "qt_excl s'"
proof -
  have c: "critical (qt_pc s u) \<longleftrightarrow> mo_mutex (qt_mon s) = Some u" "qt_pc s u \<noteq> Faulted" for u
    using assms(1) by (simp_all add: qt_excl_def)
  have w: "u \<in> set (mo_waiting (qt_mon s)) \<Longrightarrow> qt_pc s u = PopWait" for u
    using assms(1) by (simp add: qt_excl_def)
  show ?thesis
    by (cases "qt_pc s t") (use assms(2) c c(1) [of t] w in
      \<open>auto simp: PopImp_step_def qt_excl_def goto_def mo_lock_iff mo_unlock_held cond_block_def Let_def split: if_splits\<close>)
qed

text \<open>The abstraction.\<close>

lemma PushImp_abs:
  assumes "qt_excl s" and "qt_abs stack q0 s a" and "0 < sq_limit q0" and "PushImp_step stack k t s = Some s'"
  shows "\<exists>a'. qt_abs stack q0 s' a'"
proof -
  have c: "critical (qt_pc s t) \<longleftrightarrow> mo_mutex (qt_mon s) = Some t" using assms(1) by (simp add: qt_excl_def)
  have o: "mo_mutex (qt_mon s) = Some u \<Longrightarrow> u \<noteq> t \<Longrightarrow> midway stack a (qt_q s) (qt_pc s u)" for u
    using assms(2) by (simp add: qt_abs_def)
  have ne: "qt_full a \<Longrightarrow> sq_queue a \<noteq> []" using full_nonempty [of a] assms(2,3) by (simp add: qt_abs_def)
  show ?thesis
  proof (cases "qt_pc s t")
    case (PushUnlock x w l r rem)
    with assms(2) c have "atomic_op stack (OpPush x w l) a = Inr (r, rem, qt_q s)" by (simp add: qt_abs_def)
    from replay_snoc [OF _ this] atomic_op_wf [OF this] have "qt_abs stack q0 s' (qt_q s)"
      using assms(2,4) PushUnlock c by (auto simp: qt_abs_def PushImp_step_def goto_def mo_unlock_held)
    then show ?thesis ..
  qed (use assms(2,4) c ne in \<open>auto simp: qt_abs_def PushImp_step_def goto_def mo_lock_iff signal_sub(1) Let_def
      atomic_defs qt_full_def intro!: exI [of _ a] split: if_splits option.splits\<close>)
qed

lemma PopImp_abs:
  assumes "qt_excl s" and "qt_abs stack q0 s a" and "PopImp_step t s = Some s'"
  shows "\<exists>a'. qt_abs stack q0 s' a'"
proof -
  have c: "critical (qt_pc s t) \<longleftrightarrow> mo_mutex (qt_mon s) = Some t" using assms(1) by (simp add: qt_excl_def)
  show ?thesis
  proof (cases "qt_pc s t")
    case (PopUnlock r v)
    with assms(2) c have "atomic_op stack OpPop a = Inr (r, v, qt_q s)" by (simp add: qt_abs_def)
    from replay_snoc [OF _ this] atomic_op_wf [OF this] have "qt_abs stack q0 s' (qt_q s)"
      using assms(2,3) PopUnlock c by (auto simp: qt_abs_def PopImp_step_def goto_def mo_unlock_held)
    then show ?thesis ..
  qed (use assms(2,3) c in \<open>auto simp: qt_abs_def PopImp_step_def goto_def mo_lock_iff cond_block_def mo_unlock_held Let_def
      atomic_op_def intro!: exI [of _ a] split: if_splits option.splits\<close>)
qed

text \<open>A call.\<close>

lemma qt_call_inv:
  assumes "qt_inv stack q0 s" and "qt_pc s t = Idle" and "\<not> critical p" and "p \<noteq> Faulted"
  shows "qt_inv stack q0 (goto t p s)"
proof -
  have "qt_excl s" using assms(1) by (simp add: qt_inv_def)
  then have "critical (qt_pc s t) \<longleftrightarrow> mo_mutex (qt_mon s) = Some t" by (simp add: qt_excl_def)
  then have "mo_mutex (qt_mon s) \<noteq> Some t" using assms(2) by simp
  then show ?thesis using assms
    by (auto simp: qt_inv_def qt_excl_def qt_abs_def goto_def split: option.splits)
qed

lemma qt_step_inv:
  assumes "qt_step stack s s'" and "qt_inv stack q0 s" and "0 < sq_limit q0"
  shows "qt_inv stack q0 s'"
  using assms(1)
proof cases
  case (push k t)
  from assms(2) obtain a where a: "qt_excl s" "qt_abs stack q0 s a" by (auto simp: qt_inv_def)
  have "sq_queue (qt_q s) \<noteq> []" if "qt_pc s t = EvictBack x" for x
  proof -
    have "critical (qt_pc s t)" using that by simp
    then have "mo_mutex (qt_mon s) = Some t" using a(1) by (simp add: qt_excl_def)
    then show ?thesis using a(2) that by (simp add: qt_abs_def)
  qed
  with PushImp_excl [OF a(1) push] PushImp_abs [OF a assms(3) push] show ?thesis by (auto simp: qt_inv_def)
next
  case (pop t)
  from assms(2) obtain a where a: "qt_excl s" "qt_abs stack q0 s a" by (auto simp: qt_inv_def)
  from PopImp_excl [OF a(1) pop] PopImp_abs [OF a pop] show ?thesis by (auto simp: qt_inv_def)
next
  case (timeout t)
  then show ?thesis using assms(2)
    by (auto simp: qt_inv_def qt_excl_def qt_abs_def cond_unblock_def split: option.splits)
qed (use assms(2) in \<open>auto intro!: qt_call_inv\<close>)

lemma qt_reachable_inv:
  assumes "qt_reachable stack q0 s" and "sq_wf q0" and "0 < sq_limit q0"
  shows "qt_inv stack q0 s"
  using assms(1)
proof induction
  case init
  show ?case using assms(2) by (auto simp: qt_inv_def qt_excl_def qt_abs_def qt_new_def monitor_new_def)
next
  case (step s s')
  from qt_step_inv [OF step(2,3) assms(3)] show ?case .
qed

text \<open>\<open>GetSize\<close> is off by at most one, and exact while no call is in the critical section.\<close>

lemma GetSize_near:
  assumes "qt_reachable stack q0 s" and "sq_wf q0" and "0 < sq_limit q0"
  shows "qt_GetSize s \<in> {of_nat (length (sq_queue (qt_q s))) - 1, of_nat (length (sq_queue (qt_q s))),
      of_nat (length (sq_queue (qt_q s))) + 1}"
proof -
  from qt_reachable_inv [OF assms] obtain a where e: "qt_excl s" and a: "qt_abs stack q0 s a" by (auto simp: qt_inv_def)
  then have wf: "sq_count a = of_nat (length (sq_queue a))" by (simp add: qt_abs_def sq_wf_def)
  show ?thesis
  proof (cases "mo_mutex (qt_mon s)")
    case None
    with a wf show ?thesis by (simp add: qt_abs_def qt_GetSize_def SyncQueue_GetSize_def)
  next
    case (Some t)
    with a have m: "midway stack a (qt_q s) (qt_pc s t)" by (simp add: qt_abs_def)
    have op: "atomic_op stack op a = Inr (r, v, q) \<Longrightarrow> sq_count q = of_nat (length (sq_queue q))" for op r v q
      using atomic_op_wf [of stack op a r v q] a by (simp add: qt_abs_def sq_wf_def)
    have c: "critical (qt_pc s t)" using e Some by (simp add: qt_excl_def)
    show ?thesis
      by (cases "qt_pc s t"; cases "sq_queue a")
        (insert c m wf, auto dest!: op simp: qt_GetSize_def SyncQueue_GetSize_def eq_diff_eq split: option.splits)
  qed
qed

lemma qt_progress:
  assumes e: "qt_excl s" and busy: "qt_pc s u \<noteq> Idle"
  shows "\<exists>t. qt_pc s t \<noteq> Idle \<and> (PushImp_step stack 0 t s \<noteq> None \<or> PopImp_step t s \<noteq> None \<or> qt_pc s t = PopWait)"
proof (cases "mo_mutex (qt_mon s)")
  case (Some t)
  then have "critical (qt_pc s t)" using e by (simp add: qt_excl_def)
  then have "qt_pc s t \<noteq> Idle \<and> (PushImp_step stack 0 t s \<noteq> None \<or> PopImp_step t s \<noteq> None)"
    by (cases "qt_pc s t") (auto simp: PushImp_step_def PopImp_step_def Let_def)
  then show ?thesis by blast
next
  case None
  then have "\<not> critical (qt_pc s u)" "qt_pc s u \<noteq> Faulted" using e by (simp_all add: qt_excl_def)
  with busy None have "PushImp_step stack 0 u s \<noteq> None \<or> PopImp_step u s \<noteq> None \<or> qt_pc s u = PopWait"
    by (cases "qt_pc s u") (auto simp: PushImp_step_def PopImp_step_def mo_lock_def pthread_mutex_lock_def Let_def)
  with busy show ?thesis by blast
qed

lemma qt_wait_returns:
  assumes p: "qt_pc s t = PopWait" "mo_mutex (qt_mon s) = None" "sq_queue (qt_q s) = x # xs"
  shows "\<exists>s'. (qt_step stack)\<^sup>*\<^sup>* s s' \<and> qt_pc s' t = Idle \<and> qt_log s' = qt_log s @ [(OpPop, 0, Some x)]
    \<and> sq_queue (qt_q s') = xs"
proof -
  define s1 where "s1 = s\<lparr>qt_mon := cond_unblock t (qt_mon s)\<rparr>"
  define s2 where "s2 = goto t (PopTest True) (s1\<lparr>qt_mon := (qt_mon s1)\<lparr>mo_mutex := Some t\<rparr>\<rparr>)"
  define s3 where "s3 = goto t PopFront s2"
  define s4 where "s4 = goto t (PopCount x) (s3\<lparr>qt_q := (qt_q s3)\<lparr>sq_queue := xs\<rparr>\<rparr>)"
  define s5 where "s5 = goto t (PopUnlock 0 (Some x)) (s4\<lparr>qt_q := (qt_q s4)\<lparr>sq_count := sq_count (qt_q s4) - 1\<rparr>\<rparr>)"
  define s6 where "s6 = goto t Idle (s5\<lparr>qt_mon := mo_unlock t (qt_mon s5), qt_log := qt_log s5 @ [(OpPop, 0, Some x)]\<rparr>)"
  note d = s1_def s2_def s3_def s4_def s5_def s6_def goto_def cond_unblock_def
  have "qt_step stack s s1" unfolding s1_def by (rule qt_step.timeout [OF p(1)])
  moreover have "qt_step stack s1 s2" "qt_step stack s2 s3" "qt_step stack s3 s4" "qt_step stack s4 s5" "qt_step stack s5 s6"
    by (rule qt_step.pop [of t], use p in \<open>simp add: PopImp_step_def mo_lock_def pthread_mutex_lock_def d\<close>)+
  ultimately have "(qt_step stack)\<^sup>*\<^sup>* s s6"
    by (meson converse_rtranclp_into_rtranclp rtranclp.rtrancl_refl)
  moreover have "qt_pc s6 t = Idle \<and> qt_log s6 = qt_log s @ [(OpPop, 0, Some x)] \<and> sq_queue (qt_q s6) = xs"
    by (simp add: d)
  ultimately show ?thesis by blast
qed

lemmas run_defs = qt_new_def monitor_new_def goto_def PushImp_step_def PopImp_step_def mo_lock_def mo_unlock_def
  pthread_mutex_lock_def pthread_mutex_unlock_def pthread_cond_signal_def cond_block_def cond_unblock_def qt_full_def
  SyncQueue_new_def Let_def

section \<open>Properties\<close>

text \<open>C3. The queues are linearizable: under every interleaving of any number of threads in \<open>Push\<close> (with or without
  \<open>removed\<close> and \<open>limit\<close>) and in blocking or non-blocking \<open>Pop\<close>, with any wake-ups and time-outs, the calls that
  have returned have the results that they have as single steps in the order in which they gave back the mutex, the queue is what these
  single steps make of it whenever the mutex is free, no two threads are in the critical section, and \<open>back\<close> of an empty list is never
  used.\<close>

theorem queue_linearizable:
  assumes "qt_reachable stack q0 s" and "sq_wf q0" and "0 < sq_limit q0"
  shows "\<exists>a. replay stack (qt_log s) q0 = Some a \<and> (mo_mutex (qt_mon s) = None \<longrightarrow> qt_q s = a)
    \<and> (\<forall>t u. critical (qt_pc s t) \<and> critical (qt_pc s u) \<longrightarrow> t = u) \<and> (\<forall>t. qt_pc s t \<noteq> Faulted)"
proof -
  from qt_reachable_inv [OF assms] obtain a where a: "qt_excl s" "qt_abs stack q0 s a" by (auto simp: qt_inv_def)
  have "replay stack (qt_log s) q0 = Some a" "mo_mutex (qt_mon s) = None \<longrightarrow> qt_q s = a"
    using a(2) by (auto simp: qt_abs_def)
  moreover have "\<forall>t u. critical (qt_pc s t) \<and> critical (qt_pc s u) \<longrightarrow> t = u" "\<forall>t. qt_pc s t \<noteq> Faulted"
    using a(1) by (auto simp: qt_excl_def)
  ultimately show ?thesis by (intro exI [of _ a]) simp
qed

lemma queue_linearizable_witness:
  "\<exists>s. qt_run False [Start 1 OpPop True, Step 1 0, Step 1 0, Start 2 (OpPush (7::nat) False True) True,
        Start 3 (OpPush 8 False True) True, Step 2 0, Step 2 0, Step 2 0, Step 2 0, Step 2 0, Step 2 0, Step 3 0, Step 3 0,
        Step 3 0, Step 3 0, Step 3 0, Step 3 0, Step 1 0, Step 1 0, Step 1 0, Step 1 0, Step 1 0, Start 1 OpPop False]
        (qt_new (SyncQueue_new 2)) = Some s
    \<and> qt_log s = [(OpPush 7 False True, 0, None), (OpPush 8 False True, 0, None), (OpPop, 0, Some 7)]
    \<and> replay False (qt_log s) (SyncQueue_new 2) = Some (qt_q s)"
proof -
  let ?r = "qt_run False [Start 1 OpPop True, Step 1 0, Step 1 0, Start 2 (OpPush (7::nat) False True) True,
        Start 3 (OpPush 8 False True) True, Step 2 0, Step 2 0, Step 2 0, Step 2 0, Step 2 0, Step 2 0, Step 3 0, Step 3 0,
        Step 3 0, Step 3 0, Step 3 0, Step 3 0, Step 1 0, Step 1 0, Step 1 0, Step 1 0, Step 1 0, Start 1 OpPop False]
        (qt_new (SyncQueue_new 2))"
  have "\<exists>s. ?r = Some s \<and> qt_log s = [(OpPush 7 False True, 0, None), (OpPush 8 False True, 0, None), (OpPop, 0, Some 7)]
      \<and> mo_mutex (qt_mon s) = None"
    by (simp add: run_defs word_le_nat_alt)
  then obtain s where s: "?r = Some s" "mo_mutex (qt_mon s) = None"
      "qt_log s = [(OpPush 7 False True, 0, None), (OpPush 8 False True, 0, None), (OpPop, 0, Some 7)]" by blast
  have "qt_reachable False (SyncQueue_new 2) s" by (rule qt_run_reachable [OF qt_reachable.init s(1)])
  from queue_linearizable [OF this] s show ?thesis by (auto simp: sq_wf_def SyncQueue_new_def)
qed

text \<open>C14. No call of the queues is stuck: while a thread is in a call, one that is can make a step or its wait can run out of
  time; and a thread that waits in \<open>Pop\<close> while there is an entry and the mutex is free can return with the first entry
  by steps of its own, even if the signal for it has gone to another thread.\<close>

theorem queue_not_stuck:
  assumes "qt_reachable stack q0 s" and "sq_wf q0" and "0 < sq_limit q0"
  shows "((\<exists>t. qt_pc s t \<noteq> Idle) \<longrightarrow> (\<exists>t. qt_pc s t \<noteq> Idle
      \<and> (PushImp_step stack 0 t s \<noteq> None \<or> PopImp_step t s \<noteq> None \<or> qt_pc s t = PopWait)))
    \<and> (\<forall>t x xs. qt_pc s t = PopWait \<and> mo_mutex (qt_mon s) = None \<and> sq_queue (qt_q s) = x # xs \<longrightarrow>
      (\<exists>s'. (qt_step stack)\<^sup>*\<^sup>* s s' \<and> qt_pc s' t = Idle \<and> qt_log s' = qt_log s @ [(OpPop, 0, Some x)]
        \<and> sq_queue (qt_q s') = xs))"
proof -
  have "qt_excl s" using qt_reachable_inv [OF assms] by (simp add: qt_inv_def)
  then show ?thesis using qt_progress [of s _ stack] qt_wait_returns [of s _ _ _ stack] by fast
qed

lemma queue_not_stuck_witness:
  "\<exists>s s'. qt_run False [Start 1 OpPop True, Step 1 0, Step 1 0, Start 2 (OpPush (7::nat) False True) True,
        Step 2 0, Step 2 0, Step 2 0, Step 2 0, Step 2 0, Step 2 0] (qt_new (SyncQueue_new 2)) = Some s
    \<and> (qt_step False)\<^sup>*\<^sup>* s s' \<and> qt_pc s' 1 = Idle
    \<and> qt_log s' = [(OpPush 7 False True, 0, None), (OpPop, 0, Some 7)]"
proof -
  let ?r = "qt_run False [Start 1 OpPop True, Step 1 0, Step 1 0, Start 2 (OpPush (7::nat) False True) True,
        Step 2 0, Step 2 0, Step 2 0, Step 2 0, Step 2 0, Step 2 0] (qt_new (SyncQueue_new 2))"
  have "\<exists>s. ?r = Some s \<and> qt_log s = [(OpPush 7 False True, 0, None)] \<and> mo_mutex (qt_mon s) = None
      \<and> qt_pc s 1 = PopWait \<and> sq_queue (qt_q s) = [7]"
    by (simp add: run_defs word_le_nat_alt)
  then obtain s where s: "?r = Some s" "qt_log s = [(OpPush 7 False True, 0, None)]" "mo_mutex (qt_mon s) = None"
      "qt_pc s 1 = PopWait" "sq_queue (qt_q s) = [7]" by blast
  have "qt_reachable False (SyncQueue_new 2) s" by (rule qt_run_reachable [OF qt_reachable.init s(1)])
  from queue_not_stuck [OF this, THEN conjunct2, rule_format, of 1] s show ?thesis
    by (fastforce simp: sq_wf_def SyncQueue_new_def)
qed

end
