(* ===== verification/Ownership.thy ===== *)
theory Ownership
  imports Package ObjectPool "HOL-Library.Multiset"
begin

text \<open>
  Who gives memory back: the constructors and destructors of \<open>DataBlock\<close>, \<open>Package\<close>,
  \<open>ObjectDefaultAllocator\<close> and the object pool, over a heap that knows which addresses are allocated and by
  which allocator. The theories DataBlock and Package have the contents of the same objects; here every
  operation carries its contents along, and is proved to have the contents it has there.
\<close>

section \<open>The heap\<close>

text \<open>
  \<open>Allocate\<close> gives a fresh address, or null when there is no memory of that size. To give back an address
  that is not allocated, or that another allocator has given, is undefined: the fault \<open>BadFree\<close>.
\<close>

datatype allocator = UseMalloc | UseNew

record heap =
  hp_live :: "nat \<Rightarrow> allocator option"
  hp_next :: nat

definition heap_empty :: heap where
  "heap_empty = \<lparr>hp_live = (\<lambda>_. None), hp_next = 1\<rparr>"

definition Allocate :: "heap_new \<Rightarrow> allocator \<Rightarrow> u64 \<Rightarrow> heap \<Rightarrow> nat option \<times> heap" where
  "Allocate new a iSize h =
     (case fst (case a of UseMalloc \<Rightarrow> MallocAllocator_Allocate new iSize | UseNew \<Rightarrow> NewAllocator_Allocate new iSize) of
        None \<Rightarrow> (None, h)
      | Some _ \<Rightarrow> (Some (hp_next h), \<lparr>hp_live = (hp_live h)(hp_next h \<mapsto> a), hp_next = hp_next h + 1\<rparr>))"

definition Deallocate :: "allocator \<Rightarrow> nat \<Rightarrow> heap \<Rightarrow> heap result" where
  "Deallocate a pData h =
     (if hp_live h pData = Some a then Inr (h\<lparr>hp_live := (hp_live h)(pData := None)\<rparr>) else Inl BadFree)"

section \<open>DataBlock\<close>

text \<open>A block with its allocator and \<open>_pBegin\<close> (\<open>None\<close> for null).\<close>

record block =
  bl_allocator :: allocator
  bl_begin :: "nat option"
  bl_db :: DataBlock

definition Block_new :: "heap_new \<Rightarrow> u64 \<Rightarrow> allocator \<Rightarrow> heap \<Rightarrow> block \<times> heap" where
  "Block_new new iSize pAllocator h =
     (let (p, h') = Allocate new pAllocator iSize h
      in (\<lparr>bl_allocator = pAllocator, bl_begin = p, bl_db = DataBlock_new new iSize\<rparr>, h'))"

definition Block_destroy :: "block \<Rightarrow> heap \<Rightarrow> heap result" where
  "Block_destroy b h = (case bl_begin b of None \<Rightarrow> Inr h | Some p \<Rightarrow> Deallocate (bl_allocator b) p h)"

definition Block_Swap :: "block \<Rightarrow> block \<Rightarrow> block \<times> block" where
  "Block_Swap a b = (b, a)"

text \<open>
  \<open>Resize\<close> and \<open>Copy\<close> with the temporary block of \<open>Resize\<close>, which is destroyed on every way out: as it was made
  when the function fails, with the memory of the old block when it succeeds.
\<close>

function Block_Resize :: "heap_new \<Rightarrow> block \<Rightarrow> u64 \<Rightarrow> heap \<Rightarrow> (int \<times> block \<times> heap) result"
  and Block_Copy :: "heap_new \<Rightarrow> block \<Rightarrow> u64 \<Rightarrow> srcptr \<Rightarrow> u64 \<Rightarrow> heap \<Rightarrow> (int \<times> block \<times> heap) result"
where
  "Block_Resize new b iSize h =
     (if iSize \<le> DataBlock_GetCapacity (bl_db b)
      then Inr (0, if iSize < db_end (bl_db b) then b\<lparr>bl_db := (bl_db b)\<lparr>db_end := iSize\<rparr>\<rparr> else b, h)
      else if bl_begin (fst (Block_new new iSize (bl_allocator b) h)) = None
      then bindR (Block_destroy (fst (Block_new new iSize (bl_allocator b) h)) (snd (Block_new new iSize (bl_allocator b) h)))
             (\<lambda>h1. Inr (- 1, b, h1))
      else bindR (Block_Copy new (fst (Block_new new iSize (bl_allocator b) h))
                    (db_end (bl_db (fst (Block_new new iSize (bl_allocator b) h)))) (Foreign (db_mem (bl_db b)))
                    (min (DataBlock_GetSize (bl_db b)) iSize) (snd (Block_new new iSize (bl_allocator b) h)))
             (\<lambda>(r, oDataBlockTmp, h1).
                if r \<noteq> 0 then bindR (Block_destroy oDataBlockTmp h1) (\<lambda>h2. Inr (- 1, b, h2))
                else let (this, oDataBlockTmp) = Block_Swap b oDataBlockTmp
                     in bindR (Block_destroy oDataBlockTmp h1) (\<lambda>h2. Inr (0, this, h2))))"
| "Block_Copy new b iDestOffset src iSize h =
     (if iDestOffset > db_end (bl_db b) then Inr (- 1, b, h)
      else if iDestOffset + iSize > DataBlock_GetCapacity (bl_db b)
      then bindR (Block_Resize new b (iDestOffset + iSize) h) (\<lambda>(r, b1, h1).
             if r \<noteq> 0 then Inr (- 1, b1, h1)
             else bindR (DataBlock_move True (bl_db b1) iDestOffset src iSize) (\<lambda>db.
               let (r2, db2) = DataBlock_IncEnd db
                     (if sint (iDestOffset + iSize - DataBlock_GetSize (bl_db b)) < 0 then 0
                      else iDestOffset + iSize - DataBlock_GetSize (bl_db b))
               in Inr (r2, b1\<lparr>bl_db := db2\<rparr>, h1)))
      else bindR (DataBlock_move False (bl_db b) iDestOffset src iSize) (\<lambda>db.
               let (r2, db2) = DataBlock_IncEnd db
                     (if sint (iDestOffset + iSize - DataBlock_GetSize (bl_db b)) < 0 then 0
                      else iDestOffset + iSize - DataBlock_GetSize (bl_db b))
               in Inr (r2, b\<lparr>bl_db := db2\<rparr>, h)))"
  by pat_completeness auto

termination
proof (relation "measure (\<lambda>x. case x of
      Inl (new, b, n, h) \<Rightarrow> if n \<le> DataBlock_GetCapacity (bl_db b) then 0 else 1 + 1
    | Inr (new, b, d, s, n, h) \<Rightarrow> if d \<le> db_end (bl_db b) \<and> d + n > DataBlock_GetCapacity (bl_db b) then 1 + 1 + 1 else 1)")
qed (auto simp: Block_new_def DataBlock_new_def Allocate_def NewAllocator_Allocate_def MallocAllocator_Allocate_def
      DataBlock_GetCapacity_def Let_def split: option.splits allocator.splits)

declare Block_Resize.simps [simp del] and Block_Copy.simps [simp del]

definition Block_Append :: "heap_new \<Rightarrow> block \<Rightarrow> srcptr \<Rightarrow> u64 \<Rightarrow> heap \<Rightarrow> (int \<times> block \<times> heap) result" where
  "Block_Append new b src iSize h = Block_Copy new b (db_end (bl_db b)) src iSize h"

text \<open>The copy constructor and the assignment.\<close>

definition Block_copy_ctor :: "heap_new \<Rightarrow> block \<Rightarrow> heap \<Rightarrow> (block \<times> heap) result" where
  "Block_copy_ctor new oDataBlock h =
     (case Block_new new (DataBlock_GetCapacity (bl_db oDataBlock)) (bl_allocator oDataBlock) h of
        (b, h1) \<Rightarrow>
          if bl_begin b = None then Inl Uninit
          else bindR (Block_Append new b (Foreign (db_mem (bl_db oDataBlock))) (DataBlock_GetSize (bl_db oDataBlock)) h1)
                 (\<lambda>(r, b', h2). Inr (b', h2)))"

definition Block_assign :: "heap_new \<Rightarrow> block \<Rightarrow> block \<Rightarrow> heap \<Rightarrow> (block \<times> heap) result" where
  "Block_assign new b oDataBlock h =
     bindR (Block_copy_ctor new oDataBlock h) (\<lambda>(oDataBlockTmp, h1).
       let (this, oDataBlockTmp) = Block_Swap b oDataBlockTmp
       in bindR (Block_destroy oDataBlockTmp h1) (\<lambda>h2. Inr (this, h2)))"

section \<open>What a heap holds\<close>

text \<open>The addresses with their allocators, as a multiset, so that a heap is the sum of what its owners hold.\<close>

definition heap_is :: "heap \<Rightarrow> (nat \<times> allocator) multiset \<Rightarrow> bool" where
  "heap_is h M \<longleftrightarrow> (\<forall>p a. count M (p, a) = (if hp_live h p = Some a then 1 else 0))
     \<and> (\<forall>p. hp_live h p \<noteq> None \<longrightarrow> p < hp_next h)"

lemma heap_is_empty: "heap_is heap_empty {#}"
  by (simp add: heap_is_def heap_empty_def)

lemma heap_is_live: "heap_is h (add_mset (p, a) M) \<Longrightarrow> hp_live h p = Some a"
  unfolding heap_is_def by (metis count_add_mset nat.distinct(1))

lemma heap_is_alloc:
  assumes "heap_is h M" and "Allocate new a n h = (Some p, h')"
  shows "heap_is h' (add_mset (p, a) M)"
proof -
  have h': "p = hp_next h" "h' = \<lparr>hp_live = (hp_live h)(p \<mapsto> a), hp_next = p + 1\<rparr>"
    using assms(2) by (auto simp: Allocate_def split: option.splits)
  have "hp_live h p = None" using assms(1) h'(1) by (auto simp: heap_is_def)
  then show ?thesis using assms(1) by (auto simp: heap_is_def h' less_Suc_eq)
qed

lemma Allocate_eq:
  "Allocate new a n h = (case new n of None \<Rightarrow> (None, h)
     | Some _ \<Rightarrow> (Some (hp_next h), \<lparr>hp_live = (hp_live h)(hp_next h \<mapsto> a), hp_next = hp_next h + 1\<rparr>))"
  by (simp add: Allocate_def NewAllocator_Allocate_def MallocAllocator_Allocate_def split: allocator.splits)

lemma heap_is_dealloc:
  assumes "heap_is h (add_mset (p, a) M)"
  shows "\<exists>h'. Deallocate a p h = Inr h' \<and> heap_is h' M"
proof -
  note l = heap_is_live [OF assms]
  have "heap_is (h\<lparr>hp_live := (hp_live h)(p := None)\<rparr>) M"
    unfolding heap_is_def
  proof (intro conjI allI impI)
    fix q b
    have "count (add_mset (p, a) M) (q, b) = (if hp_live h q = Some b then 1 else 0)"
      using assms by (simp add: heap_is_def)
    then show "count M (q, b) = (if hp_live (h\<lparr>hp_live := (hp_live h)(p := None)\<rparr>) q = Some b then 1 else 0)"
      using l by (auto split: if_splits)
  next
    fix q
    assume "hp_live (h\<lparr>hp_live := (hp_live h)(p := None)\<rparr>) q \<noteq> None"
    then show "q < hp_next (h\<lparr>hp_live := (hp_live h)(p := None)\<rparr>)"
      using assms by (auto simp: heap_is_def split: if_splits)
  qed
  with l show ?thesis by (simp add: Deallocate_def)
qed

lemma heap_is_dealloc_wrong:
  "heap_is h (add_mset (p, b) M) \<Longrightarrow> a \<noteq> b \<Longrightarrow> Deallocate a p h = Inl BadFree"
  by (simp add: Deallocate_def heap_is_live)

section \<open>Blocks\<close>

text \<open>What a block holds.\<close>

definition mem_of :: "block \<Rightarrow> (nat \<times> allocator) multiset" where
  "mem_of b = (case bl_begin b of None \<Rightarrow> {#} | Some p \<Rightarrow> {#(p, bl_allocator b)#})"

lemma mem_of_upd [simp]: "mem_of (b\<lparr>bl_db := db\<rparr>) = mem_of b"
  by (simp add: mem_of_def split: option.split)

definition bl_ok :: "block \<Rightarrow> bool" where
  "bl_ok b \<longleftrightarrow> (bl_begin b \<noteq> None \<longleftrightarrow> db_init (bl_db b))"

lemma Block_destroy_ok:
  assumes "heap_is h (mem_of b + M)"
  shows "\<exists>h'. Block_destroy b h = Inr h' \<and> heap_is h' M"
  using assms heap_is_dealloc [of h _ "bl_allocator b" M]
  by (auto simp: mem_of_def Block_destroy_def split: option.splits)

lemma Block_new_ok:
  assumes "heap_is h M" and "Block_new new n a h = (b, h')"
  shows "heap_is h' (mem_of b + M) \<and> bl_ok b \<and> bl_db b = DataBlock_new new n \<and> bl_allocator b = a"
  using assms heap_is_alloc [OF assms(1), of new a n]
  by (cases "new n") (auto simp: Allocate_eq Block_new_def mem_of_def bl_ok_def DataBlock_new_def NewAllocator_Allocate_def)

text \<open>An operation on a block that agrees with the one on its contents and holds the memory that its result has.\<close>

definition agrees :: "(nat \<times> allocator) multiset \<Rightarrow> allocator \<Rightarrow> (int \<times> block \<times> heap) result
    \<Rightarrow> (int \<times> DataBlock) result \<Rightarrow> bool" where
  "agrees M a x y \<longleftrightarrow> (case x of
       Inl e \<Rightarrow> y = Inl e \<and> e \<noteq> BadFree
     | Inr (r, b, h) \<Rightarrow> y = Inr (r, bl_db b) \<and> bl_ok b \<and> bl_allocator b = a \<and> heap_is h (mem_of b + M))"

lemma move_init:
  "DataBlock_move moved db d src n = Inr db' \<Longrightarrow> db_init db' = db_init db"
  "DataBlock_move moved db d src n = Inl e \<Longrightarrow> e \<noteq> BadFree"
  by (auto simp: DataBlock_move_def Let_def split: srcptr.splits if_splits)

lemma IncEnd_init: "DataBlock_IncEnd db n = (r, db') \<Longrightarrow> db_init db' = db_init db"
  by (auto simp: DataBlock_IncEnd_def split: if_splits)

text \<open>The end of \<open>Copy\<close>: the move and \<open>IncEnd\<close>.\<close>

lemma agrees_move:
  assumes "heap_is h (mem_of b + M)" and "bl_ok b"
  shows "agrees M (bl_allocator b)
    (bindR (DataBlock_move moved (bl_db b) d src n) (\<lambda>db.
       let (r2, db2) = DataBlock_IncEnd db k in Inr (r2, b\<lparr>bl_db := db2\<rparr>, h)))
    (bindR (DataBlock_move moved (bl_db b) d src n) (\<lambda>db. Inr (DataBlock_IncEnd db k)))"
proof (cases "DataBlock_move moved (bl_db b) d src n")
  case (Inl e)
  with move_init(2) show ?thesis by (simp add: agrees_def)
next
  case (Inr db)
  obtain r2 db2 where i: "DataBlock_IncEnd db k = (r2, db2)" by fastforce
  with Inr move_init(1) [OF Inr] IncEnd_init [OF i] assms show ?thesis
    by (simp add: agrees_def bl_ok_def)
qed

lemma Block_agrees:
  "heap_is h (mem_of b + M) \<Longrightarrow> bl_ok b
    \<Longrightarrow> agrees M (bl_allocator b) (Block_Resize new b n h) (DataBlock_Resize new (bl_db b) n)"
  "heap_is h (mem_of b + M) \<Longrightarrow> bl_ok b
    \<Longrightarrow> agrees M (bl_allocator b) (Block_Copy new b d src m h) (DataBlock_Copy new (bl_db b) d src m)"
proof (induction new b n h and new b d src m h arbitrary: M and M rule: Block_Resize_Block_Copy.induct)
  case (1 new b n h)
  obtain tmp h1 where tmp: "Block_new new n (bl_allocator b) h = (tmp, h1)" by fastforce
  from Block_new_ok [OF 1(2) this] have t: "heap_is h1 (mem_of tmp + (mem_of b + M))" "bl_ok tmp"
      "bl_db tmp = DataBlock_new new n" "bl_allocator tmp = bl_allocator b" by simp_all
  consider "n \<le> DataBlock_GetCapacity (bl_db b)" | "\<not> n \<le> DataBlock_GetCapacity (bl_db b)" "bl_begin tmp = None"
    | "\<not> n \<le> DataBlock_GetCapacity (bl_db b)" "bl_begin tmp \<noteq> None" by blast
  then show ?case
  proof cases
    case 1
    then show ?thesis using "1.prems"
      by (simp add: Block_Resize.simps DataBlock_Resize.simps agrees_def bl_ok_def)
  next
    case 2
    from Block_destroy_ok [OF t(1)] obtain h2 where "Block_destroy tmp h1 = Inr h2" "heap_is h2 (mem_of b + M)" by blast
    with 2 t tmp "1.prems" show ?thesis
      by (simp add: Block_Resize.simps DataBlock_Resize.simps agrees_def bl_ok_def)
  next
    case 3
    let ?copy = "Block_Copy new tmp (db_end (bl_db tmp)) (Foreign (db_mem (bl_db b))) (min (DataBlock_GetSize (bl_db b)) n) h1"
    let ?pure = "DataBlock_Copy new (bl_db tmp) (db_end (bl_db tmp)) (Foreign (db_mem (bl_db b))) (min (DataBlock_GetSize (bl_db b)) n)"
    have ag: "agrees (mem_of b + M) (bl_allocator b) ?copy ?pure"
      using "1.IH" [of "mem_of b + M"] 3 tmp t by simp
    show ?thesis
    proof (cases ?copy)
      case (Inl e)
      with 3 t tmp ag show ?thesis
        by (auto simp: Block_Resize.simps DataBlock_Resize.simps agrees_def bl_ok_def)
    next
      case (Inr x)
      obtain r tmp1 h2 where x: "x = (r, tmp1, h2)" by (cases x)
      have c: "?pure = Inr (r, bl_db tmp1)" "bl_ok tmp1" "bl_allocator tmp1 = bl_allocator b"
          "heap_is h2 (mem_of tmp1 + (mem_of b + M))" using ag Inr x by (simp_all add: agrees_def)
      from Block_destroy_ok [OF c(4)] obtain h3 where d: "Block_destroy tmp1 h2 = Inr h3" "heap_is h3 (mem_of b + M)" by blast
      from c(4) have "heap_is h2 (mem_of b + (mem_of tmp1 + M))" by (simp add: ac_simps)
      from Block_destroy_ok [OF this] obtain h4 where e: "Block_destroy b h2 = Inr h4" "heap_is h4 (mem_of tmp1 + M)" by blast
      show ?thesis using 3 t tmp c d e Inr x "1.prems"
        by (auto simp: Block_Resize.simps DataBlock_Resize.simps agrees_def bl_ok_def Block_Swap_def DataBlock_Swap_def)
    qed
  qed
next
  case (2 new b d src m h)
  show ?case
  proof (cases "d > db_end (bl_db b) \<or> \<not> d + m > DataBlock_GetCapacity (bl_db b)")
    case True
    then show ?thesis using "2.prems" agrees_move [OF "2.prems"]
      by (cases "d > db_end (bl_db b)")
        (simp_all add: Block_Copy.simps [of new b] DataBlock_Copy.simps [of new "bl_db b"] agrees_def [of _ _ "Inr _"])
  next
    case False
    then have ag: "agrees M (bl_allocator b) (Block_Resize new b (d + m) h) (DataBlock_Resize new (bl_db b) (d + m))"
      using "2.IH" "2.prems" by simp
    show ?thesis
    proof (cases "Block_Resize new b (d + m) h")
      case (Inl e)
      with False ag show ?thesis
        by (simp add: Block_Copy.simps [of new b] DataBlock_Copy.simps [of new "bl_db b"] agrees_def)
    next
      case (Inr x)
      obtain r b1 h1 where x: "x = (r, b1, h1)" by (cases x)
      have c: "DataBlock_Resize new (bl_db b) (d + m) = Inr (r, bl_db b1)" "bl_ok b1" "bl_allocator b1 = bl_allocator b"
          "heap_is h1 (mem_of b1 + M)" using ag Inr x by (simp_all add: agrees_def)
      show ?thesis
      proof (cases "r = 0")
        case True
        with False Inr x c agrees_move [OF c(4,2)] show ?thesis
          by (simp add: Block_Copy.simps [of new b] DataBlock_Copy.simps [of new "bl_db b"])
      next
        case False
        with \<open>\<not> (d > db_end (bl_db b) \<or> \<not> d + m > DataBlock_GetCapacity (bl_db b))\<close> Inr x c show ?thesis
          by (simp add: Block_Copy.simps [of new b] DataBlock_Copy.simps [of new "bl_db b"] agrees_def)
      qed
    qed
  qed
qed

lemma Block_copy_ctor_agrees:
  assumes "heap_is h M" and "bl_ok b"
  shows "case Block_copy_ctor new b h of
      Inl e \<Rightarrow> DataBlock_copy_ctor new (bl_db b) = Inl e \<and> e \<noteq> BadFree
    | Inr (b', h') \<Rightarrow> DataBlock_copy_ctor new (bl_db b) = Inr (bl_db b') \<and> bl_ok b'
        \<and> bl_allocator b' = bl_allocator b \<and> heap_is h' (mem_of b' + M)"
proof -
  let ?n = "DataBlock_GetCapacity (bl_db b)"
  obtain c h1 where c: "Block_new new ?n (bl_allocator b) h = (c, h1)" by fastforce
  from Block_new_ok [OF assms(1) this] have n: "heap_is h1 (mem_of c + M)" "bl_ok c"
      "bl_db c = DataBlock_new new ?n" "bl_allocator c = bl_allocator b" by simp_all
  show ?thesis
  proof (cases "new ?n")
    case None
    with n have "bl_begin c = None" by (simp add: bl_ok_def DataBlock_new_def NewAllocator_Allocate_def)
    with None c show ?thesis
      by (simp add: Block_copy_ctor_def DataBlock_copy_ctor_def NewAllocator_Allocate_def)
  next
    case (Some bs)
    with n have i: "bl_begin c \<noteq> None" "bl_db c = \<lparr>db_init = True, db_mem = bs, db_end = 0, db_cap = ?n\<rparr>"
      by (simp_all add: bl_ok_def DataBlock_new_def NewAllocator_Allocate_def)
    have "agrees M (bl_allocator b)
        (Block_Append new c (Foreign (db_mem (bl_db b))) (DataBlock_GetSize (bl_db b)) h1)
        (DataBlock_Append new (bl_db c) (Foreign (db_mem (bl_db b))) (DataBlock_GetSize (bl_db b)))"
      using Block_agrees(2) [OF n(1,2)] n(4) by (simp add: Block_Append_def DataBlock_Append_def)
    with Some c i show ?thesis
      by (auto simp: Block_copy_ctor_def DataBlock_copy_ctor_def NewAllocator_Allocate_def agrees_def
          split: sum.splits prod.splits)
  qed
qed

lemma Block_assign_agrees:
  assumes "heap_is h (mem_of b + M)" and "bl_ok c"
  shows "case Block_assign new b c h of
      Inl e \<Rightarrow> DataBlock_assign new (bl_db b) (bl_db c) = Inl e \<and> e \<noteq> BadFree
    | Inr (b', h') \<Rightarrow> DataBlock_assign new (bl_db b) (bl_db c) = Inr (bl_db b') \<and> bl_ok b'
        \<and> bl_allocator b' = bl_allocator c \<and> heap_is h' (mem_of b' + M)"
proof -
  note a = Block_copy_ctor_agrees [OF assms, of new]
  show ?thesis
  proof (cases "Block_copy_ctor new c h")
    case (Inl e)
    with a show ?thesis by (simp add: Block_assign_def DataBlock_assign_def)
  next
    case (Inr x)
    obtain t h1 where x: "x = (t, h1)" by (cases x)
    with a Inr have t: "DataBlock_copy_ctor new (bl_db c) = Inr (bl_db t)" "bl_ok t" "bl_allocator t = bl_allocator c"
        "heap_is h1 (mem_of b + (mem_of t + M))" by (simp_all add: ac_simps)
    from Block_destroy_ok [OF t(4)] t Inr x show ?thesis
      by (auto simp: Block_assign_def DataBlock_assign_def Block_Swap_def DataBlock_Swap_def)
  qed
qed

section \<open>A program of blocks\<close>

text \<open>
  What a program does with any number of blocks: it makes, copies, assigns, swaps, resizes, fills and destroys them. A statement
  about a block that does not exist is none of the program.
\<close>

datatype block_op =
    MakeBlock u64 allocator
  | CopyBlock nat
  | AssignBlock nat nat
  | SwapBlocks nat nat
  | ResizeBlock nat u64
  | WriteBlock nat u64 srcptr u64
  | ClearBlock nat
  | DestroyBlock nat

fun block_step :: "heap_new \<Rightarrow> block_op \<Rightarrow> block list \<times> heap \<Rightarrow> (block list \<times> heap) result" where
  "block_step new (MakeBlock n a) (bs, h) = (case Block_new new n a h of (b, h') \<Rightarrow> Inr (bs @ [b], h'))"
| "block_step new (CopyBlock i) (bs, h) =
     (if i < length bs then bindR (Block_copy_ctor new (bs ! i) h) (\<lambda>(b, h'). Inr (bs @ [b], h')) else Inr (bs, h))"
| "block_step new (AssignBlock i j) (bs, h) =
     (if i < length bs \<and> j < length bs
      then bindR (Block_assign new (bs ! i) (bs ! j) h) (\<lambda>(b, h'). Inr (bs[i := b], h')) else Inr (bs, h))"
| "block_step new (SwapBlocks i j) (bs, h) =
     (if i < length bs \<and> j < length bs
      then case Block_Swap (bs ! i) (bs ! j) of (a, b) \<Rightarrow> Inr (bs[i := a, j := b], h) else Inr (bs, h))"
| "block_step new (ResizeBlock i n) (bs, h) =
     (if i < length bs then bindR (Block_Resize new (bs ! i) n h) (\<lambda>(r, b, h'). Inr (bs[i := b], h')) else Inr (bs, h))"
| "block_step new (WriteBlock i d src n) (bs, h) =
     (if i < length bs then bindR (Block_Copy new (bs ! i) d src n h) (\<lambda>(r, b, h'). Inr (bs[i := b], h')) else Inr (bs, h))"
| "block_step new (ClearBlock i) (bs, h) =
     Inr (if i < length bs then bs[i := (bs ! i)\<lparr>bl_db := DataBlock_Clear (bl_db (bs ! i))\<rparr>] else bs, h)"
| "block_step new (DestroyBlock i) (bs, h) =
     (if i < length bs then bindR (Block_destroy (bs ! i) h) (\<lambda>h'. Inr (take i bs @ drop (Suc i) bs, h')) else Inr (bs, h))"

fun blocks_run :: "heap_new \<Rightarrow> block_op list \<Rightarrow> block list \<times> heap \<Rightarrow> (block list \<times> heap) result" where
  "blocks_run new [] s = Inr s"
| "blocks_run new (op # ops) s = bindR (block_step new op s) (blocks_run new ops)"

text \<open>Every address that is allocated belongs to exactly one block.\<close>

definition mem_all :: "block list \<Rightarrow> (nat \<times> allocator) multiset" where
  "mem_all bs = sum_list (map mem_of bs)"

definition blocks_own :: "block list \<times> heap \<Rightarrow> bool" where
  "blocks_own = (\<lambda>(bs, h). heap_is h (mem_all bs) \<and> (\<forall>b\<in>set bs. bl_ok b))"

lemma mem_all_simps [simp]:
  "mem_all [] = {#}" "mem_all (b # bs) = mem_of b + mem_all bs" "mem_all (bs @ cs) = mem_all bs + mem_all cs"
  by (simp_all add: mem_all_def)

lemma mem_all_split: "i < length bs \<Longrightarrow> mem_all bs = mem_of (bs ! i) + mem_all (take i bs @ drop (Suc i) bs)"
  by (subst id_take_nth_drop [of i bs]) (simp_all add: ac_simps)

lemma mem_all_upd: "i < length bs \<Longrightarrow> mem_all (bs[i := b]) = mem_of b + mem_all (take i bs @ drop (Suc i) bs)"
  by (simp add: upd_conv_take_nth_drop ac_simps)

lemma blocks_own_at:
  assumes "blocks_own (bs, h)" and "i < length bs"
  shows "heap_is h (mem_of (bs ! i) + mem_all (take i bs @ drop (Suc i) bs))" and "bl_ok (bs ! i)"
  using assms mem_all_split [OF assms(2)] by (auto simp: blocks_own_def)

lemma blocks_own_upd:
  assumes "blocks_own (bs, h)" and "i < length bs" and "heap_is h' (mem_of b + mem_all (take i bs @ drop (Suc i) bs))"
    and "bl_ok b"
  shows "blocks_own (bs[i := b], h')"
  using assms set_update_subset_insert [of bs i b] mem_all_upd [OF assms(2), of b] by (auto simp: blocks_own_def)

lemma blocks_own_snoc:
  assumes "blocks_own (bs, h)" and "heap_is h' (mem_of b + mem_all bs)" and "bl_ok b"
  shows "blocks_own (bs @ [b], h')"
  using assms by (auto simp: blocks_own_def ac_simps)

lemma block_step_own:
  assumes "blocks_own s"
  shows "case block_step new op s of Inl e \<Rightarrow> e \<noteq> BadFree | Inr s' \<Rightarrow> blocks_own s'"
proof -
  obtain bs h where s: "s = (bs, h)" by (cases s)
  note own = assms [unfolded s]
  note at = blocks_own_at [OF own] and upd = blocks_own_upd [OF own]
  show ?thesis
  proof (cases op)
    case (MakeBlock n a)
    with Block_new_ok [of h "mem_all bs" new n a] own show ?thesis
      by (auto simp: s blocks_own_def ac_simps split: prod.splits)
  next
    case (CopyBlock i)
    show ?thesis
    proof (cases "i < length bs")
      case True
      have "heap_is h (mem_all bs)" using own by (simp add: blocks_own_def)
      from Block_copy_ctor_agrees [OF this at(2) [OF True], of new] True CopyBlock show ?thesis
        by (auto simp: s intro!: blocks_own_snoc [OF own] split: sum.splits)
    qed (use own CopyBlock s in simp)
  next
    case (AssignBlock i j)
    show ?thesis
    proof (cases "i < length bs \<and> j < length bs")
      case True
      from Block_assign_agrees [OF at(1) at(2), of i j new] True AssignBlock show ?thesis
        by (auto simp: s intro!: upd split: sum.splits)
    qed (use own AssignBlock s in auto)
  next
    case (SwapBlocks i j)
    show ?thesis
    proof (cases "i < length bs \<and> j < length bs")
      case True
      have m: "mset (bs[i := bs ! j, j := bs ! i]) = mset bs" using True by (simp add: mset_swap)
      then have "set (bs[i := bs ! j, j := bs ! i]) = set bs" by (metis set_mset_mset)
      moreover have "mem_all (bs[i := bs ! j, j := bs ! i]) = mem_all bs"
        using arg_cong [OF m, of "\<lambda>m. sum_mset (image_mset mem_of m)"] by (simp add: mem_all_def sum_mset_sum_list flip: mset_map)
      ultimately show ?thesis using True own SwapBlocks by (simp add: s Block_Swap_def blocks_own_def)
    qed (use own SwapBlocks s in auto)
  next
    case (ResizeBlock i n)
    show ?thesis
    proof (cases "i < length bs")
      case True
      from Block_agrees(1) [OF at [OF True], of new n] True ResizeBlock show ?thesis
        by (auto simp: s agrees_def intro!: upd split: sum.splits)
    qed (use own ResizeBlock s in simp)
  next
    case (WriteBlock i d src n)
    show ?thesis
    proof (cases "i < length bs")
      case True
      from Block_agrees(2) [OF at [OF True], of new d src n] True WriteBlock show ?thesis
        by (auto simp: s agrees_def intro!: upd split: sum.splits)
    qed (use own WriteBlock s in simp)
  next
    case (ClearBlock i)
    show ?thesis
    proof (cases "i < length bs")
      case True
      with at [OF True] own ClearBlock show ?thesis
        by (auto simp: s bl_ok_def DataBlock_Clear_def intro!: upd)
    qed (use own ClearBlock s in simp)
  next
    case (DestroyBlock i)
    show ?thesis
    proof (cases "i < length bs")
      case True
      have "\<forall>b\<in>set bs. bl_ok b" using own by (simp add: blocks_own_def)
      then have "\<forall>b\<in>set (take i bs @ drop (Suc i) bs). bl_ok b"
        unfolding set_append using set_take_subset [of i bs] set_drop_subset [of "Suc i" bs] by blast
      with Block_destroy_ok [OF at(1) [OF True]] True DestroyBlock show ?thesis
        by (auto simp: s blocks_own_def)
    qed (use own DestroyBlock s in simp)
  qed
qed

lemma blocks_run_own:
  "blocks_own s \<Longrightarrow> case blocks_run new ops s of Inl e \<Rightarrow> e \<noteq> BadFree | Inr s' \<Rightarrow> blocks_own s'"
proof (induction ops arbitrary: s)
  case (Cons op ops)
  note step = block_step_own [OF Cons.prems, of new op]
  show ?case
  proof (cases "block_step new op s")
    case (Inr s')
    then have "blocks_own s'" using step by simp
    from Cons.IH [OF this] Inr show ?thesis by simp
  qed (use step in simp)
qed simp

section \<open>Package\<close>

text \<open>
  The pointers of a package: the allocator (\<open>None\<close> for null), and the address of the \<open>DataBlock\<close> behind \<open>data\<close> with
  the block.
\<close>

record own_package =
  op_allocator :: "allocator option"
  op_data :: "(nat \<times> block) option"

definition OwnPackage_new :: own_package where
  "OwnPackage_new = \<lparr>op_allocator = None, op_data = None\<rparr>"

definition OwnPackage_SetAllocator :: "allocator option \<Rightarrow> own_package \<Rightarrow> own_package result" where
  "OwnPackage_SetAllocator allocator p =
     bindR (guardR AssertFail (allocator \<noteq> None)) (\<lambda>_. Inr (p\<lparr>op_allocator := allocator\<rparr>))"

definition OwnPackage_make_block :: "heap_new \<Rightarrow> own_package \<Rightarrow> heap \<Rightarrow> ((nat \<times> block) \<times> heap) result" where
  "OwnPackage_make_block new p h =
     (case op_data p of
        Some d \<Rightarrow> Inr (d, h)
      | None \<Rightarrow>
          (case op_allocator p of
             None \<Rightarrow> Inl NullDeref
           | Some a \<Rightarrow>
               (case Allocate new a sizeof_DataBlock h of
                  (None, h1) \<Rightarrow> Inl AssertFail
                | (Some q, h1) \<Rightarrow> (case Block_new new DEFAULT_BLOCK_SIZE a h1 of (b, h2) \<Rightarrow> Inr ((q, b), h2)))))"

definition OwnPackage_SetData :: "heap_new \<Rightarrow> srcptr \<Rightarrow> u64 \<Rightarrow> own_package \<Rightarrow> heap \<Rightarrow> (own_package \<times> heap) result" where
  "OwnPackage_SetData new ptr len p h =
     bindR (OwnPackage_make_block new p h) (\<lambda>((q, b), h1).
     bindR (Block_Resize new (b\<lparr>bl_db := DataBlock_Clear (bl_db b)\<rparr>) len h1) (\<lambda>(r1, b1, h2).
     bindR (Block_Copy new b1 0 ptr len h2) (\<lambda>(r2, b2, h3). Inr (p\<lparr>op_data := Some (q, b2)\<rparr>, h3))))"

text \<open>The destructor: the block is destroyed and its own memory goes back to the allocator that the package has now.\<close>

definition OwnPackage_destroy :: "own_package \<Rightarrow> heap \<Rightarrow> heap result" where
  "OwnPackage_destroy p h =
     (case op_data p of
        None \<Rightarrow> Inr h
      | Some (q, b) \<Rightarrow>
          bindR (Block_destroy b h) (\<lambda>h1.
            case op_allocator p of None \<Rightarrow> Inl NullDeref | Some a \<Rightarrow> Deallocate a q h1))"

text \<open>The contents, as theory Package has them.\<close>

definition op_view :: "own_package \<Rightarrow> 'addr Package \<Rightarrow> 'addr Package" where
  "op_view p pk = pk\<lparr>pk_allocator := op_allocator p \<noteq> None, pk_data := map_option (bl_db \<circ> snd) (op_data p)\<rparr>"

text \<open>What a package holds: the object behind \<open>data\<close>, which the allocator of its block has given, and the block.\<close>

definition pack_mem :: "own_package \<Rightarrow> (nat \<times> allocator) multiset" where
  "pack_mem p = (case op_data p of None \<Rightarrow> {#} | Some (q, b) \<Rightarrow> add_mset (q, bl_allocator b) (mem_of b))"

definition op_ok :: "own_package \<Rightarrow> bool" where
  "op_ok p \<longleftrightarrow> (case op_data p of None \<Rightarrow> True | Some (q, b) \<Rightarrow> bl_ok b)"

text \<open>The allocator of the block, or the one that a new block will have.\<close>

definition made_by :: "own_package \<Rightarrow> allocator" where
  "made_by p = (case op_data p of Some (_, b) \<Rightarrow> bl_allocator b | None \<Rightarrow> the (op_allocator p))"

lemma make_block_agrees:
  assumes "heap_is h (pack_mem p + M)" and "op_ok p"
  shows "case OwnPackage_make_block new p h of
      Inl e \<Rightarrow> Package_make_block new (op_view p pk) = Inl e \<and> e \<noteq> BadFree
    | Inr ((q, b), h') \<Rightarrow> Package_make_block new (op_view p pk) = Inr (bl_db b) \<and> bl_ok b
        \<and> heap_is h' (add_mset (q, bl_allocator b) (mem_of b) + M)
        \<and> bl_allocator b = made_by p
        \<and> (op_data p = None \<longrightarrow> op_allocator p \<noteq> None)"
proof (cases "op_data p")
  case None
  show ?thesis
  proof (cases "op_allocator p")
    case None
    with \<open>op_data p = None\<close> show ?thesis
      by (simp add: OwnPackage_make_block_def Package_make_block_def op_view_def)
  next
    case (Some a)
    obtain q h1 where q: "Allocate new a sizeof_DataBlock h = (q, h1)" by fastforce
    show ?thesis
    proof (cases q)
      case N: None
      then have "new sizeof_DataBlock = None" using q by (auto simp: Allocate_eq split: option.splits)
      with N Some \<open>op_data p = None\<close> q show ?thesis
        by (simp add: OwnPackage_make_block_def Package_make_block_def op_view_def NewAllocator_Allocate_def)
    next
      case S: (Some q')
      then have n: "new sizeof_DataBlock \<noteq> None" using q by (auto simp: Allocate_eq split: option.splits)
      have h1: "heap_is h1 (add_mset (q', a) M)"
        using heap_is_alloc [of h M new a sizeof_DataBlock q' h1] assms(1) q S None by (simp add: pack_mem_def)
      obtain b h2 where b: "Block_new new DEFAULT_BLOCK_SIZE a h1 = (b, h2)" by fastforce
      from Block_new_ok [OF h1 b] n S Some None q b show ?thesis
        by (auto simp: OwnPackage_make_block_def Package_make_block_def op_view_def made_by_def NewAllocator_Allocate_def)
    qed
  qed
next
  case (Some d)
  obtain q b where "d = (q, b)" by (cases d)
  with Some assms show ?thesis
    by (simp add: OwnPackage_make_block_def Package_make_block_def op_view_def pack_mem_def op_ok_def made_by_def)
qed

text \<open>\<open>SetData\<close> has the contents of theory Package and keeps the allocator that the block was made with.\<close>

lemma SetData_agrees:
  assumes "heap_is h (pack_mem p + M)" and "op_ok p"
  shows "case OwnPackage_SetData new ptr len p h of
      Inl e \<Rightarrow> Package_SetData new ptr len (op_view p pk) = Inl e \<and> e \<noteq> BadFree
    | Inr (p', h') \<Rightarrow> Package_SetData new ptr len (op_view p pk) = Inr (op_view p' pk) \<and> op_ok p'
        \<and> heap_is h' (pack_mem p' + M) \<and> op_allocator p' = op_allocator p
        \<and> (\<exists>q b. op_data p' = Some (q, b)
             \<and> bl_allocator b = made_by p)
        \<and> (op_data p = None \<longrightarrow> op_allocator p \<noteq> None)"
proof (cases "OwnPackage_make_block new p h")
  case (Inl e)
  with make_block_agrees [OF assms, of new pk] show ?thesis
    by (simp add: OwnPackage_SetData_def Package_SetData_def)
next
  case (Inr x)
  obtain q b h1 where x: "x = ((q, b), h1)" by (metis prod.collapse)
  let ?b = "b\<lparr>bl_db := DataBlock_Clear (bl_db b)\<rparr>" and ?M = "add_mset (q, bl_allocator b) M"
  have b: "Package_make_block new (op_view p pk) = Inr (bl_db b)" "bl_ok b"
      "heap_is h1 (add_mset (q, bl_allocator b) (mem_of b) + M)"
      "bl_allocator b = made_by p" "op_data p = None \<longrightarrow> op_allocator p \<noteq> None"
    using make_block_agrees [OF assms, of new pk] unfolding Inr x sum.case prod.case by blast+
  have "heap_is h1 (mem_of ?b + ?M)" "bl_ok ?b"
    using b(2,3) by (simp_all add: bl_ok_def DataBlock_Clear_def)
  note c = Block_agrees(1) [OF this, of new len]
  show ?thesis
  proof (cases "Block_Resize new ?b len h1")
    case (Inl e)
    with b c Inr x show ?thesis
      by (simp add: OwnPackage_SetData_def Package_SetData_def agrees_def)
  next
    case I: (Inr y)
    obtain r1 b1 h2 where y: "y = (r1, b1, h2)" by (cases y)
    have d: "DataBlock_Resize new (DataBlock_Clear (bl_db b)) len = Inr (r1, bl_db b1)" "bl_ok b1"
        "bl_allocator b1 = bl_allocator b" "heap_is h2 (mem_of b1 + ?M)" using c I y by (simp_all add: agrees_def)
    note e = Block_agrees(2) [OF d(4,2), of new 0 ptr len]
    show ?thesis
    proof (cases "Block_Copy new b1 0 ptr len h2")
      case (Inl e')
      with b d e Inr x I y show ?thesis
        by (simp add: OwnPackage_SetData_def Package_SetData_def agrees_def)
    next
      case J: (Inr z)
      obtain r2 b2 h3 where z: "z = (r2, b2, h3)" by (cases z)
      from e J z have "DataBlock_Copy new (bl_db b1) 0 ptr len = Inr (r2, bl_db b2)" "bl_ok b2"
          "bl_allocator b2 = bl_allocator b" "heap_is h3 (mem_of b2 + ?M)" using d(3) by (simp_all add: agrees_def)
      with b d Inr x I y J z show ?thesis
        by (simp add: OwnPackage_SetData_def Package_SetData_def op_view_def op_ok_def pack_mem_def)
    qed
  qed
qed

lemma OwnPackage_destroy_ok:
  assumes "heap_is h (pack_mem p + M)"
  shows "case op_data p of
      None \<Rightarrow> OwnPackage_destroy p h = Inr h
    | Some (q, b) \<Rightarrow>
        if op_allocator p = Some (bl_allocator b) then \<exists>h'. OwnPackage_destroy p h = Inr h' \<and> heap_is h' M
        else OwnPackage_destroy p h = Inl (if op_allocator p = None then NullDeref else BadFree)"
proof (cases "op_data p")
  case (Some d)
  obtain q b where d: "d = (q, b)" by (cases d)
  have "heap_is h (mem_of b + add_mset (q, bl_allocator b) M)" using assms Some d by (simp add: pack_mem_def)
  from Block_destroy_ok [OF this] obtain h1 where h1: "Block_destroy b h = Inr h1" "heap_is h1 (add_mset (q, bl_allocator b) M)"
    by blast
  with heap_is_dealloc [OF h1(2)] heap_is_dealloc_wrong [OF h1(2)] Some d show ?thesis
    by (auto simp: OwnPackage_destroy_def split: option.splits)
qed (simp add: OwnPackage_destroy_def)

section \<open>ObjectDefaultAllocator\<close>

text \<open>An object on its own: the memory and the object that the constructor of \<open>T\<close> makes, and its destructor.\<close>

definition ObjectDefaultAllocator_Create :: "heap_new \<Rightarrow> allocator \<Rightarrow> u64 \<Rightarrow> 'a \<Rightarrow> heap \<Rightarrow> (nat \<times> 'a) option \<times> heap" where
  "ObjectDefaultAllocator_Create new pAllocator sizeofT T h =
     (case Allocate new pAllocator sizeofT h of (None, h1) \<Rightarrow> (None, h1) | (Some p, h1) \<Rightarrow> (Some (p, T), h1))"

definition ObjectDefaultAllocator_Destroy :: "allocator \<Rightarrow> ('a \<Rightarrow> heap \<Rightarrow> heap result) \<Rightarrow> nat \<times> 'a \<Rightarrow> heap \<Rightarrow> heap result" where
  "ObjectDefaultAllocator_Destroy pAllocator dtor px h =
     bindR (dtor (snd px) h) (Deallocate pAllocator (fst px))"

text \<open>What is done with one package between its constructor and its destructor.\<close>

datatype pack_op = GiveAllocator "allocator option" | FillData srcptr u64

fun package_run :: "heap_new \<Rightarrow> pack_op list \<Rightarrow> own_package \<times> heap \<Rightarrow> (own_package \<times> heap) result" where
  "package_run new [] s = Inr s"
| "package_run new (GiveAllocator a # ops) (p, h) =
     bindR (OwnPackage_SetAllocator a p) (\<lambda>p1. package_run new ops (p1, h))"
| "package_run new (FillData ptr len # ops) (p, h) = bindR (OwnPackage_SetData new ptr len p h) (package_run new ops)"

text \<open>The allocator at the first \<open>SetData\<close>, and the last one that was set.\<close>

fun first_used :: "allocator option \<Rightarrow> pack_op list \<Rightarrow> allocator option" where
  "first_used a [] = None"
| "first_used a (GiveAllocator b # ops) = first_used b ops"
| "first_used a (FillData ptr len # ops) = a"

fun last_given :: "allocator option \<Rightarrow> pack_op list \<Rightarrow> allocator option" where
  "last_given a [] = a"
| "last_given a (GiveAllocator b # ops) = last_given b ops"
| "last_given a (FillData ptr len # ops) = last_given a ops"

lemma package_run_ok:
  assumes "package_run new ops (p, h) = Inr (p1, h1)" and "heap_is h (pack_mem p + M)" and "op_ok p"
    and "op_data p = None \<or> op_allocator p \<noteq> None"
  shows "heap_is h1 (pack_mem p1 + M) \<and> op_ok p1 \<and> op_allocator p1 = last_given (op_allocator p) ops
    \<and> (op_data p1 = None \<or> op_allocator p1 \<noteq> None) \<and> map_option (bl_allocator \<circ> snd) (op_data p1)
        = (case op_data p of Some (_, b) \<Rightarrow> Some (bl_allocator b) | None \<Rightarrow> first_used (op_allocator p) ops)"
  using assms
proof (induction ops arbitrary: p h)
  case Nil
  then show ?case by (auto split: option.splits)
next
  case (Cons op ops)
  show ?case
  proof (cases op)
    case (GiveAllocator a)
    let ?p = "p\<lparr>op_allocator := a\<rparr>"
    have "package_run new ops (?p, h) = Inr (p1, h1)" "a \<noteq> None"
      using Cons.prems(1) GiveAllocator by (auto simp: OwnPackage_SetAllocator_def bindR_Inr_iff)
    moreover have "pack_mem ?p = pack_mem p" "op_ok ?p = op_ok p" by (simp_all add: pack_mem_def op_ok_def)
    ultimately show ?thesis using Cons.IH [of ?p h] Cons.prems GiveAllocator by (auto split: option.splits)
  next
    case (FillData ptr len)
    from Cons.prems(1) FillData obtain p2 h2 where r: "OwnPackage_SetData new ptr len p h = Inr (p2, h2)"
        "package_run new ops (p2, h2) = Inr (p1, h1)" by auto
    from SetData_agrees [OF Cons.prems(2,3), of new ptr len undefined] r(1) obtain q b where
      c: "op_ok p2" "heap_is h2 (pack_mem p2 + M)" "op_allocator p2 = op_allocator p" "op_data p2 = Some (q, b)"
        "bl_allocator b = made_by p" "op_data p = None \<longrightarrow> op_allocator p \<noteq> None" by auto
    have "op_allocator p \<noteq> None" using c(6) Cons.prems(4) by (cases "op_data p = None") simp_all
    with Cons.IH [OF r(2) c(2,1)] c FillData show ?thesis
      by (auto simp: made_by_def split: option.splits)
  qed
qed

lemma heap_is_iff: "heap_is h M \<Longrightarrow> hp_live h p = Some a \<longleftrightarrow> (p, a) \<in># M"
  by (simp add: heap_is_def flip: count_greater_zero_iff)

lemma heap_is_unique:
  assumes "heap_is h M" and "heap_is h' M"
  shows "hp_live h = hp_live h'"
proof
  fix p
  have "\<forall>a. hp_live h p = Some a \<longleftrightarrow> hp_live h' p = Some a"
    by (simp add: heap_is_iff [OF assms(1)] heap_is_iff [OF assms(2)])
  then show "hp_live h p = hp_live h' p" by (metis not_Some_eq)
qed

text \<open>An object gives back its memory when its destructor gives back what it holds (\<open>N\<close>).\<close>

lemma default_allocator_ok:
  assumes "heap_is h M" and "ObjectDefaultAllocator_Create new a sz T h = (Some (p, x), h1)"
    and "heap_is h2 (N + add_mset (p, a) M)" and "\<And>K h. heap_is h (N + K) \<Longrightarrow> \<exists>h'. dtor y h = Inr h' \<and> heap_is h' K"
  shows "x = T \<and> heap_is h1 (add_mset (p, a) M)
    \<and> (\<exists>h3. ObjectDefaultAllocator_Destroy a dtor (p, y) h2 = Inr h3 \<and> hp_live h3 = hp_live h)"
proof -
  from assms(2) have c: "Allocate new a sz h = (Some p, h1)" "x = T"
    by (auto simp: ObjectDefaultAllocator_Create_def split: prod.splits option.splits)
  from assms(4) [OF assms(3)] obtain h' where d: "dtor y h2 = Inr h'" "heap_is h' (add_mset (p, a) M)" by blast
  from heap_is_dealloc [OF d(2)] obtain h3 where e: "Deallocate a p h' = Inr h3" "heap_is h3 M" by blast
  from heap_is_unique [OF e(2) assms(1)] d(1) e(1) c heap_is_alloc [OF assms(1) c(1)] show ?thesis
    by (simp add: ObjectDefaultAllocator_Destroy_def)
qed

lemma in_mem_all_set: "(p, a) \<in># mem_all bs \<longleftrightarrow> (\<exists>b\<in>set bs. bl_begin b = Some p \<and> bl_allocator b = a)"
  by (induction bs) (auto simp: mem_of_def split: option.splits)

lemma in_mem_all: "(p, a) \<in># mem_all bs \<longleftrightarrow> (\<exists>i<length bs. bl_begin (bs ! i) = Some p \<and> bl_allocator (bs ! i) = a)"
  unfolding in_mem_all_set Bex_def in_set_conv_nth by blast

lemma heap_is_apart:
  assumes "heap_is h (M + N)" and "(p, a) \<in># M" and "(p, b) \<in># N"
  shows False
proof -
  have "hp_live h p = Some a" "hp_live h p = Some b" using assms heap_is_iff [OF assms(1)] by auto
  then have "a = b" by simp
  have "count (M + N) (p, a) \<le> 1" using assms(1) by (simp add: heap_is_def)
  moreover have "0 < count M (p, a)" "0 < count N (p, a)" using assms(2,3) \<open>a = b\<close> by simp_all
  ultimately show False by simp
qed

lemma nth_in_rest: "i < length bs \<Longrightarrow> j < length bs \<Longrightarrow> i \<noteq> j \<Longrightarrow> bs ! j \<in> set (take i bs @ drop (Suc i) bs)"
proof -
  assume a: "i < length bs" "j < length bs" "i \<noteq> j"
  show ?thesis
  proof (cases "j < i")
    case True
    with a have "take i bs ! j = bs ! j" "j < length (take i bs)" by simp_all
    then show ?thesis by (metis UnI1 nth_mem set_append)
  next
    case False
    with a have "drop (Suc i) bs ! (j - Suc i) = bs ! j" "j - Suc i < length (drop (Suc i) bs)" by simp_all
    then show ?thesis by (metis UnI2 nth_mem set_append)
  qed
qed

section \<open>Properties\<close>

text \<open>C10. Blocks own their memory: whatever a program makes, copies, assigns (also to themselves), swaps, resizes, fills and destroys, and
  whenever there is no memory, no block gives back an address twice or to the wrong allocator, and at every moment
  the addresses that are allocated are exactly the \<open>_pBegin\<close> of the blocks, each of one block and of its
  allocator: nothing leaks and nothing is shared.\<close>

theorem blocks_own_memory:
  "case blocks_run new ops ([], heap_empty) of
     Inl e \<Rightarrow> e \<noteq> BadFree
   | Inr (bs, h) \<Rightarrow>
       (\<forall>p a. hp_live h p = Some a \<longleftrightarrow> (\<exists>i<length bs. bl_begin (bs ! i) = Some p \<and> bl_allocator (bs ! i) = a))
       \<and> (\<forall>i<length bs. \<forall>j<length bs. \<forall>p. bl_begin (bs ! i) = Some p \<longrightarrow> bl_begin (bs ! j) = Some p \<longrightarrow> i = j)"
proof (cases "blocks_run new ops ([], heap_empty)")
  case (Inl e)
  with blocks_run_own [of "([], heap_empty)" new ops] heap_is_empty show ?thesis by (simp add: blocks_own_def)
next
  case (Inr x)
  obtain bs h where x: "x = (bs, h)" by (cases x)
  from blocks_run_own [of "([], heap_empty)" new ops] heap_is_empty Inr x have h: "heap_is h (mem_all bs)"
    by (simp add: blocks_own_def)
  have "i = j" if i: "i < length bs" "j < length bs" "bl_begin (bs ! i) = Some p" "bl_begin (bs ! j) = Some p" for i j p
  proof (rule ccontr)
    assume "i \<noteq> j"
    from nth_in_rest [OF i(1,2) this] i(4) have "(p, bl_allocator (bs ! j)) \<in># mem_all (take i bs @ drop (Suc i) bs)"
      by (subst in_mem_all_set) blast
    moreover have "(p, bl_allocator (bs ! i)) \<in># mem_of (bs ! i)" using i(3) by (simp add: mem_of_def)
    ultimately show False using heap_is_apart h [unfolded mem_all_split [OF i(1)]] by blast
  qed
  with heap_is_iff [OF h] in_mem_all Inr x show ?thesis by simp
qed

theorem blocks_own_memory_witness:
  "\<exists>bs h. blocks_run heap_1M [MakeBlock 4 UseNew, WriteBlock 0 0 (Foreign [1, 2, 3]) 3, CopyBlock 0, ResizeBlock 0 8,
      AssignBlock 1 1, DestroyBlock 0] ([], heap_empty) = Inr (bs, h)
    \<and> map bl_begin bs = [Some 4] \<and> map (db_data \<circ> bl_db) bs = [[1, 2, 3]] \<and> hp_live h 3 = None \<and> hp_live h 4 = Some UseNew"
proof -
  let ?r = "blocks_run heap_1M [MakeBlock 4 UseNew, WriteBlock 0 0 (Foreign [1, 2, 3]) 3, CopyBlock 0, ResizeBlock 0 8,
      AssignBlock 1 1, DestroyBlock 0] ([], heap_empty)"
  have "case ?r of Inl e \<Rightarrow> False
    | Inr (bs, h) \<Rightarrow> map bl_begin bs = [Some 4] \<and> map (db_data \<circ> bl_db) bs = [[1, 2, 3]] \<and> map bl_allocator bs = [UseNew]"
    by code_simp
  then obtain bs h where r: "?r = Inr (bs, h)" "map bl_begin bs = [Some 4]" "map (db_data \<circ> bl_db) bs = [[1, 2, 3]]"
      "map bl_allocator bs = [UseNew]" by (auto split: sum.splits)
  then obtain b where b: "bs = [b]" "bl_begin b = Some 4" "bl_allocator b = UseNew" by (auto simp: Cons_eq_map_conv)
  have "hp_live h p = Some a \<longleftrightarrow> p = 4 \<and> a = UseNew" for p a
    using blocks_own_memory [of heap_1M "[MakeBlock 4 UseNew, WriteBlock 0 0 (Foreign [1, 2, 3]) 3, CopyBlock 0,
      ResizeBlock 0 8, AssignBlock 1 1, DestroyBlock 0]"] r(1) b by auto
  note live = this
  have l: "hp_live h 3 = None" "hp_live h 4 = Some UseNew"
    using live [of 3] by (cases "hp_live h 3") (simp_all add: live)
  show ?thesis by (intro exI [of _ bs] exI [of _ h] conjI) (fact r l)+
qed

text \<open>C23. A package gives back what it holds: after any sequence of \<open>SetAllocator\<close> and \<open>SetData\<close> the destructor leaves the heap as
  it was before the package, unless \<open>SetAllocator\<close> has been called with another allocator after the first
  \<open>SetData\<close>; then it gives memory back to an allocator that did not provide it.\<close>

theorem package_memory:
  assumes "heap_is h M" and "package_run new ops (OwnPackage_new, h) = Inr (p, h1)"
  shows "if first_used None ops \<in> {None, last_given None ops}
     then \<exists>h2. OwnPackage_destroy p h1 = Inr h2 \<and> hp_live h2 = hp_live h
     else OwnPackage_destroy p h1 = Inl BadFree"
proof -
  have "heap_is h (pack_mem OwnPackage_new + M)" "op_ok OwnPackage_new"
      "op_data OwnPackage_new = None \<or> op_allocator OwnPackage_new \<noteq> None"
    using assms(1) by (simp_all add: OwnPackage_new_def pack_mem_def op_ok_def)
  from package_run_ok [OF assms(2) this] have r: "heap_is h1 (pack_mem p + M)" "op_allocator p = last_given None ops"
      "op_data p = None \<or> op_allocator p \<noteq> None"
      "map_option (bl_allocator \<circ> snd) (op_data p) = first_used None ops" by (auto simp: OwnPackage_new_def)
  show ?thesis
  proof (cases "op_data p")
    case None
    then have "OwnPackage_destroy p h1 = Inr h1" "heap_is h1 M"
      using OwnPackage_destroy_ok [OF r(1)] r(1) by (simp_all add: pack_mem_def)
    moreover from this(2) have "hp_live h1 = hp_live h" using assms(1) by (rule heap_is_unique)
    ultimately show ?thesis using None r(4) by simp
  next
    case (Some d)
    obtain q b where d: "d = (q, b)" by (cases d)
    then have f: "first_used None ops = Some (bl_allocator b)" using Some r(4) by simp
    show ?thesis
    proof (cases "op_allocator p = Some (bl_allocator b)")
      case True
      with OwnPackage_destroy_ok [OF r(1)] Some d obtain h2 where h2: "OwnPackage_destroy p h1 = Inr h2" "heap_is h2 M"
        by auto
      from h2(2) have "hp_live h2 = hp_live h" using assms(1) by (rule heap_is_unique)
      with h2 True f r(2) show ?thesis by simp
    next
      case False
      with OwnPackage_destroy_ok [OF r(1)] Some d f r(2,3) show ?thesis by auto
    qed
  qed
qed

theorem package_memory_witness:
  "(\<exists>p h1 h2. package_run heap_1M [GiveAllocator (Some UseNew), FillData (Foreign [65]) 1] (OwnPackage_new, heap_empty)
       = Inr (p, h1) \<and> OwnPackage_destroy p h1 = Inr h2 \<and> hp_live h2 = hp_live heap_empty)
   \<and> (\<exists>p h1. package_run heap_1M [GiveAllocator (Some UseNew), FillData (Foreign [65]) 1, GiveAllocator (Some UseMalloc)]
        (OwnPackage_new, heap_empty) = Inr (p, h1) \<and> OwnPackage_destroy p h1 = Inl BadFree)"
proof -
  let ?run = "\<lambda>ops. package_run heap_1M ops (OwnPackage_new, heap_empty)"
  let ?ops = "[GiveAllocator (Some UseNew), FillData (Foreign [65]) 1]" and ?bad = "[GiveAllocator (Some UseMalloc)]"
  have "\<not> isl (?run ?ops)" "\<not> isl (?run (?ops @ ?bad))" by code_simp+
  then obtain p h1 q h2 where r: "?run ?ops = Inr (p, h1)" "?run (?ops @ ?bad) = Inr (q, h2)"
    by (cases "?run ?ops"; cases "?run (?ops @ ?bad)") auto
  from package_memory [OF heap_is_empty r(1)] package_memory [OF heap_is_empty r(2)] r show ?thesis by auto
qed

end
