(* ===== verification/PoolOwnership.thy ===== *)
theory PoolOwnership
  imports Ownership ObjectPoolProps
begin

text \<open>
  The object pool of packages over the heap of theory Ownership: \<open>IncreaseObjects\<close> takes the memory of a chunk and constructs
  packages in it, the users fill the packages they have been given, and the destructor of the pool destroys
  the packages that are free and gives the chunks back.
\<close>

section \<open>The pool\<close>

text \<open>
  The pool with its allocator, the addresses \<open>Chunks_\<close>, the packages in the chunks, and the objects that \<open>Create\<close> has
  handed out and nobody has given back.
\<close>

record pool_world =
  pw_allocator :: allocator
  pw_pool :: ObjectPool
  pw_chunks :: "nat list"
  pw_pkgs :: "obj \<Rightarrow> own_package"
  pw_used :: "obj list"

definition OwnPool_IncreaseObjects :: "heap_new \<Rightarrow> u64 \<Rightarrow> u64 \<Rightarrow> pool_world \<Rightarrow> heap \<Rightarrow> (int \<times> pool_world \<times> heap) result" where
  "OwnPool_IncreaseObjects new sizeofT iIncNum w h =
     (let p = pw_pool w in
      if pl_curr p \<ge> pl_max p then Inr (- 1, w, h)
      else
        let n = (if pl_curr p + iIncNum > pl_max p then pl_max p - pl_curr p else iIncNum);
            c = length (pl_chunks p) in
        case Allocate new (pw_allocator w) (sizeofT * n) h of
          (None, h1) \<Rightarrow> Inr (- 1, w, h1)
        | (Some pChunk, h1) \<Rightarrow>
            if unat sizeofT * unat n \<ge> 2 ^ 64 then Inl OutOfBounds
            else Inr (0, w\<lparr>pw_pool := p\<lparr>pl_objects := pl_objects p @ map (Pair c) [0..<unat n],
                                        pl_chunks := pl_chunks p @ [unat n], pl_curr := pl_curr p + n\<rparr>,
                          pw_chunks := pw_chunks w @ [pChunk],
                          pw_pkgs := (\<lambda>x. if fst x = c then OwnPackage_new else pw_pkgs w x)\<rparr>, h1))"

definition OwnPool_new :: "heap_new \<Rightarrow> allocator \<Rightarrow> u64 \<Rightarrow> u64 \<Rightarrow> u64 \<Rightarrow> u64 \<Rightarrow> heap \<Rightarrow> (pool_world \<times> heap) result" where
  "OwnPool_new new pAllocator sizeofT iInitNum iMaxNum iIncNum h =
     (let p0 = \<lparr>pl_curr = 0, pl_max = iMaxNum, pl_inc = iIncNum, pl_objects = [], pl_chunks = []\<rparr>;
          p1 = (if pl_max p0 < iInitNum then p0\<lparr>pl_max := iInitNum, pl_inc := 0\<rparr> else p0)
      in bindR (OwnPool_IncreaseObjects new sizeofT iInitNum
                  \<lparr>pw_allocator = pAllocator, pw_pool = p1, pw_chunks = [], pw_pkgs = (\<lambda>_. OwnPackage_new), pw_used = []\<rparr> h)
           (\<lambda>(r, w, h1). Inr (w, h1)))"

definition OwnPool_take :: "pool_world \<Rightarrow> (obj option \<times> pool_world) result" where
  "OwnPool_take w =
     (case pl_objects (pw_pool w) of
        [] \<Rightarrow> Inl EmptyFront
      | x # xs \<Rightarrow> Inr (Some x, w\<lparr>pw_pool := (pw_pool w)\<lparr>pl_objects := xs\<rparr>, pw_used := x # pw_used w\<rparr>))"

definition OwnPool_Create :: "heap_new \<Rightarrow> u64 \<Rightarrow> pool_world \<Rightarrow> heap \<Rightarrow> (obj option \<times> pool_world \<times> heap) result" where
  "OwnPool_Create new sizeofT w h =
     (if pl_objects (pw_pool w) = []
      then bindR (OwnPool_IncreaseObjects new sizeofT (pl_inc (pw_pool w)) w h) (\<lambda>(r, w1, h1).
             if r \<noteq> 0 then Inr (None, w1, h1)
             else bindR (OwnPool_take w1) (\<lambda>(x, w2). Inr (x, w2, h1)))
      else bindR (OwnPool_take w) (\<lambda>(x, w1). Inr (x, w1, h)))"

definition OwnPool_Destroy :: "obj \<Rightarrow> pool_world \<Rightarrow> pool_world" where
  "OwnPool_Destroy x w =
     w\<lparr>pw_pool := snd (ObjectPool_Destroy_body (Some x) (pw_pool w)), pw_used := remove1 x (pw_used w)\<rparr>"

fun destroy_objects :: "(obj \<Rightarrow> own_package) \<Rightarrow> obj list \<Rightarrow> heap \<Rightarrow> heap result" where
  "destroy_objects pkgs [] h = Inr h"
| "destroy_objects pkgs (x # xs) h = bindR (OwnPackage_destroy (pkgs x) h) (destroy_objects pkgs xs)"

fun release_chunks :: "allocator \<Rightarrow> nat list \<Rightarrow> heap \<Rightarrow> heap result" where
  "release_chunks a [] h = Inr h"
| "release_chunks a (q # qs) h = bindR (Deallocate a q h) (release_chunks a qs)"

definition OwnPool_destroy :: "pool_world \<Rightarrow> heap \<Rightarrow> heap result" where
  "OwnPool_destroy w h =
     bindR (destroy_objects (pw_pkgs w) (pl_objects (pw_pool w)) h) (release_chunks (pw_allocator w) (pw_chunks w))"

text \<open>What the users of the pool do; a use of an object that they do not hold is none of them.\<close>

datatype pool_op = TakeObj | GiveObj obj | AllocObj obj "allocator option" | FillObj obj srcptr u64

fun pool_world_step :: "heap_new \<Rightarrow> u64 \<Rightarrow> pool_op \<Rightarrow> pool_world \<times> heap \<Rightarrow> (pool_world \<times> heap) result" where
  "pool_world_step new sz TakeObj (w, h) = bindR (OwnPool_Create new sz w h) (\<lambda>(x, w1, h1). Inr (w1, h1))"
| "pool_world_step new sz (GiveObj x) (w, h) = Inr (if x \<in> set (pw_used w) then OwnPool_Destroy x w else w, h)"
| "pool_world_step new sz (AllocObj x a) (w, h) =
     (if x \<in> set (pw_used w)
      then bindR (OwnPackage_SetAllocator a (pw_pkgs w x)) (\<lambda>p. Inr (w\<lparr>pw_pkgs := (pw_pkgs w)(x := p)\<rparr>, h)) else Inr (w, h))"
| "pool_world_step new sz (FillObj x ptr len) (w, h) =
     (if x \<in> set (pw_used w)
      then bindR (OwnPackage_SetData new ptr len (pw_pkgs w x) h) (\<lambda>(p, h1).
             Inr (w\<lparr>pw_pkgs := (pw_pkgs w)(x := p)\<rparr>, h1)) else Inr (w, h))"

fun pool_world_run :: "heap_new \<Rightarrow> u64 \<Rightarrow> pool_op list \<Rightarrow> pool_world \<times> heap \<Rightarrow> (pool_world \<times> heap) result" where
  "pool_world_run new sz [] s = Inr s"
| "pool_world_run new sz (op # ops) s = bindR (pool_world_step new sz op s) (pool_world_run new sz ops)"

text \<open>The pool is the one of theory ObjectPool.\<close>

lemma OwnPool_IncreaseObjects_pool:
  "ObjectPool_IncreaseObjects (\<lambda>_ n. new n \<noteq> None) sz inc (pw_pool w)
    = (case OwnPool_IncreaseObjects new sz inc w h of Inl e \<Rightarrow> Inl e | Inr (r, w', h') \<Rightarrow> Inr (r, pw_pool w'))"
  by (auto simp: OwnPool_IncreaseObjects_def ObjectPool_IncreaseObjects_def Allocate_eq Let_def split: option.splits)

lemma OwnPool_Create_pool:
  "fst (ObjectPool_Create_body (\<lambda>_ n. new n \<noteq> None) sz (pw_pool w))
    = (case OwnPool_Create new sz w h of Inl e \<Rightarrow> Inl e | Inr (x, w', h') \<Rightarrow> Inr x)"
proof (cases "pl_objects (pw_pool w)")
  case Nil
  note i = OwnPool_IncreaseObjects_pool [of new sz "pl_inc (pw_pool w)" w h]
  show ?thesis
  proof (cases "OwnPool_IncreaseObjects new sz (pl_inc (pw_pool w)) w h")
    case (Inl e)
    with i Nil show ?thesis by (simp add: ObjectPool_Create_body_def OwnPool_Create_def)
  next
    case (Inr y)
    obtain r w' h' where "y = (r, w', h')" by (cases y)
    with i Nil Inr show ?thesis
      by (simp add: ObjectPool_Create_body_def OwnPool_Create_def ObjectPool_take_def OwnPool_take_def split: list.split)
  qed
qed (simp add: ObjectPool_Create_body_def OwnPool_Create_def ObjectPool_take_def OwnPool_take_def)

section \<open>The invariant\<close>

definition chunk_mem :: "pool_world \<Rightarrow> (nat \<times> allocator) multiset" where
  "chunk_mem w = mset (map (\<lambda>q. (q, pw_allocator w)) (pw_chunks w))"

definition objs_mem :: "(obj \<Rightarrow> own_package) \<Rightarrow> obj list \<Rightarrow> (nat \<times> allocator) multiset" where
  "objs_mem pkgs xs = sum_list (map (pack_mem \<circ> pkgs) xs)"

definition op_good :: "allocator \<Rightarrow> own_package \<Rightarrow> bool" where
  "op_good a p \<longleftrightarrow> op_ok p \<and> op_allocator p \<in> {None, Some a}
     \<and> (\<forall>q b. op_data p = Some (q, b) \<longrightarrow> op_allocator p = Some a \<and> bl_allocator b = a)"

definition pw_inv :: "allocator \<Rightarrow> pool_world \<times> heap \<Rightarrow> bool" where
  "pw_inv a = (\<lambda>(w, h). let xs = pl_objects (pw_pool w) @ pw_used w in
     distinct xs \<and> (\<forall>x\<in>set xs. fst x < length (pl_chunks (pw_pool w)) \<and> op_good a (pw_pkgs w x))
     \<and> heap_is h (chunk_mem w + objs_mem (pw_pkgs w) xs))"

lemma objs_mem_simps [simp]:
  "objs_mem pkgs [] = {#}" "objs_mem pkgs (x # xs) = pack_mem (pkgs x) + objs_mem pkgs xs"
  "objs_mem pkgs (xs @ ys) = objs_mem pkgs xs + objs_mem pkgs ys"
  by (simp_all add: objs_mem_def)

lemma objs_mem_cong: "(\<And>x. x \<in> set xs \<Longrightarrow> pkgs x = pkgs' x) \<Longrightarrow> objs_mem pkgs xs = objs_mem pkgs' xs"
  unfolding objs_mem_def by (rule arg_cong [of _ _ sum_list]) simp

lemma objs_mem_remove1: "x \<in> set xs \<Longrightarrow> objs_mem pkgs xs = pack_mem (pkgs x) + objs_mem pkgs (remove1 x xs)"
  unfolding objs_mem_def by (simp add: sum_list_map_remove1)

lemma objs_mem_upd:
  "x \<in> set xs \<Longrightarrow> distinct xs \<Longrightarrow> objs_mem (pkgs(x := p)) xs = pack_mem p + objs_mem pkgs (remove1 x xs)"
  using objs_mem_remove1 [of x xs "pkgs(x := p)"] objs_mem_cong [of "remove1 x xs" "pkgs(x := p)" pkgs] by auto

lemma objs_mem_new: "(\<And>x. x \<in> set xs \<Longrightarrow> pkgs x = OwnPackage_new) \<Longrightarrow> objs_mem pkgs xs = {#}"
  by (induction xs) (simp_all add: pack_mem_def OwnPackage_new_def)

lemma IncreaseObjects_cases:
  assumes "OwnPool_IncreaseObjects new sz inc w h = Inr (r, w', h')"
  obtains (failed) "w' = w" "h' = h" "r = - 1"
  | (grown) q n where "Allocate new (pw_allocator w) (sz * n) h = (Some q, h')"
      "w' = w\<lparr>pw_pool := (pw_pool w)\<lparr>pl_objects := pl_objects (pw_pool w)
                  @ map (Pair (length (pl_chunks (pw_pool w)))) [0..<unat n],
              pl_chunks := pl_chunks (pw_pool w) @ [unat n], pl_curr := pl_curr (pw_pool w) + n\<rparr>,
            pw_chunks := pw_chunks w @ [q],
            pw_pkgs := (\<lambda>x. if fst x = length (pl_chunks (pw_pool w)) then OwnPackage_new else pw_pkgs w x)\<rparr>"
proof (cases "pl_curr (pw_pool w) \<ge> pl_max (pw_pool w)")
  case True
  with assms failed show ?thesis by (simp add: OwnPool_IncreaseObjects_def)
next
  case False
  define n where "n = (if pl_curr (pw_pool w) + inc > pl_max (pw_pool w)
      then pl_max (pw_pool w) - pl_curr (pw_pool w) else inc)"
  show ?thesis
  proof (cases "fst (Allocate new (pw_allocator w) (sz * n) h)")
    case None
    then have "Allocate new (pw_allocator w) (sz * n) h = (None, h)" by (auto simp: Allocate_eq split: option.splits)
    with assms failed False show ?thesis by (simp add: OwnPool_IncreaseObjects_def Let_def n_def)
  next
    case (Some q)
    then obtain h1 where "Allocate new (pw_allocator w) (sz * n) h = (Some q, h1)" by (metis prod.collapse)
    with assms grown [of n q] False show ?thesis
      unfolding OwnPool_IncreaseObjects_def Let_def n_def [symmetric] by (simp split: if_splits)
  qed
qed

lemma IncreaseObjects_pw_inv:
  assumes "pw_inv a (w, h)"
  shows "case OwnPool_IncreaseObjects new sz inc w h of Inl e \<Rightarrow> e \<noteq> BadFree | Inr (r, w', h') \<Rightarrow> pw_inv a (w', h')"
proof (cases "OwnPool_IncreaseObjects new sz inc w h")
  case (Inl e)
  then show ?thesis by (auto simp: OwnPool_IncreaseObjects_def Let_def split: if_splits option.splits prod.splits)
next
  case (Inr x)
  obtain r w' h' where x: "x = (r, w', h')" by (cases x)
  let ?c = "length (pl_chunks (pw_pool w))"
  let ?xs = "pl_objects (pw_pool w) @ pw_used w"
  have inv: "distinct ?xs" "\<forall>x\<in>set ?xs. fst x < ?c \<and> op_good a (pw_pkgs w x)"
      "heap_is h (chunk_mem w + objs_mem (pw_pkgs w) ?xs)"
    using assms by (simp_all add: pw_inv_def)
  from Inr [unfolded x] show ?thesis
  proof (cases rule: IncreaseObjects_cases)
    case failed
    with assms Inr x show ?thesis by simp
  next
    case (grown q n)
    let ?ys = "map (Pair ?c) [0..<unat n]"
    have fresh: "(?c, i) \<notin> set ?xs" for i using inv(2) by fastforce
    have new: "objs_mem (pw_pkgs w') ?ys = {#}" by (rule objs_mem_new) (auto simp: grown(2))
    have old: "objs_mem (pw_pkgs w') ?xs = objs_mem (pw_pkgs w) ?xs"
    proof (rule objs_mem_cong)
      fix x assume "x \<in> set ?xs"
      then have "fst x < ?c" using inv(2) by blast
      then show "pw_pkgs w' x = pw_pkgs w x" by (simp add: grown(2))
    qed
    have xs: "pl_objects (pw_pool w') @ pw_used w' = pl_objects (pw_pool w) @ ?ys @ pw_used w" by (simp add: grown(2))
    have "chunk_mem w' = add_mset (q, pw_allocator w) (chunk_mem w)" by (simp add: grown(2) chunk_mem_def)
    moreover have "objs_mem (pw_pkgs w') (pl_objects (pw_pool w') @ pw_used w') = objs_mem (pw_pkgs w) ?xs"
      using new old unfolding xs by simp
    ultimately have "heap_is h' (chunk_mem w' + objs_mem (pw_pkgs w') (pl_objects (pw_pool w') @ pw_used w'))"
      using heap_is_alloc [OF inv(3) grown(1)] by simp
    moreover have "distinct (pl_objects (pw_pool w') @ pw_used w')"
      unfolding xs using inv(1) fresh by (auto simp: distinct_map inj_on_def)
    moreover have "op_good a OwnPackage_new" by (simp add: op_good_def OwnPackage_new_def op_ok_def)
    then have "\<forall>x\<in>set (pl_objects (pw_pool w') @ pw_used w').
        fst x < length (pl_chunks (pw_pool w')) \<and> op_good a (pw_pkgs w' x)"
      unfolding xs using inv(2) by (auto simp: grown(2) less_Suc_eq)
    ultimately show ?thesis using Inr x by (simp add: pw_inv_def)
  qed
qed

lemma take_pw_inv:
  assumes "pw_inv a (w, h)"
  shows "case OwnPool_take w of Inl e \<Rightarrow> e \<noteq> BadFree | Inr (x, w') \<Rightarrow> pw_inv a (w', h)"
proof (cases "pl_objects (pw_pool w)")
  case (Cons x xs)
  have "distinct (xs @ x # pw_used w) \<longleftrightarrow> distinct ((x # xs) @ pw_used w)"
    "set (xs @ x # pw_used w) = set ((x # xs) @ pw_used w)" by auto
  with Cons assms show ?thesis by (simp add: OwnPool_take_def pw_inv_def chunk_mem_def ac_simps)
qed (simp add: OwnPool_take_def)

lemma Create_pw_inv:
  assumes "pw_inv a (w, h)"
  shows "case OwnPool_Create new sz w h of Inl e \<Rightarrow> e \<noteq> BadFree | Inr (x, w', h') \<Rightarrow> pw_inv a (w', h')"
proof (cases "pl_objects (pw_pool w) = []")
  case True
  note i = IncreaseObjects_pw_inv [OF assms, of new sz "pl_inc (pw_pool w)"]
  show ?thesis
  proof (cases "OwnPool_IncreaseObjects new sz (pl_inc (pw_pool w)) w h")
    case (Inl e)
    with i True show ?thesis by (simp add: OwnPool_Create_def)
  next
    case (Inr y)
    obtain r w1 h1 where y: "y = (r, w1, h1)" by (cases y)
    then have "pw_inv a (w1, h1)" using i Inr by simp
    from take_pw_inv [OF this] this True Inr y show ?thesis
      by (auto simp: OwnPool_Create_def split: sum.splits)
  qed
next
  case False
  with take_pw_inv [OF assms] show ?thesis by (auto simp: OwnPool_Create_def split: sum.splits)
qed

lemma Destroy_pw_inv:
  assumes "pw_inv a (w, h)" and "x \<in> set (pw_used w)"
  shows "pw_inv a (OwnPool_Destroy x w, h)"
proof -
  let ?xs = "pl_objects (pw_pool w) @ pw_used w" and ?ys = "(x # pl_objects (pw_pool w)) @ remove1 x (pw_used w)"
  have m: "mset ?ys = mset ?xs" using assms(2) by simp
  then have st: "set ?ys = set ?xs" by (metis set_mset_mset)
  have d: "distinct ?ys" using assms(1) mset_eq_imp_distinct_iff [OF m] by (simp add: pw_inv_def)
  have o: "objs_mem (pw_pkgs w) ?ys = objs_mem (pw_pkgs w) ?xs"
    using objs_mem_remove1 [OF assms(2), of "pw_pkgs w"] by (simp add: ac_simps)
  have "heap_is h (chunk_mem w + objs_mem (pw_pkgs w) ?ys)"
    "\<forall>y\<in>set ?ys. fst y < length (pl_chunks (pw_pool w)) \<and> op_good a (pw_pkgs w y)"
    unfolding o st using assms(1) by (simp_all add: pw_inv_def)
  moreover have "pl_objects (pw_pool (OwnPool_Destroy x w)) @ pw_used (OwnPool_Destroy x w) = ?ys"
    "chunk_mem (OwnPool_Destroy x w) = chunk_mem w" "pw_pkgs (OwnPool_Destroy x w) = pw_pkgs w"
    "pl_chunks (pw_pool (OwnPool_Destroy x w)) = pl_chunks (pw_pool w)"
    by (simp_all add: OwnPool_Destroy_def ObjectPool_Destroy_body_def chunk_mem_def)
  ultimately show ?thesis using d by (simp only: pw_inv_def Let_def prod.case)
qed

text \<open>A use of one package that leaves what the others hold.\<close>

lemma use_pw_inv:
  assumes inv: "pw_inv a (w, h)" and x: "x \<in> set (pw_used w)"
    and use: "\<And>M. heap_is h (pack_mem (pw_pkgs w x) + M) \<Longrightarrow> heap_is h' (pack_mem p + M)" and good: "op_good a p"
  shows "pw_inv a (w\<lparr>pw_pkgs := (pw_pkgs w)(x := p)\<rparr>, h')"
proof -
  let ?xs = "pl_objects (pw_pool w) @ pw_used w"
  have m: "x \<in> set ?xs" "distinct ?xs" using inv x by (simp_all add: pw_inv_def)
  have "heap_is h (chunk_mem w + objs_mem (pw_pkgs w) ?xs)" using inv by (simp add: pw_inv_def)
  then have "heap_is h (pack_mem (pw_pkgs w x) + (chunk_mem w + objs_mem (pw_pkgs w) (remove1 x ?xs)))"
    unfolding objs_mem_remove1 [OF m(1)] by (simp only: ac_simps)
  from use [OF this] have "heap_is h' (chunk_mem w + objs_mem ((pw_pkgs w)(x := p)) ?xs)"
    unfolding objs_mem_upd [OF m] by (simp only: ac_simps)
  moreover have "\<forall>y\<in>set ?xs. fst y < length (pl_chunks (pw_pool w)) \<and> op_good a (((pw_pkgs w)(x := p)) y)"
    using inv good by (simp add: pw_inv_def)
  ultimately show ?thesis using m(2) by (simp add: pw_inv_def chunk_mem_def)
qed

definition allocs_ok :: "allocator \<Rightarrow> pool_op list \<Rightarrow> bool" where
  "allocs_ok a ops \<longleftrightarrow> (\<forall>x c. AllocObj x (Some c) \<in> set ops \<longrightarrow> c = a)"

lemma pool_world_step_inv:
  assumes "pw_inv a s" and "allocs_ok a [op]"
  shows "case pool_world_step new sz op s of Inl e \<Rightarrow> e \<noteq> BadFree | Inr s' \<Rightarrow> pw_inv a s'"
proof -
  obtain w h where s: "s = (w, h)" by (cases s)
  note inv = assms(1) [unfolded s]
  have good: "x \<in> set (pw_used w) \<Longrightarrow> op_good a (pw_pkgs w x)" for x using inv by (simp add: pw_inv_def)
  show ?thesis
  proof (cases op)
    case TakeObj
    with Create_pw_inv [OF inv, of new sz] show ?thesis by (auto simp: s split: sum.splits)
  next
    case (GiveObj x)
    with Destroy_pw_inv [OF inv, of x] inv show ?thesis by (simp add: s)
  next
    case (AllocObj x c)
    show ?thesis
    proof (cases "x \<in> set (pw_used w) \<and> c \<noteq> None")
      case True
      then have c: "c = Some a"
        using assms(2) [unfolded allocs_ok_def, rule_format, of x "the c"] AllocObj by auto
      have "op_good a ((pw_pkgs w x)\<lparr>op_allocator := c\<rparr>)" using good [of x] True c by (auto simp: op_good_def op_ok_def)
      moreover have "pack_mem ((pw_pkgs w x)\<lparr>op_allocator := c\<rparr>) = pack_mem (pw_pkgs w x)" by (simp add: pack_mem_def)
      ultimately have "pw_inv a (w\<lparr>pw_pkgs := (pw_pkgs w)(x := (pw_pkgs w x)\<lparr>op_allocator := c\<rparr>)\<rparr>, h)"
        using use_pw_inv [OF inv, of x h] True by simp
      with True AllocObj show ?thesis by (simp add: s OwnPackage_SetAllocator_def guardR_def)
    qed (use inv AllocObj s in \<open>auto simp: OwnPackage_SetAllocator_def guardR_def\<close>)
  next
    case (FillObj x ptr len)
    show ?thesis
    proof (cases "x \<in> set (pw_used w)")
      case True
      let ?r = "OwnPackage_SetData new ptr len (pw_pkgs w x) h"
      have ok: "op_ok (pw_pkgs w x)" using good [OF True] by (simp add: op_good_def)
      have m: "x \<in> set (pl_objects (pw_pool w) @ pw_used w)" using True by simp
      have "heap_is h (chunk_mem w + objs_mem (pw_pkgs w) (pl_objects (pw_pool w) @ pw_used w))"
        using inv by (simp add: pw_inv_def)
      then have h: "heap_is h (pack_mem (pw_pkgs w x) + (chunk_mem w
          + objs_mem (pw_pkgs w) (remove1 x (pl_objects (pw_pool w) @ pw_used w))))"
        unfolding objs_mem_remove1 [OF m] by (simp only: ac_simps)
      show ?thesis
      proof (cases ?r)
        case (Inl e)
        then have "e \<noteq> BadFree" using SetData_agrees [OF h ok, of new ptr len undefined] by auto
        with Inl True FillObj show ?thesis by (simp add: s)
      next
        case (Inr y)
        obtain p h' where y: "y = (p, h')" by (cases y)
        have sd: "op_ok p" "op_allocator p = op_allocator (pw_pkgs w x)"
            "\<exists>q b. op_data p = Some (q, b) \<and> bl_allocator b = made_by (pw_pkgs w x)"
            "op_data (pw_pkgs w x) = None \<longrightarrow> op_allocator (pw_pkgs w x) \<noteq> None"
          using SetData_agrees [OF h ok, of new ptr len undefined] Inr y by auto
        have "made_by (pw_pkgs w x) = a \<and> op_allocator (pw_pkgs w x) = Some a"
          using good [OF True] sd(4) by (cases "op_data (pw_pkgs w x)") (auto simp: op_good_def made_by_def)
        with sd have g: "op_good a p" by (auto simp: op_good_def)
        have "heap_is h (pack_mem (pw_pkgs w x) + M) \<Longrightarrow> heap_is h' (pack_mem p + M)" for M
          using SetData_agrees [OF _ ok, of h M new ptr len undefined] Inr y by auto
        from use_pw_inv [OF inv True this g] True FillObj Inr y show ?thesis by (simp add: s)
      qed
    qed (use inv FillObj s in simp)
  qed
qed

lemma pool_world_run_inv:
  "pw_inv a s \<Longrightarrow> allocs_ok a ops
    \<Longrightarrow> case pool_world_run new sz ops s of Inl e \<Rightarrow> e \<noteq> BadFree | Inr s' \<Rightarrow> pw_inv a s'"
proof (induction ops arbitrary: s)
  case (Cons op ops)
  have "allocs_ok a [op]" "allocs_ok a ops" using Cons.prems(2) by (auto simp: allocs_ok_def)
  note step = pool_world_step_inv [OF Cons.prems(1) this(1), of new sz] and ops = this(2)
  show ?case
  proof (cases "pool_world_step new sz op s")
    case (Inr s')
    then have "pw_inv a s'" using step by simp
    from Cons.IH [OF this ops] Inr show ?thesis by simp
  qed (use step in simp)
qed simp

lemma destroy_objects_ok:
  "heap_is h (objs_mem pkgs xs + M) \<Longrightarrow> \<forall>x\<in>set xs. op_good a (pkgs x)
    \<Longrightarrow> \<exists>h'. destroy_objects pkgs xs h = Inr h' \<and> heap_is h' M"
proof (induction xs arbitrary: h)
  case (Cons x xs)
  have h: "heap_is h (pack_mem (pkgs x) + (objs_mem pkgs xs + M))" using Cons.prems(1) by (simp add: ac_simps)
  have "\<exists>h1. OwnPackage_destroy (pkgs x) h = Inr h1 \<and> heap_is h1 (objs_mem pkgs xs + M)"
  proof (cases "op_data (pkgs x)")
    case None
    with h OwnPackage_destroy_ok [OF h] show ?thesis by (simp add: pack_mem_def)
  next
    case (Some d)
    obtain q b where "d = (q, b)" by (cases d)
    with Some Cons.prems(2) OwnPackage_destroy_ok [OF h] show ?thesis by (auto simp: op_good_def)
  qed
  with Cons.IH Cons.prems(2) show ?case by fastforce
qed simp

lemma release_chunks_ok:
  "heap_is h (mset (map (\<lambda>q. (q, a)) qs) + M) \<Longrightarrow> \<exists>h'. release_chunks a qs h = Inr h' \<and> heap_is h' M"
proof (induction qs arbitrary: h)
  case (Cons q qs)
  then have "heap_is h (add_mset (q, a) (mset (map (\<lambda>q. (q, a)) qs) + M))" by simp
  from heap_is_dealloc [OF this] Cons.IH show ?case by fastforce
qed simp

lemma OwnPool_destroy_ok:
  assumes "pw_inv a (w, h)"
  shows "\<exists>h'. OwnPool_destroy w h = Inr h' \<and> heap_is h' (objs_mem (pw_pkgs w) (pw_used w))"
proof -
  have "heap_is h (objs_mem (pw_pkgs w) (pl_objects (pw_pool w)) + (chunk_mem w + objs_mem (pw_pkgs w) (pw_used w)))"
    using assms by (simp add: pw_inv_def ac_simps)
  from destroy_objects_ok [OF this, of a] assms obtain h1 where
    "destroy_objects (pw_pkgs w) (pl_objects (pw_pool w)) h = Inr h1"
    "heap_is h1 (chunk_mem w + objs_mem (pw_pkgs w) (pw_used w))" by (auto simp: pw_inv_def)
  with release_chunks_ok [of h1 "pw_allocator w" "pw_chunks w"] show ?thesis
    by (auto simp: OwnPool_destroy_def chunk_mem_def)
qed

lemma OwnPool_new_inv:
  assumes "OwnPool_new new c sz ini mx inc heap_empty = Inr (w, h)"
  shows "pw_inv a (w, h) \<and> pw_used w = []"
proof -
  let ?p0 = "\<lparr>pl_curr = 0, pl_max = mx, pl_inc = inc, pl_objects = [], pl_chunks = []\<rparr>"
  let ?w = "\<lparr>pw_allocator = c, pw_pool = (if mx < ini then ?p0\<lparr>pl_max := ini, pl_inc := 0\<rparr> else ?p0), pw_chunks = [],
      pw_pkgs = (\<lambda>_. OwnPackage_new), pw_used = []\<rparr>"
  have "pw_inv a (?w, heap_empty)" using heap_is_empty by (simp add: pw_inv_def chunk_mem_def)
  from IncreaseObjects_pw_inv [OF this, of new sz ini] assms
  obtain r where r: "OwnPool_IncreaseObjects new sz ini ?w heap_empty = Inr (r, w, h)" "pw_inv a (w, h)"
    by (auto simp: OwnPool_new_def Let_def bindR_Inr_iff split: sum.splits)
  from r(1) have "pw_used w = []" by (cases rule: IncreaseObjects_cases) simp_all
  with r(2) show ?thesis by simp
qed

lemma in_objs_mem: "x \<in># objs_mem pkgs xs \<longleftrightarrow> (\<exists>y\<in>set xs. x \<in># pack_mem (pkgs y))"
  by (induction xs) auto

section \<open>Properties\<close>

text \<open>C11. The pool and its packages give all memory back, with one exception: when a pool has been made, its packages taken, given
  an allocator (always the same), filled and given back in any way, the destructor of the pool frees no address twice and
  none to the wrong allocator, and what is allocated afterwards is exactly what the packages hold that were not given
  back before: they are never destroyed.\<close>

theorem pool_memory:
  assumes "OwnPool_new new c sz ini mx inc heap_empty = Inr (w0, h0)" and "allocs_ok a ops"
    and "pool_world_run new sz ops (w0, h0) = Inr (w, h)"
  shows "\<exists>h'. OwnPool_destroy w h = Inr h'
    \<and> (\<forall>p b. hp_live h' p = Some b \<longleftrightarrow> (\<exists>x\<in>set (pw_used w). (p, b) \<in># pack_mem (pw_pkgs w x)))"
proof -
  have "pw_inv a (w0, h0)" using OwnPool_new_inv [OF assms(1)] by simp
  from pool_world_run_inv [OF this assms(2), of new sz] assms(3) have "pw_inv a (w, h)" by simp
  from OwnPool_destroy_ok [OF this] obtain h' where h': "OwnPool_destroy w h = Inr h'"
      "heap_is h' (objs_mem (pw_pkgs w) (pw_used w))" by blast
  from heap_is_iff [OF h'(2)] h'(1) show ?thesis by (simp add: in_objs_mem)
qed

text \<open>A heap that is out of memory for the block of 1024 bytes that a package asks for first.\<close>

definition heap_small :: heap_new where
  "heap_small n = (if unat n \<le> 40 then Some (replicate (unat n) 0) else None)"

lemma small_pool:
  "OwnPool_new heap_small UseNew 20 2 2 0 heap_empty
    = Inr (\<lparr>pw_allocator = UseNew, pw_pool = \<lparr>pl_curr = 2, pl_max = 2, pl_inc = 0, pl_objects = [(0, 0), (0, 1)], pl_chunks = [2]\<rparr>,
        pw_chunks = [1], pw_pkgs = (\<lambda>_. OwnPackage_new), pw_used = []\<rparr>, \<lparr>hp_live = [1 \<mapsto> UseNew], hp_next = 2\<rparr>)"
  by (simp add: OwnPool_new_def OwnPool_IncreaseObjects_def Allocate_eq heap_small_def heap_empty_def Let_def upt_rec)
    (rule ext, simp)

lemma small_fill:
  "\<exists>b h. OwnPackage_SetData heap_small (Foreign [65]) 1 \<lparr>op_allocator = Some UseNew, op_data = None\<rparr>
      \<lparr>hp_live = [1 \<mapsto> UseNew], hp_next = 2\<rparr> = Inr (\<lparr>op_allocator = Some UseNew, op_data = Some (2, b)\<rparr>, h)
    \<and> bl_begin b = Some 3 \<and> bl_allocator b = UseNew"
proof -
  let ?r = "OwnPackage_SetData heap_small (Foreign [65]) 1 \<lparr>op_allocator = Some UseNew, op_data = None\<rparr>
      \<lparr>hp_live = [1 \<mapsto> UseNew], hp_next = 2\<rparr>"
  have "case ?r of Inl e \<Rightarrow> False | Inr (p, h) \<Rightarrow> op_allocator p = Some UseNew
      \<and> map_option (\<lambda>(q, b). (q, bl_begin b, bl_allocator b)) (op_data p) = Some (2, Some 3, UseNew)"
    by code_simp
  then obtain p h where "?r = Inr (p, h)" "op_allocator p = Some UseNew"
      "map_option (\<lambda>(q, b). (q, bl_begin b, bl_allocator b)) (op_data p) = Some (2, Some 3, UseNew)"
    by (auto split: sum.splits)
  then show ?thesis by (cases p) auto
qed

theorem pool_memory_witness:
  "\<exists>w h h'. bindR (OwnPool_new heap_small UseNew 20 2 2 0 heap_empty) (pool_world_run heap_small 20 [TakeObj, TakeObj,
        GiveObj (0, 1), AllocObj (0, 0) (Some UseNew), FillObj (0, 0) (Foreign [65]) 1]) = Inr (w, h)
    \<and> OwnPool_destroy w h = Inr h' \<and> hp_live h' 1 = None \<and> hp_live h' 2 = Some UseNew \<and> hp_live h' 4 = None"
proof -
  let ?ops = "[TakeObj, TakeObj, GiveObj (0, 1), AllocObj (0, 0) (Some UseNew), FillObj (0, 0) (Foreign [65]) 1]"
  from small_fill obtain b h where f: "OwnPackage_SetData heap_small (Foreign [65]) 1
        \<lparr>op_allocator = Some UseNew, op_data = None\<rparr> \<lparr>hp_live = [1 \<mapsto> UseNew], hp_next = 2\<rparr>
      = Inr (\<lparr>op_allocator = Some UseNew, op_data = Some (2, b)\<rparr>, h)" "bl_begin b = Some 3" "bl_allocator b = UseNew" by blast
  note run = f(1) [unfolded One_nat_def] OwnPool_Create_def OwnPool_take_def OwnPool_Destroy_def ObjectPool_Destroy_body_def
    OwnPackage_SetAllocator_def OwnPackage_new_def
  let ?w0 = "\<lparr>pw_allocator = UseNew, pw_pool = \<lparr>pl_curr = 2, pl_max = 2, pl_inc = 0, pl_objects = [(0, 0), (0, 1)], pl_chunks = [2]\<rparr>,
        pw_chunks = [1], pw_pkgs = (\<lambda>_. OwnPackage_new), pw_used = []\<rparr>" and ?h0 = "\<lparr>hp_live = [1 \<mapsto> UseNew], hp_next = 2\<rparr>"
  have "\<exists>w. pool_world_run heap_small 20 ?ops (?w0, ?h0) = Inr (w, h) \<and> pw_used w = [(0, 0)]
      \<and> pw_pkgs w (0, 0) = \<lparr>op_allocator = Some UseNew, op_data = Some (2, b)\<rparr>"
    by (simp add: run)
  then obtain w where r: "pool_world_run heap_small 20 ?ops (?w0, ?h0) = Inr (w, h)" "pw_used w = [(0, 0)]"
      "pw_pkgs w (0, 0) = \<lparr>op_allocator = Some UseNew, op_data = Some (2, b)\<rparr>" by blast
  have "allocs_ok UseNew ?ops" by (simp add: allocs_ok_def)
  from pool_memory [OF small_pool this r(1)] obtain h' where h': "OwnPool_destroy w h = Inr h'"
      "\<And>p b. hp_live h' p = Some b \<longleftrightarrow> (\<exists>x\<in>set (pw_used w). (p, b) \<in># pack_mem (pw_pkgs w x))" by blast
  have live: "hp_live h' p = Some c \<longleftrightarrow> (p = 2 \<or> p = 3) \<and> c = UseNew" for p c
    using h'(2) r f by (auto simp: pack_mem_def mem_of_def)
  have "hp_live h' 1 = None" "hp_live h' 4 = None"
    using live [of 1] live [of 4] by (cases "hp_live h' 1"; cases "hp_live h' 4"; simp)+
  with small_pool r(1) h'(1) live [of 2] show ?thesis by auto
qed

end
