(* ===== verification/SockAddr.thy ===== *)
theory SockAddr
  imports CLib "HOL-Library.Sublist"
begin

text \<open>
  \<open>nets/inetaddr.cpp\<close>, \<open>nets/unixaddr.cpp\<close> and \<open>nets/sockaddr.cpp\<close>: the addresses of the sockets and
  their text form. C strings are the lists of their bytes. Name resolution, \<open>inet_pton\<close> and
  \<open>inet_ntop\<close> are outside the repository: the record \<open>resolver\<close> gives what \<open>gethostbyname_r\<close> does for a name, the
  value that \<open>inet_pton\<close> leaves in the cleared \<open>sin_addr\<close>, and the text of such a value.
\<close>

type_synonym cstring = "byte list"

text \<open>What a \<open>const char*\<close> to the bytes of a string is read as.\<close>

definition c_str :: "cstring \<Rightarrow> cstring" where
  "c_str s = takeWhile (\<lambda>c. c \<noteq> 0) s"

text \<open>
  \<open>gethostbyname_r\<close> returns an error number (\<open>LookupFails\<close>), or returns 0 with a null \<open>result\<close> when there is no such
  name (\<open>NotFound\<close>), with an empty list of addresses, or with a first address, here as \<open>inet_ntop\<close> prints it.
\<close>

datatype host_lookup = LookupFails | NotFound | NoAddress | Found cstring

record resolver =
  rs_gethostbyname :: "cstring \<Rightarrow> host_lookup"
  rs_pton :: "cstring \<Rightarrow> u32"
  rs_ntop :: "u32 \<Rightarrow> cstring"

section \<open>INetAddr and UnixAddr\<close>

definition ZERO_IP :: cstring where "ZERO_IP = [48, 46, 48, 46, 48, 46, 48]"
definition ADDR_LOCALHOST :: cstring where "ADDR_LOCALHOST = [49, 50, 55, 46, 48, 46, 48, 46, 49]"

record INetAddr =
  in_sHost :: cstring
  in_sIP :: cstring
  in_uPort :: u16

definition GetIPByHostName :: "resolver \<Rightarrow> cstring \<Rightarrow> cstring result" where
  "GetIPByHostName rs sHost =
     (if sHost \<noteq> ZERO_IP
      then (case rs_gethostbyname rs (c_str sHost) of
              LookupFails \<Rightarrow> Inr ZERO_IP
            | NotFound \<Rightarrow> Inl NullDeref
            | NoAddress \<Rightarrow> Inr ZERO_IP
            | Found ip \<Rightarrow> Inr ip)
      else Inr sHost)"

definition INetAddr_of_port :: "u16 \<Rightarrow> INetAddr" where
  "INetAddr_of_port uPort = \<lparr>in_sHost = ZERO_IP, in_sIP = ZERO_IP, in_uPort = uPort\<rparr>"

definition INetAddr_new :: "resolver \<Rightarrow> cstring \<Rightarrow> u16 \<Rightarrow> INetAddr result" where
  "INetAddr_new rs sIP uPort =
     bindR (GetIPByHostName rs sIP) (\<lambda>ip. Inr \<lparr>in_sHost = sIP, in_sIP = ip, in_uPort = uPort\<rparr>)"

definition INetAddr_of_raw :: "resolver \<Rightarrow> u16 \<Rightarrow> u32 \<Rightarrow> INetAddr" where
  "INetAddr_of_raw rs sin_port sin_addr =
     (let ip = rs_ntop rs sin_addr in \<lparr>in_sHost = ip, in_sIP = ip, in_uPort = bswap sin_port\<rparr>)"

definition INetAddr_ToString :: "INetAddr \<Rightarrow> cstring" where
  "INetAddr_ToString a = in_sHost a @ [58] @ show_nat 10 (unat (in_uPort a))"

record UnixAddr =
  ua_sPath :: cstring

definition UnixAddr_ToString :: "UnixAddr \<Rightarrow> cstring" where
  "UnixAddr_ToString a = ua_sPath a"

section \<open>SockAddr\<close>

definition AF_LOCAL :: u16 where "AF_LOCAL = 1"
definition AF_INET :: u16 where "AF_INET = 2"
definition SUN_PATH_LEN :: nat where "SUN_PATH_LEN = 108"

text \<open>
  The union \<open>stAddr_\<close>, which is cleared before it is filled: nothing, an IPv4 address (port and
  address as in memory), or a path; and any other family, which \<open>accept\<close> can return.
\<close>

datatype sockaddr = RawZero | RawInet u16 u32 | RawUnix cstring | RawOther u16

record SockAddr =
  sa_sString :: cstring
  sa_iLen :: u32
  sa_stAddr :: sockaddr

definition SockAddr_new :: SockAddr where
  "SockAddr_new = \<lparr>sa_sString = [], sa_iLen = 0, sa_stAddr = RawZero\<rparr>"

definition SockAddr_GetFamily :: "SockAddr \<Rightarrow> u16" where
  "SockAddr_GetFamily sa =
     (case sa_stAddr sa of RawZero \<Rightarrow> 0 | RawInet _ _ \<Rightarrow> AF_INET | RawUnix _ \<Rightarrow> AF_LOCAL | RawOther f \<Rightarrow> f)"

definition SockAddr_Assign_inet :: "resolver \<Rightarrow> INetAddr \<Rightarrow> SockAddr" where
  "SockAddr_Assign_inet rs a =
     \<lparr>sa_sString = INetAddr_ToString a, sa_iLen = 16,
      sa_stAddr = RawInet (bswap (in_uPort a)) (rs_pton rs (in_sIP a))\<rparr>"

text \<open>\<open>strncpy\<close> copies up to the terminating zero and at most 107 bytes.\<close>

definition SockAddr_Assign_unix :: "UnixAddr \<Rightarrow> SockAddr" where
  "SockAddr_Assign_unix a =
     \<lparr>sa_sString = UnixAddr_ToString a, sa_iLen = 110,
      sa_stAddr = RawUnix (take (SUN_PATH_LEN - 1) (takeWhile (\<lambda>c. c \<noteq> 0) (ua_sPath a)))\<rparr>"

definition SockAddr_Assign :: "resolver \<Rightarrow> sockaddr \<Rightarrow> SockAddr result" where
  "SockAddr_Assign rs raw =
     (case raw of
        RawInet port addr \<Rightarrow> Inr (SockAddr_Assign_inet rs (INetAddr_of_raw rs port addr))
      | RawUnix path \<Rightarrow> Inr (SockAddr_Assign_unix \<lparr>ua_sPath = path\<rparr>)
      | _ \<Rightarrow> Inl AssertFail)"

definition SockAddr_ToINetAddr :: "resolver \<Rightarrow> SockAddr \<Rightarrow> int \<times> INetAddr option" where
  "SockAddr_ToINetAddr rs sa =
     (case sa_stAddr sa of RawInet port addr \<Rightarrow> (0, Some (INetAddr_of_raw rs port addr)) | _ \<Rightarrow> (- 1, None))"

definition SockAddr_ToUnixAddr :: "SockAddr \<Rightarrow> int \<times> UnixAddr option" where
  "SockAddr_ToUnixAddr sa =
     (case sa_stAddr sa of RawUnix path \<Rightarrow> (0, Some \<lparr>ua_sPath = path\<rparr>) | _ \<Rightarrow> (- 1, None))"

text \<open>The comparisons are \<open>memcmp\<close> on the 112 bytes of the union.\<close>

fun raw_bytes :: "sockaddr \<Rightarrow> byte list" where
  "raw_bytes RawZero = replicate 112 0"
| "raw_bytes (RawInet port addr) = le_bytes 2 AF_INET @ le_bytes 2 port @ le_bytes 4 addr @ replicate 104 0"
| "raw_bytes (RawUnix path) = le_bytes 2 AF_LOCAL @ take 107 path @ replicate (110 - length (take 107 path)) 0"
| "raw_bytes (RawOther f) = le_bytes 2 f @ replicate 110 0"

fun memcmp_less :: "byte list \<Rightarrow> byte list \<Rightarrow> bool" where
  "memcmp_less (a # as) (b # bs) = (a < b \<or> a = b \<and> memcmp_less as bs)"
| "memcmp_less _ _ = False"

definition SockAddr_less :: "SockAddr \<Rightarrow> SockAddr \<Rightarrow> bool" where
  "SockAddr_less a b = memcmp_less (raw_bytes (sa_stAddr a)) (raw_bytes (sa_stAddr b))"

definition SockAddr_eq :: "SockAddr \<Rightarrow> SockAddr \<Rightarrow> bool" where
  "SockAddr_eq a b \<longleftrightarrow> raw_bytes (sa_stAddr a) = raw_bytes (sa_stAddr b)"

section \<open>The text form\<close>

definition ADDR_PREFIX_INET :: cstring where "ADDR_PREFIX_INET = [105, 110, 101, 116, 58, 47, 47]"
definition ADDR_PREFIX_LOCAL :: cstring where "ADDR_PREFIX_LOCAL = [108, 111, 99, 97, 108, 58, 47, 47]"
definition ADDR_PREFIX_FILE :: cstring where "ADDR_PREFIX_FILE = [102, 105, 108, 101, 58, 47, 47]"

text \<open>\<open>atoi\<close> into \<open>unsigned short\<close>.\<close>

definition parse_port :: "cstring \<Rightarrow> u16" where
  "parse_port s = ucast (atoi s)"

text \<open>Both arguments are \<open>const char*\<close>.\<close>

definition ParseAddress :: "resolver \<Rightarrow> cstring \<Rightarrow> cstring option \<Rightarrow> SockAddr result" where
  "ParseAddress rs text bindhost =
     (let addr = c_str text in
      if prefix ADDR_PREFIX_INET addr
      then let addr = drop (length ADDR_PREFIX_INET) addr;
               pos = dropWhile (\<lambda>c. c \<noteq> 58) addr
           in if pos \<noteq> []
              then bindR (INetAddr_new rs (takeWhile (\<lambda>c. c \<noteq> 58) addr) (parse_port (tl pos)))
                     (\<lambda>a. Inr (SockAddr_Assign_inet rs a))
              else bindR (INetAddr_new rs (case bindhost of Some h \<Rightarrow> c_str h | None \<Rightarrow> ADDR_LOCALHOST) (parse_port addr))
                     (\<lambda>a. Inr (SockAddr_Assign_inet rs a))
      else if prefix ADDR_PREFIX_LOCAL addr
      then Inr (SockAddr_Assign_unix \<lparr>ua_sPath = drop (length ADDR_PREFIX_LOCAL) addr\<rparr>)
      else if prefix ADDR_PREFIX_FILE addr
      then Inr (SockAddr_Assign_unix \<lparr>ua_sPath = drop (length ADDR_PREFIX_FILE) addr\<rparr>)
      else Inr (SockAddr_Assign_unix \<lparr>ua_sPath = addr\<rparr>))"

definition FormatAddress :: "SockAddr \<Rightarrow> cstring" where
  "FormatAddress sa =
     (if SockAddr_GetFamily sa = AF_LOCAL then ADDR_PREFIX_LOCAL @ sa_sString sa
      else ADDR_PREFIX_INET @ sa_sString sa)"

end
