(* ===== verification/Socket.thy ===== *)
theory Socket
  imports SockAddr
begin

text \<open>
  \<open>nets/socket.cpp\<close>: the wrapper of a descriptor, over the descriptors that are open and the flags of
  each. Every operation takes the results of its system calls as arguments; a handle that is not
  set is -1.
\<close>

definition O_NONBLOCK :: u32 where "O_NONBLOCK = 2048"

record kernel =
  kn_open :: "int list"
  kn_flags :: "int \<Rightarrow> u32"

definition kn_close :: "int \<Rightarrow> kernel \<Rightarrow> kernel" where
  "kn_close fd k = k\<lparr>kn_open := removeAll fd (kn_open k)\<rparr>"

definition Socket_Create :: "int \<Rightarrow> kernel \<Rightarrow> int \<times> int \<times> kernel" where
  "Socket_Create fd k = (if fd = - 1 then (- 1, fd, k) else (0, fd, k\<lparr>kn_open := fd # kn_open k\<rparr>))"

definition Socket_GetBlocking :: "bool \<Rightarrow> int \<Rightarrow> kernel \<Rightarrow> int \<times> bool" where
  "Socket_GetBlocking getfl handle k =
     (if \<not> getfl then (- 1, False) else (0, kn_flags k handle AND O_NONBLOCK = 0))"

definition Socket_SetBlocking :: "bool \<Rightarrow> bool \<Rightarrow> bool \<Rightarrow> int \<Rightarrow> kernel \<Rightarrow> int \<times> kernel" where
  "Socket_SetBlocking getfl setfl blocking handle k =
     (if \<not> getfl then (- 1, k)
      else let flags = (if blocking then kn_flags k handle AND NOT O_NONBLOCK else kn_flags k handle OR O_NONBLOCK)
           in if \<not> setfl then (- 1, k) else (0, k\<lparr>kn_flags := (kn_flags k)(handle := flags)\<rparr>))"

definition Socket_SetDelay :: "bool \<Rightarrow> int" where
  "Socket_SetDelay opt = (if \<not> opt then - 1 else 0)"

definition Socket_Bind :: "bool \<Rightarrow> bool \<Rightarrow> int \<Rightarrow> int" where
  "Socket_Bind opt bound handle =
     (if handle = - 1 then - 1 else if \<not> opt then - 1 else if \<not> bound then - 1 else 0)"

definition Socket_Listen :: "bool \<Rightarrow> int" where
  "Socket_Listen ok = (if ok then 0 else - 1)"

definition Socket_Close :: "int \<Rightarrow> kernel \<Rightarrow> int \<times> kernel" where
  "Socket_Close handle k = (if handle \<noteq> - 1 then (- 1, kn_close handle k) else (handle, k))"

text \<open>\<open>Connect\<close> with a time limit: it makes the socket non-blocking for the call.\<close>

datatype connect_result = Connected | InProgress | Refused
datatype poll_result = PollError | PollTimeout | PollOther | PollOut int

definition Socket_Connect_timed :: "bool \<Rightarrow> bool \<Rightarrow> connect_result \<Rightarrow> poll_result \<Rightarrow> bool \<Rightarrow> int \<Rightarrow> kernel \<Rightarrow> int \<times> kernel" where
  "Socket_Connect_timed fl1 fl2 conn pol fl3 handle k =
     (let (r, blocking) = Socket_GetBlocking fl1 handle k in
      if r = - 1 then (- 1, k)
      else let (r1, k1) = (if blocking then Socket_SetBlocking fl2 fl2 False handle k else (0, k)) in
      if r1 = - 1 then (- 1, k1)
      else if (case conn of
                 Connected \<Rightarrow> True
               | Refused \<Rightarrow> False
               | InProgress \<Rightarrow> (case pol of PollOut err \<Rightarrow> err = 0 | _ \<Rightarrow> False))
      then if blocking
           then (let (r2, k2) = Socket_SetBlocking fl3 fl3 True handle k1 in (if r2 = - 1 then - 1 else 0, k2))
           else (0, k1)
      else (- 1, k1))"

text \<open>The remaining operations are one system call each.\<close>

definition Socket_Connect_plain :: "connect_result \<Rightarrow> int" where
  "Socket_Connect_plain conn = (case conn of Connected \<Rightarrow> 0 | _ \<Rightarrow> - 1)"

definition Socket_Accept :: "int \<Rightarrow> int \<Rightarrow> kernel \<Rightarrow> int \<times> int \<times> kernel" where
  "Socket_Accept s client k = (if s = - 1 then (- 1, client, k) else (0, s, k\<lparr>kn_open := s # kn_open k\<rparr>))"

definition Socket_SetSendTimeout :: "bool \<Rightarrow> int" where
  "Socket_SetSendTimeout opt = (if opt then 0 else - 1)"

definition Socket_SetRecvTimeout :: "bool \<Rightarrow> int" where
  "Socket_SetRecvTimeout opt = (if opt then 0 else - 1)"

definition Socket_GetRemoteAddr :: "resolver \<Rightarrow> sockaddr option \<Rightarrow> SockAddr \<Rightarrow> (int \<times> SockAddr) result" where
  "Socket_GetRemoteAddr rs raw stAddr =
     (case raw of None \<Rightarrow> Inr (- 1, stAddr) | Some r \<Rightarrow> bindR (SockAddr_Assign rs r) (\<lambda>a. Inr (0, a)))"

definition Socket_GetLocalAddr :: "resolver \<Rightarrow> sockaddr option \<Rightarrow> SockAddr \<Rightarrow> (int \<times> SockAddr) result" where
  "Socket_GetLocalAddr rs raw stAddr =
     (case raw of None \<Rightarrow> Inr (- 1, stAddr) | Some r \<Rightarrow> bindR (SockAddr_Assign rs r) (\<lambda>a. Inr (0, a)))"

end
