(* ===== verification/Connector.thy ===== *)
theory Connector
  imports Socket LibEventReactor
begin

text \<open>
  \<open>nets/connector.cpp\<close> and \<open>nets/udplistener.cpp\<close>: a connection that this side opens, and a datagram
  socket, both under the libevent reactor. The results of the system calls and of the registration
  are parameters; \<open>kn_open\<close> has the descriptors that are open.
\<close>

section \<open>Connector\<close>

record Connector =
  cn_handle :: int
  cn_connfd :: int
  cn_remote :: SockAddr
  cn_local :: SockAddr
  cn_time :: "timeval option"
  cn_kernel :: kernel
  cn_reactor :: LibEventReactor
  cn_closes :: nat

text \<open>\<open>INetAddr::ANY_ADDR\<close> as a \<open>SockAddr\<close>, and \<open>==\<close>.\<close>

definition any_addr :: "resolver \<Rightarrow> SockAddr" where
  "any_addr rs = SockAddr_Assign_inet rs (INetAddr_of_port 0)"

record connect_results =
  cr_socket :: int
  cr_fcntl :: bool
  cr_reuse :: bool
  cr_bind :: bool
  cr_connect :: connect_result
  cr_nodelay :: bool
  cr_register :: int

definition connfd_Close :: "Connector \<Rightarrow> Connector" where
  "connfd_Close c = (let (fd, k) = Socket_Close (cn_connfd c) (cn_kernel c) in
     c\<lparr>cn_connfd := fd, cn_kernel := k, cn_closes := (if cn_connfd c = - 1 then cn_closes c else cn_closes c + 1)\<rparr>)"

text \<open>The end of \<open>Open\<close> on a failure: the guard \<open>CloseFd\<close> closes the socket.\<close>

definition cn_fail :: "Connector \<Rightarrow> (int \<times> Connector) result" where
  "cn_fail c = Inr (- 1, connfd_Close c)"

definition Connector_Open :: "resolver \<Rightarrow> connect_results \<Rightarrow> handler_id \<Rightarrow> Connector \<Rightarrow> (int \<times> Connector) result" where
  "Connector_Open rs res h c =
     (let (r, fd, k) = Socket_Create (cr_socket res) (cn_kernel c); c1 = c\<lparr>cn_connfd := fd, cn_kernel := k\<rparr> in
      if r \<noteq> 0 then Inr (- 1, c1)
      else let (r, k) = Socket_SetBlocking (cr_fcntl res) (cr_fcntl res) False fd (cn_kernel c1); c2 = c1\<lparr>cn_kernel := k\<rparr> in
      if r \<noteq> 0 then cn_fail c2
      else if SockAddr_GetFamily (cn_remote c) = AF_INET \<and> \<not> SockAddr_eq (cn_local c) (any_addr rs)
           \<and> Socket_Bind (cr_reuse res) (cr_bind res) fd \<noteq> 0 then cn_fail c2
      else if Socket_Connect_plain (cr_connect res) \<noteq> 0 \<and> cr_connect res \<noteq> InProgress then cn_fail c2
      else if SockAddr_GetFamily (cn_remote c) = AF_INET \<and> Socket_SetDelay (cr_nodelay res) \<noteq> 0 then cn_fail c2
      else let c3 = c2\<lparr>cn_handle := fd, cn_reactor := (cn_reactor c2)\<lparr>le_handle := (le_handle (cn_reactor c2))(h := fd)\<rparr>\<rparr> in
        bindR (LibEventReactor_RegisterHandler True (cr_register res) (cr_register res) WriteMask h (cn_time c3) (cn_reactor c3))
          (\<lambda>(ret, r). let c4 = c3\<lparr>cn_reactor := r\<rparr> in if ret \<noteq> 0 then cn_fail c4 else Inr (0, c4)))"

definition Connector_HandleClose :: "Connector \<Rightarrow> Connector" where
  "Connector_HandleClose c = (if cn_connfd c \<noteq> - 1 then (connfd_Close c)\<lparr>cn_connfd := - 1\<rparr> else c)"

definition Connector_Close :: "handler_id \<Rightarrow> Connector \<Rightarrow> Connector" where
  "Connector_Close h c =
     (let r = snd (LibEventReactor_RemoveHandler WriteMask h (cn_reactor c)); c1 = c\<lparr>cn_reactor := r\<rparr>
      in if le_closed r = le_closed (cn_reactor c) then c1 else Connector_HandleClose c1)"

definition Connector_OnError :: "handler_id \<Rightarrow> Connector \<Rightarrow> Connector" where
  "Connector_OnError h c = Connector_Close h c"

text \<open>
  \<open>HandleOutput\<close>: the results of \<open>getsockopt\<close> (whether it succeeds, and the error of the socket), \<open>fcntl\<close>,
  \<open>getsockname\<close> and \<open>OnConnected\<close>. The guard \<open>CloseThis\<close> closes on every path.
\<close>

definition Connector_HandleOutput :: "resolver \<Rightarrow> int option \<Rightarrow> bool \<Rightarrow> sockaddr option \<Rightarrow> int \<Rightarrow> handler_id
    \<Rightarrow> Connector \<Rightarrow> Connector result" where
  "Connector_HandleOutput rs err fcntl local on_connected h c =
     (let fail = (\<lambda>c. Inr (Connector_Close h (Connector_OnError h c))) in
      if err = None \<or> err \<noteq> Some 0 then fail c
      else let (r, k) = Socket_SetBlocking fcntl fcntl True (cn_connfd c) (cn_kernel c); c1 = c\<lparr>cn_kernel := k\<rparr> in
      if r \<noteq> 0 then fail c1
      else bindR (if SockAddr_GetFamily (cn_remote c1) = AF_LOCAL
                  then Inr (0, SockAddr_Assign_unix \<lparr>ua_sPath = []\<rparr>)
                  else if SockAddr_eq (cn_local c1) (any_addr rs) then Socket_GetLocalAddr rs local (cn_local c1)
                  else Inr (0, cn_local c1)) (\<lambda>(r, addr).
           if r \<noteq> 0 then fail c1
           else let c2 = c1\<lparr>cn_local := addr\<rparr>;
                    c3 = (if on_connected = 0 then c2\<lparr>cn_connfd := - 1\<rparr> else c2)
                in Inr (Connector_Close h c3)))"

definition Connector_HandleTimeout :: "handler_id \<Rightarrow> Connector \<Rightarrow> Connector" where
  "Connector_HandleTimeout h c = Connector_Close h (Connector_OnError h c)"

section \<open>UdpListener\<close>

record UdpListener =
  ul_handle :: int
  ul_kernel :: kernel
  ul_reactor :: LibEventReactor

record udp_results =
  ur_socket :: int
  ur_rcvbuf :: bool
  ur_reuse :: bool
  ur_bind :: bool
  ur_register :: int

definition UdpListener_Open :: "udp_results \<Rightarrow> handler_id \<Rightarrow> UdpListener \<Rightarrow> (int \<times> UdpListener) result" where
  "UdpListener_Open res h u =
     (let (r, fd, k) = Socket_Create (ur_socket res) (ul_kernel u); u1 = u\<lparr>ul_kernel := k\<rparr>;
          fail = (\<lambda>u. Inr (- 1, u\<lparr>ul_kernel := snd (Socket_Close fd (ul_kernel u))\<rparr>)) in
      if r \<noteq> 0 then Inr (- 1, u1)
      else if \<not> ur_rcvbuf res then fail u1
      else if Socket_Bind (ur_reuse res) (ur_bind res) fd \<noteq> 0 then fail u1
      else let u2 = u1\<lparr>ul_handle := fd, ul_reactor := (ul_reactor u1)\<lparr>le_handle := (le_handle (ul_reactor u1))(h := fd)\<rparr>\<rparr> in
        bindR (LibEventReactor_RegisterHandler True (ur_register res) (ur_register res) (ReadMask OR PersistMask) h None (ul_reactor u2))
          (\<lambda>(ret, r). let u3 = u2\<lparr>ul_reactor := r\<rparr> in
             if ret \<noteq> 0 then fail (u3\<lparr>ul_handle := - 1\<rparr>) else Inr (0, u3)))"

text \<open>\<open>HandleClose\<close> closes the descriptor again whenever the reactor calls it.\<close>

definition UdpListener_HandleClose :: "UdpListener \<Rightarrow> UdpListener" where
  "UdpListener_HandleClose u = u\<lparr>ul_kernel := kn_close (ul_handle u) (ul_kernel u)\<rparr>"

definition UdpListener_Close :: "handler_id \<Rightarrow> UdpListener \<Rightarrow> UdpListener" where
  "UdpListener_Close h u =
     (let r = snd (LibEventReactor_RemoveHandler ReadMask h (ul_reactor u)); u1 = u\<lparr>ul_reactor := r\<rparr>
      in if le_closed r = le_closed (ul_reactor u) then u1 else UdpListener_HandleClose u1)"

text \<open>
  What \<open>HandleInput\<close> calls for the result of \<open>recvfrom\<close>: \<open>Close\<close>, or \<open>HandlePackage\<close> with the length and
  the sender (\<open>None\<close> is an address that \<open>recvfrom\<close> has not stored).
\<close>

datatype datagram = Datagram nat sockaddr | DatagramErr int
datatype udp_call = UdpClose | HandlePackage int "sockaddr option"

definition UDP_EINTR :: int where "UDP_EINTR = 4"
definition UDP_EAGAIN :: int where "UDP_EAGAIN = 11"

definition UdpListener_HandleInput :: "datagram \<Rightarrow> udp_call" where
  "UdpListener_HandleInput res =
     (case res of
        Datagram n from \<Rightarrow> if n = 0 then UdpClose else HandlePackage (int n) (Some from)
      | DatagramErr err \<Rightarrow>
          if err \<noteq> UDP_EINTR \<and> err \<noteq> UDP_EAGAIN then UdpClose else HandlePackage (- 1) None)"

end
