(* ===== verification/ReactorMemory.thy ===== *)
theory ReactorMemory
  imports ReactorProps Ownership Connector
begin

text \<open>
  The memory of the reactors: \<open>AllocEventData\<close> and \<open>ReleaseEventData\<close> of \<open>nets/selectreactor.cpp\<close> and
  \<open>nets/libeventreactor.cpp\<close>, and the timers that both make with \<open>new\<close>. Each operation of the theories
  SelectReactor and LibEventReactor is carried along with what it takes and gives back. The time limit of a
  \<open>Connector\<close> is memory of the same kind.
\<close>

section \<open>Event data and timers\<close>

text \<open>
  The addresses of the event data of the handlers and of the timers. A timer has a name beside its address, which is what the
  model of the reactors knows it by.
\<close>

record reactor_mem =
  rm_eventdata :: "(handler_id \<times> nat) list"
  rm_timers :: "(nat \<times> nat) list"
  rm_heap :: heap

definition reactor_mem_new :: reactor_mem where
  "reactor_mem_new = \<lparr>rm_eventdata = [], rm_timers = [], rm_heap = heap_empty\<rparr>"

text \<open>Without an allocator the event data comes from \<open>malloc\<close> and goes to \<open>free\<close>.\<close>

definition reactor_alloc :: "allocator option \<Rightarrow> allocator" where
  "reactor_alloc allocator = (case allocator of None \<Rightarrow> UseMalloc | Some a \<Rightarrow> a)"

text \<open>The event data is constructed at the address also when that is null. The \<open>new\<close> of a timer throws when there is no memory.\<close>

definition AllocEventData :: "heap_new \<Rightarrow> allocator option \<Rightarrow> u64 \<Rightarrow> handler_id \<Rightarrow> reactor_mem \<Rightarrow> reactor_mem result" where
  "AllocEventData new allocator sz h m =
     (case Allocate new (reactor_alloc allocator) sz (rm_heap m) of
        (None, _) \<Rightarrow> Inl NullDeref
      | (Some p, hp) \<Rightarrow> Inr (m\<lparr>rm_eventdata := (h, p) # rm_eventdata m, rm_heap := hp\<rparr>))"

definition ReleaseEventData :: "allocator option \<Rightarrow> handler_id \<Rightarrow> reactor_mem \<Rightarrow> reactor_mem result" where
  "ReleaseEventData allocator h m =
     (case map_of (rm_eventdata m) h of
        None \<Rightarrow> Inl NullDeref
      | Some data \<Rightarrow> bindR (Deallocate (reactor_alloc allocator) data (rm_heap m)) (\<lambda>hp.
          Inr (m\<lparr>rm_eventdata := filter (\<lambda>(g, p). g \<noteq> h) (rm_eventdata m), rm_heap := hp\<rparr>)))"

definition new_timer :: "heap_new \<Rightarrow> u64 \<Rightarrow> nat \<Rightarrow> reactor_mem \<Rightarrow> reactor_mem result" where
  "new_timer new sz i m =
     (case Allocate new UseNew sz (rm_heap m) of
        (None, _) \<Rightarrow> Inl Uncaught
      | (Some p, hp) \<Rightarrow> Inr (m\<lparr>rm_timers := (i, p) # rm_timers m, rm_heap := hp\<rparr>))"

definition delete_timer :: "nat \<Rightarrow> reactor_mem \<Rightarrow> reactor_mem result" where
  "delete_timer i m =
     (case map_of (rm_timers m) i of
        None \<Rightarrow> Inl Dangling
      | Some pTimer \<Rightarrow> bindR (Deallocate UseNew pTimer (rm_heap m)) (\<lambda>hp.
          Inr (m\<lparr>rm_timers := filter (\<lambda>(j, p). j \<noteq> i) (rm_timers m), rm_heap := hp\<rparr>)))"

fun delete_timers :: "nat list \<Rightarrow> reactor_mem \<Rightarrow> reactor_mem result" where
  "delete_timers [] m = Inr m"
| "delete_timers (i # is) m = bindR (delete_timer i m) (delete_timers is)"

section \<open>The libevent reactor\<close>

definition LibEvent_InitEventHandler :: "heap_new \<Rightarrow> allocator option \<Rightarrow> u64 \<Rightarrow> handler_id \<Rightarrow> LibEventReactor \<times> reactor_mem
    \<Rightarrow> (LibEventReactor \<times> reactor_mem) result" where
  "LibEvent_InitEventHandler new allocator sz h = (\<lambda>(r, m).
     bindR (if le_data r h = None then AllocEventData new allocator sz h m else Inr m) (\<lambda>m0.
     bindR (LibEventReactor_InitEventHandler True h r) (\<lambda>(_, r0). Inr (r0, m0))))"

definition LibEvent_UninitEventHander :: "allocator option \<Rightarrow> handler_id \<Rightarrow> LibEventReactor \<times> reactor_mem
    \<Rightarrow> (LibEventReactor \<times> reactor_mem) result" where
  "LibEvent_UninitEventHander allocator h = (\<lambda>(r, m).
     bindR (ReleaseEventData allocator h m) (\<lambda>m1. Inr (LibEventReactor_UninitEventHander h r, m1)))"

definition LibEvent_RegisterHandler :: "heap_new \<Rightarrow> allocator option \<Rightarrow> u64 \<Rightarrow> int \<Rightarrow> int \<Rightarrow> nat \<Rightarrow> handler_id
    \<Rightarrow> timeval option \<Rightarrow> LibEventReactor \<times> reactor_mem \<Rightarrow> (int \<times> LibEventReactor \<times> reactor_mem) result" where
  "LibEvent_RegisterHandler new allocator sz add_read add_write msk h timeout w =
     bindR (LibEvent_InitEventHandler new allocator sz h w) (\<lambda>(r0, m0).
     bindR (LibEventReactor_RegisterHandler True add_read add_write msk h timeout r0) (\<lambda>(ret, r1). Inr (ret, r1, m0)))"

definition LibEvent_RemoveHandler :: "allocator option \<Rightarrow> nat \<Rightarrow> handler_id \<Rightarrow> LibEventReactor \<times> reactor_mem
    \<Rightarrow> (int \<times> LibEventReactor \<times> reactor_mem) result" where
  "LibEvent_RemoveHandler allocator msk h = (\<lambda>(r, m).
     case le_data r h of
       None \<Rightarrow> Inr (0, le_HandleClose h r, m)
     | Some ed \<Rightarrow>
         let ed1 = (if masked msk ReadMask then ed\<lparr>led_readev := event_zero\<rparr> else ed);
             ed2 = (if masked msk WriteMask then ed1\<lparr>led_writeev := event_zero\<rparr> else ed1);
             r2 = le_set_data h (Some ed2) r
         in if \<not> LibEventReactor_HasEvent ed2
            then bindR (LibEvent_UninitEventHander allocator h (r2, m)) (\<lambda>(r3, m3). Inr (0, r3, m3))
            else Inr (0, r2, m))"

definition LibEvent_ScheduleTimer :: "heap_new \<Rightarrow> allocator option \<Rightarrow> u64 \<Rightarrow> u64 \<Rightarrow> int \<Rightarrow> handler_id \<Rightarrow> timeval option
    \<Rightarrow> LibEventReactor \<times> reactor_mem \<Rightarrow> (int \<times> LibEventReactor \<times> reactor_mem) result" where
  "LibEvent_ScheduleTimer new allocator sz tsz add h timeout w =
     (if timeout = None then Inr (- 1, w)
      else bindR (LibEvent_InitEventHandler new allocator sz h w) (\<lambda>(r0, m0).
           bindR (new_timer new tsz (le_fresh r0) m0) (\<lambda>m1.
           bindR (LibEventReactor_ScheduleTimer True add h timeout r0) (\<lambda>(ret, pTimerID, r1).
             if add \<noteq> 0 then bindR (delete_timer (le_fresh r0) m1) (\<lambda>m2. Inr (ret, r1, m2))
             else Inr (ret, r1, m1)))))"

definition LibEvent_CancelTimer :: "allocator option \<Rightarrow> int \<Rightarrow> handler_id \<Rightarrow> nat option \<Rightarrow> LibEventReactor \<times> reactor_mem
    \<Rightarrow> (int \<times> LibEventReactor \<times> reactor_mem) result" where
  "LibEvent_CancelTimer allocator del h pTimerID = (\<lambda>(r, m).
     case le_data r h of
       None \<Rightarrow> Inr (0, le_HandleClose h r, m)
     | Some ed \<Rightarrow>
         if (\<exists>t\<in>set_option pTimerID. t \<notin> fst ` set (led_timers ed) \<or> del \<noteq> 0) then Inr (- 1, r, m)
         else bindR (case pTimerID of None \<Rightarrow> delete_timers (map fst (led_timers ed)) m | Some t \<Rightarrow> delete_timer t m) (\<lambda>m1.
           let ed1 = (case pTimerID of None \<Rightarrow> ed\<lparr>led_timers := []\<rparr>
                 | Some t \<Rightarrow> ed\<lparr>led_timers := filter (\<lambda>(i, e). i \<noteq> t) (led_timers ed)\<rparr>);
               r1 = le_set_data h (Some ed1) r
           in if \<not> LibEventReactor_HasEvent ed1
              then bindR (LibEvent_UninitEventHander allocator h (r1, m1)) (\<lambda>(r2, m2). Inr (0, r2, m2))
              else Inr (0, r1, m1)))"

section \<open>The select reactor\<close>

definition Select_InitEventHandler :: "heap_new \<Rightarrow> allocator option \<Rightarrow> u64 \<Rightarrow> handler_id \<Rightarrow> SelectReactor \<times> reactor_mem
    \<Rightarrow> (SelectReactor \<times> reactor_mem) result" where
  "Select_InitEventHandler new allocator sz h = (\<lambda>(r, m).
     bindR (if sr_data r h = None then AllocEventData new allocator sz h m else Inr m) (\<lambda>m0.
     bindR (SelectReactor_InitEventHandler True h r) (\<lambda>(_, r0). Inr (r0, m0))))"

definition Select_UninitEventHander :: "allocator option \<Rightarrow> handler_id \<Rightarrow> SelectReactor \<times> reactor_mem
    \<Rightarrow> (SelectReactor \<times> reactor_mem) result" where
  "Select_UninitEventHander allocator h = (\<lambda>(r, m).
     bindR (ReleaseEventData allocator h m) (\<lambda>m1. Inr (SelectReactor_UninitEventHander h r, m1)))"

definition Select_RegisterHandler :: "heap_new \<Rightarrow> allocator option \<Rightarrow> u64 \<Rightarrow> timespec \<Rightarrow> nat \<Rightarrow> handler_id
    \<Rightarrow> timeval option \<Rightarrow> SelectReactor \<times> reactor_mem \<Rightarrow> (int \<times> SelectReactor \<times> reactor_mem) result" where
  "Select_RegisterHandler new allocator sz now msk h timeout w =
     bindR (Select_InitEventHandler new allocator sz h w) (\<lambda>(r0, m0).
     bindR (SelectReactor_RegisterHandler True now msk h timeout r0) (\<lambda>(ret, r1). Inr (ret, r1, m0)))"

definition Select_RemoveHandler :: "allocator option \<Rightarrow> nat \<Rightarrow> handler_id \<Rightarrow> SelectReactor \<times> reactor_mem
    \<Rightarrow> (int \<times> SelectReactor \<times> reactor_mem) result" where
  "Select_RemoveHandler allocator msk h = (\<lambda>(r, m).
     case sr_data r h of
       None \<Rightarrow> Inr (0, SelectReactor_HandleClose h r, m)
     | Some ed \<Rightarrow>
         let ed1 = (if masked msk ReadMask then ed\<lparr>ed_readev := (ed_readev ed)\<lparr>ev_on := False\<rparr>\<rparr> else ed);
             ed2 = (if masked msk WriteMask then ed1\<lparr>ed_writeev := (ed_writeev ed1)\<lparr>ev_on := False\<rparr>\<rparr> else ed1);
             r2 = SelectReactor_set_data h (Some ed2) r
         in if \<not> SelectReactor_HasEvent ed2
            then bindR (Select_UninitEventHander allocator h (r2, m)) (\<lambda>(r3, m3). Inr (0, r3, m3))
            else Inr (0, r2, m))"

definition Select_ScheduleTimer :: "heap_new \<Rightarrow> allocator option \<Rightarrow> u64 \<Rightarrow> u64 \<Rightarrow> timespec \<Rightarrow> handler_id \<Rightarrow> timeval option
    \<Rightarrow> SelectReactor \<times> reactor_mem \<Rightarrow> (int \<times> SelectReactor \<times> reactor_mem) result" where
  "Select_ScheduleTimer new allocator sz tsz now h timeout w =
     (if timeout = None then Inr (- 1, w)
      else bindR (Select_InitEventHandler new allocator sz h w) (\<lambda>(r0, m0).
           bindR (new_timer new tsz (sr_fresh r0) m0) (\<lambda>m1.
           bindR (SelectReactor_ScheduleTimer True now h timeout r0) (\<lambda>(ret, pTimerID, r1). Inr (ret, r1, m1)))))"

definition Select_CancelTimer :: "allocator option \<Rightarrow> handler_id \<Rightarrow> nat option \<Rightarrow> SelectReactor \<times> reactor_mem
    \<Rightarrow> (int \<times> SelectReactor \<times> reactor_mem) result" where
  "Select_CancelTimer allocator h pTimerID = (\<lambda>(r, m).
     case sr_data r h of
       None \<Rightarrow> Inr (0, SelectReactor_HandleClose h r, m)
     | Some ed \<Rightarrow>
         if (\<exists>t\<in>set_option pTimerID. t \<notin> fst ` set (ed_timers ed)) then Inr (- 1, r, m)
         else bindR (case pTimerID of None \<Rightarrow> delete_timers (map fst (ed_timers ed)) m | Some t \<Rightarrow> delete_timer t m) (\<lambda>m1.
           let ed1 = (case pTimerID of None \<Rightarrow> ed\<lparr>ed_timers := []\<rparr>
                 | Some t \<Rightarrow> ed\<lparr>ed_timers := filter (\<lambda>(i, e). i \<noteq> t) (ed_timers ed)\<rparr>);
               r1 = SelectReactor_set_data h (Some ed1) r
           in if \<not> SelectReactor_HasEvent ed1
              then bindR (Select_UninitEventHander allocator h (r1, m1)) (\<lambda>(r2, m2). Inr (0, r2, m2))
              else Inr (0, r1, m1)))"

text \<open>The end of a turn in which a timer has run out: it is erased and deleted, and the event data stays.\<close>

definition Select_expire :: "handler_id \<Rightarrow> nat \<Rightarrow> SelectReactor \<times> reactor_mem \<Rightarrow> (SelectReactor \<times> reactor_mem) result" where
  "Select_expire h t = (\<lambda>(r, m).
     case sr_data r h of
       None \<Rightarrow> Inl NullDeref
     | Some ed \<Rightarrow>
         if t \<notin> fst ` set (ed_timers ed) then Inl AssertFail
         else bindR (delete_timer t m) (\<lambda>m1.
           Inr (SelectReactor_set_data h (Some (ed\<lparr>ed_timers := filter (\<lambda>(i, e). i \<noteq> t) (ed_timers ed)\<rparr>)) r, m1)))"

section \<open>Runs\<close>

text \<open>
  Any calls of a reactor, with what the clock and libevent give for each: by handlers, or by the reactor itself when a timer has run out
  (the libevent reactor cancels it, the select reactor erases it).
\<close>

datatype le_op =
    LeRegister nat handler_id "timeval option" int int
  | LeRemove nat handler_id
  | LeSchedule handler_id "timeval option" int
  | LeCancel handler_id "nat option" int

datatype sr_op =
    SrRegister timespec nat handler_id "timeval option"
  | SrRemove nat handler_id
  | SrSchedule timespec handler_id "timeval option"
  | SrCancel handler_id "nat option"
  | SrExpire handler_id nat

text \<open>The result of \<open>ScheduleTimer\<close> without the name of the timer.\<close>

definition no_id :: "(int \<times> nat option \<times> 'r) result \<Rightarrow> (int \<times> 'r) result" where
  "no_id res = bindR res (\<lambda>(ret, i, r). Inr (ret, r))"

fun le_op_run :: "le_op \<Rightarrow> LibEventReactor \<Rightarrow> (int \<times> LibEventReactor) result" where
  "le_op_run (LeRegister msk h t ar aw) r = LibEventReactor_RegisterHandler True ar aw msk h t r"
| "le_op_run (LeRemove msk h) r = Inr (LibEventReactor_RemoveHandler msk h r)"
| "le_op_run (LeSchedule h t add) r = no_id (LibEventReactor_ScheduleTimer True add h t r)"
| "le_op_run (LeCancel h i del) r = Inr (LibEventReactor_CancelTimer del h i r)"

fun le_op_mem :: "heap_new \<Rightarrow> allocator option \<Rightarrow> u64 \<Rightarrow> u64 \<Rightarrow> le_op \<Rightarrow> LibEventReactor \<times> reactor_mem
    \<Rightarrow> (int \<times> LibEventReactor \<times> reactor_mem) result" where
  "le_op_mem new a sz tsz (LeRegister msk h t ar aw) w = LibEvent_RegisterHandler new a sz ar aw msk h t w"
| "le_op_mem new a sz tsz (LeRemove msk h) w = LibEvent_RemoveHandler a msk h w"
| "le_op_mem new a sz tsz (LeSchedule h t add) w = LibEvent_ScheduleTimer new a sz tsz add h t w"
| "le_op_mem new a sz tsz (LeCancel h i del) w = LibEvent_CancelTimer a del h i w"

definition sr_expire :: "handler_id \<Rightarrow> nat \<Rightarrow> SelectReactor \<Rightarrow> SelectReactor result" where
  "sr_expire h t r = SelectReactor_timeout \<lparr>cb_input = \<lambda>h. Inr, cb_output = \<lambda>h. Inr, cb_timeout = \<lambda>h t. Inr\<rparr> (Some h) (Some t) r"

fun sr_op_run :: "sr_op \<Rightarrow> SelectReactor \<Rightarrow> (int \<times> SelectReactor) result" where
  "sr_op_run (SrRegister now msk h t) r = SelectReactor_RegisterHandler True now msk h t r"
| "sr_op_run (SrRemove msk h) r = Inr (SelectReactor_RemoveHandler msk h r)"
| "sr_op_run (SrSchedule now h t) r = no_id (SelectReactor_ScheduleTimer True now h t r)"
| "sr_op_run (SrCancel h i) r = Inr (SelectReactor_CancelTimer h i r)"
| "sr_op_run (SrExpire h t) r = bindR (sr_expire h t r) (\<lambda>r'. Inr (0, r'))"

fun sr_op_mem :: "heap_new \<Rightarrow> allocator option \<Rightarrow> u64 \<Rightarrow> u64 \<Rightarrow> sr_op \<Rightarrow> SelectReactor \<times> reactor_mem
    \<Rightarrow> (int \<times> SelectReactor \<times> reactor_mem) result" where
  "sr_op_mem new a sz tsz (SrRegister now msk h t) w = Select_RegisterHandler new a sz now msk h t w"
| "sr_op_mem new a sz tsz (SrRemove msk h) w = Select_RemoveHandler a msk h w"
| "sr_op_mem new a sz tsz (SrSchedule now h t) w = Select_ScheduleTimer new a sz tsz now h t w"
| "sr_op_mem new a sz tsz (SrCancel h i) w = Select_CancelTimer a h i w"
| "sr_op_mem new a sz tsz (SrExpire h t) w = bindR (Select_expire h t w) (\<lambda>w'. Inr (0, w'))"

fun ops_run :: "('op \<Rightarrow> 's \<Rightarrow> (int \<times> 's) result) \<Rightarrow> 'op list \<Rightarrow> 's \<Rightarrow> 's result" where
  "ops_run step [] s = Inr s"
| "ops_run step (op # ops) s = bindR (step op s) (\<lambda>(ret, s1). ops_run step ops s1)"

section \<open>The time limit of a connector\<close>

text \<open>
  \<open>nets/connector.cpp\<close>: \<open>time_\<close> points to a copy that \<open>SetTimeout\<close> makes with \<open>new\<close>. The one before is not deleted,
  and null leaves it as it is.
\<close>

definition Connector_SetTimeout :: "heap_new \<Rightarrow> u64 \<Rightarrow> timeval option \<Rightarrow> (nat \<times> timeval) option \<times> heap
    \<Rightarrow> ((nat \<times> timeval) option \<times> heap) result" where
  "Connector_SetTimeout new sz time = (\<lambda>(limit, h).
     case time of
       None \<Rightarrow> Inr (limit, h)
     | Some tv \<Rightarrow> (case Allocate new UseNew sz h of
           (None, _) \<Rightarrow> Inl Uncaught
         | (Some p, h1) \<Rightarrow> Inr (Some (p, tv), h1)))"

definition Connector_new :: "heap_new \<Rightarrow> u64 \<Rightarrow> timeval option \<Rightarrow> heap \<Rightarrow> ((nat \<times> timeval) option \<times> heap) result" where
  "Connector_new new sz time h = Connector_SetTimeout new sz time (None, h)"

definition Connector_destroy :: "(nat \<times> timeval) option \<times> heap \<Rightarrow> heap result" where
  "Connector_destroy = (\<lambda>(limit, h). case limit of None \<Rightarrow> Inr h | Some (p, tv) \<Rightarrow> Deallocate UseNew p h)"

fun set_timeouts :: "heap_new \<Rightarrow> u64 \<Rightarrow> timeval option list \<Rightarrow> (nat \<times> timeval) option \<times> heap
    \<Rightarrow> ((nat \<times> timeval) option \<times> heap) result" where
  "set_timeouts new sz [] w = Inr w"
| "set_timeouts new sz (t # ts) w = bindR (Connector_SetTimeout new sz t w) (set_timeouts new sz ts)"

text \<open>Every time limit but the last one that was set stays allocated for ever; one limit leaves nothing.\<close>

lemma set_timeouts_held:
  assumes "set_timeouts new sz ts (limit, h) = Inr (limit', h')"
    and "heap_is h ((case limit of None \<Rightarrow> {#} | Some (p, tv) \<Rightarrow> {#(p, UseNew)#}) + M)"
  shows "\<exists>L. heap_is h' ((case limit' of None \<Rightarrow> {#} | Some (p, tv) \<Rightarrow> {#(p, UseNew)#}) + L + M)
    \<and> size L + (if limit' = None then 0 else 1) = length (filter (\<lambda>t. t \<noteq> None) ts) + (if limit = None then 0 else 1)
    \<and> map_option snd limit' = fold (\<lambda>t cur. if t = None then cur else t) ts (map_option snd limit)"
  using assms
proof (induction ts arbitrary: limit h M)
  case (Cons t ts)
  show ?case
  proof (cases t)
    case None
    with Cons show ?thesis by (simp add: Connector_SetTimeout_def)
  next
    case (Some tv)
    then obtain p h1 where a: "Allocate new UseNew sz h = (Some p, h1)" "set_timeouts new sz ts (Some (p, tv), h1) = Inr (limit', h')"
      using Cons.prems(1) by (auto simp: Connector_SetTimeout_def split: prod.splits option.splits)
    let ?old = "case limit of None \<Rightarrow> {#} | Some (p, tv) \<Rightarrow> {#(p, UseNew)#}"
    have "heap_is h1 ((case Some (p, tv) of None \<Rightarrow> {#} | Some (p, tv) \<Rightarrow> {#(p, UseNew)#}) + (?old + M))"
      using heap_is_alloc [OF Cons.prems(2) a(1)] by simp
    from Cons.IH [OF a(2) this] obtain L where L:
      "heap_is h' ((case limit' of None \<Rightarrow> {#} | Some (p, tv) \<Rightarrow> {#(p, UseNew)#}) + L + (?old + M))"
      "size L + (if limit' = None then 0 else 1) = length (filter (\<lambda>t. t \<noteq> None) ts) + 1"
      "map_option snd limit' = fold (\<lambda>t cur. if t = None then cur else t) ts (Some tv)" by auto
    have "size ?old = (if limit = None then 0 else 1)" by (simp split: option.split)
    with L Some show ?thesis
      by (intro exI [of _ "L + ?old"]) (auto simp: ac_simps split: if_splits)
  qed
qed simp

lemma last_limit_None:
  "fold (\<lambda>t cur. if t = None then cur else t) ts cur = None \<Longrightarrow> cur = None \<and> filter (\<lambda>t. t \<noteq> None) ts = []"
proof (induction ts arbitrary: cur)
  case (Cons t ts)
  from Cons.IH [of "if t = None then cur else t"] Cons.prems show ?case by (cases t) simp_all
qed simp

lemma connector_timeouts:
  assumes "bindR (Connector_new new sz time heap_empty) (set_timeouts new sz ts) = Inr w"
  shows "\<exists>h L. Connector_destroy w = Inr h \<and> heap_is h L \<and> size L = length (filter (\<lambda>t. t \<noteq> None) (time # ts)) - 1"
proof -
  obtain limit' h' where w: "w = (limit', h')" by (cases w)
  let ?n = "length (filter (\<lambda>t. t \<noteq> None) (time # ts))"
  have "set_timeouts new sz (time # ts) (None, heap_empty) = Inr (limit', h')"
    using assms w by (simp add: Connector_new_def)
  moreover have "heap_is heap_empty ((case (None :: (nat \<times> timeval) option) of None \<Rightarrow> {#} | Some (p, tv) \<Rightarrow> {#(p, UseNew)#}) + {#})"
    using heap_is_empty by simp
  ultimately obtain L where L:
    "heap_is h' ((case limit' of None \<Rightarrow> {#} | Some (p, tv) \<Rightarrow> {#(p, UseNew)#}) + L + {#})"
    "size L + (if limit' = None then 0 else 1) = ?n + (if (None :: (nat \<times> timeval) option) = None then 0 else 1)"
    "map_option snd limit' = fold (\<lambda>t cur. if t = None then cur else t) (time # ts) (map_option snd (None :: (nat \<times> timeval) option))"
    using set_timeouts_held by blast
  show ?thesis
  proof (cases limit')
    case None
    then have "fold (\<lambda>t cur. if t = None then cur else t) (time # ts) None = None" using L(3) by simp
    from last_limit_None [OF this] have n: "?n = 0" by (simp only: list.size(3))
    have "Connector_destroy w = Inr h'" "heap_is h' L" using None L(1) w by (simp_all add: Connector_destroy_def)
    moreover have "size L = ?n - 1" using n L(2) None by simp
    ultimately show ?thesis by blast
  next
    case (Some x)
    then obtain p tv where x: "limit' = Some (p, tv)" by (cases x) auto
    with L(1) have "heap_is h' (add_mset (p, UseNew) L)" by simp
    from heap_is_dealloc [OF this] obtain h where h: "Deallocate UseNew p h' = Inr h" "heap_is h L" by blast
    have "size L = ?n - 1" using L(2) x by simp
    with x w h show ?thesis by (auto simp: Connector_destroy_def)
  qed
qed

section \<open>What is held\<close>

text \<open>The memory of a reactor with the handlers \<open>D\<close> and the timers \<open>T\<close>: one address each and nothing else.\<close>

definition mem_is :: "allocator \<Rightarrow> handler_id set \<Rightarrow> nat set \<Rightarrow> reactor_mem \<Rightarrow> bool" where
  "mem_is a D T m \<longleftrightarrow> distinct (map fst (rm_eventdata m)) \<and> fst ` set (rm_eventdata m) = D
     \<and> distinct (map fst (rm_timers m)) \<and> fst ` set (rm_timers m) = T
     \<and> heap_is (rm_heap m) (mset (map (\<lambda>(h, p). (p, a)) (rm_eventdata m)) + mset (map (\<lambda>(i, p). (p, UseNew)) (rm_timers m)))"

lemma mem_is_new: "mem_is a {} {} reactor_mem_new"
  by (simp add: mem_is_def reactor_mem_new_def heap_is_empty)

lemma mset_take_key:
  "distinct (map fst xs) \<Longrightarrow> map_of xs k = Some p
     \<Longrightarrow> mset (map f xs) = add_mset (f (k, p)) (mset (map f (filter (\<lambda>(j, q). j \<noteq> k) xs)))"
proof (induction xs)
  case (Cons x xs)
  obtain j q where x: "x = (j, q)" by (cases x)
  show ?case
  proof (cases "j = k")
    case True
    with Cons.prems x have "filter (\<lambda>(j, q). j \<noteq> k) xs = xs" by (auto intro!: filter_True simp: rev_image_eqI)
    with True x Cons.prems show ?thesis by simp
  next
    case False
    with Cons x show ?thesis by simp
  qed
qed simp

lemma keys_filter: "fst ` {x \<in> set xs. case x of (j, q) \<Rightarrow> j \<noteq> k} = fst ` set xs - {k}"
  by force

lemma map_of_key: "k \<in> fst ` set xs \<Longrightarrow> \<exists>p. map_of xs k = Some p"
  by (metis map_of_eq_None_iff not_None_eq)

lemma AllocEventData_mem:
  assumes "mem_is (reactor_alloc allocator) D T m" and "h \<notin> D" and "AllocEventData new allocator sz h m = Inr m1"
  shows "mem_is (reactor_alloc allocator) (insert h D) T m1"
proof -
  obtain p hp where a: "Allocate new (reactor_alloc allocator) sz (rm_heap m) = (Some p, hp)"
      "m1 = m\<lparr>rm_eventdata := (h, p) # rm_eventdata m, rm_heap := hp\<rparr>"
    using assms(3) by (auto simp: AllocEventData_def split: prod.splits option.splits)
  show ?thesis using assms(1,2) heap_is_alloc [OF _ a(1)] by (auto simp: mem_is_def a(2))
qed

lemma ReleaseEventData_mem:
  assumes "mem_is (reactor_alloc allocator) D T m" and "h \<in> D"
  shows "\<exists>m1. ReleaseEventData allocator h m = Inr m1 \<and> mem_is (reactor_alloc allocator) (D - {h}) T m1"
proof -
  obtain p where p: "map_of (rm_eventdata m) h = Some p"
    using assms map_of_key [of h "rm_eventdata m"] by (auto simp: mem_is_def)
  let ?E = "mset (map (\<lambda>(h, p). (p, reactor_alloc allocator)) (filter (\<lambda>(g, p). g \<noteq> h) (rm_eventdata m)))"
  let ?T = "mset (map (\<lambda>(i, p). (p, UseNew)) (rm_timers m))"
  have "heap_is (rm_heap m) (add_mset (p, reactor_alloc allocator) (?E + ?T))"
    using assms(1) mset_take_key [OF _ p, of "\<lambda>(h, p). (p, reactor_alloc allocator)"] by (simp add: mem_is_def)
  from heap_is_dealloc [OF this] obtain hp where
    hp: "Deallocate (reactor_alloc allocator) p (rm_heap m) = Inr hp" "heap_is hp (?E + ?T)" by blast
  show ?thesis using assms(1) p hp
    by (simp add: ReleaseEventData_def mem_is_def keys_filter distinct_map_filter)
qed

lemma new_timer_mem:
  assumes "mem_is a D T m" and "i \<notin> T" and "new_timer new sz i m = Inr m1"
  shows "mem_is a D (insert i T) m1"
proof -
  obtain p hp where b: "Allocate new UseNew sz (rm_heap m) = (Some p, hp)"
      "m1 = m\<lparr>rm_timers := (i, p) # rm_timers m, rm_heap := hp\<rparr>"
    using assms(3) by (auto simp: new_timer_def split: prod.splits option.splits)
  show ?thesis using assms(1,2) heap_is_alloc [OF _ b(1)] by (auto simp: mem_is_def b(2))
qed

lemma delete_timer_mem:
  assumes "mem_is a D T m" and "i \<in> T"
  shows "\<exists>m1. delete_timer i m = Inr m1 \<and> mem_is a D (T - {i}) m1"
proof -
  obtain p where p: "map_of (rm_timers m) i = Some p"
    using assms map_of_key [of i "rm_timers m"] by (auto simp: mem_is_def)
  let ?E = "mset (map (\<lambda>(h, p). (p, a)) (rm_eventdata m))"
  let ?T = "mset (map (\<lambda>(i, p). (p, UseNew)) (filter (\<lambda>(j, p). j \<noteq> i) (rm_timers m)))"
  have "heap_is (rm_heap m) (add_mset (p, UseNew) (?E + ?T))"
    using assms(1) mset_take_key [OF _ p, of "\<lambda>(i, p). (p, UseNew)"] by (simp add: mem_is_def)
  from heap_is_dealloc [OF this] obtain hp where hp: "Deallocate UseNew p (rm_heap m) = Inr hp" "heap_is hp (?E + ?T)" by blast
  show ?thesis using assms(1) p hp
    by (simp add: delete_timer_def mem_is_def keys_filter distinct_map_filter)
qed

lemma delete_timers_mem:
  assumes "mem_is a D T m" and "distinct is" and "set is \<subseteq> T"
  shows "\<exists>m1. delete_timers is m = Inr m1 \<and> mem_is a D (T - set is) m1"
  using assms
proof (induction "is" arbitrary: m T)
  case (Cons i "is")
  then obtain m0 where m0: "delete_timer i m = Inr m0" "mem_is a D (T - {i}) m0"
    using delete_timer_mem [of a D T m i] by auto
  moreover obtain m1 where "delete_timers is m0 = Inr m1" "mem_is a D (T - {i} - set is) m1"
    using Cons.IH [OF m0(2)] Cons.prems by auto
  moreover have "T - set (i # is) = T - {i} - set is" by auto
  ultimately show ?case by auto
qed simp

end
