(* ===== verification/ReactorMemoryProps.thy ===== *)
theory ReactorMemoryProps
  imports ReactorMemory
begin

text \<open>
  Nothing that a reactor takes is lost or given back twice: after any sequence of operations it holds one address for the
  event data of each handler that has some, one for each timer, and nothing else; and what it does is what it does
  in the theories SelectReactor and LibEventReactor.
\<close>

section \<open>The timers of the handlers\<close>

text \<open>A view gives the timers of each handler that has event data; names from \<open>f\<close> on have not been used.\<close>

type_synonym timer_view = "handler_id \<Rightarrow> nat list option"

definition view_ids :: "timer_view \<Rightarrow> nat set" where
  "view_ids v = (\<Union>ts\<in>ran v. set ts)"

definition view_ok :: "timer_view \<Rightarrow> nat \<Rightarrow> bool" where
  "view_ok v f \<longleftrightarrow> (\<forall>h ts. v h = Some ts \<longrightarrow> distinct ts \<and> (\<forall>i\<in>set ts. i < f))
     \<and> (\<forall>g h ts us. g \<noteq> h \<longrightarrow> v g = Some ts \<longrightarrow> v h = Some us \<longrightarrow> set ts \<inter> set us = {})"

text \<open>The timers of the handlers other than \<open>h\<close>.\<close>

definition others :: "timer_view \<Rightarrow> handler_id \<Rightarrow> nat set" where
  "others v h = {i. \<exists>g ts. g \<noteq> h \<and> v g = Some ts \<and> i \<in> set ts}"

lemma others_upd [simp]: "others (v(h := x)) h = others v h"
  by (simp add: others_def cong: conj_cong)

lemma view_ids_split: "view_ids v = (case v h of None \<Rightarrow> {} | Some ts \<Rightarrow> set ts) \<union> others v h"
  by (auto simp: view_ids_def ran_def others_def split: option.split) (metis option.inject option.simps(3))+

lemma view_ids_upd: "view_ids (v(h := x)) = (case x of None \<Rightarrow> {} | Some ts \<Rightarrow> set ts) \<union> others v h"
  by (subst view_ids_split [of _ h]) simp

lemma others_disjoint: "view_ok v f \<Longrightarrow> v h = Some ts \<Longrightarrow> set ts \<inter> others v h = {}"
  by (force simp: view_ok_def others_def)

lemma view_ok_lt: "view_ok v f \<Longrightarrow> i \<in> view_ids v \<Longrightarrow> i < f"
  by (force simp: view_ok_def view_ids_def ran_def)

lemma view_fresh: "view_ok v f \<Longrightarrow> f \<notin> view_ids v"
  using view_ok_lt by blast

lemma view_ok_upd:
  assumes "view_ok v f" and "\<And>us. x = Some us \<Longrightarrow> distinct us \<and> (\<forall>i\<in>set us. i < f) \<and> set us \<inter> others v h = {}"
  shows "view_ok (v(h := x)) f"
  unfolding view_ok_def
proof (intro conjI allI impI)
  fix g ts assume "(v(h := x)) g = Some ts"
  then show "distinct ts" "\<forall>i\<in>set ts. i < f" using assms by (auto simp: view_ok_def split: if_splits)
next
  have o: "g \<noteq> h \<Longrightarrow> v g = Some ts \<Longrightarrow> set ts \<subseteq> others v h" for g ts by (auto simp: others_def)
  fix g k ts us assume *: "g \<noteq> k" "(v(h := x)) g = Some ts" "(v(h := x)) k = Some us"
  show "set ts \<inter> set us = {}"
  proof (cases "g = h \<or> k = h")
    case True
    then show ?thesis using * assms(2) o by (fastforce split: if_splits)
  next
    case False
    then have "v g = Some ts" "v k = Some us" using * by auto
    then show ?thesis using assms(1) *(1) unfolding view_ok_def by blast
  qed
qed

lemma view_init: "view_ok v f \<Longrightarrow> v h = None \<Longrightarrow> view_ok (v(h \<mapsto> [])) f \<and> view_ids (v(h \<mapsto> [])) = view_ids v"
  by (auto intro!: view_ok_upd simp: view_ids_upd view_ids_split [of v h])

lemma view_uninit: "view_ok v f \<Longrightarrow> v h = Some [] \<Longrightarrow> view_ok (v(h := None)) f \<and> view_ids (v(h := None)) = view_ids v"
  by (auto intro!: view_ok_upd simp: view_ids_upd view_ids_split [of v h])

lemma view_part:
  assumes "view_ok v f" and "v h = Some ts" and "set us \<subseteq> set ts" and "distinct us"
  shows "view_ok (v(h \<mapsto> us)) f \<and> view_ids (v(h \<mapsto> us)) = view_ids v - (set ts - set us)"
proof
  have lt: "\<forall>i\<in>set ts. i < f" using assms(1,2) by (simp add: view_ok_def)
  note d = others_disjoint [OF assms(1,2)]
  show "view_ok (v(h \<mapsto> us)) f" using lt d assms by (intro view_ok_upd) auto
  show "view_ids (v(h \<mapsto> us)) = view_ids v - (set ts - set us)"
    using d assms(2,3) by (auto simp: view_ids_upd view_ids_split [of v h])
qed

lemma view_add:
  assumes "view_ok v f" and "v h = Some ts"
  shows "view_ok (v(h \<mapsto> ts @ [f])) (Suc f) \<and> view_ids (v(h \<mapsto> ts @ [f])) = insert f (view_ids v)"
proof
  have lt: "distinct ts" "\<forall>i\<in>set ts. i < f" using assms by (simp_all add: view_ok_def)
  have f: "f \<notin> others v h" using view_fresh [OF assms(1)] by (auto simp: view_ids_split [of v h])
  have "view_ok v (Suc f)" using assms(1) unfolding view_ok_def by (meson less_SucI)
  then show "view_ok (v(h \<mapsto> ts @ [f])) (Suc f)"
    using lt f others_disjoint [OF assms] by (intro view_ok_upd) (auto intro: less_SucI)
  show "view_ids (v(h \<mapsto> ts @ [f])) = insert f (view_ids v)"
    using assms(2) by (auto simp: view_ids_upd view_ids_split [of v h])
qed

lemma view_mono: "view_ok v f \<Longrightarrow> view_ok v (Suc f)"
  unfolding view_ok_def by (meson less_SucI)

section \<open>The memory of a view\<close>

definition holds :: "allocator option \<Rightarrow> timer_view \<Rightarrow> nat \<Rightarrow> reactor_mem \<Rightarrow> bool" where
  "holds allocator v f m \<longleftrightarrow> view_ok v f \<and> mem_is (reactor_alloc allocator) (dom v) (view_ids v) m"

lemma holds_alloc:
  assumes "holds allocator v f m" and "v h = None" and "AllocEventData new allocator sz h m = Inr m1"
  shows "holds allocator (v(h \<mapsto> [])) f m1"
  using AllocEventData_mem [OF _ _ assms(3)] assms(1,2) view_init by (auto simp: holds_def domIff)

lemma holds_release:
  assumes "holds allocator v f m" and "v h = Some []"
  shows "\<exists>m1. ReleaseEventData allocator h m = Inr m1 \<and> holds allocator (v(h := None)) f m1"
  using ReleaseEventData_mem [of allocator "dom v" "view_ids v" m h] assms view_uninit [of v f h] domI [of v h]
  by (auto simp: holds_def)

lemma holds_add:
  assumes "holds allocator v f m" and "v h = Some ts" and "new_timer new sz f m = Inr m1"
  shows "holds allocator (v(h \<mapsto> ts @ [f])) (Suc f) m1"
    and "\<exists>m2. delete_timer f m1 = Inr m2 \<and> holds allocator v (Suc f) m2"
proof -
  note a = assms(1) [unfolded holds_def]
  have m: "mem_is (reactor_alloc allocator) (dom v) (insert f (view_ids v)) m1"
    using a new_timer_mem [OF _ _ assms(3)] view_fresh by blast
  show "holds allocator (v(h \<mapsto> ts @ [f])) (Suc f) m1"
    using a m view_add [of v f h ts] assms(2) by (auto simp: holds_def insert_absorb domI)
  have "insert f (view_ids v) - {f} = view_ids v" using a view_fresh by auto
  with delete_timer_mem [of "reactor_alloc allocator" "dom v" "insert f (view_ids v)" m1 f] a m view_mono
  show "\<exists>m2. delete_timer f m1 = Inr m2 \<and> holds allocator v (Suc f) m2" by (auto simp: holds_def)
qed

lemma holds_cancel:
  assumes "holds allocator v f m" and "v h = Some ts" and "t \<in> set ts"
  shows "\<exists>m1. delete_timer t m = Inr m1 \<and> holds allocator (v(h \<mapsto> filter (\<lambda>i. i \<noteq> t) ts)) f m1"
proof -
  note a = assms(1) [unfolded holds_def]
  have "distinct ts" "t \<in> view_ids v" using a assms(2,3) by (auto simp: view_ok_def view_ids_split [of v h])
  moreover have "set ts - set (filter (\<lambda>i. i \<noteq> t) ts) = {t}" using assms(3) by auto
  ultimately show ?thesis
    using delete_timer_mem [of "reactor_alloc allocator" "dom v" "view_ids v" m t] a assms(2)
      view_part [of v f h ts "filter (\<lambda>i. i \<noteq> t) ts"] by (auto simp: holds_def insert_absorb domI)
qed

lemma holds_cancel_all:
  assumes "holds allocator v f m" and "v h = Some ts"
  shows "\<exists>m1. delete_timers ts m = Inr m1 \<and> holds allocator (v(h \<mapsto> [])) f m1"
proof -
  note a = assms(1) [unfolded holds_def]
  have "distinct ts" "set ts \<subseteq> view_ids v" using a assms(2) by (auto simp: view_ok_def view_ids_split [of v h])
  then show ?thesis
    using delete_timers_mem [of "reactor_alloc allocator" "dom v" "view_ids v" m ts] a assms(2)
      view_part [of v f h ts "[]"] by (auto simp: holds_def insert_absorb domI)
qed

lemma holds_same: "holds allocator v f m \<Longrightarrow> v h = Some ts \<Longrightarrow> holds allocator (v(h \<mapsto> ts)) f m"
  by (simp add: map_upd_triv)

section \<open>The operations of the libevent reactor\<close>

text \<open>
  The result of an operation with memory: a fault of that operation or one because memory was refused, otherwise what the operation without
  memory gives, with exactly the addresses of the view that it leaves.
\<close>

definition kept :: "heap_new \<Rightarrow> allocator option \<Rightarrow> ('r \<Rightarrow> timer_view) \<Rightarrow> ('r \<Rightarrow> nat) \<Rightarrow> ('x \<times> 'r) result
    \<Rightarrow> ('x \<times> 'r \<times> reactor_mem) result \<Rightarrow> bool" where
  "kept new allocator view fresh plain res \<longleftrightarrow> (case res of Inl e \<Rightarrow> plain = Inl e \<or> (\<exists>n. new n = None)
     | Inr (x, r, m) \<Rightarrow> plain = Inr (x, r) \<and> holds allocator (view r) (fresh r) m)"

lemma kept_simps [simp]:
  "kept new allocator view fresh plain (Inr (x, r, m)) \<longleftrightarrow> plain = Inr (x, r) \<and> holds allocator (view r) (fresh r) m"
  "kept new allocator view fresh plain (Inl e) \<longleftrightarrow> plain = Inl e \<or> (\<exists>n. new n = None)"
  by (simp_all add: kept_def)

lemma refused:
  "AllocEventData new allocator sz h m = Inl e \<Longrightarrow> \<exists>n. new n = None"
  "new_timer new sz i m = Inl e \<Longrightarrow> \<exists>n. new n = None"
  by (auto simp: AllocEventData_def new_timer_def Allocate_eq split: option.splits)

definition le_view :: "LibEventReactor \<Rightarrow> timer_view" where
  "le_view r = (\<lambda>h. map_option (\<lambda>ed. map fst (led_timers ed)) (le_data r h))"

lemma le_view_simps [simp]:
  "le_view (le_set_data h (Some ed) r) = (le_view r)(h \<mapsto> map fst (led_timers ed))"
  "le_view (le_set_data h None r) = (le_view r)(h := None)"
  "le_view (le_HandleClose h r) = le_view r" "le_fresh (le_HandleClose h r) = le_fresh r"
  "le_fresh (le_set_data h x r) = le_fresh r"
  "le_view (r\<lparr>le_fresh := n\<rparr>) = le_view r"
  by (auto simp: le_view_def le_set_data_def le_HandleClose_def)

lemma le_set_data_same [simp]: "le_data (le_set_data h x r) h = x" "le_data (le_HandleClose h r) g = le_data r g"
  by (simp_all add: le_set_data_def le_HandleClose_def)

lemma le_view_data: "le_data r h = Some ed \<Longrightarrow> le_view r h = Some (map fst (led_timers ed))"
  "le_data r h = None \<Longrightarrow> le_view r h = None"
  by (simp_all add: le_view_def)

lemma LibEvent_Init_kept:
  assumes "holds allocator (le_view r) (le_fresh r) m"
  shows "case LibEvent_InitEventHandler new allocator sz h (r, m) of Inl e \<Rightarrow> \<exists>n. new n = None
    | Inr (r0, m0) \<Rightarrow> LibEventReactor_InitEventHandler True h r = Inr (0, r0) \<and> holds allocator (le_view r0) (le_fresh r0) m0
        \<and> (\<exists>ed. le_data r0 h = Some ed)"
proof (cases "le_data r h")
  case None
  show ?thesis
  proof (cases "AllocEventData new allocator sz h m")
    case (Inl e)
    then show ?thesis using None refused(1) [OF Inl] by (simp add: LibEvent_InitEventHandler_def)
  next
    case (Inr m0)
    then show ?thesis using None holds_alloc [OF assms le_view_data(2) Inr]
      by (simp add: LibEvent_InitEventHandler_def LibEventReactor_InitEventHandler_def EventData_new_def)
  qed
next
  case (Some ed)
  with assms show ?thesis by (simp add: LibEvent_InitEventHandler_def LibEventReactor_InitEventHandler_def)
qed

lemma LibEvent_Uninit_kept:
  assumes "holds allocator (le_view r) (le_fresh r) m" and "le_data r h = Some ed" and "led_timers ed = []"
  shows "\<exists>m1. LibEvent_UninitEventHander allocator h (r, m) = Inr (LibEventReactor_UninitEventHander h r, m1)
    \<and> holds allocator (le_view (LibEventReactor_UninitEventHander h r)) (le_fresh r) m1"
  using holds_release [OF assms(1), of h] le_view_data(1) [OF assms(2)] assms(3)
  by (auto simp: LibEvent_UninitEventHander_def LibEventReactor_UninitEventHander_def)

lemma LibEvent_Register_kept:
  assumes "holds allocator (le_view r) (le_fresh r) m"
  shows "kept new allocator le_view le_fresh (LibEventReactor_RegisterHandler True ar aw msk h timeout r)
    (LibEvent_RegisterHandler new allocator sz ar aw msk h timeout (r, m))"
proof (cases "LibEvent_InitEventHandler new allocator sz h (r, m)")
  case (Inl e)
  then show ?thesis using LibEvent_Init_kept [OF assms, of new h sz] by (simp add: LibEvent_RegisterHandler_def)
next
  case (Inr w)
  obtain r0 m0 where w: "w = (r0, m0)" by (cases w)
  from LibEvent_Init_kept [OF assms, of new h sz] obtain ed where
    i: "LibEventReactor_InitEventHandler True h r = Inr (0, r0)" "holds allocator (le_view r0) (le_fresh r0) m0" "le_data r0 h = Some ed"
    by (auto simp: Inr w)
  have same: "LibEventReactor_InitEventHandler True h r0 = Inr (0, r0)" using i(3) by (simp add: LibEventReactor_InitEventHandler_def)
  note t = holds_same [OF i(2) le_view_data(1) [OF i(3)]]
  show ?thesis
    using t i(1,3) by (simp add: LibEvent_RegisterHandler_def Inr w LibEventReactor_RegisterHandler_def same Let_def)
qed

lemma LibEvent_Remove_kept:
  assumes "holds allocator (le_view r) (le_fresh r) m"
  shows "kept new allocator le_view le_fresh (Inr (LibEventReactor_RemoveHandler msk h r))
    (LibEvent_RemoveHandler allocator msk h (r, m))"
proof (cases "le_data r h")
  case None
  then show ?thesis using assms by (simp add: LibEvent_RemoveHandler_def LibEventReactor_RemoveHandler_def)
next
  case (Some ed)
  let ?ed1 = "if masked msk ReadMask then ed\<lparr>led_readev := event_zero\<rparr> else ed"
  let ?ed2 = "if masked msk WriteMask then ?ed1\<lparr>led_writeev := event_zero\<rparr> else ?ed1"
  have t: "led_timers ?ed2 = led_timers ed" by simp
  have h: "holds allocator (le_view (le_set_data h (Some ?ed2) r)) (le_fresh (le_set_data h (Some ?ed2) r)) m"
    using holds_same [OF assms le_view_data(1) [OF Some]] by simp
  show ?thesis
  proof (cases "LibEventReactor_HasEvent ?ed2")
    case True
    then show ?thesis using h Some by (simp add: LibEvent_RemoveHandler_def LibEventReactor_RemoveHandler_def Let_def)
  next
    case False
    then have "led_timers ?ed2 = []" by (simp add: LibEventReactor_HasEvent_def)
    from LibEvent_Uninit_kept [OF h le_set_data_same(1) this] False Some
    show ?thesis
      by (auto simp: LibEvent_RemoveHandler_def LibEventReactor_RemoveHandler_def LibEventReactor_UninitEventHander_def Let_def)
  qed
qed

lemma LibEvent_Schedule_kept:
  assumes "holds allocator (le_view r) (le_fresh r) m"
  shows "kept new allocator le_view le_fresh (no_id (LibEventReactor_ScheduleTimer True add h timeout r))
    (LibEvent_ScheduleTimer new allocator sz tsz add h timeout (r, m))"
proof (cases timeout)
  case None
  then show ?thesis using assms by (simp add: LibEvent_ScheduleTimer_def LibEventReactor_ScheduleTimer_def no_id_def)
next
  case (Some tv)
  show ?thesis
  proof (cases "LibEvent_InitEventHandler new allocator sz h (r, m)")
    case (Inl e)
    then show ?thesis using LibEvent_Init_kept [OF assms, of new h sz] Some by (simp add: LibEvent_ScheduleTimer_def)
  next
    case (Inr w)
    obtain r0 m0 where w: "w = (r0, m0)" by (cases w)
    from LibEvent_Init_kept [OF assms, of new h sz] obtain ed where
      i: "LibEventReactor_InitEventHandler True h r = Inr (0, r0)" "holds allocator (le_view r0) (le_fresh r0) m0" "le_data r0 h = Some ed"
      by (auto simp: Inr w)
    have same: "LibEventReactor_InitEventHandler True h r0 = Inr (0, r0)" using i(3) by (simp add: LibEventReactor_InitEventHandler_def)
    show ?thesis
    proof (cases "new_timer new tsz (le_fresh r0) m0")
      case (Inl e)
      then show ?thesis using refused(2) [OF Inl] Some Inr w by (simp add: LibEvent_ScheduleTimer_def)
    next
      case m1: (Inr m1)
      note a = holds_add [OF i(2) le_view_data(1) [OF i(3)] m1]
      show ?thesis using Some Inr w i(1,3) m1 a
        by (auto simp: LibEvent_ScheduleTimer_def LibEventReactor_ScheduleTimer_def same no_id_def Let_def)
    qed
  qed
qed

lemma map_fst_filter: "map fst (filter (\<lambda>(i, e). i \<noteq> t) xs) = filter (\<lambda>i. i \<noteq> t) (map fst xs)"
  by (induction xs) auto

lemma LibEvent_Cancel_kept:
  assumes "holds allocator (le_view r) (le_fresh r) m"
  shows "kept new allocator le_view le_fresh (Inr (LibEventReactor_CancelTimer del h pTimerID r))
    (LibEvent_CancelTimer allocator del h pTimerID (r, m))"
proof (cases "le_data r h")
  case None
  then show ?thesis using assms by (simp add: LibEvent_CancelTimer_def LibEventReactor_CancelTimer_def)
next
  case (Some ed)
  show ?thesis
  proof (cases "\<exists>t\<in>set_option pTimerID. t \<notin> fst ` set (led_timers ed) \<or> del \<noteq> 0")
    case True
    then show ?thesis using Some assms
      by (auto simp: LibEvent_CancelTimer_def LibEventReactor_CancelTimer_def split: option.splits)
  next
    case False
    let ?ed1 = "case pTimerID of None \<Rightarrow> ed\<lparr>led_timers := []\<rparr>
        | Some t \<Rightarrow> ed\<lparr>led_timers := filter (\<lambda>(i, e). i \<noteq> t) (led_timers ed)\<rparr>"
    note v = le_view_data(1) [OF Some]
    obtain m1 where m1: "(case pTimerID of None \<Rightarrow> delete_timers (map fst (led_timers ed)) m | Some t \<Rightarrow> delete_timer t m) = Inr m1"
      "holds allocator (le_view (le_set_data h (Some ?ed1) r)) (le_fresh (le_set_data h (Some ?ed1) r)) m1"
      using holds_cancel_all [OF assms v] holds_cancel [OF assms v] False
      by (cases pTimerID) (auto simp: map_fst_filter)
    have plain: "LibEventReactor_CancelTimer del h pTimerID r = (0,
        if \<not> LibEventReactor_HasEvent ?ed1 then LibEventReactor_UninitEventHander h (le_set_data h (Some ?ed1) r)
        else le_set_data h (Some ?ed1) r)"
      using Some False by (cases pTimerID) (simp_all add: LibEventReactor_CancelTimer_def Let_def)
    have res: "LibEvent_CancelTimer allocator del h pTimerID (r, m) = (if \<not> LibEventReactor_HasEvent ?ed1
        then bindR (LibEvent_UninitEventHander allocator h (le_set_data h (Some ?ed1) r, m1)) (\<lambda>(r2, m2). Inr (0, r2, m2))
        else Inr (0, le_set_data h (Some ?ed1) r, m1))"
      using Some False m1(1) by (simp add: LibEvent_CancelTimer_def Let_def)
    show ?thesis
    proof (cases "LibEventReactor_HasEvent ?ed1")
      case True
      then show ?thesis using m1(2) by (simp add: plain res)
    next
      case no: False
      then have "led_timers ?ed1 = []" by (simp add: LibEventReactor_HasEvent_def)
      from LibEvent_Uninit_kept [OF m1(2) le_set_data_same(1) this] no
      show ?thesis unfolding plain res by (auto simp: LibEventReactor_UninitEventHander_def)
    qed
  qed
qed

section \<open>The operations of the select reactor\<close>

definition sr_view :: "SelectReactor \<Rightarrow> timer_view" where
  "sr_view r = (\<lambda>h. map_option (\<lambda>ed. map fst (ed_timers ed)) (sr_data r h))"

lemma sr_view_simps [simp]:
  "sr_view (SelectReactor_set_data h (Some ed) r) = (sr_view r)(h \<mapsto> map fst (ed_timers ed))"
  "sr_view (SelectReactor_set_data h None r) = (sr_view r)(h := None)"
  "sr_view (SelectReactor_HandleClose h r) = sr_view r" "sr_fresh (SelectReactor_HandleClose h r) = sr_fresh r"
  "sr_fresh (SelectReactor_set_data h x r) = sr_fresh r"
  "sr_view (SelectReactor_insert h r) = sr_view r" "sr_fresh (SelectReactor_insert h r) = sr_fresh r"
  "sr_view (r\<lparr>sr_fresh := n\<rparr>) = sr_view r" "sr_view (r\<lparr>sr_handlers := hs\<rparr>) = sr_view r"
  by (auto simp: sr_view_def SelectReactor_set_data_def SelectReactor_HandleClose_def SelectReactor_insert_def)

lemma sr_set_data_same [simp]: "sr_data (SelectReactor_set_data h x r) h = x"
  by (simp add: SelectReactor_set_data_def)

lemma sr_view_data: "sr_data r h = Some ed \<Longrightarrow> sr_view r h = Some (map fst (ed_timers ed))"
  "sr_data r h = None \<Longrightarrow> sr_view r h = None"
  by (simp_all add: sr_view_def)

lemma Select_Init_kept:
  assumes "holds allocator (sr_view r) (sr_fresh r) m"
  shows "case Select_InitEventHandler new allocator sz h (r, m) of Inl e \<Rightarrow> \<exists>n. new n = None
    | Inr (r0, m0) \<Rightarrow> SelectReactor_InitEventHandler True h r = Inr (0, r0) \<and> holds allocator (sr_view r0) (sr_fresh r0) m0
        \<and> (\<exists>ed. sr_data r0 h = Some ed)"
proof (cases "sr_data r h")
  case None
  show ?thesis
  proof (cases "AllocEventData new allocator sz h m")
    case (Inl e)
    then show ?thesis using None refused(1) [OF Inl] by (simp add: Select_InitEventHandler_def)
  next
    case (Inr m0)
    then show ?thesis using None holds_alloc [OF assms sr_view_data(2) Inr]
      by (simp add: Select_InitEventHandler_def SelectReactor_InitEventHandler_def SelectEventData_new_def)
  qed
next
  case (Some ed)
  with assms show ?thesis by (simp add: Select_InitEventHandler_def SelectReactor_InitEventHandler_def)
qed

lemma Select_Uninit_kept:
  assumes "holds allocator (sr_view r) (sr_fresh r) m" and "sr_data r h = Some ed" and "ed_timers ed = []"
  shows "\<exists>m1. Select_UninitEventHander allocator h (r, m) = Inr (SelectReactor_UninitEventHander h r, m1)
    \<and> holds allocator (sr_view (SelectReactor_UninitEventHander h r)) (sr_fresh r) m1"
  using holds_release [OF assms(1), of h] sr_view_data(1) [OF assms(2)] assms(3)
  by (auto simp: Select_UninitEventHander_def SelectReactor_UninitEventHander_def)

lemma Select_Register_kept:
  assumes "holds allocator (sr_view r) (sr_fresh r) m"
  shows "kept new allocator sr_view sr_fresh (SelectReactor_RegisterHandler True now msk h timeout r)
    (Select_RegisterHandler new allocator sz now msk h timeout (r, m))"
proof (cases "Select_InitEventHandler new allocator sz h (r, m)")
  case (Inl e)
  then show ?thesis using Select_Init_kept [OF assms, of new h sz] by (simp add: Select_RegisterHandler_def)
next
  case (Inr w)
  obtain r0 m0 where w: "w = (r0, m0)" by (cases w)
  from Select_Init_kept [OF assms, of new h sz] obtain ed where
    i: "SelectReactor_InitEventHandler True h r = Inr (0, r0)" "holds allocator (sr_view r0) (sr_fresh r0) m0" "sr_data r0 h = Some ed"
    by (auto simp: Inr w)
  have same: "SelectReactor_InitEventHandler True h r0 = Inr (0, r0)" using i(3) by (simp add: SelectReactor_InitEventHandler_def)
  note t = holds_same [OF i(2) sr_view_data(1) [OF i(3)]]
  show ?thesis
    using t i(1,3) by (simp add: Select_RegisterHandler_def Inr w SelectReactor_RegisterHandler_def same Let_def)
qed

lemma Select_Remove_kept:
  assumes "holds allocator (sr_view r) (sr_fresh r) m"
  shows "kept new allocator sr_view sr_fresh (Inr (SelectReactor_RemoveHandler msk h r))
    (Select_RemoveHandler allocator msk h (r, m))"
proof (cases "sr_data r h")
  case None
  then show ?thesis using assms by (simp add: Select_RemoveHandler_def SelectReactor_RemoveHandler_def)
next
  case (Some ed)
  let ?ed1 = "if masked msk ReadMask then ed\<lparr>ed_readev := (ed_readev ed)\<lparr>ev_on := False\<rparr>\<rparr> else ed"
  let ?ed2 = "if masked msk WriteMask then ?ed1\<lparr>ed_writeev := (ed_writeev ?ed1)\<lparr>ev_on := False\<rparr>\<rparr> else ?ed1"
  have t: "ed_timers ?ed2 = ed_timers ed" by simp
  have h: "holds allocator (sr_view (SelectReactor_set_data h (Some ?ed2) r)) (sr_fresh (SelectReactor_set_data h (Some ?ed2) r)) m"
    unfolding sr_view_simps t by (rule holds_same [OF assms sr_view_data(1) [OF Some]])
  show ?thesis
  proof (cases "SelectReactor_HasEvent ?ed2")
    case True
    then show ?thesis using h Some unfolding Select_RemoveHandler_def SelectReactor_RemoveHandler_def Let_def by simp
  next
    case False
    then have "ed_timers ?ed2 = []" by (simp add: SelectReactor_HasEvent_def)
    from Select_Uninit_kept [OF h sr_set_data_same this] False Some
    show ?thesis unfolding Select_RemoveHandler_def SelectReactor_RemoveHandler_def Let_def
      by (auto simp: SelectReactor_UninitEventHander_def)
  qed
qed

lemma Select_Schedule_kept:
  assumes "holds allocator (sr_view r) (sr_fresh r) m"
  shows "kept new allocator sr_view sr_fresh (no_id (SelectReactor_ScheduleTimer True now h timeout r))
    (Select_ScheduleTimer new allocator sz tsz now h timeout (r, m))"
proof (cases timeout)
  case None
  then show ?thesis using assms by (simp add: Select_ScheduleTimer_def SelectReactor_ScheduleTimer_def no_id_def)
next
  case (Some tv)
  show ?thesis
  proof (cases "Select_InitEventHandler new allocator sz h (r, m)")
    case (Inl e)
    then show ?thesis using Select_Init_kept [OF assms, of new h sz] Some by (simp add: Select_ScheduleTimer_def)
  next
    case (Inr w)
    obtain r0 m0 where w: "w = (r0, m0)" by (cases w)
    from Select_Init_kept [OF assms, of new h sz] obtain ed where
      i: "SelectReactor_InitEventHandler True h r = Inr (0, r0)" "holds allocator (sr_view r0) (sr_fresh r0) m0" "sr_data r0 h = Some ed"
      by (auto simp: Inr w)
    have same: "SelectReactor_InitEventHandler True h r0 = Inr (0, r0)" using i(3) by (simp add: SelectReactor_InitEventHandler_def)
    show ?thesis
    proof (cases "new_timer new tsz (sr_fresh r0) m0")
      case (Inl e)
      then show ?thesis using refused(2) [OF Inl] Some Inr w by (simp add: Select_ScheduleTimer_def)
    next
      case m1: (Inr m1)
      show ?thesis using Some Inr w i(1,3) m1 holds_add(1) [OF i(2) sr_view_data(1) [OF i(3)] m1]
        by (auto simp: Select_ScheduleTimer_def SelectReactor_ScheduleTimer_def same no_id_def Let_def)
    qed
  qed
qed

lemma Select_Cancel_kept:
  assumes "holds allocator (sr_view r) (sr_fresh r) m"
  shows "kept new allocator sr_view sr_fresh (Inr (SelectReactor_CancelTimer h pTimerID r))
    (Select_CancelTimer allocator h pTimerID (r, m))"
proof (cases "sr_data r h")
  case None
  then show ?thesis using assms by (simp add: Select_CancelTimer_def SelectReactor_CancelTimer_def)
next
  case (Some ed)
  show ?thesis
  proof (cases "\<exists>t\<in>set_option pTimerID. t \<notin> fst ` set (ed_timers ed)")
    case True
    then show ?thesis using Some assms
      by (auto simp: Select_CancelTimer_def SelectReactor_CancelTimer_def split: option.splits)
  next
    case False
    let ?ed1 = "case pTimerID of None \<Rightarrow> ed\<lparr>ed_timers := []\<rparr>
        | Some t \<Rightarrow> ed\<lparr>ed_timers := filter (\<lambda>(i, e). i \<noteq> t) (ed_timers ed)\<rparr>"
    note v = sr_view_data(1) [OF Some]
    obtain m1 where m1: "(case pTimerID of None \<Rightarrow> delete_timers (map fst (ed_timers ed)) m | Some t \<Rightarrow> delete_timer t m) = Inr m1"
      "holds allocator (sr_view (SelectReactor_set_data h (Some ?ed1) r)) (sr_fresh (SelectReactor_set_data h (Some ?ed1) r)) m1"
      using holds_cancel_all [OF assms v] holds_cancel [OF assms v] False
      by (cases pTimerID) (auto simp: map_fst_filter)
    have plain: "SelectReactor_CancelTimer h pTimerID r = (0,
        if \<not> SelectReactor_HasEvent ?ed1 then SelectReactor_UninitEventHander h (SelectReactor_set_data h (Some ?ed1) r)
        else SelectReactor_set_data h (Some ?ed1) r)"
      using Some False by (cases pTimerID) (simp_all add: SelectReactor_CancelTimer_def Let_def)
    have res: "Select_CancelTimer allocator h pTimerID (r, m) = (if \<not> SelectReactor_HasEvent ?ed1
        then bindR (Select_UninitEventHander allocator h (SelectReactor_set_data h (Some ?ed1) r, m1)) (\<lambda>(r2, m2). Inr (0, r2, m2))
        else Inr (0, SelectReactor_set_data h (Some ?ed1) r, m1))"
      using Some False m1(1) by (simp add: Select_CancelTimer_def Let_def)
    show ?thesis
    proof (cases "SelectReactor_HasEvent ?ed1")
      case True
      then show ?thesis using m1(2) by (simp add: plain res)
    next
      case no: False
      then have "ed_timers ?ed1 = []" by (simp add: SelectReactor_HasEvent_def)
      from Select_Uninit_kept [OF m1(2) sr_set_data_same this] no
      show ?thesis unfolding plain res by (auto simp: SelectReactor_UninitEventHander_def)
    qed
  qed
qed

lemma Select_expire_kept:
  assumes "holds allocator (sr_view r) (sr_fresh r) m"
  shows "case Select_expire h t (r, m) of Inl e \<Rightarrow> sr_expire h t r = Inl e
    | Inr (r1, m1) \<Rightarrow> sr_expire h t r = Inr r1 \<and> holds allocator (sr_view r1) (sr_fresh r1) m1"
proof (cases "\<exists>ed. sr_data r h = Some ed \<and> t \<in> fst ` set (ed_timers ed)")
  case False
  then show ?thesis by (auto simp: Select_expire_def sr_expire_def SelectReactor_timeout_def split: option.split)
next
  case True
  then obtain ed where ed: "sr_data r h = Some ed" "t \<in> fst ` set (ed_timers ed)" by blast
  from holds_cancel [OF assms sr_view_data(1) [OF ed(1)]] ed(2) obtain m1 where
    "delete_timer t m = Inr m1" "holds allocator ((sr_view r)(h \<mapsto> filter (\<lambda>i. i \<noteq> t) (map fst (ed_timers ed)))) (sr_fresh r) m1"
    by auto
  with ed show ?thesis by (simp add: Select_expire_def sr_expire_def SelectReactor_timeout_def map_fst_filter)
qed

section \<open>Runs\<close>

text \<open>The contract of the operations of a reactor with memory, and its consequence for every sequence of them.\<close>

locale reactor_with_memory =
  fixes new :: heap_new and allocator :: "allocator option"
    and view :: "'r \<Rightarrow> timer_view" and fresh :: "'r \<Rightarrow> nat"
    and plain :: "'op \<Rightarrow> 'r \<Rightarrow> (int \<times> 'r) result"
    and step :: "'op \<Rightarrow> 'r \<times> reactor_mem \<Rightarrow> (int \<times> 'r \<times> reactor_mem) result"
  assumes step_kept: "holds allocator (view r) (fresh r) m \<Longrightarrow> kept new allocator view fresh (plain op r) (step op (r, m))"
begin

lemma run_kept:
  assumes "holds allocator (view r) (fresh r) m"
  shows "case ops_run step ops (r, m) of Inl e \<Rightarrow> ops_run plain ops r = Inl e \<or> (\<exists>n. new n = None)
    | Inr (r', m') \<Rightarrow> ops_run plain ops r = Inr r' \<and> holds allocator (view r') (fresh r') m'"
  using assms
proof (induction ops arbitrary: r m)
  case (Cons op ops)
  note k = step_kept [OF Cons.prems, of op]
  show ?case
  proof (cases "step op (r, m)")
    case (Inl e)
    with k show ?thesis by auto
  next
    case (Inr y)
    obtain ret r1 m1 where y: "y = (ret, r1, m1)" by (cases y)
    with Inr k have "plain op r = Inr (ret, r1)" "holds allocator (view r1) (fresh r1) m1" by simp_all
    then have "ops_run plain (op # ops) r = ops_run plain ops r1" by simp
    with Cons.IH [OF \<open>holds allocator (view r1) (fresh r1) m1\<close>] show ?thesis by (simp only: ops_run.simps Inr y bindR_simps prod.case)
  qed
qed simp

end

interpretation libevent_memory: reactor_with_memory new allocator le_view le_fresh le_op_run "le_op_mem new allocator sz tsz"
proof unfold_locales
  fix r m op
  assume "holds allocator (le_view r) (le_fresh r) m"
  then show "kept new allocator le_view le_fresh (le_op_run op r) (le_op_mem new allocator sz tsz op (r, m))"
    by (cases op) (simp_all add: LibEvent_Register_kept LibEvent_Remove_kept LibEvent_Schedule_kept LibEvent_Cancel_kept)
qed

interpretation select_memory: reactor_with_memory new allocator sr_view sr_fresh sr_op_run "sr_op_mem new allocator sz tsz"
proof unfold_locales
  fix r m op
  assume h: "holds allocator (sr_view r) (sr_fresh r) m"
  show "kept new allocator sr_view sr_fresh (sr_op_run op r) (sr_op_mem new allocator sz tsz op (r, m))"
  proof (cases op)
    case (SrExpire h t)
    with Select_expire_kept [OF h, of h t] show ?thesis by (cases "Select_expire h t (r, m)") auto
  qed (simp_all add: h Select_Register_kept Select_Remove_kept Select_Schedule_kept Select_Cancel_kept)
qed

lemma le_op_total: "\<exists>ret r'. le_op_run op r = Inr (ret, r')"
proof (cases op)
  case (LeRegister msk h t ar aw)
  then show ?thesis
    by (cases "le_data r h") (auto simp: LibEventReactor_RegisterHandler_def LibEventReactor_InitEventHandler_def Let_def)
next
  case (LeSchedule h t add)
  then show ?thesis
    by (cases "le_data r h") (auto simp: LibEventReactor_ScheduleTimer_def LibEventReactor_InitEventHandler_def no_id_def Let_def)
qed simp_all

lemma le_ops_total: "\<exists>r'. ops_run le_op_run ops r = Inr r'"
proof (induction ops arbitrary: r)
  case (Cons op ops)
  with le_op_total [of op r] show ?case by auto
qed simp

lemma mem_is_free: "mem_is a {} {} m \<Longrightarrow> hp_live (rm_heap m) = (\<lambda>_. None)"
proof
  fix p
  assume "mem_is a {} {} m"
  then have "heap_is (rm_heap m) {#}" by (auto simp: mem_is_def)
  from heap_is_iff [OF this, of p] show "hp_live (rm_heap m) p = None" by (cases "hp_live (rm_heap m) p") auto
qed

lemma holds_new: "holds allocator (\<lambda>_. None) f reactor_mem_new"
  by (simp add: holds_def view_ok_def view_ids_def mem_is_new)

section \<open>Property\<close>

text \<open>The event data and the timers of a reactor.\<close>

definition le_timer_ids :: "LibEventReactor \<Rightarrow> nat set" where
  "le_timer_ids r = {i. \<exists>h ed. le_data r h = Some ed \<and> i \<in> fst ` set (led_timers ed)}"

definition sr_timer_ids :: "SelectReactor \<Rightarrow> nat set" where
  "sr_timer_ids r = {i. \<exists>h ed. sr_data r h = Some ed \<and> i \<in> fst ` set (ed_timers ed)}"

lemma le_view_sets: "dom (le_view r) = {h. le_data r h \<noteq> None}" "view_ids (le_view r) = le_timer_ids r"
  by (auto simp: le_view_def view_ids_def ran_def le_timer_ids_def) force+

lemma sr_view_sets: "dom (sr_view r) = {h. sr_data r h \<noteq> None}" "view_ids (sr_view r) = sr_timer_ids r"
  by (auto simp: sr_view_def view_ids_def ran_def sr_timer_ids_def) force+

text \<open>C12. The reactors own their memory: after any calls on a new reactor, of either kind, it holds one address for the event
  data of each handler that has some, from its allocator or from \<open>malloc\<close>, one from \<open>new\<close> for each timer of a
  handler, and nothing else, so that nothing is left when no handler has events; no address is freed twice or to the wrong
  allocator, and what the calls do is what they do in the model without memory. The libevent reactor fails only when memory is
  refused; the select reactor also when a timer that has run out has been cancelled by its own handler.\<close>

theorem reactors_memory:
  shows "(case ops_run (le_op_mem new allocator sz tsz) ops (LibEventReactor_new handle, reactor_mem_new) of
      Inl e \<Rightarrow> \<exists>n. new n = None
    | Inr (r, m) \<Rightarrow> ops_run le_op_run ops (LibEventReactor_new handle) = Inr r
        \<and> mem_is (reactor_alloc allocator) {h. le_data r h \<noteq> None} (le_timer_ids r) m
        \<and> ((\<forall>h. le_data r h = None) \<longrightarrow> hp_live (rm_heap m) = (\<lambda>_. None)))
    \<and> (case ops_run (sr_op_mem new allocator sz tsz) ops' (SelectReactor_new handle, reactor_mem_new) of
      Inl e \<Rightarrow> ops_run sr_op_run ops' (SelectReactor_new handle) = Inl e \<or> (\<exists>n. new n = None)
    | Inr (r, m) \<Rightarrow> ops_run sr_op_run ops' (SelectReactor_new handle) = Inr r
        \<and> mem_is (reactor_alloc allocator) {h. sr_data r h \<noteq> None} (sr_timer_ids r) m
        \<and> ((\<forall>h. sr_data r h = None) \<longrightarrow> hp_live (rm_heap m) = (\<lambda>_. None)))" (is "?le \<and> ?sr")
proof -
  let ?r = "LibEventReactor_new handle" and ?s = "SelectReactor_new handle"
  have "le_view ?r = (\<lambda>_. None)" "sr_view ?s = (\<lambda>_. None)"
    by (simp_all add: le_view_def sr_view_def LibEventReactor_new_def SelectReactor_new_def)
  then have h: "holds allocator (le_view ?r) (le_fresh ?r) reactor_mem_new" "holds allocator (sr_view ?s) (sr_fresh ?s) reactor_mem_new"
    by (simp_all add: holds_new)
  have e: "(\<forall>h. le_data r h = None) \<Longrightarrow> le_timer_ids r = {}" "(\<forall>h. sr_data s h = None) \<Longrightarrow> sr_timer_ids s = {}" for r s
    by (auto simp: le_timer_ids_def sr_timer_ids_def)
  obtain r' where t: "ops_run le_op_run ops ?r = Inr r'" using le_ops_total by blast
  from libevent_memory.run_kept [OF h(1), where new = new and sz = sz and tsz = tsz and ops = ops] e(1) t
  have ?le by (auto simp: holds_def le_view_sets split: sum.splits dest: mem_is_free)
  moreover from select_memory.run_kept [OF h(2), where new = new and sz = sz and tsz = tsz and ops = ops'] e(2)
  have ?sr by (auto simp: holds_def sr_view_sets split: sum.splits dest: mem_is_free)
  ultimately show ?thesis by blast
qed

text \<open>The timer that has run out leaves the event data of its handler in the select reactor.\<close>

theorem reactors_memory_witness:
  "\<exists>r m r' m'. ops_run (le_op_mem heap_1M None 300 200) [LeRegister ReadMask 1 None 0 0, LeSchedule 1 (Some (1, 0)) 0,
        LeSchedule 1 (Some (2, 0)) (- 1), LeRemove ReadMask 1, LeCancel 1 (Some 1) 0] (LibEventReactor_new (\<lambda>_. 7), reactor_mem_new)
        = Inr (r, m) \<and> hp_live (rm_heap m) = (\<lambda>_. None)
    \<and> ops_run (sr_op_mem heap_1M None 300 200) [SrSchedule (0, 0) 1 (Some (1, 0)), SrExpire 1 1]
        (SelectReactor_new (\<lambda>_. 7), reactor_mem_new) = Inr (r', m') \<and> sr_data r' 1 \<noteq> None \<and> sr_timer_ids r' = {}
    \<and> hp_live (rm_heap m') 1 = Some UseMalloc"
proof -
  let ?le = "[LeRegister ReadMask 1 None 0 0, LeSchedule 1 (Some (1, 0)) 0,
        LeSchedule 1 (Some (2, 0)) (- 1), LeRemove ReadMask 1, LeCancel 1 (Some 1) 0]"
  let ?sr = "[SrSchedule (0, 0) 1 (Some (1, 0)), SrExpire 1 1]"
  note t = reactors_memory [where new = heap_1M and allocator = None and sz = 300 and tsz = 200 and ops = ?le
      and handle = "\<lambda>_. 7" and ops' = ?sr]
  have "case ops_run (le_op_mem heap_1M None 300 200) ?le (LibEventReactor_new (\<lambda>_. 7), reactor_mem_new) of
      Inl e \<Rightarrow> False | Inr (r, m) \<Rightarrow> rm_eventdata m = []" by code_simp
  then obtain r m where le: "ops_run (le_op_mem heap_1M None 300 200) ?le (LibEventReactor_new (\<lambda>_. 7), reactor_mem_new) = Inr (r, m)"
    "rm_eventdata m = []" by (auto split: sum.splits)
  have "case ops_run (sr_op_mem heap_1M None 300 200) ?sr (SelectReactor_new (\<lambda>_. 7), reactor_mem_new) of
      Inl e \<Rightarrow> False | Inr (r, m) \<Rightarrow> rm_eventdata m = [(1, 1)] \<and> rm_timers m = []" by code_simp
  then obtain r' m' where sr: "ops_run (sr_op_mem heap_1M None 300 200) ?sr (SelectReactor_new (\<lambda>_. 7), reactor_mem_new) = Inr (r', m')"
    "rm_eventdata m' = [(1, 1)]" "rm_timers m' = []" by (auto split: sum.splits)
  have "mem_is UseMalloc {h. sr_data r' h \<noteq> None} (sr_timer_ids r') m'"
    using t sr(1) by (simp add: reactor_alloc_def)
  then have s: "{h. sr_data r' h \<noteq> None} = {1}" "sr_timer_ids r' = {}" "heap_is (rm_heap m') {#(1, UseMalloc)#}"
    using sr(2,3) by (simp_all add: mem_is_def)
  have "mem_is UseMalloc {h. le_data r h \<noteq> None} (le_timer_ids r) m"
    "(\<forall>h. le_data r h = None) \<longrightarrow> hp_live (rm_heap m) = (\<lambda>_. None)"
    using t le(1) by (simp_all add: reactor_alloc_def)
  then have "hp_live (rm_heap m) = (\<lambda>_. None)" using le(2) by (simp add: mem_is_def)
  with le(1) sr(1) s(1,2) heap_is_iff [OF s(3), of 1] show ?thesis by auto
qed

end
