(* ===== verification/SocketPair.thy ===== *)
theory SocketPair
  imports ConnectEventHandler Queue
begin

text \<open>
  \<open>nets/socketpairhandler.cpp\<close> and \<open>utils/notify.cpp\<close>: the pair of sockets by which the worker
  threads wake the reactor after a push to the send queue. \<open>sp_log\<close> has the descriptors that were closed,
  newest first. The results of \<open>socketpair\<close>, \<open>event_add\<close> and \<open>recv\<close> are parameters.
\<close>

section \<open>SocketPairHandler\<close>

record SocketPairHandler =
  sp_handle :: int
  sp_another :: int
  sp_reactor :: LibEventReactor
  sp_log :: "int list"

definition SocketPairHandler_CloseHandles :: "SocketPairHandler \<Rightarrow> SocketPairHandler" where
  "SocketPairHandler_CloseHandles s =
     s\<lparr>sp_log := sp_another s # sp_handle s # sp_log s, sp_handle := - 1, sp_another := - 1\<rparr>"

definition SocketPairHandler_HandleClose :: "SocketPairHandler \<Rightarrow> SocketPairHandler" where
  "SocketPairHandler_HandleClose s = SocketPairHandler_CloseHandles s"

text \<open>\<open>RemoveHandler\<close> of the reactor, which calls \<open>HandleClose\<close> when no event is left.\<close>

definition sp_remove :: "nat \<Rightarrow> handler_id \<Rightarrow> SocketPairHandler \<Rightarrow> SocketPairHandler" where
  "sp_remove msk h s =
     (let r = snd (LibEventReactor_RemoveHandler msk h (sp_reactor s)); s1 = s\<lparr>sp_reactor := r\<rparr>
      in if le_closed r = le_closed (sp_reactor s) then s1 else SocketPairHandler_HandleClose s1)"

definition SocketPairHandler_Open :: "(int \<times> int) option \<Rightarrow> bool \<Rightarrow> int \<Rightarrow> handler_id \<Rightarrow> SocketPairHandler
    \<Rightarrow> (int \<times> SocketPairHandler) result" where
  "SocketPairHandler_Open fds mem add h s =
     (case fds of
        None \<Rightarrow> Inr (- 1, s)
      | Some (fd0, fd1) \<Rightarrow>
          let s1 = s\<lparr>sp_handle := fd0, sp_another := fd1,
                sp_reactor := (sp_reactor s)\<lparr>le_handle := (le_handle (sp_reactor s))(h := fd0)\<rparr>\<rparr>
          in bindR (LibEventReactor_RegisterHandler mem add add (ReadMask OR PersistMask) h None (sp_reactor s1))
               (\<lambda>(ret, r).
                  let s2 = s1\<lparr>sp_reactor := r\<rparr>
                  in Inr (ret, if ret \<noteq> 0 then SocketPairHandler_CloseHandles s2 else s2)))"

text \<open>
  \<open>HandleInput\<close>, with what \<open>HandleEvent\<close> does to the state \<open>'s\<close> of its subclass; \<open>recv\<close> reads at
  most 64 bytes.
\<close>

definition SP_BUFFER :: nat where "SP_BUFFER = 64"

definition SocketPairHandler_HandleInput :: "('s \<Rightarrow> 's result) \<Rightarrow> recv_result \<Rightarrow> handler_id
    \<Rightarrow> SocketPairHandler \<Rightarrow> 's \<Rightarrow> (SocketPairHandler \<times> 's) result" where
  "SocketPairHandler_HandleInput handle_event rcv h s t =
     (case rcv of
        RecvErr err \<Rightarrow> if err = CE_EINTR then Inr (s, t) else Inr (sp_remove ReadMask h s, t)
      | RecvEOF \<Rightarrow> Inr (sp_remove ReadMask h s, t)
      | RecvData bs \<Rightarrow> bindR (handle_event t) (\<lambda>t1. Inr (s, t1)))"

section \<open>The wake-up protocol\<close>

text \<open>
  The producers and the reactor as steps of one system: the send queue, the number of notification bytes
  in the socket (with the capacity \<open>cap\<close>: \<open>send\<close> with \<open>MSG_DONTWAIT\<close> to a full socket does nothing), the
  number of threads between \<open>PushImp\<close> and \<open>notify\<close> in \<open>Queue::Push\<close>, and whether the reactor is in
  \<open>PushEventHandler::HandleEvent\<close>.
\<close>

definition SocketNotification_notify :: "nat \<Rightarrow> nat \<Rightarrow> nat" where
  "SocketNotification_notify cap n = (if n < cap then n + 1 else n)"

record 'a wake =
  wk_queue :: "'a list"
  wk_bytes :: nat
  wk_notifying :: nat
  wk_draining :: bool

inductive wake_step :: "nat \<Rightarrow> 'a wake \<Rightarrow> 'a wake \<Rightarrow> bool" for cap where
  push: "wake_step cap s (s\<lparr>wk_queue := x # wk_queue s, wk_notifying := wk_notifying s + 1\<rparr>)"
| notify: "wk_notifying s = Suc k \<Longrightarrow>
     wake_step cap s (s\<lparr>wk_notifying := k, wk_bytes := SocketNotification_notify cap (wk_bytes s)\<rparr>)"
| input: "\<not> wk_draining s \<Longrightarrow> 0 < wk_bytes s \<Longrightarrow>
     wake_step cap s (s\<lparr>wk_bytes := wk_bytes s - min SP_BUFFER (wk_bytes s), wk_draining := True\<rparr>)"
| pop: "wk_draining s \<Longrightarrow> wk_queue s = x # xs \<Longrightarrow> wake_step cap s (s\<lparr>wk_queue := xs\<rparr>)"
| drained: "wk_draining s \<Longrightarrow> wk_queue s = [] \<Longrightarrow> wake_step cap s (s\<lparr>wk_draining := False\<rparr>)"

inductive_cases wake_stepE: "wake_step cap s s'"

inductive wake_reachable :: "nat \<Rightarrow> 'a wake \<Rightarrow> bool" for cap where
  init: "wake_reachable cap \<lparr>wk_queue = [], wk_bytes = 0, wk_notifying = 0, wk_draining = False\<rparr>"
| step: "wake_reachable cap s \<Longrightarrow> wake_step cap s s' \<Longrightarrow> wake_reachable cap s'"

end
