(* ===== verification/HandlerRegistry.thy ===== *)
theory HandlerRegistry
  imports Prelude
begin

text \<open>
  \<open>utils/handlerregistry.cpp\<close>: the table from the ids that packages carry to the handlers of
  the connections. A \<open>std::map\<close> is an association list with distinct keys, which is
  what \<open>insert\<close> and \<open>erase\<close> keep. \<open>RegisterHandler\<close> loops until it finds a free id; as
  the counter wraps, a full table would make it loop for ever, which is the result \<open>None\<close>.
\<close>

record 'h HandlerRegistry =
  hr_registry :: "(u64 \<times> 'h) list"
  hr_idcounter :: u64

definition HandlerRegistry_new :: "'h HandlerRegistry" where
  "HandlerRegistry_new = \<lparr>hr_registry = [], hr_idcounter = 0\<rparr>"

definition HandlerRegistry_GetHandler :: "u64 \<Rightarrow> 'h HandlerRegistry \<Rightarrow> 'h option" where
  "HandlerRegistry_GetHandler i r = map_of (hr_registry r) i"

partial_function (option) HandlerRegistry_RegisterHandler ::
    "'h \<Rightarrow> 'h HandlerRegistry \<Rightarrow> (u64 \<times> 'h HandlerRegistry) option" where
  "HandlerRegistry_RegisterHandler handler r =
     (let i = hr_idcounter r + 1; r1 = r\<lparr>hr_idcounter := i\<rparr> in
      if map_of (hr_registry r1) i = None
      then Some (i, r1\<lparr>hr_registry := (i, handler) # hr_registry r1\<rparr>)
      else HandlerRegistry_RegisterHandler handler r1)"

definition HandlerRegistry_RemoveHandler :: "u64 \<Rightarrow> 'h HandlerRegistry \<Rightarrow> 'h HandlerRegistry" where
  "HandlerRegistry_RemoveHandler i r = r\<lparr>hr_registry := filter (\<lambda>(k, h). k \<noteq> i) (hr_registry r)\<rparr>"

definition HandlerRegistry_GetCount :: "'h HandlerRegistry \<Rightarrow> u64" where
  "HandlerRegistry_GetCount r = of_nat (length (hr_registry r))"

text \<open>A run of registrations and removals; the ids given out, newest first.\<close>

datatype 'h registry_op = RegOp 'h | RemOp u64

fun registry_run :: "'h registry_op list \<Rightarrow> 'h HandlerRegistry \<Rightarrow> (u64 list \<times> 'h HandlerRegistry) option" where
  "registry_run [] r = Some ([], r)"
| "registry_run (RegOp h # ops) r =
     (case HandlerRegistry_RegisterHandler h r of
        None \<Rightarrow> None
      | Some (i, r1) \<Rightarrow> (case registry_run ops r1 of None \<Rightarrow> None | Some (ids, r2) \<Rightarrow> Some (i # ids, r2)))"
| "registry_run (RemOp i # ops) r = registry_run ops (HandlerRegistry_RemoveHandler i r)"

end
