(* ===== verification/PushEventHandler.thy ===== *)
theory PushEventHandler
  imports ConnectEventHandler HandlerRegistry Procpack Queue
begin

text \<open>
  \<open>nets/pusheventhandler.cpp\<close>: the reactor's side of the send queue. Each package is sent to the connection
  that the registry has under its handler id, and goes back to the pool. The state has all
  connections, each with its own log of system calls, the reactor they share, the registry, the send queue
  and the packages.
\<close>

record 'addr server =
  sv_conns :: "handler_id \<Rightarrow> 'addr ConnectEventHandler"
  sv_logs :: "handler_id \<Rightarrow> syscall list"
  sv_reactor :: LibEventReactor
  sv_registry :: "handler_id HandlerRegistry"
  sv_sendq :: "obj SyncQueue"
  sv_objs :: "'addr server_objs"

text \<open>A call on one connection.\<close>

definition on_conn :: "handler_id \<Rightarrow> ('addr conn_world \<Rightarrow> 'addr conn_world result) \<Rightarrow> 'addr server \<Rightarrow> 'addr server result" where
  "on_conn h f sv =
     bindR (f \<lparr>cw_conn = sv_conns sv h, cw_reactor = sv_reactor sv, cw_sys = sv_logs sv h\<rparr>) (\<lambda>w.
       Inr (sv\<lparr>sv_conns := (sv_conns sv)(h := cw_conn w), sv_reactor := cw_reactor w,
               sv_logs := (sv_logs sv)(h := cw_sys w)\<rparr>))"

text \<open>
  The body of the loop for the package \<open>x\<close>; \<open>env\<close> gives the results of \<open>event_add\<close> and \<open>send\<close>
  for it.
\<close>

definition PushEventHandler_deliver :: "heap_new \<Rightarrow> bool \<Rightarrow> (obj \<Rightarrow> int \<times> send_result) \<Rightarrow> obj
    \<Rightarrow> 'addr server \<Rightarrow> 'addr server result" where
  "PushEventHandler_deliver new mem env x sv =
     (let p = so_pkgs (sv_objs sv) x in
      bindR (case HandlerRegistry_GetHandler (pk_handlerid p) (sv_registry sv) of
               None \<Rightarrow> Inr sv
             | Some h \<Rightarrow>
                 bindR (Package_GetDataLen p) (\<lambda>len.
                 if len > 0
                 then bindR (if pk_retcode p \<noteq> 0
                             then on_conn h (\<lambda>w. Inr (ConnectEventHandler_CloseAfterSent w)) sv else Inr sv) (\<lambda>sv1.
                      bindR (Package_GetData p) (\<lambda>data.
                        on_conn h (ConnectEventHandler_Send new mem (fst (env x)) (snd (env x)) data h) sv1))
                 else if pk_retcode p \<noteq> 0
                 then on_conn h (\<lambda>w. Inr (snd (ConnectEventHandler_Close h w))) sv
                 else Inr sv))
        (\<lambda>sv2. Inr (sv2\<lparr>sv_objs := so_Destroy x (sv_objs sv2)\<rparr>)))"

lemma on_conn_sendq: "on_conn h f sv = Inr sv' \<Longrightarrow> sv_sendq sv' = sv_sendq sv"
  by (auto simp: on_conn_def bindR_Inr_iff)

lemma deliver_sendq: "PushEventHandler_deliver new mem env x sv = Inr sv' \<Longrightarrow> sv_sendq sv' = sv_sendq sv"
  by (auto simp: PushEventHandler_deliver_def bindR_Inr_iff Let_def split: option.splits if_splits dest!: on_conn_sendq)

text \<open>
  \<open>HandleEvent\<close>: the packages that are in the queue when the loop runs, one after the other.
\<close>

function PushEventHandler_HandleEvent :: "heap_new \<Rightarrow> bool \<Rightarrow> (obj \<Rightarrow> int \<times> send_result)
    \<Rightarrow> 'addr server \<Rightarrow> 'addr server result" where
  "PushEventHandler_HandleEvent new mem env sv =
     (case Queue_Pop False (sv_sendq sv) [] of
        None \<Rightarrow> Inl Diverges
      | Some (ret, v, q) \<Rightarrow>
          if ret \<noteq> 0 then Inr (sv\<lparr>sv_sendq := q\<rparr>)
          else (case v of
                  None \<Rightarrow> Inl NullDeref
                | Some x \<Rightarrow>
                    (case PushEventHandler_deliver new mem env x (sv\<lparr>sv_sendq := q\<rparr>) of
                       Inl e \<Rightarrow> Inl e
                     | Inr sv1 \<Rightarrow> PushEventHandler_HandleEvent new mem env sv1)))"
  by pat_completeness auto

termination
  by (relation "measure (\<lambda>(new, mem, env, sv). length (sq_queue (sv_sendq sv)))")
    (auto dest!: deliver_sendq simp: Queue_Pop_def split: if_splits)

declare PushEventHandler_HandleEvent.simps [simp del]

end
