(* ===== verification/HandlerRegistryProps.thy ===== *)
theory HandlerRegistryProps
  imports HandlerRegistry
begin

text \<open>
  The registry is well formed when its keys are distinct. The interface \<open>handler_table\<close> is
  what the acceptor and the push handler rely on: an id is free when it is given out, and a
  lookup finds the handler until its id is removed.
\<close>

definition registry_wf :: "'h HandlerRegistry \<Rightarrow> bool" where
  "registry_wf r \<longleftrightarrow> distinct (map fst (hr_registry r)) \<and> length (hr_registry r) < 2 ^ 64 - 1"

lemma free_id_exists:
  assumes "length (hr_registry (r :: 'h HandlerRegistry)) < 2 ^ 64 - 1"
  shows "\<exists>k. map_of (hr_registry r) (hr_idcounter r + of_nat (Suc k)) = None"
proof (rule ccontr)
  assume "\<not> ?thesis"
  then have "\<forall>k. hr_idcounter r + of_nat (Suc k) \<in> fst ` set (hr_registry r)"
    by (simp add: map_of_eq_None_iff)
  then have "x \<in> fst ` set (hr_registry r)" for x
    by (metis eq_of_nat add.commute diff_add_cancel of_nat_Suc)
  then have "(UNIV :: u64 set) = fst ` set (hr_registry r)" by blast
  then have "card (UNIV :: u64 set) \<le> length (hr_registry r)"
    by (metis card_length list.set_map length_map)
  then show False using assms by (simp add: card_word)
qed

lemma register_least:
  assumes "\<forall>j<k. map_of (hr_registry r) (hr_idcounter r + of_nat (Suc j)) \<noteq> None"
    and "map_of (hr_registry r) (hr_idcounter r + of_nat (Suc k)) = None"
  shows "HandlerRegistry_RegisterHandler h r
    = (let i = hr_idcounter r + of_nat (Suc k) in
       Some (i, r\<lparr>hr_idcounter := i, hr_registry := (i, h) # hr_registry r\<rparr>))"
  using assms
proof (induction k arbitrary: r)
  case 0
  then show ?case by (subst HandlerRegistry_RegisterHandler.simps) (simp add: Let_def add.commute)
next
  case (Suc k)
  let ?r = "r\<lparr>hr_idcounter := hr_idcounter r + 1\<rparr>"
  have "\<forall>j<k. map_of (hr_registry ?r) (hr_idcounter ?r + of_nat (Suc j)) \<noteq> None"
    using Suc.prems(1) by (auto simp: ac_simps dest: spec [of _ "Suc _"])
  moreover have "map_of (hr_registry ?r) (hr_idcounter ?r + of_nat (Suc k)) = None"
    using Suc.prems(2) by (simp add: ac_simps)
  moreover have "map_of (hr_registry r) (hr_idcounter r + 1) \<noteq> None"
    using Suc.prems(1)[rule_format, of 0] by simp
  ultimately show ?case using Suc.IH [of ?r]
    by (subst HandlerRegistry_RegisterHandler.simps) (auto simp: Let_def ac_simps)
qed

lemma map_of_remove: "map_of (filter (\<lambda>(k, h). k \<noteq> i) xs) = (map_of xs)(i := None)"
  by (induction xs) auto

locale handler_table =
  fixes register :: "'h \<Rightarrow> 't \<Rightarrow> (u64 \<times> 't) option"
    and remove :: "u64 \<Rightarrow> 't \<Rightarrow> 't"
    and get :: "u64 \<Rightarrow> 't \<Rightarrow> 'h option"
    and room :: "'t \<Rightarrow> nat"
  assumes register_law: "0 < room t \<Longrightarrow> \<exists>i t'. register h t = Some (i, t') \<and> get i t = None
      \<and> get j t' = (if j = i then Some h else get j t) \<and> room t' = room t - 1"
    and remove_law: "get j (remove i t) = (if j = i then None else get j t) \<and> room t \<le> room (remove i t)"
begin

text \<open>Registering and removing another handler in between does not disturb a handler.\<close>

lemma register_remove_other:
  assumes "0 < room t" and "get j t = Some g"
  shows "\<exists>i t'. register h t = Some (i, t') \<and> i \<noteq> j \<and> get j t' = Some g \<and> get j (remove i t') = Some g"
proof -
  from register_law [OF assms(1), of h j] obtain i t' where
    a: "register h t = Some (i, t')" "get i t = None" "get j t' = (if j = i then Some h else get j t)" by blast
  then have "i \<noteq> j" using assms(2) by auto
  with a assms(2) remove_law [of j i t'] show ?thesis by auto
qed

end

definition registry_room :: "'h HandlerRegistry \<Rightarrow> nat" where
  "registry_room r = (2 ^ 64 - 1) - length (hr_registry r)"

lemma register_shape:
  assumes "length (hr_registry r) < 2 ^ 64 - 1"
  shows "\<exists>i. HandlerRegistry_RegisterHandler h r
      = Some (i, r\<lparr>hr_idcounter := i, hr_registry := (i, h) # hr_registry r\<rparr>)
    \<and> map_of (hr_registry r) i = None"
proof -
  let ?P = "\<lambda>k. map_of (hr_registry r) (hr_idcounter r + of_nat (Suc k)) = None"
  have "\<exists>k. ?P k" by (rule free_id_exists [OF assms])
  then have "?P (LEAST k. ?P k)" and "\<forall>j < (LEAST k. ?P k). \<not> ?P j"
    using LeastI_ex [of ?P] not_less_Least [of _ ?P] by blast+
  with register_least [of "LEAST k. ?P k" r h] show ?thesis unfolding Let_def by blast
qed

interpretation registry: handler_table HandlerRegistry_RegisterHandler HandlerRegistry_RemoveHandler
    HandlerRegistry_GetHandler registry_room
proof unfold_locales
  fix t :: "'h HandlerRegistry" and h j
  assume "0 < registry_room t"
  then have "length (hr_registry t) < 2 ^ 64 - 1" by (simp add: registry_room_def)
  from register_shape [OF this, of h]
  show "\<exists>i t'. HandlerRegistry_RegisterHandler h t = Some (i, t') \<and> HandlerRegistry_GetHandler i t = None
      \<and> HandlerRegistry_GetHandler j t' = (if j = i then Some h else HandlerRegistry_GetHandler j t)
      \<and> registry_room t' = registry_room t - 1"
    by (auto simp: HandlerRegistry_GetHandler_def registry_room_def)
next
  fix j i and t :: "'h HandlerRegistry"
  have "length (filter (\<lambda>(k, h). k \<noteq> i) (hr_registry t)) \<le> length (hr_registry t)" by simp
  then show "HandlerRegistry_GetHandler j (HandlerRegistry_RemoveHandler i t)
      = (if j = i then None else HandlerRegistry_GetHandler j t)
      \<and> registry_room t \<le> registry_room (HandlerRegistry_RemoveHandler i t)"
    by (simp add: HandlerRegistry_GetHandler_def HandlerRegistry_RemoveHandler_def map_of_remove
        registry_room_def diff_le_mono2)
qed

section \<open>Properties\<close>

text \<open>C30. As long as fewer than \<open>2 ^ 64 - 1\<close> handlers are registered, \<open>RegisterHandler\<close>
  returns: the id is the first one after the counter (with wrap-around) that is not in use, the
  handler is found under it, every other id keeps its handler, and the keys stay distinct.\<close>

theorem register_handler_fresh:
  assumes "registry_wf r"
  shows "\<exists>i r'. HandlerRegistry_RegisterHandler h r = Some (i, r')
    \<and> HandlerRegistry_GetHandler i r = None
    \<and> (\<forall>j. HandlerRegistry_GetHandler j r' = (if j = i then Some h else HandlerRegistry_GetHandler j r))
    \<and> distinct (map fst (hr_registry r')) \<and> length (hr_registry r') = length (hr_registry r) + 1
    \<and> (\<forall>j. HandlerRegistry_GetHandler j (HandlerRegistry_RemoveHandler i r') = HandlerRegistry_GetHandler j r)"
proof -
  from assms have "length (hr_registry r) < 2 ^ 64 - 1" "distinct (map fst (hr_registry r))"
    by (simp_all add: registry_wf_def)
  from register_shape [OF this(1), of h] obtain i where
    i: "HandlerRegistry_RegisterHandler h r = Some (i, r\<lparr>hr_idcounter := i, hr_registry := (i, h) # hr_registry r\<rparr>)"
      "map_of (hr_registry r) i = None" by blast
  then have "i \<notin> fst ` set (hr_registry r)" by (simp add: map_of_eq_None_iff)
  with i assms show ?thesis
    by (intro exI [of _ i]) (auto simp: HandlerRegistry_GetHandler_def HandlerRegistry_RemoveHandler_def
        map_of_remove registry_wf_def)
qed

theorem register_handler_fresh_witness:
  "\<exists>i r'. HandlerRegistry_RegisterHandler ''b'' \<lparr>hr_registry = [(1, ''a'')], hr_idcounter = 0\<rparr> = Some (i, r')
    \<and> HandlerRegistry_GetHandler i \<lparr>hr_registry = [(1, ''a'')], hr_idcounter = 0\<rparr> = None
    \<and> length (hr_registry r') = 2"
proof -
  have "registry_wf \<lparr>hr_registry = [(1, ''a'')], hr_idcounter = 0\<rparr>" by (simp add: registry_wf_def)
  from register_handler_fresh [OF this, of "''b''"] show ?thesis by auto
qed

end
