(* ===== verification/PushProps.thy ===== *)
theory PushProps
  imports SocketPair PushEventHandler ConnectEventHandlerProps HandlerRegistryProps QueueProps
begin

text \<open>
  The way back from the worker threads: no wake-up is lost, every package in the send queue reaches the
  stream of its connection and goes back to the pool, in the order in which the queue gives
  them; and what a package does whose connection is closed already.
\<close>

section \<open>The wake-up protocol\<close>

lemma wake_invariant:
  assumes "wake_reachable cap s" and "0 < cap"
  shows "wk_queue s \<noteq> [] \<Longrightarrow> wk_draining s \<or> 0 < wk_bytes s \<or> 0 < wk_notifying s"
  using assms
proof (induction rule: wake_reachable.induct)
  case init
  then show ?case by simp
next
  case (step s s')
  from step.hyps(2) show ?case
    by (rule wake_stepE) (use step in \<open>auto simp: SocketNotification_notify_def\<close>)
qed

section \<open>Delivery\<close>

definition sv_stream :: "handler_id \<Rightarrow> 'addr server \<Rightarrow> byte list" where
  "sv_stream h sv = sent_bytes (sv_logs sv h) @ db_data (ce_sendbuffer (sv_conns sv h))"

definition pack_bytes :: "'addr server \<Rightarrow> obj \<Rightarrow> byte list" where
  "pack_bytes sv x = (case pk_data (so_pkgs (sv_objs sv) x) of None \<Rightarrow> [] | Some db \<Rightarrow> db_data db)"

definition pk_target :: "'addr server \<Rightarrow> obj \<Rightarrow> handler_id option" where
  "pk_target sv x = HandlerRegistry_GetHandler (pk_handlerid (so_pkgs (sv_objs sv) x)) (sv_registry sv)"

text \<open>What the loop needs and keeps: whole packages with a manager, well-formed send buffers.\<close>

definition sv_ok :: "'addr server \<Rightarrow> obj list \<Rightarrow> nat \<Rightarrow> bool" where
  "sv_ok sv q B \<longleftrightarrow> (\<forall>x\<in>set q. so_callbacks (sv_objs sv) x = ManagerCallback
       \<and> (\<exists>db. pk_data (so_pkgs (sv_objs sv) x) = Some db \<and> db_wf db))
     \<and> (\<forall>h. db_wf (ce_sendbuffer (sv_conns sv h)))
     \<and> (\<forall>h. length (db_data (ce_sendbuffer (sv_conns sv h))) + length (concat (map (pack_bytes sv) q)) \<le> B)"

lemma on_conn_frame:
  assumes "f \<lparr>cw_conn = sv_conns sv h, cw_reactor = sv_reactor sv, cw_sys = sv_logs sv h\<rparr> = Inr w"
  shows "\<exists>sv'. on_conn h f sv = Inr sv' \<and> sv_objs sv' = sv_objs sv \<and> sv_registry sv' = sv_registry sv
    \<and> sv_sendq sv' = sv_sendq sv \<and> sv_stream h sv' = sent_bytes (cw_sys w) @ db_data (ce_sendbuffer (cw_conn w))
    \<and> sv_conns sv' h = cw_conn w \<and> (\<forall>g. g \<noteq> h \<longrightarrow> sv_conns sv' g = sv_conns sv g \<and> sv_stream g sv' = sv_stream g sv)"
  using assms by (simp add: on_conn_def sv_stream_def)

lemma deliver_body:
  assumes ok: "sv_ok sv (x # q) B" and heap: "heap_ok new" and mem: "\<forall>n. unat n \<le> B \<longrightarrow> new n \<noteq> None" and B: "B < 2 ^ 63"
  shows "\<exists>sv2. PushEventHandler_deliver new True env x sv = Inr (sv2\<lparr>sv_objs := so_Destroy x (sv_objs sv2)\<rparr>)
    \<and> sv_objs sv2 = sv_objs sv \<and> sv_registry sv2 = sv_registry sv
    \<and> (\<forall>h. sv_stream h sv2 = sv_stream h sv @ (if pk_target sv x = Some h then pack_bytes sv x else [])
        \<and> db_wf (ce_sendbuffer (sv_conns sv2 h))
        \<and> length (db_data (ce_sendbuffer (sv_conns sv2 h)))
            \<le> length (db_data (ce_sendbuffer (sv_conns sv h))) + (if pk_target sv x = Some h then length (pack_bytes sv x) else 0))"
proof (cases "pk_target sv x")
  case None
  then show ?thesis using ok
    by (intro exI [of _ sv]) (auto simp: PushEventHandler_deliver_def pk_target_def sv_ok_def)
next
  case (Some h)
  let ?p = "so_pkgs (sv_objs sv) x"
  obtain db where db: "pk_data ?p = Some db" "db_wf db" "pack_bytes sv x = db_data db"
    using ok by (auto simp: sv_ok_def pack_bytes_def)
  have wfs: "db_wf (ce_sendbuffer (sv_conns sv g))" for g using ok by (simp add: sv_ok_def)
  have room: "length (db_data (ce_sendbuffer (sv_conns sv h))) + length (db_data db) \<le> B"
    using ok db(3) unfolding sv_ok_def by (auto dest!: spec [of _ h])
  have empty: "db_data db = [] \<longleftrightarrow> \<not> DataBlock_GetSize db > 0"
    using length_db_data [OF db(2)] by (auto simp: DataBlock_GetSize_def word_gt_0 unat_eq_0)
  have pg: "Package_GetDataLen ?p = Inr (DataBlock_GetSize db)" "Package_GetData ?p = Inr (db_data db)"
    using db(1) by (simp_all add: Package_GetDataLen_def Package_GetData_def Package_block_def)
  show ?thesis
  proof (cases "DataBlock_GetSize db > 0")
    case False
    define sv2 where "sv2 = projr (on_conn h (\<lambda>w. Inr (snd (ConnectEventHandler_Close h w))) sv)"
    have c: "on_conn h (\<lambda>w. Inr (snd (ConnectEventHandler_Close h w))) sv = Inr sv2"
      "sv_objs sv2 = sv_objs sv" "sv_registry sv2 = sv_registry sv"
      "sv_conns sv2 = sv_conns sv" "\<forall>g. sv_stream g sv2 = sv_stream g sv"
      by (simp_all add: sv2_def on_conn_def sv_stream_def fun_eq_iff)
    show ?thesis
    proof (intro exI [of _ "if pk_retcode ?p \<noteq> 0 then sv2 else sv"] conjI allI)
      show "PushEventHandler_deliver new True env x sv = Inr ((if pk_retcode ?p \<noteq> 0 then sv2 else sv)\<lparr>sv_objs :=
          so_Destroy x (sv_objs (if pk_retcode ?p \<noteq> 0 then sv2 else sv))\<rparr>)"
        using Some False c(1) pg by (simp add: PushEventHandler_deliver_def pk_target_def Let_def)
    qed (use c False empty db(3) wfs in \<open>auto split: if_splits\<close>)
  next
    case True
    define sv1 where "sv1 = (if pk_retcode ?p \<noteq> 0
      then projr (on_conn h (\<lambda>w. Inr (ConnectEventHandler_CloseAfterSent w)) sv) else sv)"
    have s1: "(if pk_retcode ?p \<noteq> 0 then on_conn h (\<lambda>w. Inr (ConnectEventHandler_CloseAfterSent w)) sv else Inr sv) = Inr sv1"
      "sv_objs sv1 = sv_objs sv" "sv_registry sv1 = sv_registry sv" "sv_logs sv1 = sv_logs sv"
      "ce_sendbuffer (sv_conns sv1 g) = ce_sendbuffer (sv_conns sv g)" for g
      by (auto simp: sv1_def on_conn_def ConnectEventHandler_CloseAfterSent_def)
    let ?w = "\<lparr>cw_conn = sv_conns sv1 h, cw_reactor = sv_reactor sv1, cw_sys = sv_logs sv1 h\<rparr>"
    have "db_wf (ce_sendbuffer (cw_conn ?w))" "length (db_data (ce_sendbuffer (cw_conn ?w))) + length (db_data db) \<le> B"
      using s1 wfs room by simp_all
    from Send_stream [OF this(1) heap mem this(2) B, of "fst (env x)" "snd (env x)" h] obtain w' where
      w: "ConnectEventHandler_Send new True (fst (env x)) (snd (env x)) (db_data db) h ?w = Inr w'"
        "db_wf (ce_sendbuffer (cw_conn w'))"
        "sent_bytes (cw_sys w') @ db_data (ce_sendbuffer (cw_conn w')) = sv_stream h sv @ db_data db"
        "length (db_data (ce_sendbuffer (cw_conn w'))) \<le> length (db_data (ce_sendbuffer (sv_conns sv h))) + length (db_data db)"
      using s1 by (auto simp: sv_stream_def)
    from on_conn_frame [of "ConnectEventHandler_Send new True (fst (env x)) (snd (env x)) (db_data db) h" sv1 h w', OF w(1)] obtain sv2 where
      o: "on_conn h (ConnectEventHandler_Send new True (fst (env x)) (snd (env x)) (db_data db) h) sv1 = Inr sv2"
        "sv_objs sv2 = sv_objs sv" "sv_registry sv2 = sv_registry sv" "sv_stream h sv2 = sv_stream h sv @ db_data db"
        "sv_conns sv2 h = cw_conn w'"
        "\<forall>g. g \<noteq> h \<longrightarrow> sv_conns sv2 g = sv_conns sv1 g \<and> sv_stream g sv2 = sv_stream g sv1"
      using s1 w(3) by auto
    have "sv_stream g sv1 = sv_stream g sv" for g using s1 by (simp add: sv_stream_def)
    then show ?thesis
      using Some True pg s1 o w wfs db(3)
      by (intro exI [of _ sv2]) (auto simp: PushEventHandler_deliver_def pk_target_def Let_def)
  qed
qed

lemma so_Destroy_frame:
  "so_callbacks so x = ManagerCallback \<Longrightarrow> so_pkgs (so_Destroy x so) = so_pkgs so
     \<and> so_callbacks (so_Destroy x so) = so_callbacks so
     \<and> pl_objects (so_pool (so_Destroy x so)) = x # pl_objects (so_pool so)"
  by (simp add: so_Destroy_def Destroyable_Destroy_def ObjectManager_call_def ObjectPool_Destroy_body_def)

lemma HandleEvent_delivers:
  assumes heap: "heap_ok new" and mem: "\<forall>n. unat n \<le> B \<longrightarrow> new n \<noteq> None" and B: "B < 2 ^ 63"
  shows "sv_ok sv (sq_queue (sv_sendq sv)) B \<Longrightarrow>
    \<exists>sv'. PushEventHandler_HandleEvent new True env sv = Inr sv' \<and> sq_queue (sv_sendq sv') = []
      \<and> pl_objects (so_pool (sv_objs sv')) = rev (sq_queue (sv_sendq sv)) @ pl_objects (so_pool (sv_objs sv))
      \<and> (\<forall>h. sv_stream h sv' = sv_stream h sv
          @ concat (map (pack_bytes sv) (filter (\<lambda>x. pk_target sv x = Some h) (sq_queue (sv_sendq sv)))))"
proof (induction "sq_queue (sv_sendq sv)" arbitrary: sv)
  case Nil
  then show ?case
    by (subst PushEventHandler_HandleEvent.simps) (auto simp: Queue_Pop_def sv_stream_def)
next
  case (Cons x q)
  let ?q = "(sv_sendq sv)\<lparr>sq_queue := q, sq_count := sq_count (sv_sendq sv) - 1\<rparr>"
  let ?sv = "sv\<lparr>sv_sendq := ?q\<rparr>"
  have pop: "Queue_Pop False (sv_sendq sv) [] = Some (0, Some x, ?q)"
    using Cons.hyps(2)[symmetric] by (simp add: Queue_Pop_def)
  have same: "pack_bytes ?sv = pack_bytes sv" "pk_target ?sv = pk_target sv" "\<And>h. sv_stream h ?sv = sv_stream h sv"
    by (auto simp: pack_bytes_def pk_target_def sv_stream_def)
  have ok: "sv_ok ?sv (x # q) B" using Cons.prems Cons.hyps(2) same by (simp add: sv_ok_def del: length_db_data)
  from deliver_body [OF ok heap mem B, of env] obtain sv2 where
    d: "PushEventHandler_deliver new True env x ?sv = Inr (sv2\<lparr>sv_objs := so_Destroy x (sv_objs sv2)\<rparr>)"
      "sv_objs sv2 = sv_objs ?sv" "sv_registry sv2 = sv_registry ?sv" and
    s: "\<forall>h. sv_stream h sv2 = sv_stream h ?sv @ (if pk_target ?sv x = Some h then pack_bytes ?sv x else [])
        \<and> db_wf (ce_sendbuffer (sv_conns sv2 h))
        \<and> length (db_data (ce_sendbuffer (sv_conns sv2 h)))
            \<le> length (db_data (ce_sendbuffer (sv_conns ?sv h))) + (if pk_target ?sv x = Some h then length (pack_bytes ?sv x) else 0)"
    by blast
  note s = s [rule_format, unfolded same]
  define sv3 where "sv3 = sv2\<lparr>sv_objs := so_Destroy x (sv_objs sv2)\<rparr>"
  have cb: "so_callbacks (sv_objs sv) x = ManagerCallback" using ok by (simp add: sv_ok_def)
  note fr = so_Destroy_frame [OF cb]
  have q3: "sq_queue (sv_sendq sv3) = q" using deliver_sendq [OF d(1)] by (simp add: sv3_def)
  have same3: "pack_bytes sv3 = pack_bytes sv" "pk_target sv3 = pk_target sv" "\<And>h. sv_stream h sv3 = sv_stream h sv2"
    using d(2,3) fr by (auto simp: pack_bytes_def pk_target_def sv_stream_def sv3_def)
  have "length (db_data (ce_sendbuffer (sv_conns sv2 h))) + length (concat (map (pack_bytes sv) q)) \<le> B" for h
    using ok [unfolded sv_ok_def same] s [of h] by (auto dest!: spec [of _ h] split: if_splits simp del: length_db_data)
  then have "sv_ok sv3 q B" using ok same3 fr d(2) s by (simp add: sv_ok_def sv3_def del: length_db_data)
  with Cons.hyps(1) [of sv3] q3 obtain sv' where
    "PushEventHandler_HandleEvent new True env sv3 = Inr sv'" "sq_queue (sv_sendq sv') = []"
    "pl_objects (so_pool (sv_objs sv')) = rev q @ pl_objects (so_pool (sv_objs sv3))"
    "\<forall>h. sv_stream h sv' = sv_stream h sv3 @ concat (map (pack_bytes sv3) (filter (\<lambda>x. pk_target sv3 x = Some h) q))"
    by auto
  moreover have "PushEventHandler_HandleEvent new True env sv = PushEventHandler_HandleEvent new True env sv3"
    using pop d(1) by (subst PushEventHandler_HandleEvent.simps) (simp add: sv3_def)
  moreover have "pl_objects (so_pool (sv_objs sv3)) = x # pl_objects (so_pool (sv_objs sv))"
    using fr d(2) by (simp add: sv3_def)
  ultimately show ?case using Cons.hyps(2)[symmetric] same3 s by simp
qed

section \<open>A connection that is closed\<close>

lemma Send_closed:
  assumes "le_data (cw_reactor w) h = None" and "db_wf (ce_sendbuffer (cw_conn w))" and "db_data (ce_sendbuffer (cw_conn w)) = []"
    and "heap_ok new" and "\<forall>n. unat n \<le> B \<longrightarrow> new n \<noteq> None" and "B < 2 ^ 63"
    and "data \<noteq> []" and "length data \<le> B" and "length data \<le> room"
  shows "\<exists>w'. ConnectEventHandler_Send new True add (Sent room) data h w = Inr w'
    \<and> cw_sys w' = SysClose (ce_handle (cw_conn w)) # SysSend (ce_handle (cw_conn w)) data # cw_sys w"
proof -
  let ?db = "ce_sendbuffer (cw_conn w)"
  have e0: "unat (db_end ?db) = 0" using assms(2,3) length_db_data by fastforce
  have n: "unat (of_nat (length data) :: u64) = length data"
    by (rule unat_of_nat_small) (use assms(6,8) in simp)
  have "new (db_end ?db + of_nat (length data)) \<noteq> None" using assms(5,8) e0 n by (simp add: unat_eq_0)
  from DataBlock_Append_spec [OF assms(2,4) _ n] this e0 assms(3,6,8) obtain db1 where
    a: "DataBlock_Append new ?db (Foreign data) (of_nat (length data)) = Inr (0, db1)" "db_wf db1" "db_data db1 = data" by fastforce
  have sz: "unat (DataBlock_GetSize db1) = length data" using length_db_data [OF a(2)] a(3) by (simp add: DataBlock_GetSize_def)
  then have pos: "\<not> DataBlock_GetSize db1 \<le> 0" "DataBlock_GetSize db1 = of_nat (length data)"
    using assms(7) by (auto simp: unat_eq_0 intro: eq_of_nat)
  have t: "send_takes room db1 = length data" using sz assms(9) by (simp add: send_takes_def)
  show ?thesis using a pos t assms(1,7)
    by (simp add: ConnectEventHandler_Send_def ConnectEventHandler_HandleOutput_def sent_front_def DataBlock_IsEmpty_def
        DataBlock_Clear_def ce_remove_def LibEventReactor_RemoveHandler_def le_HandleClose_def Let_def
        ConnectEventHandler_Close_def ConnectEventHandler_HandleClose_def)
qed

section \<open>Properties\<close>

text \<open>C9. No wake-up of the reactor is lost: in every interleaving of any number of pushing threads with the
  reactor, and with any capacity of the notification socket, whenever the send queue holds a package
  the reactor is emptying the queue, or a byte waits in the socket, or a thread is about to send one.\<close>

theorem no_lost_wakeup:
  assumes "wake_reachable cap s" and "0 < cap" and "wk_queue s \<noteq> []"
  shows "wk_draining s \<or> 0 < wk_bytes s \<or> 0 < wk_notifying s"
  by (rule wake_invariant [OF assms])

theorem no_lost_wakeup_witness:
  "0 < wk_bytes \<lparr>wk_queue = [5 :: nat], wk_bytes = 1, wk_notifying = 0, wk_draining = False\<rparr>"
proof -
  let ?s0 = "\<lparr>wk_queue = [], wk_bytes = 0, wk_notifying = 0, wk_draining = False\<rparr> :: nat wake"
  have 1: "wake_step 1 ?s0 \<lparr>wk_queue = [5], wk_bytes = 0, wk_notifying = 1, wk_draining = False\<rparr>"
    using wake_step.push [of 1 ?s0 5] by simp
  have 2: "wake_step 1 \<lparr>wk_queue = [5 :: nat], wk_bytes = 0, wk_notifying = 1, wk_draining = False\<rparr>
      \<lparr>wk_queue = [5], wk_bytes = 1, wk_notifying = 0, wk_draining = False\<rparr>"
    using wake_step.notify [of "\<lparr>wk_queue = [5 :: nat], wk_bytes = 0, wk_notifying = 1, wk_draining = False\<rparr>" 0 1]
    by (simp add: SocketNotification_notify_def)
  have "wake_reachable 1 \<lparr>wk_queue = [5 :: nat], wk_bytes = 1, wk_notifying = 0, wk_draining = False\<rparr>"
    by (rule wake_reachable.step [OF wake_reachable.step [OF wake_reachable.init 1] 2])
  from no_lost_wakeup [OF this] show ?thesis by simp
qed

text \<open>C13. \<open>PushEventHandler::HandleEvent\<close> with memory for the bytes returns, under any results of
  \<open>send\<close> and \<open>event_add\<close>: it empties the send queue, every package goes back to the pool, and
  the stream of every connection (what the kernel took and what waits in the send buffer) grows by exactly the
  data of the packages that carry its id, in the order of the queue.\<close>

theorem push_delivers_all:
  assumes "heap_ok new" and "\<forall>n. unat n \<le> B \<longrightarrow> new n \<noteq> None" and "B < 2 ^ 63"
    and "sv_ok sv (sq_queue (sv_sendq sv)) B"
  shows "\<exists>sv'. PushEventHandler_HandleEvent new True env sv = Inr sv' \<and> sq_queue (sv_sendq sv') = []
      \<and> pl_objects (so_pool (sv_objs sv')) = rev (sq_queue (sv_sendq sv)) @ pl_objects (so_pool (sv_objs sv))
      \<and> (\<forall>h. sv_stream h sv' = sv_stream h sv
          @ concat (map (pack_bytes sv) (filter (\<lambda>x. pk_target sv x = Some h) (sq_queue (sv_sendq sv)))))"
  by (rule HandleEvent_delivers [OF assms])

definition server_example :: "obj list \<Rightarrow> unit server" where
  "server_example q = \<lparr>sv_conns = (\<lambda>_. cw_conn conn_example), sv_logs = (\<lambda>_. []), sv_reactor = cw_reactor conn_example,
     sv_registry = \<lparr>hr_registry = [(1, 7)], hr_idcounter = 1\<rparr>,
     sv_sendq = (SyncQueue_new DEFAULT_LIMIT)\<lparr>sq_queue := q, sq_count := of_nat (length q)\<rparr>,
     sv_objs = \<lparr>so_queue = SyncQueue_new DEFAULT_LIMIT,
       so_pool = \<lparr>pl_curr = 2, pl_max = 2, pl_inc = 0, pl_objects = [], pl_chunks = [2]\<rparr>,
       so_pkgs = (\<lambda>(i, j). (Package_new ())\<lparr>pk_handlerid := 1,
          pk_data := Some \<lparr>db_init = True, db_mem = [of_nat j, 9], db_end = 2, db_cap = 2\<rparr>\<rparr>),
       so_callbacks = (\<lambda>_. ManagerCallback), so_fullcalls = 0\<rparr>\<rparr>"

lemma server_example_fields:
  "sv_logs (server_example q) h = []" "sq_queue (sv_sendq (server_example q)) = q"
  "sv_reactor (server_example q) = cw_reactor conn_example" "ce_handle (sv_conns (server_example q) h) = 9"
  "pl_objects (so_pool (sv_objs (server_example q))) = []"
  "so_callbacks (sv_objs (server_example q)) x = ManagerCallback"
  "pk_retcode (so_pkgs (sv_objs (server_example q)) x) = 0"
  "pk_data (so_pkgs (sv_objs (server_example q)) x) = Some \<lparr>db_init = True, db_mem = [of_nat (snd x), 9], db_end = 2, db_cap = 2\<rparr>"
  "ce_sendbuffer (sv_conns (server_example q) h) = DataBlock_new heap_1M DEFAULT_BLOCK_SIZE"
  by (simp_all add: server_example_def conn_example_def Package_new_def split: prod.splits)

lemma example_block:
  "db_wf \<lparr>db_init = True, db_mem = [b, 9], db_end = 2, db_cap = 2\<rparr>"
  "db_data \<lparr>db_init = True, db_mem = [b, 9], db_end = 2, db_cap = 2\<rparr> = [b, 9]"
  by (simp_all add: db_data_def db_wf_def)

lemma server_example_packages:
  "pack_bytes (server_example q) x = [of_nat (snd x), 9]" "pk_target (server_example q) x = Some 7"
  "sv_stream h (server_example q) = []"
  by (simp_all add: pack_bytes_def pk_target_def sv_stream_def server_example_fields example_block conn_example_bufs)
    (simp add: server_example_def HandlerRegistry_GetHandler_def Package_new_def split: prod.splits)

lemma server_example_ok: "length q \<le> 100 \<Longrightarrow> sv_ok (server_example q') q 100000"
proof -
  assume "length q \<le> 100"
  moreover have "length (concat (map (pack_bytes (server_example q')) q)) = 2 * length q"
    by (induction q) (simp_all add: server_example_packages)
  ultimately show ?thesis
    by (simp add: sv_ok_def server_example_fields conn_example_bufs example_block del: length_db_data)
qed

theorem push_delivers_all_witness:
  "\<exists>sv'. PushEventHandler_HandleEvent heap_1M True (\<lambda>_. (0, Sent 1)) (server_example [(0, 3), (0, 4)]) = Inr sv'
    \<and> pl_objects (so_pool (sv_objs sv')) = [(0, 4), (0, 3)] \<and> sv_stream 7 sv' = [3, 9, 4, 9]"
proof -
  have "sv_ok (server_example [(0, 3), (0, 4)]) (sq_queue (sv_sendq (server_example [(0, 3), (0, 4)]))) 100000"
    using server_example_ok [of "[(0, 3), (0, 4)]"] by (simp add: server_example_fields)
  from push_delivers_all [OF heap_1M_ok _ _ this, of "\<lambda>_. (0, Sent 1)"] heap_1M_small show ?thesis
    by (auto simp: server_example_fields server_example_packages)
qed

text \<open>The send queue is a \<open>SyncStack\<close>: when the results of two requests of one connection wait in it,
  the one pushed last is sent first, so that the client receives the answers in the reverse order.\<close>

lemma answers_reversed:
  assumes "heap_ok new" and "\<forall>n. unat n \<le> B \<longrightarrow> new n \<noteq> None" and "B < 2 ^ 63"
    and "sq_queue (sv_sendq sv) = []" and "sv_ok sv [y, x] B" and "pk_target sv x = Some h" and "pk_target sv y = Some h"
    and "Queue_Push SyncStack_PushImp x False True (sv_sendq sv) = Inr (0, r1, q1)"
    and "Queue_Push SyncStack_PushImp y False True q1 = Inr (0, r2, q2)"
  shows "\<exists>sv'. PushEventHandler_HandleEvent new True env (sv\<lparr>sv_sendq := q2\<rparr>) = Inr sv'
    \<and> sv_stream h sv' = sv_stream h sv @ pack_bytes sv y @ pack_bytes sv x"
proof -
  have q: "sq_queue q2 = [y, x]" using assms(4,8,9)
    by (auto simp: Queue_Push_def SyncStack_PushImp_def split: if_splits)
  have same: "pack_bytes (sv\<lparr>sv_sendq := q2\<rparr>) = pack_bytes sv" "pk_target (sv\<lparr>sv_sendq := q2\<rparr>) = pk_target sv"
    "sv_stream h (sv\<lparr>sv_sendq := q2\<rparr>) = sv_stream h sv"
    by (auto simp: pack_bytes_def pk_target_def sv_stream_def)
  have "sv_ok (sv\<lparr>sv_sendq := q2\<rparr>) (sq_queue (sv_sendq (sv\<lparr>sv_sendq := q2\<rparr>))) B"
    using assms(5) q same by (simp add: sv_ok_def del: length_db_data)
  from HandleEvent_delivers [OF assms(1-3) this, of env] q same assms(6,7) show ?thesis by auto
qed

lemma answers_reversed_witness:
  "\<exists>q2 sv'. Queue_Push SyncStack_PushImp (0, 4) False True (sv_sendq (server_example [])) = Inr (0, None, q2)
    \<and> (\<exists>q3. Queue_Push SyncStack_PushImp (0, 5) False True q2 = Inr (0, None, q3)
    \<and> PushEventHandler_HandleEvent heap_1M True (\<lambda>_. (0, Sent 1)) ((server_example [])\<lparr>sv_sendq := q3\<rparr>) = Inr sv'
    \<and> sv_stream 7 sv' = [5, 9, 4, 9])"
proof -
  let ?sv = "server_example []"
  have p: "\<exists>q2 q3. Queue_Push SyncStack_PushImp (0, 4) False True (sv_sendq ?sv) = Inr (0, None, q2)
      \<and> Queue_Push SyncStack_PushImp (0, 5) False True q2 = Inr (0, None, q3)"
    by (simp add: Queue_Push_def SyncStack_PushImp_def server_example_def SyncQueue_new_def DEFAULT_LIMIT_def word_le_nat_alt)
  then obtain q2 q3 where q: "Queue_Push SyncStack_PushImp (0, 4) False True (sv_sendq ?sv) = Inr (0, None, q2)"
      "Queue_Push SyncStack_PushImp (0, 5) False True q2 = Inr (0, None, q3)" by blast
  have "sv_ok ?sv [(0, 5), (0, 4)] 100000" by (rule server_example_ok) simp
  from answers_reversed [OF heap_1M_ok _ _ server_example_fields(2) this server_example_packages(2)
      server_example_packages(2) q, of "\<lambda>_. (0, Sent 1)"] heap_1M_small
  show ?thesis using q by (auto simp: server_example_packages)
qed

text \<open>C39. A connection that closes stays in the registry: a result that arrives later, for a connection whose
  send buffer is empty, is given to \<open>send\<close> on the descriptor that was closed, and when it is sent
  the descriptor is closed a second time. By then the number may belong to another connection.\<close>

theorem answer_after_close:
  assumes "le_data (sv_reactor sv) h = Some ed" and "led_timers ed = []"
    and "on_conn h (\<lambda>w. Inr (snd (ConnectEventHandler_Close h w))) sv = Inr sv1"
    and "sq_queue (sv_sendq sv) = [x]" and "pk_target sv x = Some h" and "pk_retcode (so_pkgs (sv_objs sv) x) = 0"
    and "pk_data (so_pkgs (sv_objs sv) x) = Some db" and "db_wf db" and "db_data db \<noteq> []"
    and "db_wf (ce_sendbuffer (sv_conns sv h))" and "db_data (ce_sendbuffer (sv_conns sv h)) = []"
    and "heap_ok new" and "\<forall>n. unat n \<le> B \<longrightarrow> new n \<noteq> None" and "B < 2 ^ 63" and "length (db_data db) \<le> B"
    and "env x = (add, Sent room)" and "length (db_data db) \<le> room"
  defines "fd \<equiv> ce_handle (sv_conns sv h)"
  shows "\<exists>sv'. PushEventHandler_HandleEvent new True env sv1 = Inr sv'
    \<and> sv_logs sv' h = SysClose fd # SysSend fd (db_data db) # SysClose fd # sv_logs sv h"
proof -
  let ?w = "\<lparr>cw_conn = sv_conns sv h, cw_reactor = sv_reactor sv, cw_sys = sv_logs sv h\<rparr>"
  have c: "le_data (sv_reactor sv1) h = None" "sv_logs sv1 h = SysClose fd # sv_logs sv h"
    "sv_conns sv1 h = sv_conns sv h" "sv_sendq sv1 = sv_sendq sv" "sv_objs sv1 = sv_objs sv" "sv_registry sv1 = sv_registry sv"
    using Close_closes [of ?w h ed] assms(1-3) by (auto simp: on_conn_def fd_def)
  define q where "q = (sv_sendq sv)\<lparr>sq_queue := [], sq_count := sq_count (sv_sendq sv) - 1\<rparr>"
  define sv2 where "sv2 = sv1\<lparr>sv_sendq := q\<rparr>"
  have pop: "Queue_Pop False (sv_sendq sv1) [] = Some (0, Some x, q)" using assms(4) c by (simp add: Queue_Pop_def q_def)
  have pos: "DataBlock_GetSize db > 0" using length_db_data [OF assms(8)] assms(9)
    by (auto simp: DataBlock_GetSize_def word_gt_0)
  let ?w2 = "\<lparr>cw_conn = sv_conns sv2 h, cw_reactor = sv_reactor sv2, cw_sys = sv_logs sv2 h\<rparr>"
  from Send_closed [of ?w2 h new B "db_data db" room add] assms(9-15,17) c obtain w' where
    s: "ConnectEventHandler_Send new True add (Sent room) (db_data db) h ?w2 = Inr w'"
      "cw_sys w' = SysClose fd # SysSend fd (db_data db) # SysClose fd # sv_logs sv h"
    by (auto simp: sv2_def fd_def)
  define sv3 where "sv3 = projr (on_conn h (ConnectEventHandler_Send new True add (Sent room) (db_data db) h) sv2)"
  have d: "PushEventHandler_deliver new True env x sv2 = Inr (sv3\<lparr>sv_objs := so_Destroy x (sv_objs sv3)\<rparr>)"
    "sv_logs sv3 h = cw_sys w'" "sq_queue (sv_sendq sv3) = []"
    using assms(5-7,16) c pos s(1) by (simp_all add: PushEventHandler_deliver_def pk_target_def sv2_def sv3_def q_def
        Package_GetDataLen_def Package_GetData_def Package_block_def on_conn_def)
  have "PushEventHandler_HandleEvent new True env sv1
      = PushEventHandler_HandleEvent new True env (sv3\<lparr>sv_objs := so_Destroy x (sv_objs sv3)\<rparr>)"
    using pop d(1) by (subst PushEventHandler_HandleEvent.simps) (simp add: sv2_def)
  then show ?thesis using d s(2)
    by (subst (asm) (2) PushEventHandler_HandleEvent.simps) (simp add: Queue_Pop_def)
qed

theorem answer_after_close_witness:
  "\<exists>sv1 sv'. on_conn 7 (\<lambda>w. Inr (snd (ConnectEventHandler_Close 7 w))) (server_example [(0, 3)]) = Inr sv1
    \<and> PushEventHandler_HandleEvent heap_1M True (\<lambda>_. (0, Sent 2)) sv1 = Inr sv'
    \<and> sv_logs sv' 7 = [SysClose 9, SysSend 9 [3, 9], SysClose 9]"
proof -
  let ?sv = "server_example [(0, 3)]"
  obtain sv1 where s: "on_conn 7 (\<lambda>w. Inr (snd (ConnectEventHandler_Close 7 w))) ?sv = Inr sv1" by (simp add: on_conn_def)
  have d: "le_data (sv_reactor ?sv) 7 = Some (EventData_new\<lparr>led_readev := \<lparr>ev_events = EV_READ, ev_efd = 9, ev_pending = True\<rparr>\<rparr>)"
    "led_timers (EventData_new\<lparr>led_readev := \<lparr>ev_events = EV_READ, ev_efd = 9, ev_pending = True\<rparr>\<rparr>) = []"
    by (simp_all add: server_example_fields conn_example_def EventData_new_def)
  have "\<exists>sv'. PushEventHandler_HandleEvent heap_1M True (\<lambda>_. (0, Sent 2)) sv1 = Inr sv'
    \<and> sv_logs sv' 7 = [SysClose 9, SysSend 9 [3, 9], SysClose 9]"
    using answer_after_close [OF d s server_example_fields(2) server_example_packages(2) server_example_fields(7,8) example_block(1),
        of heap_1M 100000 "\<lambda>_. (0, Sent 2)" 0 2] heap_1M_small
    by (simp add: server_example_fields conn_example_bufs example_block)
  then show ?thesis using s by blast
qed

end
