(* ===== verification/Acceptor.thy ===== *)
theory Acceptor
  imports Socket ConnectEventHandler HandlerRegistry ObjectPool
begin

text \<open>
  \<open>nets/acceptor.cpp\<close> and \<open>nets/addressfilteracceptor.cpp\<close>: a listening socket, the filter on the address
  of a client and the making of its connection. The connections are objects of a pool, of which
  \<open>hid\<close> gives the address. The results of the system calls are parameters.
\<close>

section \<open>Acceptor\<close>

record acceptor =
  ac_handle :: int
  ac_addr :: SockAddr
  ac_kernel :: kernel
  ac_removed :: "cstring list"

text \<open>The results of the system calls of \<open>Open\<close>, and of \<open>RegisterHandler\<close>.\<close>

record open_results =
  or_socket :: int
  or_fcntl :: bool
  or_nodelay :: bool
  or_reuse :: bool
  or_bind :: bool
  or_listen :: bool
  or_local :: "sockaddr option"
  or_register :: int

definition is_local :: "SockAddr \<Rightarrow> bool" where
  "is_local sa \<longleftrightarrow> SockAddr_GetFamily sa = AF_LOCAL"

text \<open>\<open>listensock.Close (); return -1\<close>.\<close>

definition ac_fail :: "int \<Rightarrow> acceptor \<Rightarrow> (int \<times> acceptor) result" where
  "ac_fail fd a = Inr (- 1, a\<lparr>ac_kernel := snd (Socket_Close fd (ac_kernel a))\<rparr>)"

text \<open>The end of \<open>Open\<close>: the registration with the reactor.\<close>

definition ac_register :: "bool \<Rightarrow> int \<Rightarrow> acceptor \<Rightarrow> (int \<times> acceptor) result" where
  "ac_register newSocket ret a =
     (if ret \<noteq> 0
      then Inr (- 1, if newSocket then a\<lparr>ac_kernel := kn_close (ac_handle a) (ac_kernel a), ac_handle := - 1\<rparr> else a)
      else Inr (0, a))"

definition Acceptor_Open :: "resolver \<Rightarrow> open_results \<Rightarrow> acceptor \<Rightarrow> (int \<times> acceptor) result" where
  "Acceptor_Open rs res a =
     (if ac_handle a = - 1
      then
        let a0 = (if is_local (ac_addr a) then a\<lparr>ac_removed := sa_sString (ac_addr a) # ac_removed a\<rparr> else a);
            (r, fd, k) = Socket_Create (or_socket res) (ac_kernel a0); a1 = a0\<lparr>ac_kernel := k\<rparr> in
        if r \<noteq> 0 then Inr (- 1, a1)
        else let (r, k) = Socket_SetBlocking (or_fcntl res) (or_fcntl res) False fd (ac_kernel a1); a2 = a1\<lparr>ac_kernel := k\<rparr> in
        if r \<noteq> 0 then ac_fail fd a2
        else if SockAddr_GetFamily (ac_addr a) = AF_INET \<and> Socket_SetDelay (or_nodelay res) \<noteq> 0 then ac_fail fd a2
        else if Socket_Bind (or_reuse res) (or_bind res) fd \<noteq> 0 then ac_fail fd a2
        else if Socket_Listen (or_listen res) \<noteq> 0 then ac_fail fd a2
        else ac_register True (or_register res) (a2\<lparr>ac_handle := fd\<rparr>)
      else
        let (r, k) = Socket_SetBlocking (or_fcntl res) (or_fcntl res) False (ac_handle a) (ac_kernel a); a1 = a\<lparr>ac_kernel := k\<rparr> in
        if r \<noteq> 0 then Inr (- 1, a1)
        else bindR (Socket_GetLocalAddr rs (or_local res) (ac_addr a1)) (\<lambda>(r, addr).
               if r \<noteq> 0 then Inr (- 1, a1) else ac_register False (or_register res) (a1\<lparr>ac_addr := addr\<rparr>)))"

definition Acceptor_HandleClose :: "acceptor \<Rightarrow> acceptor" where
  "Acceptor_HandleClose a =
     (let a1 = a\<lparr>ac_kernel := kn_close (ac_handle a) (ac_kernel a)\<rparr>;
          a2 = (if is_local (ac_addr a) then a1\<lparr>ac_removed := sa_sString (ac_addr a) # ac_removed a1\<rparr> else a1)
      in a2\<lparr>ac_handle := - 1\<rparr>)"

text \<open>The constructors, and \<open>Close\<close>: the reactor calls \<open>HandleClose\<close> when no event is left.\<close>

definition Acceptor_new :: "int \<Rightarrow> SockAddr \<Rightarrow> kernel \<Rightarrow> acceptor" where
  "Acceptor_new handle addr k = \<lparr>ac_handle = handle, ac_addr = addr, ac_kernel = k, ac_removed = []\<rparr>"

definition Acceptor_Close :: "handler_id \<Rightarrow> acceptor \<times> LibEventReactor \<Rightarrow> int \<times> acceptor \<times> LibEventReactor" where
  "Acceptor_Close h = (\<lambda>(a, r).
     let (ret, r1) = LibEventReactor_RemoveHandler (ReadMask OR WriteMask) h r
     in (ret, if le_closed r1 = le_closed r then a else Acceptor_HandleClose a, r1))"

section \<open>AddressFilteredAcceptor\<close>

record filter_acceptor =
  af_pool :: ObjectPool
  af_callbacks :: "obj \<Rightarrow> destroy_callback"
  af_registry :: "handler_id HandlerRegistry"
  af_conns :: "handler_id \<Rightarrow> SockAddr ConnectEventHandler"
  af_reactor :: LibEventReactor
  af_logs :: "handler_id \<Rightarrow> syscall list"
  af_closed :: "int list"
  af_processorid :: u64
  af_timeout :: u64
  af_limit :: "cstring list option"

definition ACF_MAX_CONNECTIONS :: u64 where "ACF_MAX_CONNECTIONS = 10240"

definition AddressFilteredAcceptor_new :: "chunk_alloc \<Rightarrow> u64 \<Rightarrow> u64 \<Rightarrow> handler_id HandlerRegistry
    \<Rightarrow> (handler_id \<Rightarrow> SockAddr ConnectEventHandler) \<Rightarrow> LibEventReactor \<Rightarrow> filter_acceptor result" where
  "AddressFilteredAcceptor_new alc sz processorid registry conns reactor =
     bindR (ObjectPool_new alc sz 128 ACF_MAX_CONNECTIONS 128) (\<lambda>p.
       Inr \<lparr>af_pool = p, af_callbacks = (\<lambda>_. NoCallback), af_registry = registry, af_conns = conns,
            af_reactor = reactor, af_logs = (\<lambda>_. []), af_closed = [], af_processorid = processorid, af_timeout = 3,
            af_limit = None\<rparr>)"

definition SetLimitAddresses :: "cstring list option \<Rightarrow> filter_acceptor \<Rightarrow> filter_acceptor" where
  "SetLimitAddresses addresses w = w\<lparr>af_limit := addresses\<rparr>"

definition SetTimeout :: "u64 \<Rightarrow> filter_acceptor \<Rightarrow> filter_acceptor" where
  "SetTimeout timeout w = w\<lparr>af_timeout := timeout\<rparr>"

text \<open>\<open>strncmp\<close> over the length of the entry.\<close>

definition ValidAddress :: "cstring \<Rightarrow> filter_acceptor \<Rightarrow> bool" where
  "ValidAddress clientip w = (case af_limit w of None \<Rightarrow> True | Some as \<Rightarrow> list_ex (\<lambda>a. prefix a clientip) as)"

definition OnAccept :: "SockAddr \<Rightarrow> filter_acceptor \<Rightarrow> int" where
  "OnAccept addr w = (if \<not> ValidAddress (sa_sString addr) w then - 1 else 0)"

definition CreateHandler :: "(obj \<Rightarrow> handler_id) \<Rightarrow> chunk_alloc \<Rightarrow> u64 \<Rightarrow> SockAddr \<Rightarrow> filter_acceptor
    \<Rightarrow> (obj option \<times> filter_acceptor) result" where
  "CreateHandler hid alc sz addr w =
     (case ObjectManager_Create (ObjectPool_Create_body alc sz) (af_pool w, af_callbacks w) of
        (r, p, cb) \<Rightarrow> bindR r (\<lambda>m. let w1 = w\<lparr>af_pool := p, af_callbacks := cb\<rparr> in case m of
          None \<Rightarrow> Inr (None, w1)
        | Some x \<Rightarrow>
            (case HandlerRegistry_RegisterHandler (hid x) (af_registry w1) of
               None \<Rightarrow> Inl Diverges
             | Some (i, reg) \<Rightarrow>
                 let c = (af_conns w1 (hid x))\<lparr>ce_timeout := sint (ucast (af_timeout w1) :: u32), ce_globalid := i,
                           ce_processorid := af_processorid w1, ce_peerAddr := addr\<rparr>
                 in Inr (Some x, w1\<lparr>af_registry := reg, af_conns := (af_conns w1)(hid x := c)\<rparr>))))"

text \<open>\<open>DestroyHandler\<close>, that is \<open>call\<close>: the id is removed and the object goes back to the pool.\<close>

definition DestroyHandler :: "(obj \<Rightarrow> handler_id) \<Rightarrow> obj \<Rightarrow> filter_acceptor \<Rightarrow> filter_acceptor" where
  "DestroyHandler hid x w =
     w\<lparr>af_registry := HandlerRegistry_RemoveHandler (ce_globalid (af_conns w (hid x))) (af_registry w),
       af_pool := ObjectManager_call x (af_pool w)\<rparr>"

text \<open>A call on one connection.\<close>

definition af_conn :: "handler_id \<Rightarrow> (SockAddr conn_world \<Rightarrow> ('r \<times> SockAddr conn_world) result) \<Rightarrow> filter_acceptor
    \<Rightarrow> ('r \<times> filter_acceptor) result" where
  "af_conn h f w =
     bindR (f \<lparr>cw_conn = af_conns w h, cw_reactor = af_reactor w, cw_sys = af_logs w h\<rparr>) (\<lambda>(r, cw).
       Inr (r, w\<lparr>af_conns := (af_conns w)(h := cw_conn cw), af_reactor := cw_reactor cw,
                af_logs := (af_logs w)(h := cw_sys cw)\<rparr>))"

definition af_close :: "int \<Rightarrow> filter_acceptor \<Rightarrow> filter_acceptor" where
  "af_close fd w = w\<lparr>af_closed := fd # af_closed w\<rparr>"

definition remote_addr :: "resolver \<Rightarrow> sockaddr \<Rightarrow> SockAddr result" where
  "remote_addr rs raw =
     (case raw of RawUnix path \<Rightarrow> Inr (SockAddr_Assign_unix \<lparr>ua_sPath = []\<rparr>) | _ \<Rightarrow> SockAddr_Assign rs raw)"

text \<open>
  \<open>HandleInput\<close>, with the result of \<open>accept\<close> (a descriptor and an address) and of the registration of
  the new connection. The guard closes the descriptor on every path but the last.
\<close>

definition Acceptor_HandleInput :: "resolver \<Rightarrow> (obj \<Rightarrow> handler_id) \<Rightarrow> chunk_alloc \<Rightarrow> u64 \<Rightarrow> (int \<times> sockaddr) option
    \<Rightarrow> bool \<Rightarrow> int \<Rightarrow> filter_acceptor \<Rightarrow> filter_acceptor result" where
  "Acceptor_HandleInput rs hid alc sz acc mem add w =
     (case acc of
        None \<Rightarrow> Inr w
      | Some (fd, raw) \<Rightarrow>
          bindR (remote_addr rs raw) (\<lambda>addr.
          if OnAccept addr w \<noteq> 0 then Inr (af_close fd w)
          else bindR (CreateHandler hid alc sz addr w) (\<lambda>(m, w1). case m of
            None \<Rightarrow> Inr (af_close fd w1)
          | Some x \<Rightarrow>
              let h = hid x;
                  w2 = w1\<lparr>af_conns := (af_conns w1)(h := (af_conns w1 h)\<lparr>ce_handle := fd\<rparr>),
                          af_reactor := (af_reactor w1)\<lparr>le_handle := (le_handle (af_reactor w1))(h := fd)\<rparr>\<rparr>
              in bindR (af_conn h (ConnectEventHandler_Open mem add h) w2) (\<lambda>(r, w3).
                   if r \<noteq> 0 then Inr (af_close fd (DestroyHandler hid x w3)) else Inr w3))))"

text \<open>A run of accepted clients and of connections that close, and the objects of the accepted ones.\<close>

datatype accept_op = OpAccept int sockaddr int | OpClose handler_id

fun accept_run :: "resolver \<Rightarrow> (obj \<Rightarrow> handler_id) \<Rightarrow> chunk_alloc \<Rightarrow> u64 \<Rightarrow> accept_op list \<Rightarrow> filter_acceptor
    \<Rightarrow> filter_acceptor result" where
  "accept_run rs hid alc sz [] w = Inr w"
| "accept_run rs hid alc sz (OpAccept fd raw add # ops) w =
     bindR (Acceptor_HandleInput rs hid alc sz (Some (fd, raw)) True add w) (accept_run rs hid alc sz ops)"
| "accept_run rs hid alc sz (OpClose h # ops) w =
     bindR (af_conn h (\<lambda>cw. Inr (ConnectEventHandler_Close h cw)) w) (\<lambda>(r, w1). accept_run rs hid alc sz ops w1)"

end
