(* ===== verification/SockAddrProps.thy ===== *)
theory SockAddrProps
  imports SockAddr
begin

text \<open>The text form of an address is read back as the same address.\<close>

lemma parse_port_nat: "n < 2 ^ 16 \<Longrightarrow> parse_port (show_nat 10 n) = of_nat n"
proof -
  assume n: "n < 2 ^ 16"
  then have "strtol 10 (show_nat 10 n) = int n"
    using strtol_show_nat [of 10 n 0] by (simp add: LONG_MAX_def)
  then show ?thesis by (simp add: parse_port_def atoi_def ucast_of_nat_down)
qed

lemma parse_port_show: "parse_port (show_nat 10 (unat (p :: u16))) = p"
  using parse_port_nat [of "unat p"] unat_u16 [of p] by simp

lemma colon_split:
  assumes "58 \<notin> set host"
  shows "takeWhile (\<lambda>c. c \<noteq> 58) (host @ 58 # xs) = host" and "dropWhile (\<lambda>c. c \<noteq> 58) (host @ 58 # xs) = 58 # xs"
  using assms by (induction host) auto

lemma no_colon: "58 \<notin> set (show_nat 10 n)"
proof
  assume "58 \<in> set (show_nat 10 n)"
  then obtain d where d: "d \<in> set (nat_digits 10 n)" "58 = digit_char d" by (auto simp: show_nat_def)
  then have "d < 10" using nat_digits_bound [of 10 n] by auto
  with d(2) unat_digit_char [of d] show False by (auto dest: arg_cong [of _ _ unat])
qed

text \<open>The bytes of an address that no zero byte cuts off.\<close>

lemma c_str_same [simp]: "0 \<notin> set s \<Longrightarrow> c_str s = s"
  by (auto simp: c_str_def takeWhile_eq_all_conv)

lemma no_zero: "0 \<notin> set (show_nat 10 n)"
proof
  assume "0 \<in> set (show_nat 10 n)"
  then obtain d where d: "d \<in> set (nat_digits 10 n)" "0 = digit_char d" by (auto simp: show_nat_def)
  then have "d < 10" using nat_digits_bound [of 10 n] by auto
  with d(2) unat_digit_char [of d] show False by (auto dest: arg_cong [of _ _ unat])
qed

lemma no_zero_prefix: "0 \<notin> set ADDR_PREFIX_INET" "0 \<notin> set ADDR_PREFIX_LOCAL"
  by (simp_all add: ADDR_PREFIX_INET_def ADDR_PREFIX_LOCAL_def)

lemma ParseAddress_inet:
  assumes "58 \<notin> set host" and "0 \<notin> set host"
  shows "ParseAddress rs (ADDR_PREFIX_INET @ host @ [58] @ show_nat 10 (unat port)) bindhost
    = bindR (INetAddr_new rs host port) (\<lambda>a. Inr (SockAddr_Assign_inet rs a))"
  using assms by (simp add: ParseAddress_def colon_split parse_port_show no_zero no_zero_prefix)

lemma prefixes_differ: "\<not> prefix ADDR_PREFIX_INET (ADDR_PREFIX_LOCAL @ s)"
  by (simp add: ADDR_PREFIX_INET_def ADDR_PREFIX_LOCAL_def)

text \<open>The one way in which \<open>ParseAddress\<close> fails: \<open>gethostbyname_r\<close> knows no such name.\<close>

lemma ParseAddress_Inl: "ParseAddress rs addr bindhost = Inl e \<Longrightarrow> e = NullDeref"
  by (auto simp: ParseAddress_def INetAddr_new_def GetIPByHostName_def Let_def split: if_splits host_lookup.splits)

lemma ParseAddress_not_found:
  fixes port :: u16
  assumes "58 \<notin> set host" and "0 \<notin> set host" and "host \<noteq> ZERO_IP" and "rs_gethostbyname rs host = NotFound"
  shows "ParseAddress rs (ADDR_PREFIX_INET @ host @ [58] @ show_nat 10 (unat port)) bindhost = Inl NullDeref"
  using ParseAddress_inet [OF assms(1,2), of rs port bindhost] assms by (simp add: INetAddr_new_def GetIPByHostName_def)

section \<open>Properties\<close>

text \<open>C29. \<open>ParseAddress\<close> reads what \<open>FormatAddress\<close> writes back as the same address (text, length
  and raw form), for every IPv4 address whose host has no colon and is a name that is found, and for every path, neither
  with a zero byte, whatever \<open>bindhost\<close> is; \<open>inet://port\<close> without a host is the address of \<open>bindhost\<close>, or of 127.0.0.1
  without one, as the comment in \<open>sockaddr.h\<close> says; and a host that \<open>gethostbyname_r\<close> does not find makes \<open>ParseAddress\<close> use a null
  pointer.\<close>

theorem parse_format_roundtrip:
  assumes "58 \<notin> set host" and "0 \<notin> set host" and "INetAddr_new rs host port = Inr ia" and "0 \<notin> set path"
    and "58 \<notin> set missing" and "0 \<notin> set missing" and "missing \<noteq> ZERO_IP" and "rs_gethostbyname rs missing = NotFound"
  shows "ParseAddress rs (FormatAddress (SockAddr_Assign_inet rs ia)) bindhost = Inr (SockAddr_Assign_inet rs ia)
    \<and> ParseAddress rs (FormatAddress (SockAddr_Assign_unix \<lparr>ua_sPath = path\<rparr>)) bindhost
      = Inr (SockAddr_Assign_unix \<lparr>ua_sPath = path\<rparr>)
    \<and> ParseAddress rs (ADDR_PREFIX_INET @ show_nat 10 (unat port)) bindhost
      = bindR (INetAddr_new rs (case bindhost of None \<Rightarrow> ADDR_LOCALHOST | Some h \<Rightarrow> c_str h) port)
          (\<lambda>a. Inr (SockAddr_Assign_inet rs a))
    \<and> ParseAddress rs (ADDR_PREFIX_INET @ missing @ [58] @ show_nat 10 (unat port)) bindhost = Inl NullDeref"
proof (intro conjI)
  from assms(3) have ia: "in_sHost ia = host" "in_uPort ia = port"
    by (auto simp: INetAddr_new_def bindR_Inr_iff)
  show "ParseAddress rs (FormatAddress (SockAddr_Assign_inet rs ia)) bindhost = Inr (SockAddr_Assign_inet rs ia)"
    using ParseAddress_inet [OF assms(1,2), of rs port bindhost] assms(3) ia
    by (simp add: FormatAddress_def SockAddr_GetFamily_def SockAddr_Assign_inet_def AF_INET_def AF_LOCAL_def
        INetAddr_ToString_def)
  show "ParseAddress rs (FormatAddress (SockAddr_Assign_unix \<lparr>ua_sPath = path\<rparr>)) bindhost
      = Inr (SockAddr_Assign_unix \<lparr>ua_sPath = path\<rparr>)"
    using prefixes_differ [of path] assms(4) no_zero_prefix(2)
    by (simp add: FormatAddress_def SockAddr_GetFamily_def SockAddr_Assign_unix_def UnixAddr_ToString_def ParseAddress_def)
  show "ParseAddress rs (ADDR_PREFIX_INET @ show_nat 10 (unat port)) bindhost
      = bindR (INetAddr_new rs (case bindhost of None \<Rightarrow> ADDR_LOCALHOST | Some h \<Rightarrow> c_str h) port)
          (\<lambda>a. Inr (SockAddr_Assign_inet rs a))"
    using no_colon [of "unat port"] no_zero [of "unat port"] no_zero_prefix(1)
    by (simp add: ParseAddress_def parse_port_show Let_def)
qed (rule ParseAddress_not_found [OF assms(5-8)])

definition no_names :: resolver where
  "no_names = \<lparr>rs_gethostbyname = (\<lambda>_. LookupFails), rs_pton = (\<lambda>_. 0), rs_ntop = (\<lambda>_. ZERO_IP)\<rparr>"

text \<open>A resolver that knows two names.\<close>

definition two_names :: resolver where
  "two_names = \<lparr>rs_gethostbyname = (\<lambda>h. if h = [97, 46, 98] \<or> h = ADDR_LOCALHOST then Found ADDR_LOCALHOST else NotFound),
     rs_pton = (\<lambda>_. 16777343), rs_ntop = (\<lambda>_. ADDR_LOCALHOST)\<rparr>"

theorem parse_format_roundtrip_witness:
  "\<exists>ia. INetAddr_new two_names [97, 46, 98] 8080 = Inr ia
    \<and> ParseAddress two_names (FormatAddress (SockAddr_Assign_inet two_names ia)) None = Inr (SockAddr_Assign_inet two_names ia)
    \<and> in_sIP ia = ADDR_LOCALHOST
    \<and> ParseAddress two_names (ADDR_PREFIX_INET @ [57] @ [58] @ show_nat 10 (unat (8080 :: u16))) None = Inl NullDeref"
proof -
  have ia: "INetAddr_new two_names [97, 46, 98] 8080
      = Inr \<lparr>in_sHost = [97, 46, 98], in_sIP = ADDR_LOCALHOST, in_uPort = 8080\<rparr>"
    by (simp add: INetAddr_new_def GetIPByHostName_def two_names_def ZERO_IP_def ADDR_LOCALHOST_def)
  have m: "([57] :: cstring) \<noteq> ZERO_IP" "rs_gethostbyname two_names [57] = NotFound"
    by (simp_all add: ZERO_IP_def two_names_def ADDR_LOCALHOST_def)
  from parse_format_roundtrip [OF _ _ ia, of "[]" "[57]" None] m show ?thesis unfolding ia by simp
qed

end
