(* ===== verification/AcceptorProps.thy ===== *)
theory AcceptorProps
  imports Acceptor SockAddrProps ObjectPoolProps HandlerRegistryProps ConnectEventHandlerProps
begin

text \<open>
  Properties of the acceptors: which descriptors \<open>Open\<close> leaves open, what becomes of a client that
  \<open>accept\<close> returns, and how many clients an acceptor can serve in its life.
\<close>

section \<open>Open\<close>

lemma setblocking_flags:
  "snd (Socket_SetBlocking g f b fd k) = k \<or> (\<exists>fl. snd (Socket_SetBlocking g f b fd k) = k\<lparr>kn_flags := fl\<rparr>)"
  by (auto simp: Socket_SetBlocking_def Let_def)

lemma setblocking_open [simp]: "kn_open (snd (Socket_SetBlocking g f b fd k)) = kn_open k"
  by (simp add: Socket_SetBlocking_def Let_def)

section \<open>A client\<close>

lemma Create_free:
  "pl_objects p = x # xs \<Longrightarrow> ObjectPool_Create_body alc sz p = (Inr (Some x), p\<lparr>pl_objects := xs\<rparr>)"
  by (simp add: ObjectPool_Create_body_def ObjectPool_take_def)

text \<open>\<open>CreateHandler\<close> on a pool with a free object.\<close>

lemma CreateHandler_free:
  assumes "pl_objects (af_pool w) = x # xs" and "length (hr_registry (af_registry w)) < 2 ^ 64 - 1"
  shows "\<exists>i. CreateHandler hid alc sz addr w = Inr (Some x, w\<lparr>af_pool := (af_pool w)\<lparr>pl_objects := xs\<rparr>,
      af_callbacks := (af_callbacks w)(x := ManagerCallback),
      af_registry := (af_registry w)\<lparr>hr_idcounter := i, hr_registry := (i, hid x) # hr_registry (af_registry w)\<rparr>,
      af_conns := (af_conns w)(hid x := (af_conns w (hid x))\<lparr>ce_timeout := sint (ucast (af_timeout w) :: u32),
        ce_globalid := i, ce_processorid := af_processorid w, ce_peerAddr := addr\<rparr>)\<rparr>)
    \<and> map_of (hr_registry (af_registry w)) i = None"
proof -
  from register_shape [OF assms(2), of "hid x"] obtain i where
    "HandlerRegistry_RegisterHandler (hid x) (af_registry w)
      = Some (i, (af_registry w)\<lparr>hr_idcounter := i, hr_registry := (i, hid x) # hr_registry (af_registry w)\<rparr>)"
    "map_of (hr_registry (af_registry w)) i = None" by blast
  then show ?thesis using Create_free [OF assms(1), of alc sz]
    by (intro exI [of _ i]) (simp add: CreateHandler_def ObjectManager_Create_def Let_def)
qed

lemma remote_addr_inet:
  "remote_addr rs (RawInet port ip) = Inr (SockAddr_Assign_inet rs (INetAddr_of_raw rs port ip))"
  by (simp add: remote_addr_def SockAddr_Assign_def)

lemma Open_register:
  assumes "le_data (cw_reactor w) h = None"
  shows "\<exists>w'. ConnectEventHandler_Open True add h w = Inr (if add = 0 then 0 else - 1, w')
    \<and> cw_conn w' = (cw_conn w)\<lparr>ce_sendbuffer := DataBlock_Clear (ce_sendbuffer (cw_conn w)),
          ce_recvbuffer := DataBlock_Clear (ce_recvbuffer (cw_conn w)), ce_closeaftersent := False, ce_received := False\<rparr>
    \<and> cw_sys w' = cw_sys w
    \<and> (add = 0 \<longrightarrow> (\<exists>ed. le_data (cw_reactor w') h = Some ed \<and> ev_pending (led_readev ed)
        \<and> ev_events (led_readev ed) AND EV_PERSIST = 0 \<and> led_timers ed = []))"
  using assms ev_read_flags [of "(ce_timeout (cw_conn w), 0)"]
  by (simp add: ConnectEventHandler_Open_def ce_register_def LibEventReactor_RegisterHandler_def
      LibEventReactor_InitEventHandler_def le_set_data_def EventData_new_def le_arm_def event_add_def event_set_def Let_def)

section \<open>All clients\<close>

lemma af_conn_frame:
  "af_conn h f w = Inr (r, w') \<Longrightarrow> af_pool w' = af_pool w \<and> af_closed w' = af_closed w \<and> af_callbacks w' = af_callbacks w"
  by (auto simp: af_conn_def bindR_Inr_iff split: prod.splits)

lemma Create_max:
  "ObjectPool_Create_body alc sz p = (Inr m, p') \<Longrightarrow> pl_max p' = pl_max p"
  by (auto simp: ObjectPool_Create_body_def ObjectPool_take_def ObjectPool_IncreaseObjects_def Let_def
      split: if_splits sum.splits)

lemma CreateHandler_pool:
  assumes "CreateHandler hid alc sz addr w = Inr (m, w1)"
  shows "ObjectPool_Create_body alc sz (af_pool w) = (Inr m, af_pool w1) \<and> af_closed w1 = af_closed w"
proof -
  obtain r p where c: "ObjectPool_Create_body alc sz (af_pool w) = (r, p)" by (cases "ObjectPool_Create_body alc sz (af_pool w)") auto
  with assms obtain m' where m: "r = Inr m'" by (cases r) (auto simp: CreateHandler_def ObjectManager_Create_def)
  show ?thesis
  proof (cases m')
    case None
    then show ?thesis using assms c m by (auto simp: CreateHandler_def ObjectManager_Create_def Let_def)
  next
    case (Some x)
    then show ?thesis using assms c m
      by (cases "HandlerRegistry_RegisterHandler (hid x) (af_registry w)")
        (auto simp: CreateHandler_def ObjectManager_Create_def Let_def)
  qed
qed

text \<open>Every client costs an object or is refused.\<close>

lemma HandleInput_count:
  assumes inv: "pool_inv (af_pool w, live)" and small: "pool_small (af_pool w)"
    and run: "Acceptor_HandleInput rs hid alc sz (Some (fd, raw)) mem add w = Inr w'"
  shows "\<exists>live'. pool_inv (af_pool w', live') \<and> pool_small (af_pool w') \<and> pl_max (af_pool w') = pl_max (af_pool w)
    \<and> length live' + length (af_closed w') = length live + length (af_closed w) + 1"
proof -
  obtain addr where a: "remote_addr rs raw = Inr addr" using run by (auto simp: Acceptor_HandleInput_def bindR_Inr_iff)
  show ?thesis
  proof (cases "OnAccept addr w \<noteq> 0")
    case True
    then show ?thesis using run a inv small by (auto simp: Acceptor_HandleInput_def af_close_def)
  next
    case False
    with run a obtain m w1 where c: "CreateHandler hid alc sz addr w = Inr (m, w1)"
      by (auto simp: Acceptor_HandleInput_def bindR_Inr_iff)
    define p where "p = af_pool w1"
    have p: "ObjectPool_Create_body alc sz (af_pool w) = (Inr m, p)" "af_pool w1 = p" "af_closed w1 = af_closed w"
      using CreateHandler_pool [OF c] by (simp_all add: p_def)
    note mx = Create_max [OF p(1)]
    show ?thesis
    proof (cases m)
      case None
      then have "p = af_pool w" using Create_null p(1) by simp
      then show ?thesis using run a False c None p inv small
        by (auto simp: Acceptor_HandleInput_def af_close_def)
    next
      case (Some x)
      note i = Create_inv [OF inv small p(1)[unfolded Some]]
      from run a False c Some obtain r w3 where
        o: "af_conn (hid x) (ConnectEventHandler_Open mem add (hid x)) (w1\<lparr>af_conns := (af_conns w1)(hid x := (af_conns w1 (hid x))\<lparr>ce_handle := fd\<rparr>),
              af_reactor := (af_reactor w1)\<lparr>le_handle := (le_handle (af_reactor w1))(hid x := fd)\<rparr>\<rparr>) = Inr (r, w3)"
          "w' = (if r \<noteq> 0 then af_close fd (DestroyHandler hid x w3) else w3)"
        by (auto simp: Acceptor_HandleInput_def bindR_Inr_iff Let_def split: if_splits)
      note fr = af_conn_frame [OF o(1)]
      show ?thesis
      proof (cases "r = 0")
        case True
        then show ?thesis using o(2) fr i p mx by (intro exI [of _ "x # live"]) simp
      next
        case False
        have "pool_inv (snd (ObjectPool_Destroy_body (Some x) p), remove1 x (x # live))"
          by (rule Destroy_inv) (use i in simp_all)
        then show ?thesis using o(2) fr i p mx False
          by (intro exI [of _ live]) (auto simp: af_close_def DestroyHandler_def ObjectManager_call_def pool_small_def
              ObjectPool_Destroy_body_def)
      qed
    qed
  qed
qed

fun accepts :: "accept_op list \<Rightarrow> nat" where
  "accepts [] = 0"
| "accepts (OpAccept fd raw add # ops) = Suc (accepts ops)"
| "accepts (OpClose h # ops) = accepts ops"

lemma accept_run_count:
  "pool_inv (af_pool w, live) \<Longrightarrow> pool_small (af_pool w) \<Longrightarrow> accept_run rs hid alc sz ops w = Inr w' \<Longrightarrow>
    \<exists>live'. pool_inv (af_pool w', live') \<and> pl_max (af_pool w') = pl_max (af_pool w)
      \<and> length live' + length (af_closed w') = length live + length (af_closed w) + accepts ops"
proof (induction ops arbitrary: w live)
  case Nil
  then show ?case by auto
next
  case (Cons op ops)
  show ?case
  proof (cases op)
    case (OpAccept fd raw add)
    with Cons.prems(3) obtain w1 where w1: "Acceptor_HandleInput rs hid alc sz (Some (fd, raw)) True add w = Inr w1"
      "accept_run rs hid alc sz ops w1 = Inr w'" by auto
    from HandleInput_count [OF Cons.prems(1,2) w1(1)] obtain live1 where
      l: "pool_inv (af_pool w1, live1)" "pool_small (af_pool w1)" "pl_max (af_pool w1) = pl_max (af_pool w)"
        "length live1 + length (af_closed w1) = length live + length (af_closed w) + 1" by blast
    from Cons.IH [OF l(1,2) w1(2)] l(3,4) OpAccept show ?thesis by auto
  next
    case (OpClose h)
    with Cons.prems(3) obtain r w1 where w1: "af_conn h (\<lambda>cw. Inr (ConnectEventHandler_Close h cw)) w = Inr (r, w1)"
      "accept_run rs hid alc sz ops w1 = Inr w'" by (auto simp: bindR_Inr_iff)
    note fr = af_conn_frame [OF w1(1)]
    from Cons.IH [OF _ _ w1(2), of live] fr Cons.prems(1,2) OpClose show ?thesis by auto
  qed
qed

section \<open>Properties\<close>

text \<open>\<open>Acceptor::Open\<close> of a fresh acceptor returns 0 exactly when every step succeeds; then its handle is the
  new descriptor, which is open and non-blocking, and no other descriptor has changed. On every failure
  it returns -1, the handle is unset and no descriptor is left open.\<close>

lemma acceptor_open_exact:
  assumes "ac_handle a = - 1" and "or_socket o' \<notin> set (kn_open (ac_kernel a))"
  shows "\<exists>ret a'. Acceptor_Open rs o' a = Inr (ret, a')
    \<and> (if or_socket o' \<noteq> - 1 \<and> or_fcntl o' \<and> (SockAddr_GetFamily (ac_addr a) = AF_INET \<longrightarrow> or_nodelay o')
          \<and> or_reuse o' \<and> or_bind o' \<and> or_listen o' \<and> or_register o' = 0
       then ret = 0 \<and> ac_handle a' = or_socket o' \<and> kn_open (ac_kernel a') = or_socket o' # kn_open (ac_kernel a)
         \<and> kn_flags (ac_kernel a') (or_socket o') AND O_NONBLOCK \<noteq> 0
         \<and> (\<forall>fd. fd \<noteq> or_socket o' \<longrightarrow> kn_flags (ac_kernel a') fd = kn_flags (ac_kernel a) fd)
       else ret = - 1 \<and> ac_handle a' = - 1 \<and> kn_open (ac_kernel a') = kn_open (ac_kernel a))"
proof -
  have nb: "(f OR O_NONBLOCK) AND O_NONBLOCK \<noteq> 0" for f :: u32
  proof
    assume "(f OR O_NONBLOCK) AND O_NONBLOCK = 0"
    then have "bit ((f OR O_NONBLOCK) AND O_NONBLOCK) 11 \<longleftrightarrow> bit (0 :: u32) 11" by simp
    then show False by (simp add: bit_simps O_NONBLOCK_def)
  qed
  have "removeAll (or_socket o') (kn_open (ac_kernel a)) = kn_open (ac_kernel a)"
    using assms(2) by (simp add: removeAll_id)
  then show ?thesis using assms nb
    by (simp add: Acceptor_Open_def Socket_Create_def Socket_SetBlocking_def Socket_SetDelay_def Socket_Bind_def
        Socket_Listen_def ac_fail_def ac_register_def Socket_Close_def kn_close_def Let_def)
qed

lemma acceptor_open_exact_witness:
  "\<exists>a'. Acceptor_Open no_names \<lparr>or_socket = 5, or_fcntl = True, or_nodelay = True, or_reuse = True, or_bind = True,
        or_listen = True, or_local = None, or_register = 0\<rparr>
      \<lparr>ac_handle = - 1, ac_addr = SockAddr_Assign_inet no_names (INetAddr_of_port 80),
       ac_kernel = \<lparr>kn_open = [3], kn_flags = \<lambda>_. 0\<rparr>, ac_removed = []\<rparr> = Inr (0, a')
    \<and> ac_handle a' = 5 \<and> kn_open (ac_kernel a') = [5, 3]"
  using acceptor_open_exact [of "\<lparr>ac_handle = - 1, ac_addr = SockAddr_Assign_inet no_names (INetAddr_of_port 80),
       ac_kernel = \<lparr>kn_open = [3], kn_flags = \<lambda>_. 0\<rparr>, ac_removed = []\<rparr>"
      "\<lparr>or_socket = 5, or_fcntl = True, or_nodelay = True, or_reuse = True, or_bind = True,
        or_listen = True, or_local = None, or_register = 0\<rparr>" no_names] by auto

text \<open>\<open>Close\<close> of an acceptor without timers closes its descriptor and unsets it, removes the path of a local socket, and
  leaves no event data.\<close>

lemma Acceptor_Close_spec:
  assumes "case le_data r h of None \<Rightarrow> True | Some ed \<Rightarrow> led_timers ed = []" and "Acceptor_Close h (a, r) = (ret, a', r')"
  shows "ret = 0 \<and> ac_handle a' = - 1 \<and> kn_open (ac_kernel a') = removeAll (ac_handle a) (kn_open (ac_kernel a))
    \<and> ac_removed a' = (if is_local (ac_addr a) then [sa_sString (ac_addr a)] else []) @ ac_removed a \<and> le_data r' h = None"
proof -
  have "snd (snd (le_waits r h)) = 0" using assms(1) by (simp add: le_waits_def split: option.splits)
  then obtain r1 where r1: "LibEventReactor_RemoveHandler (ReadMask OR WriteMask) h r = (0, r1)" "le_closed r1 = h # le_closed r"
    using libevent_reactor.rem_law [of "ReadMask OR WriteMask" h r] by auto
  moreover have "le_data r1 h = None" using assms(1) r1
    by (auto simp: LibEventReactor_RemoveHandler_def LibEventReactor_UninitEventHander_def LibEventReactor_HasEvent_def
        le_HandleClose_def le_set_data_def event_zero_def Let_def split: option.splits)
  ultimately show ?thesis using assms(2)
    by (auto simp: Acceptor_Close_def Acceptor_HandleClose_def kn_close_def Let_def)
qed

text \<open>C21. What becomes of an IPv4 client, when an object is free: if no entry of the address list is a prefix of
  the text of its address, its descriptor is closed and nothing else changes. If the registration fails, the
  descriptor is closed, the object is free again and no id is left in the registry. Otherwise the descriptor
  stays open, belongs to a connection with empty buffers that waits for bytes, and the registry gives
  that connection, and no other change, under an id that was free.\<close>

theorem accept_client_exact:
  assumes "pl_objects (af_pool w) = x # xs" and "registry_wf (af_registry w)"
    and "le_data (af_reactor w) (hid x) = None" and "db_wf (ce_recvbuffer (af_conns w (hid x)))"
    and "addr = SockAddr_Assign_inet rs (INetAddr_of_raw rs port ip)"
  shows "\<exists>w'. Acceptor_HandleInput rs hid alc sz (Some (fd, RawInet port ip)) True add w = Inr w'
    \<and> (if \<exists>as. af_limit w = Some as \<and> \<not> (\<exists>a\<in>set as. prefix a (sa_sString addr))
       then w' = w\<lparr>af_closed := fd # af_closed w\<rparr>
       else if add \<noteq> 0
       then af_closed w' = fd # af_closed w \<and> pl_objects (af_pool w') = x # xs
         \<and> (\<forall>j. HandlerRegistry_GetHandler j (af_registry w') = HandlerRegistry_GetHandler j (af_registry w))
       else af_closed w' = af_closed w \<and> pl_objects (af_pool w') = xs
         \<and> (\<exists>i. HandlerRegistry_GetHandler i (af_registry w) = None \<and> ce_globalid (af_conns w' (hid x)) = i
             \<and> (\<forall>j. HandlerRegistry_GetHandler j (af_registry w')
                  = (if j = i then Some (hid x) else HandlerRegistry_GetHandler j (af_registry w))))
         \<and> ce_handle (af_conns w' (hid x)) = fd \<and> ce_peerAddr (af_conns w' (hid x)) = addr
         \<and> db_data (ce_sendbuffer (af_conns w' (hid x))) = []
         \<and> conn_view (hid x) \<lparr>cw_conn = af_conns w' (hid x), cw_reactor = af_reactor w', cw_sys = af_logs w' (hid x)\<rparr> = Some []
         \<and> conn_ready (hid x) \<lparr>cw_conn = af_conns w' (hid x), cw_reactor = af_reactor w', cw_sys = af_logs w' (hid x)\<rparr>)"
proof (cases "\<exists>as. af_limit w = Some as \<and> \<not> (\<exists>a\<in>set as. prefix a (sa_sString addr))")
  case True
  then have "OnAccept addr w \<noteq> 0" by (auto simp: OnAccept_def ValidAddress_def list_ex_iff)
  then show ?thesis using True assms(5) by (simp add: Acceptor_HandleInput_def remote_addr_inet af_close_def)
next
  case False
  then have v: "OnAccept addr w = 0" by (auto simp: OnAccept_def ValidAddress_def list_ex_iff split: option.splits)
  have reg: "length (hr_registry (af_registry w)) < 2 ^ 64 - 1" using assms(2) by (simp add: registry_wf_def)
  from CreateHandler_free [OF assms(1) reg, of hid alc sz addr] obtain i where
    c: "CreateHandler hid alc sz addr w = Inr (Some x, w\<lparr>af_pool := (af_pool w)\<lparr>pl_objects := xs\<rparr>,
      af_callbacks := (af_callbacks w)(x := ManagerCallback),
      af_registry := (af_registry w)\<lparr>hr_idcounter := i, hr_registry := (i, hid x) # hr_registry (af_registry w)\<rparr>,
      af_conns := (af_conns w)(hid x := (af_conns w (hid x))\<lparr>ce_timeout := sint (ucast (af_timeout w) :: u32),
        ce_globalid := i, ce_processorid := af_processorid w, ce_peerAddr := addr\<rparr>)\<rparr>)" (is "_ = Inr (_, ?w1)")
    "map_of (hr_registry (af_registry w)) i = None" by blast
  let ?cw = "\<lparr>cw_conn = (af_conns ?w1 (hid x))\<lparr>ce_handle := fd\<rparr>,
      cw_reactor = (af_reactor ?w1)\<lparr>le_handle := (le_handle (af_reactor ?w1))(hid x := fd)\<rparr>, cw_sys = af_logs ?w1 (hid x)\<rparr>"
  have "le_data (cw_reactor ?cw) (hid x) = None" using assms(3) by simp
  from Open_register [OF this, of add] obtain cw where
    o: "ConnectEventHandler_Open True add (hid x) ?cw = Inr (if add = 0 then 0 else - 1, cw)"
      "cw_conn cw = (cw_conn ?cw)\<lparr>ce_sendbuffer := DataBlock_Clear (ce_sendbuffer (cw_conn ?cw)),
          ce_recvbuffer := DataBlock_Clear (ce_recvbuffer (cw_conn ?cw)), ce_closeaftersent := False, ce_received := False\<rparr>"
      "cw_sys cw = cw_sys ?cw"
      "add = 0 \<longrightarrow> (\<exists>ed. le_data (cw_reactor cw) (hid x) = Some ed \<and> ev_pending (led_readev ed)
        \<and> ev_events (led_readev ed) AND EV_PERSIST = 0 \<and> led_timers ed = [])" by blast
  define w3 where "w3 = ?w1\<lparr>af_conns := (af_conns ?w1)(hid x := cw_conn cw),
      af_reactor := cw_reactor cw, af_logs := (af_logs ?w1)(hid x := cw_sys cw)\<rparr>"
  have run: "Acceptor_HandleInput rs hid alc sz (Some (fd, RawInet port ip)) True add w
      = Inr (if add \<noteq> 0 then af_close fd (DestroyHandler hid x w3) else w3)"
    using v c(1) o(1) by (simp add: Acceptor_HandleInput_def remote_addr_inet assms(5)[symmetric] af_conn_def w3_def Let_def)
  have keys: "filter (\<lambda>(k, h). k \<noteq> i) (hr_registry (af_registry w)) = hr_registry (af_registry w)"
    using c(2) by (auto simp: map_of_eq_None_iff intro!: filter_True) force
  have buf: "db_wf (DataBlock_Clear (ce_recvbuffer (af_conns w (hid x))))"
    "db_data (DataBlock_Clear (ce_recvbuffer (af_conns w (hid x)))) = []"
    "db_data (DataBlock_Clear (ce_sendbuffer (af_conns w (hid x)))) = []"
    using DataBlock_Clear_wf [OF assms(4)] by (simp_all add: DataBlock_Clear_def db_data_def)
  show ?thesis
  proof (cases "add = 0")
    case True
    then show ?thesis using False run c(2) o buf
      by (auto simp: w3_def HandlerRegistry_GetHandler_def conn_view_def conn_ready_def)
  next
    case fail: False
    then show ?thesis using False run assms(1) o(2) keys
      by (auto simp: w3_def af_close_def DestroyHandler_def ObjectManager_call_def ObjectPool_Destroy_body_def
          HandlerRegistry_GetHandler_def HandlerRegistry_RemoveHandler_def)
  qed
qed

definition acceptor_example :: filter_acceptor where
  "acceptor_example = \<lparr>af_pool = \<lparr>pl_curr = 1, pl_max = 1, pl_inc = 0, pl_objects = [(0, 0)], pl_chunks = [1]\<rparr>,
     af_callbacks = (\<lambda>_. NoCallback), af_registry = \<lparr>hr_registry = [], hr_idcounter = 0\<rparr>,
     af_conns = (\<lambda>_. \<lparr>ce_peerAddr = SockAddr_new, ce_recvbuffer = \<lparr>db_init = True, db_mem = [], db_end = 0, db_cap = 0\<rparr>,
        ce_sendbuffer = \<lparr>db_init = True, db_mem = [], db_end = 0, db_cap = 0\<rparr>, ce_globalid = 0, ce_processorid = 0,
        ce_timeout = 0, ce_closeaftersent = False, ce_received = False, ce_handle = - 1\<rparr>),
     af_reactor = LibEventReactor_new (\<lambda>_. - 1), af_logs = (\<lambda>_. []), af_closed = [], af_processorid = 1, af_timeout = 3,
     af_limit = Some [[48, 46]]\<rparr>"

theorem accept_client_exact_witness:
  "\<exists>w'. Acceptor_HandleInput no_names (\<lambda>_. 7) (\<lambda>_ _. True) 100 (Some (5, RawInet 80 1)) True 0 acceptor_example = Inr w'
    \<and> af_closed w' = [] \<and> ce_handle (af_conns w' 7) = 5"
proof -
  let ?a = "SockAddr_Assign_inet no_names (INetAddr_of_raw no_names 80 1)"
  have f: "pl_objects (af_pool acceptor_example) = [(0, 0)]" "registry_wf (af_registry acceptor_example)"
    "le_data (af_reactor acceptor_example) 7 = None" "db_wf (ce_recvbuffer (af_conns acceptor_example 7))"
    "af_limit acceptor_example = Some [[48, 46]]" "af_closed acceptor_example = []"
    by (simp_all add: acceptor_example_def registry_wf_def LibEventReactor_new_def db_wf_def)
  have "prefix [48, 46] (sa_sString ?a)"
    by (simp add: SockAddr_Assign_inet_def INetAddr_ToString_def INetAddr_of_raw_def no_names_def ZERO_IP_def Let_def)
  with accept_client_exact [where hid = "\<lambda>_. 7" and rs = no_names and port = 80 and ip = 1 and alc = "\<lambda>_ _. True"
      and sz = 100 and fd = 5 and add = 0, OF f(1-4) refl] f(5,6) show ?thesis by auto
qed

text \<open>C40. A connection that closes never goes back to the pool of its acceptor: however many of the clients
  have left in between, at most \<open>iMaxNum_\<close> clients are served in the life of an acceptor (10240 as
  constructed), and every client after that is refused.\<close>

theorem clients_served_bounded:
  assumes "pool_inv (af_pool w, [])" and "pool_small (af_pool w)" and "accept_run rs hid alc sz ops w = Inr w'"
  shows "accepts ops \<le> (length (af_closed w') - length (af_closed w)) + unat (pl_max (af_pool w))"
proof -
  from accept_run_count [OF assms] obtain live where
    l: "pool_inv (af_pool w', live)" "pl_max (af_pool w') = pl_max (af_pool w)"
      "length live + length (af_closed w') = length (af_closed w) + accepts ops" by auto
  then have "length live \<le> unat (pl_max (af_pool w))" by (auto simp: pool_inv_def word_le_nat_alt)
  with l(3) show ?thesis by linarith
qed

lemma register_next:
  "map_of (hr_registry r) (hr_idcounter r + 1) = None \<Longrightarrow> HandlerRegistry_RegisterHandler h r
     = Some (hr_idcounter r + 1, r\<lparr>hr_idcounter := hr_idcounter r + 1, hr_registry := (hr_idcounter r + 1, h) # hr_registry r\<rparr>)"
  by (subst HandlerRegistry_RegisterHandler.simps) (simp add: Let_def)

lemma acceptor_example_run:
  "\<exists>w'. accept_run no_names (\<lambda>_. 7) (\<lambda>_ _. True) 100 [OpAccept 5 (RawInet 80 1) 0, OpClose 7, OpAccept 6 (RawInet 80 2) 0]
      acceptor_example = Inr w'"
  by (simp add: acceptor_example_def Acceptor_HandleInput_def remote_addr_inet OnAccept_def ValidAddress_def
      SockAddr_Assign_inet_def INetAddr_ToString_def INetAddr_of_raw_def no_names_def ZERO_IP_def CreateHandler_def
      ObjectManager_Create_def ObjectPool_Create_body_def ObjectPool_take_def ObjectPool_IncreaseObjects_def register_next
      af_conn_def ConnectEventHandler_Open_def ce_register_def LibEventReactor_RegisterHandler_def
      LibEventReactor_InitEventHandler_def le_set_data_def EventData_new_def LibEventReactor_new_def le_arm_def
      event_add_def event_set_def ConnectEventHandler_Close_def ce_remove_def LibEventReactor_RemoveHandler_def
      LibEventReactor_HasEvent_def event_zero_def LibEventReactor_UninitEventHander_def le_HandleClose_def
      ConnectEventHandler_HandleClose_def Let_def)

theorem clients_served_bounded_witness:
  "\<exists>w'. accept_run no_names (\<lambda>_. 7) (\<lambda>_ _. True) 100 [OpAccept 5 (RawInet 80 1) 0, OpClose 7, OpAccept 6 (RawInet 80 2) 0]
      acceptor_example = Inr w' \<and> 1 \<le> length (af_closed w')"
proof -
  obtain w' where r: "accept_run no_names (\<lambda>_. 7) (\<lambda>_ _. True) 100
      [OpAccept 5 (RawInet 80 1) 0, OpClose 7, OpAccept 6 (RawInet 80 2) 0] acceptor_example = Inr w'"
    using acceptor_example_run by blast
  have "pool_inv (af_pool acceptor_example, [])" "pool_small (af_pool acceptor_example)"
    by (auto simp: acceptor_example_def pool_inv_def pool_small_def chunk_objs_def)
  from clients_served_bounded [OF this r] r show ?thesis by (simp add: acceptor_example_def)
qed

end
