(* ===== verification/ConnectorProps.thy ===== *)
theory ConnectorProps
  imports Connector SockAddrProps AcceptorProps
begin

text \<open>
  Properties of \<open>Connector\<close> and \<open>UdpListener\<close>: what becomes of the descriptor that \<open>Open\<close> makes.
\<close>

section \<open>The parts of Connector\<close>

lemma setblocking_cases:
  "Socket_SetBlocking f f b fd k = (if f then (0, k\<lparr>kn_flags := (kn_flags k)(fd :=
      if b then kn_flags k fd AND NOT O_NONBLOCK else kn_flags k fd OR O_NONBLOCK)\<rparr>) else (- 1, k))"
  by (simp add: Socket_SetBlocking_def Let_def)

lemma connfd_Close_open:
  "cn_connfd c \<noteq> - 1 \<Longrightarrow> connfd_Close c = c\<lparr>cn_connfd := - 1, cn_kernel := kn_close (cn_connfd c) (cn_kernel c),
      cn_closes := cn_closes c + 1\<rparr>"
  by (simp add: connfd_Close_def Socket_Close_def)

lemma connector_HandleClose_unset: "cn_connfd c = - 1 \<Longrightarrow> Connector_HandleClose c = c"
  by (simp add: Connector_HandleClose_def)

text \<open>The first \<open>RemoveHandler\<close> of a handler that waits only to write, and every later one, calls \<open>HandleClose\<close>.\<close>

lemma RemoveHandler_last:
  assumes "le_data r h = None \<or> (\<exists>ed. le_data r h = Some ed \<and> ev_events (led_readev ed) = 0 \<and> led_timers ed = [])"
  shows "le_data (snd (LibEventReactor_RemoveHandler WriteMask h r)) h = None
    \<and> le_closed (snd (LibEventReactor_RemoveHandler WriteMask h r)) = h # le_closed r"
  using assms
  by (auto simp: LibEventReactor_RemoveHandler_def LibEventReactor_HasEvent_def LibEventReactor_UninitEventHander_def
      le_HandleClose_def le_set_data_def event_zero_def masked_def WriteMask_def ReadMask_def Let_def)

definition cn_waits :: "handler_id \<Rightarrow> Connector \<Rightarrow> bool" where
  "cn_waits h c \<longleftrightarrow> (case le_data (cn_reactor c) h of
      None \<Rightarrow> True | Some ed \<Rightarrow> ev_events (led_readev ed) = 0 \<and> led_timers ed = [])"

lemma Connector_Close_eq:
  assumes "cn_waits h c"
  shows "\<exists>r. Connector_Close h c = Connector_HandleClose (c\<lparr>cn_reactor := r\<rparr>)
    \<and> le_data r h = None \<and> le_closed r = h # le_closed (cn_reactor c)"
proof -
  have "le_data (cn_reactor c) h = None
      \<or> (\<exists>ed. le_data (cn_reactor c) h = Some ed \<and> ev_events (led_readev ed) = 0 \<and> led_timers ed = [])"
    using assms by (auto simp: cn_waits_def split: option.splits)
  from RemoveHandler_last [OF this] show ?thesis
    by (auto simp: Connector_Close_def Let_def)
qed

lemma Connector_Close_exact:
  assumes "cn_waits h c"
  shows "cn_connfd (Connector_Close h c) = - 1 \<and> le_data (cn_reactor (Connector_Close h c)) h = None
    \<and> cn_kernel (Connector_Close h c)
        = (if cn_connfd c = - 1 then cn_kernel c else kn_close (cn_connfd c) (cn_kernel c))
    \<and> cn_closes (Connector_Close h c) = cn_closes c + (if cn_connfd c = - 1 then 0 else 1)
    \<and> cn_waits h (Connector_Close h c)"
  using Connector_Close_eq [OF assms]
  by (auto simp: Connector_HandleClose_def connfd_Close_open cn_waits_def)

lemma Connector_Close_twice:
  assumes "cn_waits h c" and "cn_connfd c \<noteq> - 1"
  shows "cn_connfd (Connector_Close h (Connector_Close h c)) = - 1
    \<and> le_data (cn_reactor (Connector_Close h (Connector_Close h c))) h = None
    \<and> cn_kernel (Connector_Close h (Connector_Close h c)) = kn_close (cn_connfd c) (cn_kernel c)
    \<and> cn_closes (Connector_Close h (Connector_Close h c)) = cn_closes c + 1"
  using Connector_Close_exact [OF assms(1)] Connector_Close_exact [of h "Connector_Close h c"] assms(2) by auto

text \<open>The address that \<open>HandleOutput\<close> takes as its own, when it gets one.\<close>

definition cn_named :: "resolver \<Rightarrow> sockaddr option \<Rightarrow> Connector \<Rightarrow> bool" where
  "cn_named rs local c \<longleftrightarrow> SockAddr_GetFamily (cn_remote c) = AF_LOCAL
     \<or> \<not> SockAddr_eq (cn_local c) (any_addr rs) \<or> local \<noteq> None"

definition cn_unblocked :: "Connector \<Rightarrow> Connector" where
  "cn_unblocked c = c\<lparr>cn_kernel := (cn_kernel c)\<lparr>kn_flags := (kn_flags (cn_kernel c))(cn_connfd c :=
      kn_flags (cn_kernel c) (cn_connfd c) AND NOT O_NONBLOCK)\<rparr>\<rparr>"

lemma cn_unblocked_sel [simp]:
  "cn_connfd (cn_unblocked c) = cn_connfd c" "cn_closes (cn_unblocked c) = cn_closes c"
  "cn_reactor (cn_unblocked c) = cn_reactor c" "kn_open (cn_kernel (cn_unblocked c)) = kn_open (cn_kernel c)"
  "kn_flags (cn_kernel (cn_unblocked c)) (cn_connfd c) = kn_flags (cn_kernel c) (cn_connfd c) AND NOT O_NONBLOCK"
  by (simp_all add: cn_unblocked_def)

lemma connector_output_fail:
  "\<not> (err = Some 0 \<and> fcntl) \<Longrightarrow> Connector_HandleOutput rs err fcntl local on_connected h c
     = Inr (Connector_Close h (Connector_Close h c))"
  by (auto simp: Connector_HandleOutput_def Connector_OnError_def setblocking_cases)

lemma connector_output_unnamed:
  "err = Some 0 \<Longrightarrow> fcntl \<Longrightarrow> \<not> cn_named rs local c \<Longrightarrow>
     Connector_HandleOutput rs err fcntl local on_connected h c
       = Inr (Connector_Close h (Connector_Close h (cn_unblocked c)))"
  by (simp add: Connector_HandleOutput_def Connector_OnError_def setblocking_cases cn_named_def Socket_GetLocalAddr_def
      cn_unblocked_def)

lemma connector_output_named:
  assumes "Connector_HandleOutput rs (Some 0) True local on_connected h c = Inr c'" and "cn_named rs local c"
  shows "\<exists>a. c' = Connector_Close h (if on_connected = 0 then (cn_unblocked c)\<lparr>cn_local := a, cn_connfd := - 1\<rparr>
       else (cn_unblocked c)\<lparr>cn_local := a\<rparr>)"
proof -
  define own where "own = (if SockAddr_GetFamily (cn_remote c) = AF_LOCAL
                  then Inr (0, SockAddr_Assign_unix \<lparr>ua_sPath = []\<rparr>)
                  else if SockAddr_eq (cn_local c) (any_addr rs) then Socket_GetLocalAddr rs local (cn_local c)
                  else Inr (0, cn_local c))"
  have "own = Inr (r, a) \<Longrightarrow> r = 0" for r a using assms(2)
    by (auto simp: own_def cn_named_def Socket_GetLocalAddr_def bindR_Inr_iff split: if_splits)
  moreover have "Connector_HandleOutput rs (Some 0) True local on_connected h c = bindR own (\<lambda>(r, a).
      if r \<noteq> 0 then Inr (Connector_Close h (Connector_OnError h (cn_unblocked c)))
      else Inr (Connector_Close h (if on_connected = 0 then (cn_unblocked c)\<lparr>cn_local := a, cn_connfd := - 1\<rparr>
        else (cn_unblocked c)\<lparr>cn_local := a\<rparr>)))"
    by (simp add: Connector_HandleOutput_def setblocking_cases own_def cn_unblocked_def Let_def cong del: if_weak_cong)
  ultimately show ?thesis using assms(1) by (cases own) auto
qed

lemma connector_output_cases:
  assumes "cn_waits h c" and "cn_connfd c \<noteq> - 1"
    and "Connector_HandleOutput rs err fcntl local on_connected h c = Inr c'"
  shows "cn_connfd c' = - 1 \<and> le_data (cn_reactor c') h = None
    \<and> (if err = Some 0 \<and> fcntl \<and> cn_named rs local c \<and> on_connected = 0
       then kn_open (cn_kernel c') = kn_open (cn_kernel c) \<and> cn_closes c' = cn_closes c
         \<and> kn_flags (cn_kernel c') (cn_connfd c) = kn_flags (cn_kernel c) (cn_connfd c) AND NOT O_NONBLOCK
       else kn_open (cn_kernel c') = removeAll (cn_connfd c) (kn_open (cn_kernel c)) \<and> cn_closes c' = cn_closes c + 1)"
proof (cases "err = Some 0 \<and> fcntl")
  case False
  then show ?thesis using assms Connector_Close_twice [OF assms(1,2)] by (auto simp: connector_output_fail kn_close_def)
next
  case ok: True
  have u: "cn_waits h (cn_unblocked c)" using assms(1) by (simp add: cn_waits_def)
  show ?thesis
  proof (cases "cn_named rs local c")
    case False
    then show ?thesis using assms(2,3) ok Connector_Close_twice [OF u] by (simp add: connector_output_unnamed kn_close_def)
  next
    case True
    from assms(3) ok have "Connector_HandleOutput rs (Some 0) True local on_connected h c = Inr c'" by simp
    from connector_output_named [OF this True] obtain a where
      e: "c' = Connector_Close h (if on_connected = 0 then (cn_unblocked c)\<lparr>cn_local := a, cn_connfd := - 1\<rparr>
        else (cn_unblocked c)\<lparr>cn_local := a\<rparr>)" by blast
    have "cn_waits h ((cn_unblocked c)\<lparr>cn_local := a, cn_connfd := - 1\<rparr>)" "cn_waits h ((cn_unblocked c)\<lparr>cn_local := a\<rparr>)"
      using u by (simp_all add: cn_waits_def)
    from this [THEN Connector_Close_exact] show ?thesis using e ok True assms(2) by (auto simp: kn_close_def)
  qed
qed

section \<open>Open\<close>

lemma connector_open_cases:
  assumes "le_data (cn_reactor c) h = None" and "cr_socket res \<notin> set (kn_open (cn_kernel c))"
    and "Connector_Open rs res h c = Inr (ret, c')"
  shows "ret \<in> {0, - 1} \<and> cn_remote c' = cn_remote c \<and> cn_local c' = cn_local c
    \<and> (if ret = 0 then cr_socket res \<noteq> - 1 \<and> cn_connfd c' = cr_socket res \<and> cn_handle c' = cr_socket res
         \<and> kn_open (cn_kernel c') = cr_socket res # kn_open (cn_kernel c) \<and> cn_closes c' = cn_closes c
         \<and> kn_flags (cn_kernel c') (cr_socket res) = kn_flags (cn_kernel c) (cr_socket res) OR O_NONBLOCK
         \<and> cn_waits h c' \<and> (\<exists>ed. le_data (cn_reactor c') h = Some ed \<and> ev_pending (led_writeev ed))
       else kn_open (cn_kernel c') = kn_open (cn_kernel c) \<and> cn_connfd c' = - 1)"
  using assms
  by (auto simp: Connector_Open_def Socket_Create_def setblocking_cases cn_fail_def connfd_Close_def Socket_Close_def
      kn_close_def bindR_Inr_iff LibEventReactor_RegisterHandler_def LibEventReactor_InitEventHandler_def le_set_data_def
      EventData_new_def event_zero_def le_arm_def event_add_def masked_def ReadMask_def WriteMask_def cn_waits_def Let_def
      split: if_splits)

text \<open>C22. The descriptor of a connector: if \<open>Open\<close> fails, none is left open. If it succeeds, the reactor waits for
  the connection on the new non-blocking descriptor, and the one that follows, the connection or its time-out,
  ends the ownership: the descriptor is left open, and blocking, for \<open>OnConnected\<close> exactly when the
  socket has no error, every call succeeds and \<open>OnConnected\<close> accepts it, and is otherwise closed exactly once,
  though \<open>Close\<close> runs twice. The handler is then no longer known to the reactor.\<close>

theorem connector_descriptor_once:
  assumes "le_data (cn_reactor c) h = None" and "cr_socket res \<notin> set (kn_open (cn_kernel c))"
    and "Connector_Open rs res h c = Inr (ret, c1)" and "fd = cr_socket res"
  shows "if ret \<noteq> 0 then kn_open (cn_kernel c1) = kn_open (cn_kernel c)
    else kn_open (cn_kernel c1) = fd # kn_open (cn_kernel c)
      \<and> kn_flags (cn_kernel c1) fd = kn_flags (cn_kernel c) fd OR O_NONBLOCK
      \<and> (\<exists>ed. le_data (cn_reactor c1) h = Some ed \<and> ev_pending (led_writeev ed))
      \<and> (\<forall>err fcntl local on_connected c2. Connector_HandleOutput rs err fcntl local on_connected h c1 = Inr c2 \<longrightarrow>
           le_data (cn_reactor c2) h = None
         \<and> (if err = Some 0 \<and> fcntl \<and> cn_named rs local c \<and> on_connected = 0
            then kn_open (cn_kernel c2) = fd # kn_open (cn_kernel c) \<and> cn_closes c2 = cn_closes c
              \<and> kn_flags (cn_kernel c2) fd AND O_NONBLOCK = 0
            else kn_open (cn_kernel c2) = kn_open (cn_kernel c) \<and> cn_closes c2 = cn_closes c + 1))
      \<and> kn_open (cn_kernel (Connector_HandleTimeout h c1)) = kn_open (cn_kernel c)
      \<and> cn_closes (Connector_HandleTimeout h c1) = cn_closes c + 1
      \<and> le_data (cn_reactor (Connector_HandleTimeout h c1)) h = None"
proof -
  note o = connector_open_cases [OF assms(1-3)]
  show ?thesis
  proof (cases "ret = 0")
    case False
    then show ?thesis using o by simp
  next
    case r: True
    then have c1: "cn_waits h c1" "cn_connfd c1 = fd" "fd \<noteq> - 1" "kn_open (cn_kernel c1) = fd # kn_open (cn_kernel c)"
      "cn_closes c1 = cn_closes c" "cn_named rs l c1 = cn_named rs l c" for l
      using o assms(4) by (auto simp: cn_named_def)
    have rm: "removeAll fd (fd # kn_open (cn_kernel c)) = kn_open (cn_kernel c)" using assms(2,4) by simp
    have bit: "(a AND NOT b) AND b = 0" for a b :: u32 by (simp add: bit_eq_iff bit_simps)
    have out: "Connector_HandleOutput rs err fcntl local on_connected h c1 = Inr c2 \<Longrightarrow> le_data (cn_reactor c2) h = None
           \<and> (if err = Some 0 \<and> fcntl \<and> cn_named rs local c \<and> on_connected = 0
              then kn_open (cn_kernel c2) = fd # kn_open (cn_kernel c) \<and> cn_closes c2 = cn_closes c
                \<and> kn_flags (cn_kernel c2) fd AND O_NONBLOCK = 0
              else kn_open (cn_kernel c2) = kn_open (cn_kernel c) \<and> cn_closes c2 = cn_closes c + 1)"
      for err fcntl local on_connected c2
      using connector_output_cases [OF c1(1), of rs err fcntl local on_connected c2] c1 rm bit by (auto split: if_splits)
    have "kn_open (cn_kernel (Connector_HandleTimeout h c1)) = kn_open (cn_kernel c)
        \<and> cn_closes (Connector_HandleTimeout h c1) = cn_closes c + 1
        \<and> le_data (cn_reactor (Connector_HandleTimeout h c1)) h = None"
      using Connector_Close_twice [OF c1(1)] c1 rm
      by (simp add: Connector_HandleTimeout_def Connector_OnError_def kn_close_def)
    then show ?thesis using o r assms(4) c1(4) out by auto
  qed
qed

definition connector_example :: Connector where
  "connector_example = \<lparr>cn_handle = - 1, cn_connfd = - 1,
     cn_remote = SockAddr_Assign_inet no_names (INetAddr_of_port 80), cn_local = any_addr no_names, cn_time = None,
     cn_kernel = \<lparr>kn_open = [3], kn_flags = \<lambda>_. 0\<rparr>, cn_reactor = LibEventReactor_new (\<lambda>_. - 1), cn_closes = 0\<rparr>"

definition connect_results_example :: connect_results where
  "connect_results_example = \<lparr>cr_socket = 5, cr_fcntl = True, cr_reuse = True, cr_bind = True,
     cr_connect = InProgress, cr_nodelay = True, cr_register = 0\<rparr>"

lemma connector_example_open: "\<exists>c1. Connector_Open no_names connect_results_example 7 connector_example = Inr (0, c1)"
  by (simp add: Connector_Open_def connector_example_def connect_results_example_def Socket_Create_def setblocking_cases
      Socket_Connect_plain_def Socket_SetDelay_def SockAddr_eq_def LibEventReactor_new_def
      LibEventReactor_RegisterHandler_def LibEventReactor_InitEventHandler_def le_set_data_def
      EventData_new_def event_zero_def le_arm_def event_add_def masked_def ReadMask_def WriteMask_def Let_def)

theorem connector_descriptor_once_witness:
  "\<exists>c1. Connector_Open no_names connect_results_example 7 connector_example = Inr (0, c1)
    \<and> kn_open (cn_kernel c1) = [5, 3] \<and> kn_open (cn_kernel (Connector_HandleTimeout 7 c1)) = [3]"
proof -
  from connector_example_open obtain c1 where c: "Connector_Open no_names connect_results_example 7 connector_example = Inr (0, c1)"
    by blast
  have f: "le_data (cn_reactor connector_example) 7 = None" "cr_socket connect_results_example \<notin> set (kn_open (cn_kernel connector_example))"
    by (simp_all add: connector_example_def connect_results_example_def LibEventReactor_new_def)
  from connector_descriptor_once [OF f c refl] c show ?thesis
    by (simp add: connector_example_def connect_results_example_def)
qed

section \<open>UdpListener\<close>

text \<open>\<open>Open\<close> of a datagram socket leaves no descriptor open on a failure.\<close>

lemma udp_open_exact:
  assumes "ur_socket res \<notin> set (kn_open (ul_kernel u))" and "UdpListener_Open res h u = Inr (ret, u')"
  shows "ret = (if ur_socket res \<noteq> - 1 \<and> ur_rcvbuf res \<and> ur_reuse res \<and> ur_bind res \<and> ur_register res = 0 then 0 else - 1)
    \<and> kn_open (ul_kernel u') = (if ret = 0 then [ur_socket res] else []) @ kn_open (ul_kernel u)"
  using assms
  by (auto simp: UdpListener_Open_def Socket_Create_def Socket_Bind_def Socket_Close_def kn_close_def bindR_Inr_iff
      LibEventReactor_RegisterHandler_def LibEventReactor_InitEventHandler_def le_set_data_def masked_def
      ReadMask_def WriteMask_def PersistMask_def Let_def split: if_splits)

text \<open>
  \<open>HandlePackage\<close> gets a length that is not a length, and an address that was never stored, exactly when
  \<open>recvfrom\<close> was interrupted or had nothing.
\<close>

lemma udp_input_negative:
  "(\<exists>n a. UdpListener_HandleInput res = HandlePackage n a \<and> n < 0)
     \<longleftrightarrow> res = DatagramErr UDP_EINTR \<or> res = DatagramErr UDP_EAGAIN"
  by (cases res) (auto simp: UdpListener_HandleInput_def)

text \<open>After \<open>Close\<close> the handle keeps its number, so a second \<open>Close\<close> closes whoever has it by then.\<close>

lemma udp_close_again:
  assumes "le_data (ul_reactor u) h = None"
  shows "kn_open (ul_kernel (UdpListener_Close h u)) = removeAll (ul_handle u) (kn_open (ul_kernel u))"
  using assms
  by (simp add: UdpListener_Close_def UdpListener_HandleClose_def LibEventReactor_RemoveHandler_def le_HandleClose_def
      kn_close_def Let_def)

end
