(* ===== verification/ThreadPool.thy ===== *)
theory ThreadPool
  imports Prelude
begin

text \<open>
  \<open>utils/thread.cpp\<close> and \<open>utils/threadpool.cpp\<close>: a thread, and a pool of threads that one thread, the
  controller, starts and stops. The pool is a step relation: a step is one step of the controller in \<open>Start\<close> or
  \<open>Stop\<close>, or one step of one of the threads, in any order.
\<close>

section \<open>Thread\<close>

text \<open>
  The results of \<open>pthread_attr_init\<close>, \<open>pthread_attr_setdetachstate\<close> and \<open>pthread_create\<close>. A new
  thread runs exactly when \<open>pthread_create\<close> is called and returns 0.
\<close>

record thread_results =
  tr_init :: int
  tr_detach :: int
  tr_create :: int

record Thread =
  th_alive :: bool
  th_runs :: bool

definition Thread_new :: Thread where
  "Thread_new = \<lparr>th_alive = False, th_runs = False\<rparr>"

definition Thread_Start :: "thread_results \<Rightarrow> Thread \<Rightarrow> int \<times> Thread" where
  "Thread_Start res t =
     (if th_alive t then (- 1, t)
      else if tr_init res \<noteq> 0 then (- 1, t)
      else if tr_detach res \<noteq> 0 then (- 1, t)
      else let t1 = t\<lparr>th_runs := (tr_create res = 0)\<rparr>
           in if tr_create res = - 1 then (- 1, t1) else (0, t1\<lparr>th_alive := True\<rparr>))"

text \<open>\<open>__THREAD_FUNC\<close> after \<open>Run\<close>: the assignment to \<open>alive\<close>, the last use of the object, and then the return.\<close>

definition Thread_tail :: "Thread \<Rightarrow> Thread" where
  "Thread_tail t = t\<lparr>th_alive := False\<rparr>"

definition Thread_returned :: "Thread \<Rightarrow> Thread" where
  "Thread_returned t = t\<lparr>th_runs := False\<rparr>"

definition Thread_Stop :: "Thread \<Rightarrow> Thread" where
  "Thread_Stop t = (if th_alive t then t\<lparr>th_runs := False, th_alive := False\<rparr> else t)"

text \<open>
  \<open>Join\<close>, while the thread goes on. It tests \<open>alive\<close> first and returns when it is false; otherwise it is in
  \<open>pthread_join\<close> (\<open>waits\<close>), which waits for the thread to return (\<open>None\<close> until then), and then sets \<open>alive\<close>. The
  flag of the result says that \<open>Join\<close> has returned.
\<close>

definition Thread_Join :: "bool \<Rightarrow> Thread \<Rightarrow> (bool \<times> Thread) option" where
  "Thread_Join waits t =
     (if \<not> waits then Some (\<not> th_alive t, t)
      else if th_runs t then None
      else Some (True, t\<lparr>th_alive := False\<rparr>))"

text \<open>The destructor.\<close>

definition Thread_delete :: "Thread \<Rightarrow> Thread" where
  "Thread_delete t = Thread_Stop t"

section \<open>ThreadPool\<close>

text \<open>
  Where the controller is: outside the pool, in the loop of \<open>Start\<close> (with \<open>count\<close> and \<open>livecount\<close>),
  in \<open>StopThreads\<close> (with \<open>stopcount\<close> and the number still to post), in the loop of \<open>Stop\<close> that waits, or in the one that
  joins and deletes the dead threads (with the position in the list and whether it is in \<open>pthread_join\<close>).
\<close>

datatype controller = Idle | Starting nat nat | Stopping nat nat | Waiting nat | Joining nat nat bool

text \<open>
  \<open>tp_running\<close> are the threads in the loop of \<open>JobThread::Run\<close>, \<open>tp_exiting\<close> those that have left it and
  have not yet taken the mutex in \<open>DestroyThread\<close>, \<open>tp_leaving\<close> those that have done so and still have to write \<open>alive\<close>,
  \<open>tp_returning\<close> those that have written it and return, \<open>tp_joined\<close> those on which \<open>Stop\<close> has called \<open>Join\<close> and \<open>delete\<close>,
  \<open>tp_threads\<close> the thread objects. \<open>Start\<close> creates and lists a thread in one step: no thread ends while it runs.
  \<open>tp_src\<close> is what \<open>RunOnce\<close> and \<open>StopThreads\<close> work on.
\<close>

record 's thread_pool =
  tp_live :: "nat list"
  tp_dead :: "nat list"
  tp_running :: "nat list"
  tp_exiting :: "nat list"
  tp_leaving :: "nat list"
  tp_returning :: "nat list"
  tp_joined :: "nat list"
  tp_next :: nat
  tp_threads :: "nat \<Rightarrow> Thread"
  tp_ctl :: controller
  tp_src :: 's

definition ThreadPool_new :: "'s \<Rightarrow> 's thread_pool" where
  "ThreadPool_new s = \<lparr>tp_live = [], tp_dead = [], tp_running = [], tp_exiting = [], tp_leaving = [], tp_returning = [],
     tp_joined = [], tp_next = 0, tp_threads = (\<lambda>_. Thread_new), tp_ctl = Idle, tp_src = s\<rparr>"

definition ThreadPool_DestroyThread :: "nat \<Rightarrow> 's thread_pool \<Rightarrow> 's thread_pool" where
  "ThreadPool_DestroyThread t p = p\<lparr>tp_live := remove1 t (tp_live p), tp_dead := tp_dead p @ [t]\<rparr>"

definition ThreadPool_Stop :: "nat \<Rightarrow> 's thread_pool \<Rightarrow> 's thread_pool" where
  "ThreadPool_Stop count p =
     (if count = 0 then p
      else let stopcount = min count (length (tp_live p)) in p\<lparr>tp_ctl := Stopping stopcount stopcount\<rparr>)"

definition ThreadPool_StopAll :: "'s thread_pool \<Rightarrow> 's thread_pool" where
  "ThreadPool_StopAll p = ThreadPool_Stop (length (tp_live p)) p"

definition ThreadPool_Start :: "nat \<Rightarrow> 's thread_pool \<Rightarrow> 's thread_pool" where
  "ThreadPool_Start count p =
     (let livecount = length (tp_live p) in
      if livecount < count then p\<lparr>tp_ctl := Starting count livecount\<rparr>
      else if livecount > count then ThreadPool_Stop (livecount - count) p
      else p)"

definition ThreadPool_GetThreadNum :: "'s thread_pool \<Rightarrow> nat" where
  "ThreadPool_GetThreadNum p = length (tp_live p)"

text \<open>One turn of the loop of \<open>Start\<close>: the result of \<open>thread->Start()\<close>, and the pool.\<close>

definition ThreadPool_spawn :: "thread_results \<Rightarrow> 's thread_pool \<Rightarrow> int \<times> 's thread_pool" where
  "ThreadPool_spawn res p =
     (let (ret, t) = Thread_Start res Thread_new;
          p1 = p\<lparr>tp_next := tp_next p + 1, tp_threads := (tp_threads p)(tp_next p := t),
                 tp_running := (if th_runs t then tp_running p @ [tp_next p] else tp_running p)\<rparr>
      in (ret, if ret \<noteq> 0 then p1 else p1\<lparr>tp_live := tp_live p1 @ [tp_next p]\<rparr>))"

text \<open>
  \<open>RunOnce\<close> and \<open>StopThreads\<close> are virtual. \<open>once\<close> is a call of \<open>RunOnce\<close> that returns, with its value and the
  source, and is \<open>None\<close> while the call waits. \<open>post n s\<close> is a step of \<open>StopThreads\<close> that still has \<open>n\<close> to post.
\<close>

definition ThreadPool_RunOnce :: "nat \<Rightarrow> (bool \<times> nat) option" where
  "ThreadPool_RunOnce stopcount = (if stopcount > 0 then Some (False, stopcount - 1) else None)"

definition ThreadPool_StopThreads :: "nat \<Rightarrow> nat \<Rightarrow> (nat \<times> nat) option" where
  "ThreadPool_StopThreads n stopcount = Some (0, n)"

text \<open>The steps while \<open>Start\<close> or \<open>Stop\<close> runs, and of the threads at any time.\<close>

inductive tp_step :: "thread_results set \<Rightarrow> ('s \<Rightarrow> (bool \<times> 's) option) \<Rightarrow> (nat \<Rightarrow> 's \<Rightarrow> (nat \<times> 's) option)
    \<Rightarrow> 's thread_pool \<Rightarrow> 's thread_pool \<Rightarrow> bool" for results once post where
  spawn: "tp_ctl p = Starting count n \<Longrightarrow> n < count \<Longrightarrow> res \<in> results \<Longrightarrow> ThreadPool_spawn res p = (ret, p') \<Longrightarrow>
     tp_step results once post p (p'\<lparr>tp_ctl := (if ret \<noteq> 0 then Idle else Starting count (n + 1))\<rparr>)"
| started: "tp_ctl p = Starting count n \<Longrightarrow> \<not> n < count \<Longrightarrow> tp_step results once post p (p\<lparr>tp_ctl := Idle\<rparr>)"
| post: "tp_ctl p = Stopping k n \<Longrightarrow> 0 < n \<Longrightarrow> post n (tp_src p) = Some (n', s') \<Longrightarrow>
     tp_step results once post p (p\<lparr>tp_ctl := Stopping k n', tp_src := s'\<rparr>)"
| posted: "tp_ctl p = Stopping k 0 \<Longrightarrow> tp_step results once post p (p\<lparr>tp_ctl := Waiting k\<rparr>)"
| run_again: "t \<in> set (tp_running p) \<Longrightarrow> once (tp_src p) = Some (True, s') \<Longrightarrow>
     tp_step results once post p (p\<lparr>tp_src := s'\<rparr>)"
| run_ends: "t \<in> set (tp_running p) \<Longrightarrow> once (tp_src p) = Some (False, s') \<Longrightarrow>
     tp_step results once post p (p\<lparr>tp_src := s', tp_running := remove1 t (tp_running p), tp_exiting := tp_exiting p @ [t]\<rparr>)"
| destroy: "t \<in> set (tp_exiting p) \<Longrightarrow> tp_step results once post p
     ((ThreadPool_DestroyThread t p)\<lparr>tp_exiting := remove1 t (tp_exiting p), tp_leaving := tp_leaving p @ [t]\<rparr>)"
| tail: "t \<in> set (tp_leaving p) \<Longrightarrow> tp_step results once post p
     (p\<lparr>tp_leaving := remove1 t (tp_leaving p), tp_returning := tp_returning p @ [t],
        tp_threads := (tp_threads p)(t := Thread_tail (tp_threads p t))\<rparr>)"
| returns: "t \<in> set (tp_returning p) \<Longrightarrow> tp_step results once post p
     (p\<lparr>tp_returning := remove1 t (tp_returning p), tp_threads := (tp_threads p)(t := Thread_returned (tp_threads p t))\<rparr>)"
| waited: "tp_ctl p = Waiting k \<Longrightarrow> k \<le> length (tp_dead p) \<or> tp_live p = [] \<Longrightarrow>
     tp_step results once post p (p\<lparr>tp_ctl := Joining k 0 False\<rparr>)"
| join: "tp_ctl p = Joining k i w \<Longrightarrow> i < length (tp_dead p) \<Longrightarrow> t = tp_dead p ! i \<Longrightarrow>
     Thread_Join w (tp_threads p t) = Some (r, th) \<Longrightarrow> tp_step results once post p
       (if r then p\<lparr>tp_ctl := Joining k (i + 1) False, tp_joined := tp_joined p @ [t],
                    tp_threads := (tp_threads p)(t := Thread_delete th)\<rparr>
        else p\<lparr>tp_ctl := Joining k i True, tp_threads := (tp_threads p)(t := th)\<rparr>)"
| clear: "tp_ctl p = Joining k i False \<Longrightarrow> \<not> i < length (tp_dead p) \<Longrightarrow>
     tp_step results once post p (p\<lparr>tp_dead := [], tp_ctl := Idle\<rparr>)"

inductive_cases tp_stepE: "tp_step results once post p p'"

text \<open>
  The states of a pool that the controller starts and stops in any way; \<open>arrive\<close> is what the controller, which
  also runs the reactor, does to the source between its calls.
\<close>

inductive tp_reachable :: "thread_results set \<Rightarrow> ('s \<Rightarrow> (bool \<times> 's) option) \<Rightarrow> (nat \<Rightarrow> 's \<Rightarrow> (nat \<times> 's) option)
    \<Rightarrow> ('s \<Rightarrow> 's \<Rightarrow> bool) \<Rightarrow> 's \<Rightarrow> 's thread_pool \<Rightarrow> bool" for results once post arrive s0 where
  new: "tp_reachable results once post arrive s0 (ThreadPool_new s0)"
| step: "tp_reachable results once post arrive s0 p \<Longrightarrow> tp_step results once post p p' \<Longrightarrow>
     tp_reachable results once post arrive s0 p'"
| call_start: "tp_reachable results once post arrive s0 p \<Longrightarrow> tp_ctl p = Idle \<Longrightarrow>
     tp_reachable results once post arrive s0 (ThreadPool_Start count p)"
| call_stop: "tp_reachable results once post arrive s0 p \<Longrightarrow> tp_ctl p = Idle \<Longrightarrow>
     tp_reachable results once post arrive s0 (ThreadPool_Stop count p)"
| arrives: "tp_reachable results once post arrive s0 p \<Longrightarrow> tp_ctl p = Idle \<Longrightarrow> arrive (tp_src p) s' \<Longrightarrow>
     tp_reachable results once post arrive s0 (p\<lparr>tp_src := s'\<rparr>)"

end
