(* ===== verification/WorkThreadPool.thy ===== *)
theory WorkThreadPool
  imports ThreadPool Procpack
begin

text \<open>
  \<open>utils/workthreadpool.cpp\<close>: the worker threads of the server. A null package in the receive queue
  (\<open>None\<close>) ends a thread.
\<close>

record 'addr worker =
  wp_recvqueue :: "obj option SyncQueue"
  wp_sendqueue :: "obj SyncQueue"
  wp_processors :: "u32 list"
  wp_errorcb :: bool
  wp_fullcalls :: nat
  wp_objs :: "'addr server_objs"

text \<open>The body of \<open>CreateDataBlock\<close> is a comment and \<open>return NULL\<close>.\<close>

definition WorkThreadPool_CreateDataBlock :: "DataBlock option" where
  "WorkThreadPool_CreateDataBlock = None"

definition WorkThreadPool_ProcessProtocol :: "'addr Package \<Rightarrow> bool result" where
  "WorkThreadPool_ProcessProtocol p =
     (case WorkThreadPool_CreateDataBlock of
        None \<Rightarrow> Inl NullDeref
      | Some db \<Rightarrow> let db1 = DataBlock_Clear db in Inr True)"

definition wp_destroy :: "obj \<Rightarrow> 'addr worker \<Rightarrow> 'addr worker" where
  "wp_destroy x w = w\<lparr>wp_objs := so_Destroy x (wp_objs w)\<rparr>"

text \<open>
  \<open>RunOnce\<close>: \<open>None\<close> while \<open>Pop\<close> waits. The guard destroys the package on every path but the successful push;
  the key of the map is 32 bits wide.
\<close>

definition WorkThreadPool_RunOnce :: "'addr worker \<Rightarrow> (bool \<times> 'addr worker) result option" where
  "WorkThreadPool_RunOnce w =
     (case Queue_Pop True (wp_recvqueue w) [] of
        None \<Rightarrow> None
      | Some (ret, v, q) \<Rightarrow> Some (
          let w1 = w\<lparr>wp_recvqueue := q\<rparr> in
          if ret \<noteq> 0 then Inl AssertFail
          else case v of
            None \<Rightarrow> Inl Uninit
          | Some None \<Rightarrow> Inr (False, w1)
          | Some (Some x) \<Rightarrow>
              let p = so_pkgs (wp_objs w1) x in
              if (ucast (pk_processorid p) :: u32) \<notin> set (wp_processors w1) then Inr (True, wp_destroy x w1)
              else bindR (WorkThreadPool_ProcessProtocol p) (\<lambda>good.
                if \<not> good then Inr (True, wp_destroy x w1)
                else bindR (Queue_Push SyncStack_PushImp x False True (wp_sendqueue w1)) (\<lambda>(r, removed, sq).
                  if r \<noteq> 0
                  then Inr (True, wp_destroy x (if wp_errorcb w1 then w1\<lparr>wp_fullcalls := wp_fullcalls w1 + 1\<rparr> else w1))
                  else Inr (True, w1\<lparr>wp_sendqueue := sq\<rparr>)))))"

text \<open>A turn of the loop of \<open>StopThreads\<close> in which \<open>Push\<close> succeeds; it is \<open>None\<close> while the queue is full.\<close>

definition WorkThreadPool_StopThreads :: "nat \<Rightarrow> 'addr worker \<Rightarrow> (nat \<times> 'addr worker) option" where
  "WorkThreadPool_StopThreads n w =
     (case Queue_Push SyncStack_PushImp None False True (wp_recvqueue w) of
        Inl e \<Rightarrow> None
      | Inr (ret, removed, q) \<Rightarrow> if ret \<noteq> 0 then None else Some (n - 1, w\<lparr>wp_recvqueue := q\<rparr>))"

text \<open>As the source of a pool: a call of \<open>RunOnce\<close> that has no fault.\<close>

definition worker_once :: "'addr worker \<Rightarrow> (bool \<times> 'addr worker) option" where
  "worker_once w = (case WorkThreadPool_RunOnce w of Some (Inr r) \<Rightarrow> Some r | _ \<Rightarrow> None)"

text \<open>What the reactor does to the receive queue: it pushes a package.\<close>

definition package_arrives :: "'addr worker \<Rightarrow> 'addr worker \<Rightarrow> bool" where
  "package_arrives w w' \<longleftrightarrow> (\<exists>x so r removed q.
     Queue_Push SyncStack_PushImp (Some x) False True (wp_recvqueue w) = Inr (r, removed, q)
     \<and> w' = w\<lparr>wp_recvqueue := q, wp_objs := so\<rparr>)"

end
