(* ===== verification/ThreadPoolProps.thy ===== *)
theory ThreadPoolProps
  imports ThreadPool "HOL-Library.Multiset"
begin

text \<open>
  Properties of the thread pool, for every \<open>RunOnce\<close> and \<open>StopThreads\<close> that keep the contract
  \<open>exit_signals\<close>: \<open>StopThreads\<close> posts one signal for each thread that has to end, and \<open>RunOnce\<close> returns
  false exactly when it has taken one.
\<close>

section \<open>The contract\<close>

locale exit_signals =
  fixes once :: "'s \<Rightarrow> (bool \<times> 's) option"
    and post :: "nat \<Rightarrow> 's \<Rightarrow> (nat \<times> 's) option"
    and arrive :: "'s \<Rightarrow> 's \<Rightarrow> bool"
    and okay :: "nat \<Rightarrow> 's \<Rightarrow> bool"
    and signals :: "'s \<Rightarrow> nat"
  assumes post_law: "okay n s \<Longrightarrow> 0 < n \<Longrightarrow> post n s = Some (n', s') \<Longrightarrow> okay n' s' \<and> signals s' + n' = signals s + n"
    and once_law: "okay n s \<Longrightarrow> once s = Some (b, s') \<Longrightarrow> okay n s' \<and> signals s = signals s' + (if b then 0 else 1)"
    and arrive_law: "okay 0 s \<Longrightarrow> arrive s s' \<Longrightarrow> okay 0 s' \<and> signals s' = signals s"
    and begin_law: "okay 0 s \<Longrightarrow> signals s = 0 \<Longrightarrow> okay n s"

text \<open>What the controller has still to post, and how many threads it is stopping.\<close>

fun ctl_left :: "controller \<Rightarrow> nat" where
  "ctl_left (Stopping k n) = n"
| "ctl_left _ = 0"

fun ctl_stops :: "controller \<Rightarrow> nat" where
  "ctl_stops (Stopping k n) = k"
| "ctl_stops (Waiting k) = k"
| "ctl_stops (Joining k i w) = k"
| "ctl_stops _ = 0"

fun ctl_stopping :: "controller \<Rightarrow> bool" where
  "ctl_stopping (Stopping k n) = True"
| "ctl_stopping (Waiting k) = True"
| "ctl_stopping (Joining k i w) = True"
| "ctl_stopping _ = False"

text \<open>How many of the dead threads are deleted, and that there are as many as were to stop when this begins.\<close>

fun ctl_deleted :: "controller \<Rightarrow> nat" where
  "ctl_deleted (Joining k i w) = i"
| "ctl_deleted _ = 0"

fun ctl_counts :: "controller \<Rightarrow> nat \<Rightarrow> bool" where
  "ctl_counts (Joining k i w) d \<longleftrightarrow> d = k \<and> i \<le> k \<and> (w \<longrightarrow> i < k)"
| "ctl_counts _ d \<longleftrightarrow> True"

text \<open>
  The lists: the live threads are those that run and those on their way to \<open>DestroyThread\<close>; a thread that has passed it is
  in the list of the dead, and not deleted, until it has written \<open>alive\<close>; and no thread is in two places.
\<close>

definition tp_lists :: "'s thread_pool \<Rightarrow> bool" where
  "tp_lists p \<longleftrightarrow>
     mset (tp_live p) = mset (tp_running p) + mset (tp_exiting p)
   \<and> distinct (tp_running p @ tp_exiting p @ tp_leaving p @ tp_returning p)
   \<and> distinct (tp_live p @ drop (ctl_deleted (tp_ctl p)) (tp_dead p) @ tp_joined p)
   \<and> set (tp_leaving p) \<subseteq> set (drop (ctl_deleted (tp_ctl p)) (tp_dead p))
   \<and> (\<forall>t\<in>set (tp_live p @ tp_dead p @ tp_joined p @ tp_returning p). t < tp_next p)"

text \<open>The objects: a thread has \<open>alive\<close> set until its last write, and the threads that exist are those of the lists.\<close>

definition tp_objects :: "'s thread_pool \<Rightarrow> bool" where
  "tp_objects p \<longleftrightarrow>
     (\<forall>t\<in>set (tp_running p @ tp_exiting p @ tp_leaving p). th_alive (tp_threads p t) \<and> th_runs (tp_threads p t))
   \<and> (\<forall>t. th_runs (tp_threads p t) \<longrightarrow> t \<in> set (tp_running p @ tp_exiting p @ tp_leaving p @ tp_returning p))"

text \<open>
  The invariant: with these, the threads being stopped are those not yet told, told, leaving and gone.
\<close>

definition tp_ok :: "(nat \<Rightarrow> 's \<Rightarrow> bool) \<Rightarrow> ('s \<Rightarrow> nat) \<Rightarrow> 's thread_pool \<Rightarrow> bool" where
  "tp_ok okay signals p \<longleftrightarrow>
     okay (ctl_left (tp_ctl p)) (tp_src p) \<and> tp_lists p \<and> tp_objects p
   \<and> ctl_left (tp_ctl p) + signals (tp_src p) + length (tp_exiting p) + length (tp_dead p) = ctl_stops (tp_ctl p)
   \<and> ctl_stops (tp_ctl p) \<le> length (tp_live p) + length (tp_dead p)
   \<and> ctl_counts (tp_ctl p) (length (tp_dead p))"

definition creates_ok :: "thread_results \<Rightarrow> bool" where
  "creates_ok res \<longleftrightarrow> tr_create res = 0 \<or> tr_create res = - 1"

lemma spawn_cases:
  "creates_ok res \<Longrightarrow> ThreadPool_spawn res p = (ret, p') \<Longrightarrow>
     (ret = 0 \<and> p' = p\<lparr>tp_next := tp_next p + 1, tp_threads := (tp_threads p)(tp_next p := \<lparr>th_alive = True, th_runs = True\<rparr>),
        tp_running := tp_running p @ [tp_next p], tp_live := tp_live p @ [tp_next p]\<rparr>)
   \<or> (ret \<noteq> 0 \<and> p' = p\<lparr>tp_next := tp_next p + 1, tp_threads := (tp_threads p)(tp_next p := Thread_new)\<rparr>)"
  by (auto simp: ThreadPool_spawn_def Thread_Start_def Thread_new_def creates_ok_def Let_def split: if_splits)

lemma mset_remove1_mem: "t \<in> set xs \<Longrightarrow> mset xs = add_mset t (mset (remove1 t xs))"
  by simp

lemma length_remove1_mem: "t \<in> set xs \<Longrightarrow> length xs = Suc (length (remove1 t xs))"
  by (metis length_remove1 Suc_pred' length_pos_if_in_set)

lemma tp_lists_sets:
  assumes "tp_lists p"
  shows "set (tp_live p) = set (tp_running p) \<union> set (tp_exiting p)"
proof -
  have "set_mset (mset (tp_live p)) = set_mset (mset (tp_running p) + mset (tp_exiting p))"
    using assms by (simp only: tp_lists_def)
  then show ?thesis by simp
qed

lemma tp_ok_sets: "tp_ok okay signals p \<Longrightarrow> set (tp_live p) = set (tp_running p) \<union> set (tp_exiting p)"
  by (rule tp_lists_sets) (simp add: tp_ok_def)

lemma tp_lists_below:
  assumes "tp_lists p" and "t \<in> set (tp_running p @ tp_exiting p @ tp_leaving p @ tp_returning p)"
  shows "t < tp_next p"
  using assms tp_lists_sets [OF assms(1)] set_drop_subset [of "ctl_deleted (tp_ctl p)" "tp_dead p"]
  unfolding tp_lists_def by auto

lemma ctl_deleted_le: "ctl_counts c d \<Longrightarrow> ctl_deleted c \<le> d"
  by (cases c) auto

text \<open>Each kind of step on the lists and the objects.\<close>

lemma spawn_parts:
  assumes "tp_lists p" and "tp_objects p" and "creates_ok res" and "ThreadPool_spawn res p = (ret, q)"
    and "ctl_deleted c = ctl_deleted (tp_ctl p)"
  shows "tp_lists (q\<lparr>tp_ctl := c\<rparr>)" and "tp_objects (q\<lparr>tp_ctl := c\<rparr>)"
proof -
  note new = spawn_cases [OF assms(3,4)] and below = tp_lists_below [OF assms(1)]
  have "tp_next p \<notin> set (tp_running p @ tp_exiting p @ tp_leaving p @ tp_returning p)"
    "tp_next p \<notin> set (tp_live p @ drop (ctl_deleted (tp_ctl p)) (tp_dead p) @ tp_joined p)"
    using below assms(1) set_drop_subset [of "ctl_deleted (tp_ctl p)" "tp_dead p"] unfolding tp_lists_def by auto
  then show "tp_lists (q\<lparr>tp_ctl := c\<rparr>)" "tp_objects (q\<lparr>tp_ctl := c\<rparr>)"
    using new assms(1,2,5) by (auto simp: tp_lists_def tp_objects_def Thread_new_def less_Suc_eq split: if_splits)
qed

lemma run_ends_parts:
  fixes p :: "'s thread_pool" and s' :: 's
  assumes "tp_lists p" and "tp_objects p" and "t \<in> set (tp_running p)"
  defines "q \<equiv> p\<lparr>tp_src := s', tp_running := remove1 t (tp_running p), tp_exiting := tp_exiting p @ [t]\<rparr>"
  shows "tp_lists q" and "tp_objects q"
proof -
  have "mset (tp_running p) + mset (tp_exiting p) = mset (remove1 t (tp_running p)) + add_mset t (mset (tp_exiting p))"
    by (subst mset_remove1_mem [OF assms(3)]) simp
  then show "tp_lists q" "tp_objects q" using assms(1-3)
    by (auto simp: tp_lists_def tp_objects_def q_def set_remove1_eq)
qed

lemma destroy_parts:
  assumes "tp_lists p" and "tp_objects p" and t: "t \<in> set (tp_exiting p)" and del: "ctl_deleted (tp_ctl p) \<le> length (tp_dead p)"
  defines "q \<equiv> (ThreadPool_DestroyThread t p)\<lparr>tp_exiting := remove1 t (tp_exiting p), tp_leaving := tp_leaving p @ [t]\<rparr>"
  shows "tp_lists q" and "tp_objects q"
proof -
  have m: "mset (tp_live p) = mset (tp_running p) + mset (tp_exiting p)" using assms(1) by (simp add: tp_lists_def)
  have l: "t \<in> set (tp_live p)" using tp_lists_sets [OF assms(1)] t by simp
  have m': "mset (remove1 t (tp_live p)) = mset (tp_running p) + mset (remove1 t (tp_exiting p))"
    unfolding mset_remove1 m by (rule diff_union_single_conv) (simp add: t)
  have d: "distinct (tp_live p)" "distinct (tp_exiting p)" using assms(1) unfolding tp_lists_def by auto
  show "tp_lists q" using assms(1) m' l t del d
    by (auto simp: tp_lists_def q_def ThreadPool_DestroyThread_def simp del: mset_remove1)
  show "tp_objects q" using assms(2) t d
    by (auto simp: tp_objects_def q_def ThreadPool_DestroyThread_def)
qed

lemma tail_parts:
  assumes "tp_lists p" and "tp_objects p" and t: "t \<in> set (tp_leaving p)"
  defines "q \<equiv> p\<lparr>tp_leaving := remove1 t (tp_leaving p), tp_returning := tp_returning p @ [t],
      tp_threads := (tp_threads p)(t := Thread_tail (tp_threads p t))\<rparr>"
  shows "tp_lists q" and "tp_objects q"
proof -
  have d: "distinct (tp_running p @ tp_exiting p @ tp_leaving p @ tp_returning p)" "t < tp_next p"
    using assms(1) t tp_lists_below [OF assms(1), of t] unfolding tp_lists_def by auto
  show "tp_lists q" using assms(1) t d by (auto simp: tp_lists_def q_def)
  show "tp_objects q" using assms(2) t d by (auto simp: tp_objects_def q_def Thread_tail_def)
qed

lemma returns_parts:
  assumes "tp_lists p" and "tp_objects p" and t: "t \<in> set (tp_returning p)"
  defines "q \<equiv> p\<lparr>tp_returning := remove1 t (tp_returning p),
      tp_threads := (tp_threads p)(t := Thread_returned (tp_threads p t))\<rparr>"
  shows "tp_lists q" and "tp_objects q"
proof -
  have d: "distinct (tp_running p @ tp_exiting p @ tp_leaving p @ tp_returning p)"
    using assms(1) unfolding tp_lists_def by blast
  show "tp_lists q" using assms(1) t d by (auto simp: tp_lists_def q_def)
  show "tp_objects q" using assms(2) t d by (auto simp: tp_objects_def q_def Thread_returned_def)
qed

text \<open>\<open>Join\<close> of a dead thread does not return before its last write, so deleting it is safe.\<close>

lemma join_parts:
  assumes "tp_lists p" and "tp_objects p" and ctl: "tp_ctl p = Joining k i w" and i: "i < length (tp_dead p)"
    and join: "Thread_Join w (tp_threads p (tp_dead p ! i)) = Some (r, th)"
  defines "t \<equiv> tp_dead p ! i"
  defines "q \<equiv> if r then p\<lparr>tp_ctl := Joining k (i + 1) False, tp_joined := tp_joined p @ [t],
      tp_threads := (tp_threads p)(t := Thread_delete th)\<rparr>
    else p\<lparr>tp_ctl := Joining k i True, tp_threads := (tp_threads p)(t := th)\<rparr>"
  shows "tp_lists q" and "tp_objects q"
proof -
  have dr: "drop i (tp_dead p) = t # drop (Suc i) (tp_dead p)" using i by (simp add: Cons_nth_drop_Suc t_def)
  have "t \<notin> set (tp_live p)" using assms(1) unfolding tp_lists_def ctl ctl_deleted.simps dr by auto
  then have live: "t \<notin> set (tp_running p)" "t \<notin> set (tp_exiting p)" using tp_lists_sets [OF assms(1)] by auto
  have leaving: "t \<notin> set (tp_leaving p)" if r
    using that join assms(2) unfolding t_def tp_objects_def Thread_Join_def by (auto split: if_splits)
  have below: "\<forall>u\<in>set (drop (Suc i) (tp_dead p)). u < tp_next p" "t < tp_next p"
    using assms(1) i set_drop_subset [of "Suc i" "tp_dead p"] unfolding tp_lists_def t_def by auto
  show "tp_lists q" using assms(1) dr leaving below unfolding tp_lists_def q_def by (auto simp: ctl)
  have run: "th_runs (Thread_delete th) \<longrightarrow> th_runs (tp_threads p t)"
    "\<not> r \<longrightarrow> th = tp_threads p t"
    using join by (auto simp: Thread_Join_def Thread_delete_def Thread_Stop_def t_def split: if_splits)
  show "tp_objects q" using assms(2) live leaving run unfolding tp_objects_def q_def by auto
qed

lemma tp_parts_same:
  "tp_lists p \<Longrightarrow> ctl_deleted c = ctl_deleted (tp_ctl p) \<Longrightarrow> tp_lists (p\<lparr>tp_ctl := c\<rparr>)"
  "tp_objects p \<Longrightarrow> tp_objects (p\<lparr>tp_ctl := c\<rparr>)"
  "tp_lists (p\<lparr>tp_src := s'\<rparr>) = tp_lists p" "tp_objects (p\<lparr>tp_src := s'\<rparr>) = tp_objects p"
  "tp_lists (p\<lparr>tp_ctl := c, tp_src := s'\<rparr>) = tp_lists (p\<lparr>tp_ctl := c\<rparr>)"
  "tp_objects (p\<lparr>tp_ctl := c, tp_src := s'\<rparr>) = tp_objects p"
  by (auto simp: tp_lists_def tp_objects_def)

lemma clear_parts:
  "tp_lists p \<Longrightarrow> tp_ctl p = Joining k i w \<Longrightarrow> \<not> i < length (tp_dead p) \<Longrightarrow> tp_lists (p\<lparr>tp_dead := [], tp_ctl := Idle\<rparr>)"
  "tp_objects p \<Longrightarrow> tp_objects (p\<lparr>tp_dead := [], tp_ctl := Idle\<rparr>)"
  by (auto simp: tp_lists_def tp_objects_def)

lemma tp_ok_new: "okay 0 s0 \<Longrightarrow> signals s0 = 0 \<Longrightarrow> tp_ok okay signals (ThreadPool_new s0)"
  by (simp add: tp_ok_def tp_lists_def tp_objects_def ThreadPool_new_def Thread_new_def)

text \<open>What a run of \<open>Stop\<close> has done so far to the pool \<open>p0\<close>, and what it has done when it is over.\<close>

definition stop_frame :: "nat \<Rightarrow> 's thread_pool \<Rightarrow> 's thread_pool \<Rightarrow> bool" where
  "stop_frame k p0 p \<longleftrightarrow>
     (if ctl_stopping (tp_ctl p)
      then ctl_stops (tp_ctl p) = k \<and> tp_joined p = tp_joined p0 @ take (ctl_deleted (tp_ctl p)) (tp_dead p)
        \<and> mset (tp_live p) + mset (tp_dead p) = mset (tp_live p0)
      else tp_ctl p = Idle \<and> (\<exists>ds. tp_joined p = tp_joined p0 @ ds \<and> length ds = k
          \<and> mset (tp_live p) + mset ds = mset (tp_live p0)))"

fun ctl_steps :: "controller \<Rightarrow> nat" where
  "ctl_steps Idle = 0"
| "ctl_steps (Starting c n) = Suc (c - n)"
| "ctl_steps (Stopping k n) = 2 * k + 3"
| "ctl_steps (Waiting k) = 2 * k + 2"
| "ctl_steps (Joining k i w) = 2 * (k - i) + (if w then 0 else 1)"

definition tp_measure :: "('s \<Rightarrow> nat) \<Rightarrow> ('s \<Rightarrow> nat) \<Rightarrow> 's thread_pool \<Rightarrow> nat" where
  "tp_measure signals load p = 5 * ctl_left (tp_ctl p) + 4 * signals (tp_src p) + 3 * length (tp_exiting p)
     + 2 * length (tp_leaving p) + length (tp_returning p) + load (tp_src p) + ctl_steps (tp_ctl p)"

text \<open>The waiting loop of \<open>Stop\<close> ends only when as many threads are dead as it stops.\<close>

lemma waited_dead:
  assumes "tp_ok okay signals p" and "tp_ctl p = Waiting k" and "k \<le> length (tp_dead p) \<or> tp_live p = []"
  shows "length (tp_dead p) = k"
proof -
  have "mset (tp_live p) = mset (tp_running p) + mset (tp_exiting p)" using assms(1) by (simp add: tp_ok_def tp_lists_def)
  then have "length (tp_live p) = length (tp_running p) + length (tp_exiting p)" by (metis size_mset size_union)
  then show ?thesis using assms by (auto simp: tp_ok_def)
qed

text \<open>A thread only leaves while \<open>Stop\<close> waits for it.\<close>

lemma exiting_stopping:
  assumes "tp_ok okay signals p" and "t \<in> set (tp_exiting p)"
  shows "ctl_stopping (tp_ctl p)" and "ctl_deleted (tp_ctl p) = 0"
  using assms by (cases "tp_ctl p"; auto simp: tp_ok_def)+

context exit_signals begin

lemma step_ok:
  assumes "tp_step results once post p p'" and ok: "tp_ok okay signals p" and "\<forall>res\<in>results. creates_ok res"
  shows "tp_ok okay signals p'"
proof -
  have parts: "tp_lists p" "tp_objects p" using ok by (simp_all add: tp_ok_def)
  have okay: "okay (ctl_left (tp_ctl p)) (tp_src p)" using ok by (simp add: tp_ok_def)
  from assms(1) show ?thesis
  proof cases
    case (spawn cnt n res ret q)
    with assms(3) have "creates_ok res" by blast
    with spawn spawn_cases [OF this spawn(5)] spawn_parts [OF parts this spawn(5)] show ?thesis
      using ok by (auto simp: tp_ok_def)
  next
    case (post k n n' s')
    then show ?thesis using ok post_law [of n "tp_src p" n' s'] by (auto simp: tp_ok_def tp_parts_same)
  next
    case (run_again t s')
    then show ?thesis using ok once_law [OF okay run_again(3)] by (auto simp: tp_ok_def tp_parts_same)
  next
    case (run_ends t s')
    have "ctl_counts (tp_ctl p) (length (tp_dead p))" using ok by (simp add: tp_ok_def)
    with once_law [OF okay run_ends(3)] run_ends run_ends_parts [OF parts run_ends(2), of s'] ok show ?thesis
      by (auto simp: tp_ok_def)
  next
    case (destroy t)
    have "ctl_deleted (tp_ctl p) \<le> length (tp_dead p)" by (rule ctl_deleted_le) (use ok in \<open>simp add: tp_ok_def\<close>)
    note d = destroy_parts [OF parts destroy(2) this]
    have l: "t \<in> set (tp_live p)" using tp_ok_sets [OF ok] destroy(2) by simp
    show ?thesis using d ok exiting_stopping [OF ok destroy(2)] length_remove1_mem [OF l] length_remove1_mem [OF destroy(2)]
      unfolding destroy(1) by (cases "tp_ctl p") (auto simp: tp_ok_def ThreadPool_DestroyThread_def)
  next
    case (tail t)
    then show ?thesis using ok tail_parts [OF parts tail(2)] by (simp add: tp_ok_def)
  next
    case (returns t)
    then show ?thesis using ok returns_parts [OF parts returns(2)] by (simp add: tp_ok_def)
  next
    case (waited k)
    then show ?thesis using ok waited_dead [OF ok waited(2,3)] by (auto simp: tp_ok_def tp_parts_same)
  next
    case (join k i w t r th)
    then show ?thesis using ok join_parts [OF parts join(2,3) join(5) [unfolded join(4)]] by (cases r) (auto simp: tp_ok_def)
  next
    case (clear k i)
    then show ?thesis using ok clear_parts [of p] by (auto simp: tp_ok_def)
  qed (use ok in \<open>auto simp: tp_ok_def tp_parts_same\<close>)
qed

lemma stop_ok:
  "tp_ok okay signals p \<Longrightarrow> tp_ctl p = Idle \<Longrightarrow> tp_ok okay signals (ThreadPool_Stop cnt p)"
  using begin_law by (auto simp: tp_ok_def ThreadPool_Stop_def Let_def tp_parts_same)

lemma start_ok:
  "tp_ok okay signals p \<Longrightarrow> tp_ctl p = Idle \<Longrightarrow> tp_ok okay signals (ThreadPool_Start cnt p)"
  using stop_ok [of p "length (tp_live p) - cnt"]
  by (simp add: ThreadPool_Start_def Let_def) (auto simp: tp_ok_def tp_parts_same)

lemma reachable_ok:
  assumes "tp_reachable results once post arrive s0 p" and "okay 0 s0" and "signals s0 = 0" and "\<forall>res\<in>results. creates_ok res"
  shows "tp_ok okay signals p"
  using assms(1)
proof induction
  case new
  then show ?case using assms(2,3) by (rule tp_ok_new)
next
  case (step p p')
  then show ?case using step_ok assms(4) by blast
next
  case (arrives p s')
  then show ?case using arrive_law [of "tp_src p" s'] by (auto simp: tp_ok_def tp_parts_same)
qed (use stop_ok start_ok in blast)+

lemma step_frame:
  assumes "tp_step results once post p p'" and ok: "tp_ok okay signals p" and "stop_frame k p0 p"
  shows "stop_frame k p0 p'"
  using assms(1)
proof cases
  case (destroy t)
  have "t \<in> set (tp_live p)" using tp_ok_sets [OF ok] destroy(2) by simp
  then have m: "add_mset t (mset (tp_live p) - {#t#} + ms) = mset (tp_live p) + ms" for ms
    by (metis in_multiset_in_set insert_DiffM union_mset_add_mset_left)
  show ?thesis using assms(3) destroy m [of "mset (tp_dead p)"] exiting_stopping [OF ok destroy(2)]
    by (simp add: stop_frame_def ThreadPool_DestroyThread_def)
next
  case (waited n)
  then show ?thesis using assms(3) by (simp add: stop_frame_def)
next
  case (join n i w t r th)
  then show ?thesis using assms(3) by (cases r) (auto simp: stop_frame_def take_Suc_conv_app_nth)
next
  case (clear n i)
  then have "length (tp_dead p) = n" using ok by (simp add: tp_ok_def)
  then show ?thesis using assms(3) clear by (auto simp: stop_frame_def)
next
  case (run_ends t s')
  then show ?thesis using assms(3) by (auto simp: stop_frame_def)
qed (use assms(3) in \<open>auto simp: stop_frame_def\<close>)

lemma run_frame:
  assumes "(tp_step results once post)\<^sup>*\<^sup>* (ThreadPool_Stop cnt p0) p" and "tp_ok okay signals p0" and "tp_ctl p0 = Idle"
    and "cnt \<noteq> 0" and "\<forall>res\<in>results. creates_ok res"
  shows "tp_ok okay signals p \<and> stop_frame (min cnt (length (tp_live p0))) p0 p"
  using assms(1)
proof induction
  case base
  have "tp_dead p0 = []" using assms(2,3) by (auto simp: tp_ok_def)
  then have "stop_frame (min cnt (length (tp_live p0))) p0 (ThreadPool_Stop cnt p0)"
    using assms(4) by (simp add: stop_frame_def ThreadPool_Stop_def Let_def)
  then show ?case using stop_ok [OF assms(2,3)] by blast
next
  case (step p p')
  then show ?case using step_ok [OF step(2) _ assms(5)] step_frame [OF step(2)] by blast
qed

end

locale exit_progress = exit_signals +
  fixes calm :: "'s \<Rightarrow> bool"
    and load :: "'s \<Rightarrow> nat"
  assumes post_calm: "okay n s \<Longrightarrow> 0 < n \<Longrightarrow> calm s \<Longrightarrow> post n s = Some (n', s') \<Longrightarrow> calm s' \<and> n' < n \<and> load s' = load s"
    and once_calm: "okay n s \<Longrightarrow> calm s \<Longrightarrow> once s = Some (b, s') \<Longrightarrow> calm s' \<and> load s' + (if b then 1 else 0) \<le> load s"
    and once_ready: "okay n s \<Longrightarrow> calm s \<Longrightarrow> 0 < signals s \<Longrightarrow> once s \<noteq> None"
    and post_ready: "okay n s \<Longrightarrow> calm s \<Longrightarrow> 0 < n \<Longrightarrow> post n s = None \<Longrightarrow> once s \<noteq> None"
begin

lemma step_measure:
  assumes "tp_step results once post p p'" and "tp_ok okay signals p" and "calm (tp_src p)"
    and "\<forall>res\<in>results. creates_ok res"
  shows "calm (tp_src p') \<and> tp_measure signals load p' < tp_measure signals load p"
  using assms(1)
proof cases
  case (spawn cnt n res ret q)
  with assms(4) have "creates_ok res" by blast
  from spawn_cases [OF this spawn(5)] show ?thesis
    using assms(3) spawn by (auto simp: tp_measure_def)
next
  case (post k n n' s')
  then have "okay n (tp_src p)" using assms(2) by (simp add: tp_ok_def)
  from post_law [OF this post(3,4)] post_calm [OF this post(3) assms(3) post(4)] show ?thesis
    using post by (simp add: tp_measure_def)
next
  case (run_again t s')
  have "okay (ctl_left (tp_ctl p)) (tp_src p)" using assms(2) by (simp add: tp_ok_def)
  from once_law [OF this run_again(3)] once_calm [OF this assms(3) run_again(3)] show ?thesis
    using run_again by (simp add: tp_measure_def)
next
  case (run_ends t s')
  have "okay (ctl_left (tp_ctl p)) (tp_src p)" using assms(2) by (simp add: tp_ok_def)
  from once_law [OF this run_ends(3)] once_calm [OF this assms(3) run_ends(3)] show ?thesis
    using run_ends by (simp add: tp_measure_def)
next
  case (destroy t)
  then show ?thesis using assms(3) length_remove1_mem [OF destroy(2)]
    by (simp add: tp_measure_def ThreadPool_DestroyThread_def)
next
  case (tail t)
  then show ?thesis using assms(3) length_remove1_mem [OF tail(2)] by (simp add: tp_measure_def)
next
  case (returns t)
  then show ?thesis using assms(3) length_remove1_mem [OF returns(2)] by (simp add: tp_measure_def)
next
  case (join k i w t r th)
  then have "i < k" using assms(2) by (simp add: tp_ok_def)
  then show ?thesis using assms(3) join by (auto simp: tp_measure_def Thread_Join_def split: if_splits)
qed (use assms(3) in \<open>auto simp: tp_measure_def\<close>)

lemma runs_bounded:
  assumes "(tp_step results once post ^^ n) p p'" and "tp_ok okay signals p" and "calm (tp_src p)"
    and "\<forall>res\<in>results. creates_ok res"
  shows "tp_ok okay signals p' \<and> calm (tp_src p') \<and> n + tp_measure signals load p' \<le> tp_measure signals load p"
  using assms(1)
proof (induction n arbitrary: p')
  case 0
  then show ?case using assms(2,3) by simp
next
  case (Suc n)
  then obtain q where q: "(tp_step results once post ^^ n) p q" "tp_step results once post q p'" by auto
  from Suc.IH [OF q(1)] step_ok [OF q(2) _ assms(4)] step_measure [OF q(2) _ _ assms(4)] show ?case by force
qed

lemma stop_progress_quiet:
  assumes "tp_ok okay signals p" and "calm (tp_src p)" and "ctl_stopping (tp_ctl p)"
    and Nil: "tp_exiting p = []" and "tp_leaving p = []" and "tp_returning p = []"
  shows "\<exists>p'. tp_step results once post p p'"
proof -
  have okay: "okay (ctl_left (tp_ctl p)) (tp_src p)" using assms(1) by (simp add: tp_ok_def)
  have len: "length (tp_live p) = length (tp_running p)"
    using assms(1) Nil by (metis tp_ok_def tp_lists_def size_mset mset.simps(1) add.right_neutral)
  have worker: "\<exists>p'. tp_step results once post p p'" if "tp_running p \<noteq> []" "once (tp_src p) \<noteq> None"
  proof -
    from that(1) have t: "hd (tp_running p) \<in> set (tp_running p)" by simp
    from that(2) obtain b s' where "once (tp_src p) = Some (b, s')" by auto
    then show ?thesis using tp_step.run_again [where once = once and results = results and post = post, OF t]
        tp_step.run_ends [where once = once and results = results and post = post, OF t] by (cases b) auto
  qed
  show ?thesis
  proof (cases "tp_ctl p")
    case (Stopping k n)
    show ?thesis
    proof (cases n)
      case 0
      then show ?thesis using Stopping tp_step.posted by blast
    next
      case (Suc m)
      have "tp_running p \<noteq> []" using assms(1) len Nil Stopping Suc by (auto simp: tp_ok_def)
      then show ?thesis using Stopping Suc okay worker post_ready [of n "tp_src p"] assms(2) tp_step.post [OF Stopping]
        by (cases "post n (tp_src p)") fastforce+
    qed
  next
    case (Waiting k)
    show ?thesis
    proof (cases "signals (tp_src p)")
      case 0
      then show ?thesis using assms(1) Nil Waiting tp_step.waited [OF Waiting] by (auto simp: tp_ok_def)
    next
      case (Suc m)
      then have "tp_running p \<noteq> []" using assms(1) len Nil Waiting by (auto simp: tp_ok_def)
      then show ?thesis using worker once_ready [OF okay assms(2)] Suc by simp
    qed
  next
    case (Joining k i w)
    have c: "length (tp_dead p) = k" "w \<longrightarrow> i < k" using assms(1) Joining by (simp_all add: tp_ok_def)
    show ?thesis
    proof (cases "i < k")
      case True
      let ?t = "tp_dead p ! i"
      have lists: "tp_lists p" and objects: "tp_objects p" using assms(1) by (simp_all add: tp_ok_def)
      have "?t \<in> set (drop i (tp_dead p))" using True c(1) by (auto simp: in_set_conv_nth intro!: exI [of _ 0])
      then have "?t \<notin> set (tp_live p)" using lists Joining by (auto simp: tp_lists_def)
      then have "\<not> th_runs (tp_threads p ?t)" using objects tp_lists_sets [OF lists] assms(4-6) by (auto simp: tp_objects_def)
      then obtain r th where "Thread_Join w (tp_threads p ?t) = Some (r, th)" by (cases w) (simp_all add: Thread_Join_def)
      from tp_step.join [OF Joining _ refl this] True c(1) show ?thesis by blast
    next
      case False
      then show ?thesis using c tp_step.clear [of p k i] Joining by auto
    qed
  qed (use assms(3) in simp_all)
qed

text \<open>While \<open>Stop\<close> has not returned, some step is possible.\<close>

lemma stop_progress:
  assumes "tp_ok okay signals p" and "calm (tp_src p)" and "ctl_stopping (tp_ctl p)"
  shows "\<exists>p'. tp_step results once post p p'"
proof -
  consider "tp_exiting p \<noteq> []" | "tp_leaving p \<noteq> []" | "tp_returning p \<noteq> []"
    | "tp_exiting p = []" "tp_leaving p = []" "tp_returning p = []" by blast
  then show ?thesis
  proof cases
    case 1
    then show ?thesis using hd_in_set tp_step.destroy by blast
  next
    case 2
    then show ?thesis using hd_in_set tp_step.tail by blast
  next
    case 3
    then show ?thesis using hd_in_set tp_step.returns by blast
  next
    case 4
    then show ?thesis by (rule stop_progress_quiet [OF assms])
  qed
qed

end

end
