(* ===== verification/WorkThreadPoolProps.thy ===== *)
theory WorkThreadPoolProps
  imports WorkThreadPool ThreadPoolProps QueueProps
begin

text \<open>
  The two thread pools of the code keep the contracts of \<open>ThreadPoolProps\<close>; what a worker thread does with an
  entry of its queue; and what \<open>Stop\<close> does to the threads.
\<close>

section \<open>The pool of the base class\<close>

definition counter_okay :: "nat \<Rightarrow> nat \<Rightarrow> bool" where
  "counter_okay n stopcount \<longleftrightarrow> n = 0 \<or> stopcount = 0"

interpretation counter: exit_progress ThreadPool_RunOnce ThreadPool_StopThreads "\<lambda>_ _. False" counter_okay "\<lambda>s. s"
    "\<lambda>_. True" "\<lambda>_. 0"
  by unfold_locales (auto simp: counter_okay_def ThreadPool_RunOnce_def ThreadPool_StopThreads_def split: if_splits)

section \<open>The worker threads\<close>

definition worker_okay :: "nat \<Rightarrow> 'addr worker \<Rightarrow> bool" where
  "worker_okay n w \<longleftrightarrow> sq_wf (wp_recvqueue w) \<and> 0 < sq_limit (wp_recvqueue w)"

definition worker_nulls :: "'addr worker \<Rightarrow> nat" where
  "worker_nulls w = length (filter (\<lambda>v. v = None) (sq_queue (wp_recvqueue w)))"

definition worker_load :: "'addr worker \<Rightarrow> nat" where
  "worker_load w = length (filter (\<lambda>v. v \<noteq> None) (sq_queue (wp_recvqueue w)))"

text \<open>No package in the queue has a processor.\<close>

definition worker_calm :: "'addr worker \<Rightarrow> bool" where
  "worker_calm w \<longleftrightarrow> (\<forall>x. Some x \<in> set (sq_queue (wp_recvqueue w)) \<longrightarrow>
     (ucast (pk_processorid (so_pkgs (wp_objs w) x)) :: u32) \<notin> set (wp_processors w))"

lemma pop_block:
  "Queue_Pop True q [] = (if sq_queue q = [] then None
     else Some (0, Some (hd (sq_queue q)), q\<lparr>sq_queue := tl (sq_queue q), sq_count := sq_count q - 1\<rparr>))"
  by (simp add: Queue_Pop_def)

lemma so_Destroy_pkgs [simp]: "so_pkgs (so_Destroy x so) = so_pkgs so"
  by (simp add: so_Destroy_def split: prod.splits)

text \<open>\<open>RunOnce\<close> by the entry at the front of the queue.\<close>

lemma runonce_empty: "sq_queue (wp_recvqueue w) = [] \<Longrightarrow> WorkThreadPool_RunOnce w = None"
  by (simp add: WorkThreadPool_RunOnce_def pop_block)

lemma runonce_Cons:
  assumes "sq_queue (wp_recvqueue w) = v # vs"
  defines "w1 \<equiv> w\<lparr>wp_recvqueue := (wp_recvqueue w)\<lparr>sq_queue := vs, sq_count := sq_count (wp_recvqueue w) - 1\<rparr>\<rparr>"
  shows "WorkThreadPool_RunOnce w = Some (case v of
      None \<Rightarrow> Inr (False, w1)
    | Some x \<Rightarrow> if (ucast (pk_processorid (so_pkgs (wp_objs w) x)) :: u32) \<in> set (wp_processors w) then Inl NullDeref
        else Inr (True, wp_destroy x w1))"
  using assms
  by (simp add: WorkThreadPool_RunOnce_def pop_block WorkThreadPool_ProcessProtocol_def WorkThreadPool_CreateDataBlock_def
      Let_def split: option.splits)

lemma worker_once_cases:
  assumes "worker_once w = Some (b, w')"
  obtains v vs where "sq_queue (wp_recvqueue w) = v # vs" "b = (v \<noteq> None)" "wp_processors w' = wp_processors w"
    "so_pkgs (wp_objs w') = so_pkgs (wp_objs w)"
    "wp_recvqueue w' = (wp_recvqueue w)\<lparr>sq_queue := vs, sq_count := sq_count (wp_recvqueue w) - 1\<rparr>"
proof (cases "sq_queue (wp_recvqueue w)")
  case Nil
  then show thesis using assms by (simp add: worker_once_def runonce_empty)
next
  case (Cons v vs)
  show thesis using assms that [OF Cons] unfolding worker_once_def runonce_Cons [OF Cons]
    by (cases v) (auto simp: wp_destroy_def split: if_splits)
qed

lemma worker_once_calm:
  assumes "worker_calm w" and "sq_queue (wp_recvqueue w) \<noteq> []"
  shows "worker_once w \<noteq> None"
proof -
  from assms(2) obtain v vs where q: "sq_queue (wp_recvqueue w) = v # vs" by (cases "sq_queue (wp_recvqueue w)") auto
  then show ?thesis using assms(1) unfolding worker_once_def runonce_Cons [OF q]
    by (cases v) (auto simp: worker_calm_def)
qed

lemma push_None:
  "WorkThreadPool_StopThreads n w = (let q = wp_recvqueue w in
     if sq_count q \<ge> sq_limit q then None
     else Some (n - 1, w\<lparr>wp_recvqueue := q\<lparr>sq_queue := None # sq_queue q, sq_count := sq_count q + 1,
       sq_notified := (if sq_notify q then sq_notified q + 1 else sq_notified q)\<rparr>\<rparr>))"
  by (simp add: WorkThreadPool_StopThreads_def Queue_Push_def SyncStack_PushImp_def Let_def)

lemma arrive_cases:
  assumes "package_arrives w w'"
  obtains "wp_recvqueue w' = wp_recvqueue w"
  | x where "sq_queue (wp_recvqueue w') = Some x # sq_queue (wp_recvqueue w)"
      "sq_count (wp_recvqueue w') = sq_count (wp_recvqueue w) + 1" "sq_limit (wp_recvqueue w') = sq_limit (wp_recvqueue w)"
proof -
  from assms obtain x so r removed q where
    "Queue_Push SyncStack_PushImp (Some x) False True (wp_recvqueue w) = Inr (r, removed, q)"
    "w' = w\<lparr>wp_recvqueue := q, wp_objs := so\<rparr>" unfolding package_arrives_def by blast
  then show thesis using that(1) that(2) [of x]
    by (cases "sq_count (wp_recvqueue w) \<ge> sq_limit (wp_recvqueue w)")
      (auto simp: Queue_Push_def SyncStack_PushImp_def Let_def split: if_splits)
qed

interpretation workers: exit_progress worker_once WorkThreadPool_StopThreads package_arrives worker_okay worker_nulls
    worker_calm worker_load
proof unfold_locales
  fix n n' :: nat and s s' :: "'a worker" and b
  show "worker_okay n s \<Longrightarrow> 0 < n \<Longrightarrow> WorkThreadPool_StopThreads n s = Some (n', s')
      \<Longrightarrow> worker_okay n' s' \<and> worker_nulls s' + n' = worker_nulls s + n"
    by (auto simp: push_None worker_okay_def sq_wf_def worker_nulls_def Let_def split: if_splits)
  show "worker_okay n s \<Longrightarrow> worker_once s = Some (b, s')
      \<Longrightarrow> worker_okay n s' \<and> worker_nulls s = worker_nulls s' + (if b then 0 else 1)"
    by (erule worker_once_cases) (auto simp: worker_okay_def sq_wf_def worker_nulls_def)
  show "worker_okay 0 s \<Longrightarrow> package_arrives s s' \<Longrightarrow> worker_okay 0 s' \<and> worker_nulls s' = worker_nulls s"
    by (erule arrive_cases) (auto simp: worker_okay_def sq_wf_def worker_nulls_def)
  show "worker_okay 0 s \<Longrightarrow> worker_nulls s = 0 \<Longrightarrow> worker_okay n s"
    by (simp add: worker_okay_def)
  show "worker_okay n s \<Longrightarrow> 0 < n \<Longrightarrow> worker_calm s \<Longrightarrow> WorkThreadPool_StopThreads n s = Some (n', s')
      \<Longrightarrow> worker_calm s' \<and> n' < n \<and> worker_load s' = worker_load s"
    by (auto simp: push_None worker_calm_def worker_load_def Let_def split: if_splits)
  show "worker_okay n s \<Longrightarrow> worker_calm s \<Longrightarrow> worker_once s = Some (b, s')
      \<Longrightarrow> worker_calm s' \<and> worker_load s' + (if b then 1 else 0) \<le> worker_load s"
    by (erule worker_once_cases) (auto simp: worker_calm_def worker_load_def)
  show "worker_okay n s \<Longrightarrow> worker_calm s \<Longrightarrow> 0 < worker_nulls s \<Longrightarrow> worker_once s \<noteq> None"
    by (rule worker_once_calm) (auto simp: worker_nulls_def)
  show "worker_okay n s \<Longrightarrow> worker_calm s \<Longrightarrow> 0 < n \<Longrightarrow> WorkThreadPool_StopThreads n s = None \<Longrightarrow> worker_once s \<noteq> None"
    by (rule worker_once_calm) (auto simp: push_None worker_okay_def sq_wf_def Let_def split: if_splits)
qed

section \<open>What a worker does\<close>

text \<open>C36. A worker thread does nothing useful with a package: the entry at the front ends the thread if it is null;
  a package whose processor is registered (its id taken modulo 2^32) makes \<open>RunOnce\<close> use the null pointer
  that \<open>CreateDataBlock\<close> returns; any other package is destroyed without an answer, and nothing else changes.\<close>

theorem worker_runonce_exact:
  assumes "sq_queue (wp_recvqueue w) = v # vs"
  shows "WorkThreadPool_RunOnce w = Some (let w1 = w\<lparr>wp_recvqueue := (wp_recvqueue w)\<lparr>sq_queue := vs,
        sq_count := sq_count (wp_recvqueue w) - 1\<rparr>\<rparr> in
      case v of
        None \<Rightarrow> Inr (False, w1)
      | Some x \<Rightarrow> if unat (pk_processorid (so_pkgs (wp_objs w) x)) mod 2 ^ 32 \<in> unat ` set (wp_processors w) then Inl NullDeref
          else Inr (True, w1\<lparr>wp_objs := so_Destroy x (wp_objs w)\<rparr>))"
proof -
  have "(ucast i :: u32) \<in> S \<longleftrightarrow> unat i mod 2 ^ 32 \<in> unat ` S" for i :: u64 and S
  proof -
    have "unat (ucast i :: u32) = unat i mod 2 ^ 32" by (simp add: unsigned_ucast_eq take_bit_eq_mod)
    then have "unat i mod 2 ^ 32 \<in> unat ` S \<longleftrightarrow> unat (ucast i :: u32) \<in> unat ` S" by simp
    also have "\<dots> \<longleftrightarrow> (ucast i :: u32) \<in> S" by (rule inj_image_mem_iff) (auto intro!: injI dest: unsigned_word_eqI)
    finally show ?thesis by simp
  qed
  then show ?thesis unfolding runonce_Cons [OF assms]
    by (cases v) (simp_all add: wp_destroy_def Let_def)
qed

definition worker_example :: "obj option list \<Rightarrow> unit worker" where
  "worker_example vs = \<lparr>wp_recvqueue = \<lparr>sq_queue = vs, sq_limit = DEFAULT_LIMIT, sq_count = of_nat (length vs),
       sq_notify = False, sq_notified = 0\<rparr>, wp_sendqueue = SyncQueue_new DEFAULT_LIMIT, wp_processors = [2],
     wp_errorcb = True, wp_fullcalls = 0,
     wp_objs = \<lparr>so_queue = SyncQueue_new DEFAULT_LIMIT,
       so_pool = \<lparr>pl_curr = 1, pl_max = 1, pl_inc = 0, pl_objects = [], pl_chunks = [1]\<rparr>,
       so_pkgs = (\<lambda>x. (Package_new ())\<lparr>pk_processorid := 2 ^ 32 + 2\<rparr>),
       so_callbacks = (\<lambda>_. ManagerCallback), so_fullcalls = 0\<rparr>\<rparr>"

theorem worker_runonce_exact_witness:
  "WorkThreadPool_RunOnce (worker_example [Some (0, 0)]) = Some (Inl NullDeref)"
  using worker_runonce_exact [of "worker_example [Some (0, 0)]" "Some (0, 0)" "[]"]
  by (simp add: worker_example_def Package_new_def)

section \<open>Stopping threads\<close>

lemma nulls_zero: "worker_nulls w = 0 \<longleftrightarrow> None \<notin> set (sq_queue (wp_recvqueue w))"
  unfolding worker_nulls_def length_0_conv filter_empty_conv by metis

lemma workers_start_ok:
  assumes "tp_reachable results worker_once WorkThreadPool_StopThreads package_arrives w0 p"
    and "wp_recvqueue w0 = SyncQueue_new limit" and "0 < limit" and "\<forall>res\<in>results. creates_ok res"
  shows "tp_ok worker_okay worker_nulls p"
  using workers.reachable_ok [OF assms(1)] assms(2-4)
  by (simp add: worker_okay_def worker_nulls_def SyncQueue_new_def sq_wf_def)

definition create_good :: thread_results where
  "create_good = \<lparr>tr_init = 0, tr_detach = 0, tr_create = 0\<rparr>"

definition one_worker :: "unit worker thread_pool" where
  "one_worker = \<lparr>tp_live = [0], tp_dead = [], tp_running = [0], tp_exiting = [], tp_leaving = [], tp_returning = [],
     tp_joined = [], tp_next = 1, tp_threads = (\<lambda>_. Thread_new)(0 := \<lparr>th_alive = True, th_runs = True\<rparr>),
     tp_ctl = Idle, tp_src = worker_example []\<rparr>"

lemma worker_example_queue: "wp_recvqueue (worker_example []) = SyncQueue_new DEFAULT_LIMIT" "0 < DEFAULT_LIMIT"
  by (simp_all add: worker_example_def SyncQueue_new_def DEFAULT_LIMIT_def)

lemma create_good_ok: "\<forall>res\<in>{create_good}. creates_ok res" "creates_ok create_good"
  by (simp_all add: creates_ok_def create_good_def)

text \<open>A pool after \<open>Start (1)\<close>.\<close>

lemma one_worker_reachable:
  "tp_reachable {create_good} worker_once WorkThreadPool_StopThreads package_arrives (worker_example []) one_worker"
proof -
  let ?s = "worker_example []" and ?R = "tp_reachable {create_good} worker_once WorkThreadPool_StopThreads package_arrives (worker_example [])"
  let ?p0 = "ThreadPool_Start 1 (ThreadPool_new ?s)"
  have r0: "?R ?p0" by (rule tp_reachable.call_start [OF tp_reachable.new]) (simp add: ThreadPool_new_def)
  have c: "tp_ctl ?p0 = Starting 1 0" by (simp add: ThreadPool_Start_def ThreadPool_new_def)
  have sp: "ThreadPool_spawn create_good ?p0 = (0, snd (ThreadPool_spawn create_good ?p0))"
    by (simp add: ThreadPool_spawn_def Thread_Start_def Thread_new_def create_good_def Let_def)
  let ?p1 = "(snd (ThreadPool_spawn create_good ?p0))\<lparr>tp_ctl := Starting 1 1\<rparr>"
  have r1: "?R ?p1"
    using tp_reachable.step [OF r0 tp_step.spawn [OF c _ _ sp]] by simp
  have c1: "tp_ctl ?p1 = Starting 1 1" by simp
  have "?R (?p1\<lparr>tp_ctl := Idle\<rparr>)" using tp_reachable.step [OF r1 tp_step.started [OF c1]] by simp
  moreover have "?p1\<lparr>tp_ctl := Idle\<rparr> = one_worker"
    by (simp add: one_worker_def ThreadPool_spawn_def Thread_Start_def Thread_new_def create_good_def ThreadPool_Start_def
        ThreadPool_new_def Let_def)
  ultimately show ?thesis by simp
qed

text \<open>The pool of one thread after \<open>Stop (1)\<close>.\<close>

definition no_workers :: "unit worker thread_pool" where
  "no_workers = \<lparr>tp_live = [], tp_dead = [], tp_running = [], tp_exiting = [], tp_leaving = [], tp_returning = [],
     tp_joined = [0], tp_next = 1, tp_threads = (\<lambda>_. Thread_new)(0 := \<lparr>th_alive = False, th_runs = False\<rparr>),
     tp_ctl = Idle, tp_src = worker_example []\<rparr>"

lemma stop_run:
  "(tp_step {create_good} worker_once WorkThreadPool_StopThreads)\<^sup>*\<^sup>* (ThreadPool_Stop 1 one_worker) no_workers"
proof -
  let ?T = "tp_step {create_good} worker_once WorkThreadPool_StopThreads"
  let ?p = "\<lambda>live running exiting leaving returning dead joined th c vs. \<lparr>tp_live = live, tp_dead = dead, tp_running = running,
     tp_exiting = exiting, tp_leaving = leaving, tp_returning = returning, tp_joined = joined, tp_next = 1,
     tp_threads = (\<lambda>_. Thread_new)(0 := th), tp_ctl = c, tp_src = worker_example vs\<rparr>"
  let ?a = "\<lparr>th_alive = True, th_runs = True\<rparr>" and ?b = "\<lparr>th_alive = False, th_runs = True\<rparr>"
    and ?c = "\<lparr>th_alive = False, th_runs = False\<rparr>"
  have 0: "ThreadPool_Stop 1 one_worker = ?p [0] [0] [] [] [] [] [] ?a (Stopping 1 1) []"
    by (simp add: ThreadPool_Stop_def one_worker_def)
  have 1: "?T (?p [0] [0] [] [] [] [] [] ?a (Stopping 1 1) []) (?p [0] [0] [] [] [] [] [] ?a (Stopping 1 0) [None])"
    using tp_step.post [where p = "?p [0] [0] [] [] [] [] [] ?a (Stopping 1 1) []" and k = 1 and n = 1 and n' = 0
        and s' = "worker_example [None]" and post = WorkThreadPool_StopThreads]
    by (simp add: push_None worker_example_def DEFAULT_LIMIT_def)
  have 2: "?T (?p [0] [0] [] [] [] [] [] ?a (Stopping 1 0) [None]) (?p [0] [0] [] [] [] [] [] ?a (Waiting 1) [None])"
    using tp_step.posted [where p = "?p [0] [0] [] [] [] [] [] ?a (Stopping 1 0) [None]" and k = 1] by simp
  have "worker_once (worker_example [None]) = Some (False, worker_example [])"
    unfolding worker_once_def by (subst runonce_Cons [of _ None "[]"]) (simp_all add: worker_example_def)
  then have 3: "?T (?p [0] [0] [] [] [] [] [] ?a (Waiting 1) [None]) (?p [0] [] [0] [] [] [] [] ?a (Waiting 1) [])"
    using tp_step.run_ends [where p = "?p [0] [0] [] [] [] [] [] ?a (Waiting 1) [None]" and t = 0 and s' = "worker_example []"
        and once = worker_once] by simp
  have 4: "?T (?p [0] [] [0] [] [] [] [] ?a (Waiting 1) []) (?p [] [] [] [0] [] [0] [] ?a (Waiting 1) [])"
    using tp_step.destroy [where p = "?p [0] [] [0] [] [] [] [] ?a (Waiting 1) []" and t = 0]
    by (simp add: ThreadPool_DestroyThread_def)
  have 5: "?T (?p [] [] [] [0] [] [0] [] ?a (Waiting 1) []) (?p [] [] [] [0] [] [0] [] ?a (Joining 1 0 False) [])"
    using tp_step.waited [where p = "?p [] [] [] [0] [] [0] [] ?a (Waiting 1) []" and k = 1] by simp
  have 6: "?T (?p [] [] [] [0] [] [0] [] ?a (Joining 1 0 False) []) (?p [] [] [] [0] [] [0] [] ?a (Joining 1 0 True) [])"
    using tp_step.join [where p = "?p [] [] [] [0] [] [0] [] ?a (Joining 1 0 False) []" and k = 1 and i = 0 and w = False
        and r = False and th = ?a and t = 0]
    by (simp add: Thread_Join_def)
  have 7: "?T (?p [] [] [] [0] [] [0] [] ?a (Joining 1 0 True) []) (?p [] [] [] [] [0] [0] [] ?b (Joining 1 0 True) [])"
    using tp_step.tail [where p = "?p [] [] [] [0] [] [0] [] ?a (Joining 1 0 True) []" and t = 0] by (simp add: Thread_tail_def)
  have 8: "?T (?p [] [] [] [] [0] [0] [] ?b (Joining 1 0 True) []) (?p [] [] [] [] [] [0] [] ?c (Joining 1 0 True) [])"
    using tp_step.returns [where p = "?p [] [] [] [] [0] [0] [] ?b (Joining 1 0 True) []" and t = 0]
    by (simp add: Thread_returned_def)
  have 9: "?T (?p [] [] [] [] [] [0] [] ?c (Joining 1 0 True) []) (?p [] [] [] [] [] [0] [0] ?c (Joining 1 1 False) [])"
    using tp_step.join [where p = "?p [] [] [] [] [] [0] [] ?c (Joining 1 0 True) []" and k = 1 and i = 0 and w = True
        and r = True and th = ?c and t = 0]
    by (simp add: Thread_Join_def Thread_delete_def Thread_Stop_def)
  have 10: "?T (?p [] [] [] [] [] [0] [0] ?c (Joining 1 1 False) []) no_workers"
    using tp_step.clear [where p = "?p [] [] [] [] [] [0] [0] ?c (Joining 1 1 False) []" and k = 1 and i = 1]
    by (simp add: no_workers_def)
  note go = converse_rtranclp_into_rtranclp [where r = ?T]
  show ?thesis unfolding 0
    by (rule go [OF 1], rule go [OF 2], rule go [OF 3], rule go [OF 4], rule go [OF 5], rule go [OF 6], rule go [OF 7],
        rule go [OF 8], rule go [OF 9], rule r_into_rtranclp [where r = ?T, OF 10])
qed

lemma reachable_steps:
  "(tp_step results once post)\<^sup>*\<^sup>* p p' \<Longrightarrow> tp_reachable results once post arrive s0 p
    \<Longrightarrow> tp_reachable results once post arrive s0 p'"
  by (induction rule: rtranclp_induct) (auto intro: tp_reachable.step)

lemma no_workers_reachable:
  "tp_reachable {create_good} worker_once WorkThreadPool_StopThreads package_arrives (worker_example []) no_workers"
  by (rule reachable_steps [OF stop_run tp_reachable.call_stop [OF one_worker_reachable]]) (simp add: one_worker_def)

text \<open>C16. In every state of the worker threads, with any packages arriving and any calls of \<open>Start\<close> and \<open>Stop\<close>
  one after another: the live threads are those in the loop or on their way to \<open>DestroyThread\<close>, no thread is deleted twice or
  while it is live, and \<open>Stop\<close> does not delete a thread before its last use of its object: a thread that has still to write
  \<open>alive\<close> is not deleted, \<open>Join\<close> waiting for it, and a deleted thread that has not ended does nothing but return.
  Whenever no \<open>Stop\<close> is going on, no thread is leaving, so that the unlocked \<open>push_back\<close> of \<open>Start\<close> is alone with the list,
  every dead thread is deleted, and no signal is left for a later thread.\<close>

theorem threadpool_invariant:
  assumes "tp_reachable results worker_once WorkThreadPool_StopThreads package_arrives w0 p"
    and "wp_recvqueue w0 = SyncQueue_new limit" and "0 < limit" and "\<forall>res\<in>results. creates_ok res"
  shows "set (tp_live p) = set (tp_running p) \<union> set (tp_exiting p)
    \<and> distinct (tp_live p @ drop (ctl_deleted (tp_ctl p)) (tp_dead p) @ tp_joined p)
    \<and> set (tp_joined p) \<inter> (set (tp_running p) \<union> set (tp_exiting p) \<union> set (tp_leaving p)) = {}
    \<and> (\<forall>t\<in>set (tp_joined p). th_runs (tp_threads p t) \<longrightarrow> t \<in> set (tp_returning p))
    \<and> (\<not> ctl_stopping (tp_ctl p) \<longrightarrow> tp_exiting p = [] \<and> tp_leaving p = [] \<and> tp_dead p = []
         \<and> None \<notin> set (sq_queue (wp_recvqueue (tp_src p))))"
proof -
  have inv: "tp_ok worker_okay worker_nulls p" by (rule workers_start_ok [OF assms])
  have d: "distinct (tp_live p @ drop (ctl_deleted (tp_ctl p)) (tp_dead p) @ tp_joined p)"
    "set (tp_leaving p) \<subseteq> set (drop (ctl_deleted (tp_ctl p)) (tp_dead p))"
    "\<forall>t. th_runs (tp_threads p t) \<longrightarrow> t \<in> set (tp_running p @ tp_exiting p @ tp_leaving p @ tp_returning p)"
    using inv unfolding tp_ok_def tp_lists_def tp_objects_def by blast+
  have z: "ctl_left (tp_ctl p) + worker_nulls (tp_src p) + length (tp_exiting p) + length (tp_dead p) = ctl_stops (tp_ctl p)"
    using inv unfolding tp_ok_def by blast
  have idle: "tp_exiting p = [] \<and> tp_dead p = [] \<and> None \<notin> set (sq_queue (wp_recvqueue (tp_src p)))"
    if "\<not> ctl_stopping (tp_ctl p)"
    using z that nulls_zero [of "tp_src p"] by (cases "tp_ctl p") auto
  have disjoint: "set (tp_joined p) \<inter> (set (tp_running p) \<union> set (tp_exiting p) \<union> set (tp_leaving p)) = {}"
    using tp_ok_sets [OF inv] d(1,2) by auto
  have "tp_leaving p = []" if "\<not> ctl_stopping (tp_ctl p)" using idle [OF that] d(2) by simp
  with tp_ok_sets [OF inv] d(1,3) disjoint idle show ?thesis by (auto simp only: set_append Un_iff disjoint_iff)
qed

theorem threadpool_invariant_witness:
  "tp_joined no_workers = [0] \<and> \<not> th_runs (tp_threads no_workers 0)
    \<and> set (tp_joined no_workers) \<inter> (set (tp_running no_workers) \<union> set (tp_exiting no_workers) \<union> set (tp_leaving no_workers)) = {}"
proof -
  have j: "tp_joined no_workers = [0]" "tp_returning no_workers = []" by (simp_all add: no_workers_def)
  note i = threadpool_invariant [OF no_workers_reachable worker_example_queue create_good_ok(1)]
  from i have "th_runs (tp_threads no_workers 0) \<longrightarrow> 0 \<in> set (tp_returning no_workers)" using j(1) by simp
  with i j show ?thesis by auto
qed

text \<open>C20. When \<open>Stop (count)\<close> has returned, it has joined and deleted exactly as many threads as it was asked to, or all
  of them, the rest is alive and runs, and no signal is left.\<close>

theorem threadpool_stop_exact:
  assumes "tp_reachable results worker_once WorkThreadPool_StopThreads package_arrives w0 p"
    and "wp_recvqueue w0 = SyncQueue_new limit" and "0 < limit" and "\<forall>res\<in>results. creates_ok res"
    and "tp_ctl p = Idle" and "cnt \<noteq> 0"
    and "(tp_step results worker_once WorkThreadPool_StopThreads)\<^sup>*\<^sup>* (ThreadPool_Stop cnt p) p'" and "tp_ctl p' = Idle"
  shows "(\<exists>ds. tp_joined p' = tp_joined p @ ds \<and> length ds = min cnt (length (tp_live p))
      \<and> mset (tp_live p') + mset ds = mset (tp_live p))
    \<and> length (tp_live p') = length (tp_live p) - cnt \<and> mset (tp_running p') = mset (tp_live p')
    \<and> None \<notin> set (sq_queue (wp_recvqueue (tp_src p')))"
proof -
  note inv = workers_start_ok [OF assms(1-4)]
  from workers.run_frame [OF assms(7) inv assms(5,6,4)] have
    i: "tp_ok worker_okay worker_nulls p'" "stop_frame (min cnt (length (tp_live p))) p p'" by simp_all
  from i(2) assms(8) obtain ds where ds: "tp_joined p' = tp_joined p @ ds" "length ds = min cnt (length (tp_live p))"
    "mset (tp_live p') + mset ds = mset (tp_live p)" by (auto simp: stop_frame_def)
  have "length (tp_live p') + length ds = length (tp_live p)" using ds(3) by (metis size_mset size_union)
  moreover have "worker_nulls (tp_src p') = 0" "tp_exiting p' = []" using i(1) assms(8) by (simp_all add: tp_ok_def)
  moreover have "mset (tp_live p') = mset (tp_running p') + mset (tp_exiting p')"
    using i(1) unfolding tp_ok_def tp_lists_def by blast
  ultimately show ?thesis using ds by (auto simp: nulls_zero)
qed

theorem threadpool_stop_exact_witness: "length (tp_live no_workers) = length (tp_live one_worker) - 1"
  using threadpool_stop_exact [OF one_worker_reachable worker_example_queue create_good_ok(1) _ _ stop_run]
  by (simp add: one_worker_def no_workers_def)

text \<open>C15. \<open>Stop\<close> returns: from its call, with any packages in the queue that have no processor, the pool can only make
  a bounded number of steps, and while \<open>Stop\<close> has not returned there is always a step it can make.\<close>

theorem threadpool_stop_terminates:
  assumes "tp_reachable results worker_once WorkThreadPool_StopThreads package_arrives w0 p"
    and "wp_recvqueue w0 = SyncQueue_new limit" and "0 < limit" and "\<forall>res\<in>results. creates_ok res"
    and "tp_ctl p = Idle" and "cnt \<noteq> 0" and "worker_calm (tp_src p)"
    and "(tp_step results worker_once WorkThreadPool_StopThreads ^^ n) (ThreadPool_Stop cnt p) p'"
  shows "n \<le> 7 * min cnt (length (tp_live p)) + 3 + length (tp_returning p) + length (sq_queue (wp_recvqueue (tp_src p)))
    \<and> (tp_ctl p' = Idle \<or> (\<exists>p''. tp_step results worker_once WorkThreadPool_StopThreads p' p''))"
proof -
  note inv = workers_start_ok [OF assms(1-4)]
  have ok: "tp_ok worker_okay worker_nulls (ThreadPool_Stop cnt p)" by (rule workers.stop_ok [OF inv assms(5)])
  have src: "tp_src (ThreadPool_Stop cnt p) = tp_src p" by (simp add: ThreadPool_Stop_def Let_def)
  have run: "tp_ok worker_okay worker_nulls p'" "worker_calm (tp_src p')"
    "n + tp_measure worker_nulls worker_load p' \<le> tp_measure worker_nulls worker_load (ThreadPool_Stop cnt p)"
    using workers.runs_bounded [OF assms(8) ok _ assms(4)] assms(7) src by simp_all
  have "worker_nulls (tp_src p) = 0" "tp_exiting p = []" "tp_leaving p = []"
    using inv assms(5) by (auto simp: tp_ok_def tp_lists_def)
  then have "tp_measure worker_nulls worker_load (ThreadPool_Stop cnt p)
      = 7 * min cnt (length (tp_live p)) + 3 + length (tp_returning p) + worker_load (tp_src p)"
    using assms(6) by (simp add: tp_measure_def ThreadPool_Stop_def Let_def)
  moreover have "worker_load (tp_src p) \<le> length (sq_queue (wp_recvqueue (tp_src p)))" by (simp add: worker_load_def)
  ultimately have bound: "n \<le> 7 * min cnt (length (tp_live p)) + 3 + length (tp_returning p) + length (sq_queue (wp_recvqueue (tp_src p)))"
    using run(3) by linarith
  have "(tp_step results worker_once WorkThreadPool_StopThreads)\<^sup>*\<^sup>* (ThreadPool_Stop cnt p) p'"
    using assms(8) by (rule relpowp_imp_rtranclp)
  from workers.run_frame [OF this inv assms(5,6,4)]
  have "ctl_stopping (tp_ctl p') \<or> tp_ctl p' = Idle" by (auto simp: stop_frame_def split: if_splits)
  then show ?thesis using bound workers.stop_progress [OF run(1,2)] by blast
qed

theorem threadpool_stop_terminates_witness:
  "\<exists>p''. tp_step {create_good} worker_once WorkThreadPool_StopThreads (ThreadPool_Stop 1 one_worker) p''"
proof -
  have r: "(tp_step {create_good} worker_once WorkThreadPool_StopThreads ^^ 0) (ThreadPool_Stop 1 one_worker)
      (ThreadPool_Stop 1 one_worker)" by simp
  have c: "tp_ctl one_worker = Idle" "(1 :: nat) \<noteq> 0" "worker_calm (tp_src one_worker)"
    by (simp_all add: one_worker_def worker_calm_def worker_example_def)
  from threadpool_stop_terminates [OF one_worker_reachable worker_example_queue create_good_ok(1) c r] show ?thesis
    by (simp add: ThreadPool_Stop_def one_worker_def)
qed

section \<open>A thread that was never made\<close>

text \<open>A live thread that does not run is never removed, so \<open>Stop\<close> of all threads waits for ever.\<close>

definition tp_ghost :: "nat \<Rightarrow> nat \<Rightarrow> 's thread_pool \<Rightarrow> bool" where
  "tp_ghost t k p \<longleftrightarrow> ctl_stopping (tp_ctl p) \<and> (\<forall>i w. tp_ctl p \<noteq> Joining k i w) \<and> ctl_stops (tp_ctl p) = k \<and> t \<in> set (tp_live p)
     \<and> length (tp_live p) + length (tp_dead p) = k
     \<and> distinct (tp_running p @ tp_exiting p) \<and> distinct (tp_live p)
     \<and> set (tp_running p @ tp_exiting p) \<subseteq> set (tp_live p) - {t}"

lemma ghost_step:
  assumes "tp_step results once post p p'" and "tp_ghost t k p"
  shows "tp_ghost t k p'"
  using assms(1)
proof cases
  case (destroy u)
  then have u: "u \<in> set (tp_live p)" "u \<noteq> t" "u \<notin> set (tp_running p)" using assms(2) by (auto simp: tp_ghost_def)
  then obtain a where "length (tp_live p) = Suc a" by (cases "tp_live p") auto
  then have "length (remove1 u (tp_live p)) + Suc (length (tp_dead p)) = k"
    using u assms(2) by (simp add: tp_ghost_def length_remove1)
  then show ?thesis using u assms(2) destroy
    by (auto simp: tp_ghost_def ThreadPool_DestroyThread_def set_remove1_eq)
next
  case (waited n)
  then have "tp_live p = []" using assms(2) by (cases "tp_live p") (auto simp: tp_ghost_def)
  then show ?thesis using assms(2) by (simp add: tp_ghost_def)
next
  case (run_ends u s')
  then show ?thesis using assms(2) by (auto simp: tp_ghost_def set_remove1_eq)
qed (use assms(2) in \<open>auto simp: tp_ghost_def\<close>)

lemma ghost_run: "(tp_step results once post)\<^sup>*\<^sup>* p p' \<Longrightarrow> tp_ghost t k p \<Longrightarrow> tp_ghost t k p'"
  by (induction rule: rtranclp_induct) (auto intro: ghost_step)

text \<open>C37. When \<open>pthread_create\<close> fails with an error number, \<open>Thread::Start\<close>, which compares it with -1, reports success
  and the pool counts a thread that does not exist. From then on \<open>StopAll\<close> never returns, whatever the other
  threads do.\<close>

theorem failed_create_hangs_stop:
  assumes "tp_reachable {good} worker_once WorkThreadPool_StopThreads package_arrives w0 p"
    and "wp_recvqueue w0 = SyncQueue_new limit" and "0 < limit" and "creates_ok good" and "tp_ctl p = Idle"
    and "tr_init res = 0" and "tr_detach res = 0" and "0 < tr_create res"
  shows "\<exists>p1. ThreadPool_spawn res p = (0, p1) \<and> tp_running p1 = tp_running p
    \<and> ThreadPool_GetThreadNum p1 = ThreadPool_GetThreadNum p + 1
    \<and> (\<forall>results p'. (tp_step results worker_once WorkThreadPool_StopThreads)\<^sup>*\<^sup>* (ThreadPool_StopAll p1) p' \<longrightarrow> tp_ctl p' \<noteq> Idle)"
proof -
  let ?p1 = "p\<lparr>tp_next := tp_next p + 1, tp_threads := (tp_threads p)(tp_next p := \<lparr>th_alive = True, th_runs = False\<rparr>),
     tp_live := tp_live p @ [tp_next p]\<rparr>"
  have inv: "tp_ok worker_okay worker_nulls p" using workers_start_ok [OF assms(1-3)] assms(4) by simp
  have sp: "ThreadPool_spawn res p = (0, ?p1)"
    using assms(6-8) by (simp add: ThreadPool_spawn_def Thread_Start_def Thread_new_def Let_def)
  have e: "tp_exiting p = []" "tp_dead p = []" using inv assms(5) by (simp_all add: tp_ok_def)
  have lt: "\<forall>t\<in>set (tp_live p). t < tp_next p" and d: "distinct (tp_live p)"
    using inv unfolding tp_ok_def tp_lists_def by auto
  have "mset (tp_running p) = mset (tp_live p)" using inv e(1) by (simp add: tp_ok_def tp_lists_def)
  then have run: "set (tp_running p) = set (tp_live p)" "distinct (tp_running p)"
    using d by (metis set_mset_mset, metis distinct_count_atmost_1 set_mset_mset)
  have "tp_ghost (tp_next p) (Suc (length (tp_live p))) (ThreadPool_StopAll ?p1)"
    using e lt d run by (auto simp: tp_ghost_def ThreadPool_StopAll_def ThreadPool_Stop_def Let_def)
  from ghost_run [OF _ this] show ?thesis using sp
    by (fastforce simp: ThreadPool_GetThreadNum_def tp_ghost_def)
qed

theorem failed_create_hangs_stop_witness:
  "\<exists>p1. ThreadPool_spawn \<lparr>tr_init = 0, tr_detach = 0, tr_create = 11\<rparr> one_worker = (0, p1) \<and> tp_running p1 = [0]
    \<and> ThreadPool_GetThreadNum p1 = 2"
  using failed_create_hangs_stop [OF one_worker_reachable worker_example_queue create_good_ok(2),
      of "\<lparr>tr_init = 0, tr_detach = 0, tr_create = 11\<rparr>"]
  by (auto simp: one_worker_def ThreadPool_GetThreadNum_def)

end
