(* ===== verification/PoolThreadsProps.thy ===== *)
theory PoolThreadsProps
  imports PoolThreads "HOL-Library.Multiset"
begin

text \<open>
  What the mutex of the pool is for: with a \<open>ThreadMutex\<close> every object is at one place in every interleaving of
  \<open>Create\<close> and \<open>Destroy\<close>; with the \<open>NullMutex\<close> that a pool has by default one \<open>Create\<close> beside one \<open>Destroy\<close>
  is enough to hand out an object that is still free.
\<close>

section \<open>The pool and the objects in use\<close>

definition pool_holds :: "ObjectPool \<Rightarrow> obj multiset \<Rightarrow> bool" where
  "pool_holds p M \<longleftrightarrow> pool_small p \<and> (\<exists>live. mset live = M \<and> pool_inv (p, live))"

lemma holds_pop:
  assumes "pool_holds p M" and "pl_objects p = x # xs"
  shows "pool_holds (p\<lparr>pl_objects := xs\<rparr>) (add_mset x M)"
proof -
  obtain live where l: "mset live = M" "pool_inv (p, live)" using assms(1) by (auto simp: pool_holds_def)
  have "pool_inv (p\<lparr>pl_objects := xs\<rparr>, x # live)"
    using take_inv [OF l(2), of x "p\<lparr>pl_objects := xs\<rparr>"] assms(2) by (simp add: ObjectPool_take_def)
  then show ?thesis using assms(1) l(1) by (auto simp: pool_holds_def pool_small_def intro!: exI [of _ "x # live"])
qed

lemma holds_push:
  assumes "pool_holds p (add_mset x M)"
  shows "pool_holds (p\<lparr>pl_objects := x # pl_objects p\<rparr>) M"
proof -
  obtain live where l: "mset live = add_mset x M" "pool_inv (p, live)" using assms by (auto simp: pool_holds_def)
  have x: "x \<in> set live" by (metis l(1) set_mset_mset union_single_eq_member)
  have "mset (remove1 x live) = M" using l(1) by simp
  with Destroy_inv [OF l(2) x] assms show ?thesis
    by (auto simp: pool_holds_def pool_small_def ObjectPool_Destroy_body_def intro!: exI [of _ "remove1 x live"])
qed

lemma holds_increase:
  assumes "pool_holds p M" and "ObjectPool_IncreaseObjects alc sz (pl_inc p) p = Inr (r, p')"
  shows "pool_holds p' M"
proof -
  obtain live where l: "mset live = M" "pool_inv (p, live)" "pool_small p" using assms(1) by (auto simp: pool_holds_def)
  from IncreaseObjects_inv [OF l(2) assms(2) small_sum [OF l(2,3)]] l show ?thesis
    by (auto simp: pool_holds_def pool_small_def)
qed

section \<open>The threads\<close>

definition pt_hands :: "pool_pc list \<Rightarrow> obj multiset" where
  "pt_hands cs = mset (concat (map pc_owns cs))"

lemma hands_update:
  "t < length cs \<Longrightarrow> pt_hands (cs[t := c]) + mset (pc_owns (cs ! t)) = pt_hands cs + mset (pc_owns c)"
proof (induction cs arbitrary: t)
  case (Cons d cs)
  then show ?case by (cases t) (auto simp: pt_hands_def ac_simps)
qed simp

lemma hands_same: "t < length cs \<Longrightarrow> pc_owns c = pc_owns (cs ! t) \<Longrightarrow> pt_hands (cs[t := c]) = pt_hands cs"
  using hands_update [of t cs c] by simp

lemma hands_gain: "t < length cs \<Longrightarrow> pc_owns (cs ! t) = [] \<Longrightarrow> pc_owns c = [x] \<Longrightarrow> pt_hands (cs[t := c]) = add_mset x (pt_hands cs)"
  using hands_update [of t cs c] by simp

lemma hands_lose: "t < length cs \<Longrightarrow> pc_owns (cs ! t) = [x] \<Longrightarrow> pc_owns c = [] \<Longrightarrow> pt_hands cs = add_mset x (pt_hands (cs[t := c]))"
  using hands_update [of t cs c] by simp

lemma pt_goto_sel [simp]:
  "pt_mutex (pt_goto t c s) = pt_mutex s" "pt_pool (pt_goto t c s) = pt_pool s" "pt_out (pt_goto t c s) = pt_out s"
  "pt_pc (pt_goto t c s) = (pt_pc s)[t := c]"
  by (simp_all add: pt_goto_def)

fun pc_guard :: "pool_pc \<Rightarrow> LockGuard option" where
  "pc_guard (CreateTest g) = Some g"
| "pc_guard (CreateIncrease g) = Some g"
| "pc_guard (CreateFront g) = Some g"
| "pc_guard (CreatePop g x) = Some g"
| "pc_guard (CreateReturn g r) = Some g"
| "pc_guard (DestroyPush g x) = Some g"
| "pc_guard (DestroyReturn g) = Some g"
| "pc_guard _ = None"

text \<open>
  The invariant of a pool with a \<open>ThreadMutex\<close>: a thread with a guard has the mutex, what a thread has read at \<open>begin\<close>
  is still the front, and the objects that are not free are in use or in the hands of a thread.
\<close>

definition pt_locked :: "pool_threads \<Rightarrow> bool" where
  "pt_locked s \<longleftrightarrow> (\<forall>t<length (pt_pc s). \<forall>g. pc_guard (pt_pc s ! t) = Some g \<longrightarrow> lg_acquired g \<and> pt_mutex s = Some t)"

definition pt_fronts :: "pool_threads \<Rightarrow> bool" where
  "pt_fronts s \<longleftrightarrow> (\<forall>t<length (pt_pc s). \<forall>g x. pt_pc s ! t = CreatePop g x \<longrightarrow> (\<exists>xs. pl_objects (pt_pool s) = x # xs))"

definition pt_inv :: "pool_threads \<Rightarrow> bool" where
  "pt_inv s \<longleftrightarrow> pt_locked s \<and> pt_fronts s \<and> pool_holds (pt_pool s) (mset (pt_out s) + pt_hands (pt_pc s))"

text \<open>What is left to show of a step of a thread that has the mutex: nobody else has a guard.\<close>

lemma locked_step:
  assumes "pt_locked s" and "t < length (pt_pc s)" and "pt_mutex s = Some t"
    and "pc_guard c = None \<or> (\<exists>g. pc_guard c = Some g \<and> lg_acquired g \<and> m = Some t)"
    and "pt_pc s' = (pt_pc s)[t := c]" and "pt_mutex s' = m"
    and "\<And>g x. c = CreatePop g x \<Longrightarrow> \<exists>xs. pl_objects (pt_pool s') = x # xs"
  shows "pt_locked s'" and "pt_fronts s'"
proof -
  have other: "pc_guard (pt_pc s ! u) = None" if "u < length (pt_pc s)" "u \<noteq> t" for u
    using assms(1,3) that unfolding pt_locked_def by (cases "pc_guard (pt_pc s ! u)") auto
  show "pt_locked s'" unfolding pt_locked_def
    using assms(2,4-6) other by (metis length_list_update nth_list_update_eq nth_list_update_neq option.distinct(1) option.inject)
  show "pt_fronts s'" unfolding pt_fronts_def
  proof (intro allI impI)
    fix u g x
    assume u: "u < length (pt_pc s')" "pt_pc s' ! u = CreatePop g x"
    show "\<exists>xs. pl_objects (pt_pool s') = x # xs"
      using assms(2,5,7) u other [of u] by (cases "u = t") auto
  qed
qed

text \<open>A step of a thread without a guard that leaves the pool alone, and the mutex too unless it takes it.\<close>

lemma unlocked_step:
  assumes "pt_locked s" and "pt_fronts s" and "t < length (pt_pc s)" and "pt_pc s' = (pt_pc s)[t := c]"
    and "pt_pool s' = pt_pool s" and "\<And>g x. c \<noteq> CreatePop g x"
    and "pt_mutex s' = pt_mutex s \<and> pc_guard c = None
      \<or> pt_mutex s = None \<and> pt_mutex s' = Some t \<and> (\<exists>g. pc_guard c = Some g \<and> lg_acquired g)"
  shows "pt_locked s'" and "pt_fronts s'"
proof -
  show "pt_fronts s'" using assms(2-6) unfolding pt_fronts_def by (metis length_list_update nth_list_update)
  show "pt_locked s'" using assms(1,3,4,7) unfolding pt_locked_def
    by (metis length_list_update nth_list_update option.distinct(1) option.inject)
qed

lemma thread_lock:
  "LockGuard_Lock ThreadMutex_Acquire t True LockGuard_new m = (case m of None \<Rightarrow> Some (0, \<lparr>lg_acquired = True\<rparr>, Some t) | Some _ \<Rightarrow> None)"
  by (simp add: LockGuard_Lock_def LockGuard_new_def ThreadMutex_Acquire_def pthread_mutex_lock_def split: option.split)

lemma thread_unlock: "lg_acquired g \<Longrightarrow> LockGuard_destroy ThreadMutex_Release t g (Some t) = None"
  by (simp add: LockGuard_destroy_def ThreadMutex_Release_def pthread_mutex_unlock_def)

abbreviation locked_steps where
  "locked_steps \<equiv> pt_step ThreadMutex_Acquire ThreadMutex_Release"

lemma thread_step_inv:
  assumes "ObjectPool_thread_step ThreadMutex_Acquire ThreadMutex_Release alc sz t s = Some s'" and "t < length (pt_pc s)"
    and "pt_inv s"
  shows "pt_inv s'"
proof -
  have inv: "pt_locked s" "pt_fronts s" "pool_holds (pt_pool s) (mset (pt_out s) + pt_hands (pt_pc s))"
    using assms(3) by (simp_all add: pt_inv_def)
  have has: "lg_acquired g \<and> pt_mutex s = Some t" if "pc_guard (pt_pc s ! t) = Some g" for g
    using inv(1) assms(2) that by (simp add: pt_locked_def)
  note step = assms(1) [unfolded ObjectPool_thread_step_def Let_def]
  note inside = locked_step [OF inv(1) assms(2)] and outside = unlocked_step [OF inv(1,2) assms(2)]
  show ?thesis
  proof (cases "pt_pc s ! t")
    case CreateLock
    then have m: "pt_mutex s = None" "s' = pt_goto t (CreateTest \<lparr>lg_acquired = True\<rparr>) (s\<lparr>pt_mutex := Some t\<rparr>)"
      using step by (auto simp: thread_lock split: option.splits)
    then show ?thesis using outside [of s' "CreateTest \<lparr>lg_acquired = True\<rparr>"] inv(3) CreateLock
      by (simp add: pt_inv_def hands_same [OF assms(2)])
  next
    case (CreateTest g)
    let ?c = "if pl_objects (pt_pool s) = [] then CreateIncrease g else CreateFront g"
    have "s' = pt_goto t ?c s" using step CreateTest by simp
    then show ?thesis using inside [of ?c "Some t" s'] has [of g] inv(3) CreateTest
      by (cases "pl_objects (pt_pool s) = []") (simp_all add: pt_inv_def hands_same [OF assms(2)])
  next
    case (CreateIncrease g)
    show ?thesis
    proof (cases "ObjectPool_IncreaseObjects alc sz (pl_inc (pt_pool s)) (pt_pool s)")
      case (Inl e)
      then have "s' = pt_goto t PoolFault s" using step CreateIncrease by simp
      then show ?thesis using inside [of PoolFault "Some t" s'] has [of g] inv(3) CreateIncrease
        by (simp add: pt_inv_def hands_same [OF assms(2)])
    next
      case (Inr rp)
      then obtain r p' where i: "ObjectPool_IncreaseObjects alc sz (pl_inc (pt_pool s)) (pt_pool s) = Inr (r, p')" by (cases rp) auto
      let ?c = "if r \<noteq> 0 then CreateReturn g None else CreateFront g"
      have "s' = pt_goto t ?c (s\<lparr>pt_pool := p'\<rparr>)" using step CreateIncrease i by simp
      then show ?thesis using inside [of ?c "Some t" s'] has [of g] holds_increase [OF inv(3) i] CreateIncrease
        by (cases "r = 0") (simp_all add: pt_inv_def hands_same [OF assms(2)])
    qed
  next
    case (CreateFront g)
    let ?c = "if pl_objects (pt_pool s) = [] then PoolFault else CreatePop g (hd (pl_objects (pt_pool s)))"
    have s': "s' = pt_goto t ?c s" using step CreateFront by simp
    then have "\<exists>xs. pl_objects (pt_pool s') = x # xs" if "?c = CreatePop h x" for h x
      using that by (cases "pl_objects (pt_pool s)") auto
    with s' show ?thesis using inside [of ?c "Some t" s'] has [of g] inv(3) CreateFront
      by (cases "pl_objects (pt_pool s)") (simp_all add: pt_inv_def hands_same [OF assms(2)])
  next
    case (CreatePop g x)
    obtain xs where xs: "pl_objects (pt_pool s) = x # xs" using inv(2) assms(2) CreatePop unfolding pt_fronts_def by blast
    then have "s' = pt_goto t (CreateReturn g (Some x)) (s\<lparr>pt_pool := (pt_pool s)\<lparr>pl_objects := xs\<rparr>\<rparr>)" using step CreatePop by simp
    then show ?thesis using inside [of "CreateReturn g (Some x)" "Some t" s'] has [of g] holds_pop [OF inv(3) xs] CreatePop
      by (simp add: pt_inv_def hands_gain [OF assms(2)])
  next
    case (CreateReturn g r)
    then have s': "s' = pt_goto t PoolIdle (s\<lparr>pt_mutex := None, pt_out := (case r of None \<Rightarrow> pt_out s | Some x \<Rightarrow> x # pt_out s)\<rparr>)"
      using step has [of g] by (simp add: thread_unlock)
    have "mset (pt_out s') + pt_hands (pt_pc s') = mset (pt_out s) + pt_hands (pt_pc s)"
      using s' CreateReturn hands_lose [OF assms(2), of _ PoolIdle] hands_same [OF assms(2), of PoolIdle] by (cases r) auto
    with s' show ?thesis using inside [of PoolIdle None s'] has [of g] inv(3) CreateReturn by (simp add: pt_inv_def)
  next
    case (DestroyLock x)
    then have m: "pt_mutex s = None" "s' = pt_goto t (DestroyPush \<lparr>lg_acquired = True\<rparr> x) (s\<lparr>pt_mutex := Some t\<rparr>)"
      using step by (auto simp: thread_lock split: option.splits)
    then show ?thesis using outside [of s' "DestroyPush \<lparr>lg_acquired = True\<rparr> x"] inv(3) DestroyLock
      by (simp add: pt_inv_def hands_same [OF assms(2)])
  next
    case (DestroyPush g x)
    have own: "pt_hands (pt_pc s) = add_mset x (pt_hands ((pt_pc s)[t := DestroyReturn g]))"
      by (rule hands_lose [OF assms(2)]) (simp_all add: DestroyPush)
    have s': "s' = pt_goto t (DestroyReturn g) (s\<lparr>pt_pool := (pt_pool s)\<lparr>pl_objects := x # pl_objects (pt_pool s)\<rparr>\<rparr>)"
      using step DestroyPush by simp
    have "pool_holds (pt_pool s') (mset (pt_out s') + pt_hands (pt_pc s'))"
      using holds_push [of "pt_pool s" x "mset (pt_out s) + pt_hands ((pt_pc s)[t := DestroyReturn g])"] inv(3) own s' by simp
    with s' show ?thesis using inside [of "DestroyReturn g" "Some t" s'] has [of g] DestroyPush by (simp add: pt_inv_def)
  next
    case (DestroyReturn g)
    then have "s' = pt_goto t PoolIdle (s\<lparr>pt_mutex := None\<rparr>)" using step has [of g] by (simp add: thread_unlock)
    then show ?thesis using inside [of PoolIdle None s'] has [of g] inv(3) DestroyReturn
      by (simp add: pt_inv_def hands_same [OF assms(2)])
  qed (use step in simp_all)
qed

lemma pt_step_inv:
  assumes "locked_steps alc sz s s'" and "pt_inv s"
  shows "pt_inv s'"
  using assms(1)
proof cases
  case (call_create t)
  then show ?thesis using assms(2) unlocked_step [of s t s' CreateLock]
    by (simp add: pt_inv_def hands_same [OF call_create(2)])
next
  case (call_destroy t x)
  have "mset (pt_out s) = add_mset x (mset (remove1 x (pt_out s)))" using call_destroy(4) by simp
  moreover have "pt_hands ((pt_pc s)[t := DestroyLock x]) = add_mset x (pt_hands (pt_pc s))"
    by (rule hands_gain [OF call_destroy(2)]) (simp_all add: call_destroy(3))
  ultimately show ?thesis using assms(2) unlocked_step [of s t s' "DestroyLock x"] call_destroy
    by (simp add: pt_inv_def)
next
  case (goes_on t)
  then show ?thesis using thread_step_inv assms(2) by blast
qed

lemma pt_start:
  assumes "ObjectPool_new alc sz ini mx inc = Inr p" and "unat ini < 2 ^ 63" and "unat mx < 2 ^ 63" and "unat inc < 2 ^ 63"
  shows "pt_inv (pt_new n p)"
proof -
  have "pt_hands (replicate n PoolIdle) = {#}" by (induction n) (simp_all add: pt_hands_def)
  then show ?thesis using pool_new_inv [OF assms]
    by (simp add: pt_inv_def pt_locked_def pt_fronts_def pt_new_def pool_holds_def)
qed

section \<open>Properties\<close>

text \<open>C5. A pool with a \<open>ThreadMutex\<close> can be used by any number of threads: in every interleaving of the list operations of
  their calls of \<open>Create\<close> and \<open>Destroy\<close>, each object that the pool has made is either free, or in use, or in the hands
  of exactly one thread that creates or destroys it, once, and no other object is anywhere; at most \<open>iMaxNum_\<close> objects are
  out; and only one thread at a time is between the lock and the end of a guard.\<close>

theorem pool_threads_one_place:
  assumes "ObjectPool_new alc sz ini mx inc = Inr p" and "unat ini < 2 ^ 63" and "unat mx < 2 ^ 63" and "unat inc < 2 ^ 63"
    and "(pt_step ThreadMutex_Acquire ThreadMutex_Release alc sz)\<^sup>*\<^sup>* (pt_new n p) s"
  shows "count (mset (pt_everywhere s)) x = (if x \<in> chunk_objs (pl_chunks (pt_pool s)) then 1 else 0)
    \<and> length (pt_out s) \<le> unat (pl_max (pt_pool s))
    \<and> (\<forall>t<length (pt_pc s). \<forall>u<length (pt_pc s). pc_guard (pt_pc s ! t) \<noteq> None \<and> pc_guard (pt_pc s ! u) \<noteq> None \<longrightarrow> t = u)"
proof -
  have inv: "pt_inv s" using assms(5)
    by (induction rule: rtranclp_induct) (use pt_start [OF assms(1-4)] pt_step_inv in blast)+
  then obtain live where live: "mset live = mset (pt_out s) + pt_hands (pt_pc s)" "pool_inv (pt_pool s, live)"
    by (auto simp: pt_inv_def pool_holds_def)
  let ?all = "pl_objects (pt_pool s) @ live"
  have all: "mset (pt_everywhere s) = mset ?all" using live(1) by (simp add: pt_everywhere_def pt_hands_def)
  have d: "distinct ?all" "set ?all = chunk_objs (pl_chunks (pt_pool s))" "pl_curr (pt_pool s) \<le> pl_max (pt_pool s)"
    "unat (pl_curr (pt_pool s)) = length (pl_objects (pt_pool s)) + length live"
    using live(2) by (simp_all add: pool_inv_def)
  have "count (mset (pt_everywhere s)) x = (if x \<in> chunk_objs (pl_chunks (pt_pool s)) then 1 else 0)"
    unfolding all using d(1,2) distinct_count_atmost_1 by metis
  moreover have "length live = length (pt_out s) + size (pt_hands (pt_pc s))" using arg_cong [OF live(1), of size] by simp
  with d(3,4) have "length (pt_out s) \<le> unat (pl_max (pt_pool s))" by (simp add: word_le_nat_alt)
  moreover have "\<forall>t<length (pt_pc s). \<forall>u<length (pt_pc s). pc_guard (pt_pc s ! t) \<noteq> None \<and> pc_guard (pt_pc s ! u) \<noteq> None \<longrightarrow> t = u"
    using inv unfolding pt_inv_def pt_locked_def by (metis option.exhaust option.inject)
  ultimately show ?thesis by blast
qed

theorem pool_threads_one_place_witness:
  "\<exists>p s. ObjectPool_new (\<lambda>_ _. True) 200 2 4 1 = Inr p
    \<and> pt_run ThreadMutex_Acquire ThreadMutex_Release (\<lambda>_ _. True) 200
        [(0, None), (1, None), (0, None), (0, None), (0, None), (0, None), (0, None), (1, None), (1, None), (1, None)] (pt_new 2 p) = Some s
    \<and> pt_out s = [(0, 0)] \<and> count (mset (pt_everywhere s)) (0, 1) = 1 \<and> count (mset (pt_everywhere s)) (0, 2) = 0"
proof -
  let ?p = "\<lparr>pl_curr = 2, pl_max = 4, pl_inc = 1, pl_objects = [(0, 0), (0, 1)], pl_chunks = [2]\<rparr>"
  let ?s = "\<lparr>pt_mutex = Some 1, pt_pool = ?p\<lparr>pl_objects := [(0, 1)]\<rparr>, pt_pc = [PoolIdle, CreatePop \<lparr>lg_acquired = True\<rparr> (0, 1)],
     pt_out = [(0, 0)]\<rparr>"
  have p: "ObjectPool_new (\<lambda>_ _. True) 200 2 4 1 = Inr ?p"
    by (simp add: ObjectPool_new_def ObjectPool_IncreaseObjects_def Let_def upt_rec)
  have r: "pt_run ThreadMutex_Acquire ThreadMutex_Release (\<lambda>_ _. True) 200
      [(0, None), (1, None), (0, None), (0, None), (0, None), (0, None), (0, None), (1, None), (1, None), (1, None)] (pt_new 2 ?p) = Some ?s"
    by (simp add: pt_new_def pt_goto_def ObjectPool_thread_step_def thread_lock thread_unlock numeral_2_eq_2 Let_def)
  have one: "count (mset (pt_everywhere ?s)) x = (if x \<in> chunk_objs [2] then 1 else 0)" for x
    using pool_threads_one_place [OF p _ _ _ pt_run_steps [OF r], THEN conjunct1, of x] by simp
  have "pt_out ?s = [(0, 0)]" "count (mset (pt_everywhere ?s)) (0, 1) = 1" "count (mset (pt_everywhere ?s)) (0, 2) = 0"
    unfolding one by (simp_all add: chunk_objs_def)
  with p r show ?thesis by blast
qed

text \<open>C25. A pool with the \<open>NullMutex\<close> of the default argument, as the pool of packages of the server is made, cannot be
  used by two threads: whenever one thread, as the reactor does, may call \<open>Create\<close> and another, as a worker does, may call
  \<open>Destroy\<close> of an object \<open>y\<close> in use, their list operations can interleave so that \<open>Create\<close> returns an object that stays in
  the list of the free ones, and \<open>y\<close> is lost; the next \<open>Create\<close> returns the same object again, so that it is in use twice.\<close>

theorem null_mutex_pool_races:
  assumes "t < length (pt_pc s)" and "u < length (pt_pc s)" and "t \<noteq> u" and "pt_pc s ! t = PoolIdle" and "pt_pc s ! u = PoolIdle"
    and "pl_objects (pt_pool s) = x # xs" and "y \<in> set (pt_out s)"
  shows "\<exists>s1 s2. (pt_step NullMutex_Acquire NullMutex_Release alc sz)\<^sup>*\<^sup>* s s1
    \<and> pl_objects (pt_pool s1) = x # xs \<and> pt_out s1 = x # remove1 y (pt_out s)
    \<and> add_mset y (mset (pt_everywhere s1)) = add_mset x (mset (pt_everywhere s))
    \<and> (pt_step NullMutex_Acquire NullMutex_Release alc sz)\<^sup>*\<^sup>* s1 s2 \<and> pt_out s2 = x # x # remove1 y (pt_out s)"
proof -
  let ?run = "pt_run NullMutex_Acquire NullMutex_Release alc sz"
  have lock: "LockGuard_Lock NullMutex_Acquire v True LockGuard_new m = Some (0, \<lparr>lg_acquired = True\<rparr>, m)" for v m
    by (simp add: LockGuard_Lock_def LockGuard_new_def NullMutex_Acquire_def)
  have unlock: "LockGuard_destroy NullMutex_Release v g m = m" for v g m
    by (simp add: LockGuard_destroy_def NullMutex_Release_def)
  have same: "(pt_pc s)[t := PoolIdle, u := PoolIdle] = pt_pc s" "(pt_pc s)[t := PoolIdle] = pt_pc s"
    "(pt_pc s)[u := PoolIdle, t := PoolIdle] = pt_pc s"
    using assms(4,5) by (metis list_update_id)+
  let ?e = "[(t, None), (t, None), (t, None), (t, None), (u, Some y), (u, None), (u, None), (t, None), (t, None), (u, None)]"
  let ?s1 = "s\<lparr>pt_out := x # remove1 y (pt_out s)\<rparr>"
  note run = ObjectPool_thread_step_def pt_goto_def lock unlock Let_def
  have "?run ?e s = Some ?s1"
    using assms same by (simp add: run list_update_swap [of u t])
  then have r1: "(pt_step NullMutex_Acquire NullMutex_Release alc sz)\<^sup>*\<^sup>* s ?s1" by (rule pt_run_steps)
  have "?run (replicate 6 (t, None)) ?s1 = Some (?s1\<lparr>pt_pool := (pt_pool s)\<lparr>pl_objects := xs\<rparr>, pt_out := x # x # remove1 y (pt_out s)\<rparr>)"
    using assms same by (simp add: run numeral_eq_Suc)
  then have r2: "(pt_step NullMutex_Acquire NullMutex_Release alc sz)\<^sup>*\<^sup>* ?s1
      (?s1\<lparr>pt_pool := (pt_pool s)\<lparr>pl_objects := xs\<rparr>, pt_out := x # x # remove1 y (pt_out s)\<rparr>)" by (rule pt_run_steps)
  have "add_mset y (mset (pt_everywhere ?s1)) = add_mset x (mset (pt_everywhere s))"
    using assms(7) by (simp add: pt_everywhere_def)
  with r1 r2 assms(6) show ?thesis by (intro exI [of _ ?s1] exI [of _ "?s1\<lparr>pt_pool := _, pt_out := _\<rparr>"]) auto
qed

text \<open>The server has created one package, and the next one is created while a worker destroys that one.\<close>

theorem null_mutex_pool_races_witness:
  "\<exists>p s s2. ServerApp_package_pool (\<lambda>_ _. True) 200 = Inr p
    \<and> pt_run NullMutex_Acquire NullMutex_Release (\<lambda>_ _. True) 200 (replicate 6 (0, None)) (pt_new 2 p) = Some s
    \<and> pt_out s = [(0, 0)] \<and> (pt_step NullMutex_Acquire NullMutex_Release (\<lambda>_ _. True) 200)\<^sup>*\<^sup>* s s2 \<and> pt_out s2 = [(0, 1), (0, 1)]"
proof -
  define xs where "xs = map (Pair (0 :: nat)) [2..<128]"
  let ?p = "\<lparr>pl_curr = 128, pl_max = 1000, pl_inc = 0, pl_objects = (0, 0) # (0, 1) # xs, pl_chunks = [128]\<rparr>"
  let ?s = "\<lparr>pt_mutex = None, pt_pool = ?p\<lparr>pl_objects := (0, 1) # xs\<rparr>, pt_pc = [PoolIdle, PoolIdle], pt_out = [(0, 0)]\<rparr>"
  have objs: "map (Pair 0) [0..<128] = (0 :: nat, 0) # (0, 1) # xs"
    unfolding xs_def by (subst upt_conv_Cons, simp, subst upt_conv_Cons [of "Suc 0"], simp, simp only: list.map One_nat_def numeral_2_eq_2)
  have p: "ServerApp_package_pool (\<lambda>_ _. True) 200 = Inr ?p"
    by (simp add: ServerApp_package_pool_def ObjectPool_new_def ObjectPool_IncreaseObjects_def objs Let_def del: upt_rec_numeral)
  have r: "pt_run NullMutex_Acquire NullMutex_Release (\<lambda>_ _. True) 200 (replicate 6 (0, None)) (pt_new 2 ?p) = Some ?s"
    by (simp add: pt_new_def pt_goto_def ObjectPool_thread_step_def LockGuard_Lock_def LockGuard_new_def NullMutex_Acquire_def
      LockGuard_destroy_def NullMutex_Release_def numeral_eq_Suc Let_def)
  from null_mutex_pool_races [of 0 ?s 1 "(0, 1)" xs "(0, 0)" "\<lambda>_ _. True" 200] obtain s1 s2 where
    "(pt_step NullMutex_Acquire NullMutex_Release (\<lambda>_ _. True) 200)\<^sup>*\<^sup>* ?s s1"
    "(pt_step NullMutex_Acquire NullMutex_Release (\<lambda>_ _. True) 200)\<^sup>*\<^sup>* s1 s2" "pt_out s2 = [(0, 1), (0, 1)]" by auto
  then have "(pt_step NullMutex_Acquire NullMutex_Release (\<lambda>_ _. True) 200)\<^sup>*\<^sup>* ?s s2" "pt_out s2 = [(0, 1), (0, 1)]"
    by (simp_all add: rtranclp_trans)
  with p r show ?thesis by (intro exI [of _ ?p] exI [of _ ?s] exI [of _ s2]) simp
qed

end
