(* ===== verification/ScopeGuard.thy ===== *)
theory ScopeGuard
  imports Acceptor Connector WorkThreadPool
begin

text \<open>
  \<open>utils/scopeguard.h\<close>: objects that call a function when they are destroyed, unless they have been dismissed. The
  other theories have the call of a guard on each path that leaves its scope; here the guards are objects, with the
  copies that a compiler makes of them, and the functions that use one are written as in the source. They are proved
  equal to the models of the other theories.
\<close>

section \<open>Guards\<close>

text \<open>
  \<open>sg_Execute\<close> is the captured call on a state: what it does and whether it throws. The classes differ only in what they
  capture: a function with up to five arguments, or a member function of an object with up to three.
\<close>

record 's ScopeGuard =
  sg_dismissed :: bool
  sg_Execute :: "'s \<Rightarrow> 's \<times> bool"

definition ScopeGuardImplBase :: "('s \<Rightarrow> 's \<times> bool) \<Rightarrow> 's ScopeGuard" where
  "ScopeGuardImplBase call = \<lparr>sg_dismissed = False, sg_Execute = call\<rparr>"

definition ScopeGuardImpl0 :: "('s \<Rightarrow> 's \<times> bool) \<Rightarrow> 's ScopeGuard" where
  "ScopeGuardImpl0 fn = ScopeGuardImplBase fn"

definition ScopeGuardImpl1 :: "('a \<Rightarrow> 's \<Rightarrow> 's \<times> bool) \<Rightarrow> 'a \<Rightarrow> 's ScopeGuard" where
  "ScopeGuardImpl1 fn p1 = ScopeGuardImplBase (fn p1)"

definition ScopeGuardImpl2 :: "('a \<Rightarrow> 'b \<Rightarrow> 's \<Rightarrow> 's \<times> bool) \<Rightarrow> 'a \<Rightarrow> 'b \<Rightarrow> 's ScopeGuard" where
  "ScopeGuardImpl2 fn p1 p2 = ScopeGuardImplBase (fn p1 p2)"

definition ScopeGuardImpl3 :: "('a \<Rightarrow> 'b \<Rightarrow> 'c \<Rightarrow> 's \<Rightarrow> 's \<times> bool) \<Rightarrow> 'a \<Rightarrow> 'b \<Rightarrow> 'c \<Rightarrow> 's ScopeGuard" where
  "ScopeGuardImpl3 fn p1 p2 p3 = ScopeGuardImplBase (fn p1 p2 p3)"

definition ScopeGuardImpl4 :: "('a \<Rightarrow> 'b \<Rightarrow> 'c \<Rightarrow> 'd \<Rightarrow> 's \<Rightarrow> 's \<times> bool) \<Rightarrow> 'a \<Rightarrow> 'b \<Rightarrow> 'c \<Rightarrow> 'd \<Rightarrow> 's ScopeGuard" where
  "ScopeGuardImpl4 fn p1 p2 p3 p4 = ScopeGuardImplBase (fn p1 p2 p3 p4)"

definition ScopeGuardImpl5 :: "('a \<Rightarrow> 'b \<Rightarrow> 'c \<Rightarrow> 'd \<Rightarrow> 'e \<Rightarrow> 's \<Rightarrow> 's \<times> bool) \<Rightarrow> 'a \<Rightarrow> 'b \<Rightarrow> 'c \<Rightarrow> 'd \<Rightarrow> 'e \<Rightarrow> 's ScopeGuard" where
  "ScopeGuardImpl5 fn p1 p2 p3 p4 p5 = ScopeGuardImplBase (fn p1 p2 p3 p4 p5)"

text \<open>An object is held by reference: its name, which the member function finds it by when the guard is destroyed.\<close>

definition ObjScopeGuardImpl0 :: "'o \<Rightarrow> ('o \<Rightarrow> 's \<Rightarrow> 's \<times> bool) \<Rightarrow> 's ScopeGuard" where
  "ObjScopeGuardImpl0 ob mf = ScopeGuardImplBase (mf ob)"

definition ObjScopeGuardImpl1 :: "'o \<Rightarrow> ('o \<Rightarrow> 'a \<Rightarrow> 's \<Rightarrow> 's \<times> bool) \<Rightarrow> 'a \<Rightarrow> 's ScopeGuard" where
  "ObjScopeGuardImpl1 ob mf p1 = ScopeGuardImplBase (mf ob p1)"

definition ObjScopeGuardImpl2 :: "'o \<Rightarrow> ('o \<Rightarrow> 'a \<Rightarrow> 'b \<Rightarrow> 's \<Rightarrow> 's \<times> bool) \<Rightarrow> 'a \<Rightarrow> 'b \<Rightarrow> 's ScopeGuard" where
  "ObjScopeGuardImpl2 ob mf p1 p2 = ScopeGuardImplBase (mf ob p1 p2)"

definition ObjScopeGuardImpl3 :: "'o \<Rightarrow> ('o \<Rightarrow> 'a \<Rightarrow> 'b \<Rightarrow> 'c \<Rightarrow> 's \<Rightarrow> 's \<times> bool) \<Rightarrow> 'a \<Rightarrow> 'b \<Rightarrow> 'c \<Rightarrow> 's ScopeGuard" where
  "ObjScopeGuardImpl3 ob mf p1 p2 p3 = ScopeGuardImplBase (mf ob p1 p2 p3)"

definition ScopeGuard_Dismiss :: "'s ScopeGuard \<Rightarrow> 's ScopeGuard" where
  "ScopeGuard_Dismiss g = g\<lparr>sg_dismissed := True\<rparr>"

text \<open>The copy constructor gives the copy and the dismissed original.\<close>

definition ScopeGuard_copy :: "'s ScopeGuard \<Rightarrow> 's ScopeGuard \<times> 's ScopeGuard" where
  "ScopeGuard_copy other = (\<lparr>sg_dismissed = sg_dismissed other, sg_Execute = sg_Execute other\<rparr>, ScopeGuard_Dismiss other)"

definition ScopeGuard_SafeExecute :: "'s ScopeGuard \<Rightarrow> 's \<Rightarrow> 's" where
  "ScopeGuard_SafeExecute j s = (if \<not> sg_dismissed j then fst (sg_Execute j s) else s)"

definition ScopeGuard_destroy :: "'s ScopeGuard \<Rightarrow> 's \<Rightarrow> 's" where
  "ScopeGuard_destroy g s = ScopeGuard_SafeExecute g s"

text \<open>
  \<open>MakeGuard\<close> returns by value through two functions: the guard that the reference is bound to is the last of \<open>n\<close> copies, each
  made before the one it is made from is destroyed. How many there are is up to the compiler.
\<close>

fun guard_copies :: "nat \<Rightarrow> 's ScopeGuard \<Rightarrow> 's \<Rightarrow> 's ScopeGuard \<times> 's" where
  "guard_copies 0 g s = (g, s)"
| "guard_copies (Suc n) g s = (case ScopeGuard_copy g of (g1, old) \<Rightarrow> guard_copies n g1 (ScopeGuard_destroy old s))"

text \<open>The scope of a guard: its body says whether it has called \<open>Dismiss\<close>.\<close>

definition guarded :: "nat \<Rightarrow> 's ScopeGuard \<Rightarrow> ('s \<Rightarrow> ('r \<times> bool \<times> 's) result) \<Rightarrow> 's \<Rightarrow> ('r \<times> 's) result" where
  "guarded n guard body s =
     (case guard_copies n guard s of (g, s0) \<Rightarrow>
        bindR (body s0) (\<lambda>(r, dismiss, s1).
          Inr (r, ScopeGuard_destroy (if dismiss then ScopeGuard_Dismiss g else g) s1)))"

text \<open>What a guard does does not depend on how often it is copied, and it is the call on the paths that do not dismiss it.\<close>

lemma guard_copies_same [simp]: "guard_copies n g s = (g, s)"
  by (induction n arbitrary: g s)
    (simp_all add: ScopeGuard_copy_def ScopeGuard_destroy_def ScopeGuard_SafeExecute_def ScopeGuard_Dismiss_def)

lemma guarded_eq:
  "guarded n (ScopeGuardImplBase f) body s
     = bindR (body s) (\<lambda>(r, dismiss, s1). Inr (r, if dismiss then s1 else fst (f s1)))"
  by (cases "body s")
    (auto simp: guarded_def ScopeGuardImplBase_def ScopeGuard_destroy_def ScopeGuard_SafeExecute_def ScopeGuard_Dismiss_def)

section \<open>The functions that use a guard, as written\<close>

text \<open>The number of copies is \<open>n\<close>; the body of a scope gives its result, whether it has dismissed the guard, and the state.\<close>

text \<open>\<open>RunOnce\<close> (\<open>utils/workthreadpool.cpp\<close>).\<close>

definition RunOnce_guarded :: "nat \<Rightarrow> 'addr worker \<Rightarrow> (bool \<times> 'addr worker) result option" where
  "RunOnce_guarded n w =
     (case Queue_Pop True (wp_recvqueue w) [] of
        None \<Rightarrow> None
      | Some (ret, v, q) \<Rightarrow> Some (
          let w1 = w\<lparr>wp_recvqueue := q\<rparr> in
          if ret \<noteq> 0 then Inl AssertFail
          else case v of
            None \<Rightarrow> Inl Uninit
          | Some None \<Rightarrow> Inr (False, w1)
          | Some (Some x) \<Rightarrow>
              guarded n (ObjScopeGuardImpl0 x (\<lambda>ob w. (wp_destroy ob w, False))) (\<lambda>w.
                let p = so_pkgs (wp_objs w) x in
                if (ucast (pk_processorid p) :: u32) \<notin> set (wp_processors w) then Inr (True, False, w)
                else bindR (WorkThreadPool_ProcessProtocol p) (\<lambda>good.
                  if \<not> good then Inr (True, False, w)
                  else bindR (Queue_Push SyncStack_PushImp x False True (wp_sendqueue w)) (\<lambda>(r, removed, sq).
                    if r \<noteq> 0 then Inr (True, False, if wp_errorcb w then w\<lparr>wp_fullcalls := wp_fullcalls w + 1\<rparr> else w)
                    else Inr (True, True, w\<lparr>wp_sendqueue := sq\<rparr>)))) w1))"

text \<open>\<open>HandleInput\<close> of the acceptor (\<open>nets/acceptor.cpp\<close>).\<close>

definition HandleInput_guarded :: "nat \<Rightarrow> resolver \<Rightarrow> (obj \<Rightarrow> handler_id) \<Rightarrow> chunk_alloc \<Rightarrow> u64 \<Rightarrow> (int \<times> sockaddr) option
    \<Rightarrow> bool \<Rightarrow> int \<Rightarrow> filter_acceptor \<Rightarrow> filter_acceptor result" where
  "HandleInput_guarded n rs hid alc sz acc mem add w =
     (case acc of
        None \<Rightarrow> Inr w
      | Some (fd, raw) \<Rightarrow>
          bindR (guarded n (ScopeGuardImpl1 (\<lambda>p1 w. (af_close p1 w, False)) fd) (\<lambda>w.
            bindR (remote_addr rs raw) (\<lambda>addr.
            if OnAccept addr w \<noteq> 0 then Inr ((), False, w)
            else bindR (CreateHandler hid alc sz addr w) (\<lambda>(m, w). case m of
              None \<Rightarrow> Inr ((), False, w)
            | Some x \<Rightarrow>
                let h = hid x;
                    w2 = w\<lparr>af_conns := (af_conns w)(h := (af_conns w h)\<lparr>ce_handle := fd\<rparr>),
                           af_reactor := (af_reactor w)\<lparr>le_handle := (le_handle (af_reactor w))(h := fd)\<rparr>\<rparr>
                in bindR (af_conn h (ConnectEventHandler_Open mem add h) w2) (\<lambda>(r, w3).
                     if r \<noteq> 0 then Inr ((), False, DestroyHandler hid x w3) else Inr ((), True, w3))))) w)
          (\<lambda>(u, w). Inr w))"

text \<open>\<open>Open\<close> and \<open>HandleOutput\<close> of the connector (\<open>nets/connector.cpp\<close>).\<close>

definition Open_guarded :: "nat \<Rightarrow> resolver \<Rightarrow> connect_results \<Rightarrow> handler_id \<Rightarrow> Connector \<Rightarrow> (int \<times> Connector) result" where
  "Open_guarded n rs res h c =
     (let (r, fd, k) = Socket_Create (cr_socket res) (cn_kernel c); c1 = c\<lparr>cn_connfd := fd, cn_kernel := k\<rparr> in
      if r \<noteq> 0 then Inr (- 1, c1)
      else guarded n (ObjScopeGuardImpl0 () (\<lambda>_ c. (connfd_Close c, False))) (\<lambda>c.
        let (r, k) = Socket_SetBlocking (cr_fcntl res) (cr_fcntl res) False (cn_connfd c) (cn_kernel c); c = c\<lparr>cn_kernel := k\<rparr> in
        if r \<noteq> 0 then Inr (- 1, False, c)
        else if SockAddr_GetFamily (cn_remote c) = AF_INET \<and> \<not> SockAddr_eq (cn_local c) (any_addr rs)
             \<and> Socket_Bind (cr_reuse res) (cr_bind res) (cn_connfd c) \<noteq> 0 then Inr (- 1, False, c)
        else if Socket_Connect_plain (cr_connect res) \<noteq> 0 \<and> cr_connect res \<noteq> InProgress then Inr (- 1, False, c)
        else if SockAddr_GetFamily (cn_remote c) = AF_INET \<and> Socket_SetDelay (cr_nodelay res) \<noteq> 0 then Inr (- 1, False, c)
        else let c = c\<lparr>cn_handle := cn_connfd c,
                       cn_reactor := (cn_reactor c)\<lparr>le_handle := (le_handle (cn_reactor c))(h := cn_connfd c)\<rparr>\<rparr> in
          bindR (LibEventReactor_RegisterHandler True (cr_register res) (cr_register res) WriteMask h (cn_time c) (cn_reactor c))
            (\<lambda>(ret, r). let c = c\<lparr>cn_reactor := r\<rparr> in if ret \<noteq> 0 then Inr (- 1, False, c) else Inr (0, True, c))) c1)"

definition HandleOutput_guarded :: "nat \<Rightarrow> resolver \<Rightarrow> int option \<Rightarrow> bool \<Rightarrow> sockaddr option \<Rightarrow> int \<Rightarrow> handler_id
    \<Rightarrow> Connector \<Rightarrow> Connector result" where
  "HandleOutput_guarded n rs err fcntl local on_connected h c =
     bindR (guarded n (ObjScopeGuardImpl0 h (\<lambda>ob c. (Connector_Close ob c, False))) (\<lambda>c.
       if err = None \<or> err \<noteq> Some 0 then Inr ((), False, Connector_OnError h c)
       else let (r, k) = Socket_SetBlocking fcntl fcntl True (cn_connfd c) (cn_kernel c); c = c\<lparr>cn_kernel := k\<rparr> in
       if r \<noteq> 0 then Inr ((), False, Connector_OnError h c)
       else bindR (if SockAddr_GetFamily (cn_remote c) = AF_LOCAL
                   then Inr (0, SockAddr_Assign_unix \<lparr>ua_sPath = []\<rparr>)
                   else if SockAddr_eq (cn_local c) (any_addr rs) then Socket_GetLocalAddr rs local (cn_local c)
                   else Inr (0, cn_local c)) (\<lambda>(r, addr).
            if r \<noteq> 0 then Inr ((), False, Connector_OnError h c)
            else let c = c\<lparr>cn_local := addr\<rparr>
                 in Inr ((), False, if on_connected = 0 then c\<lparr>cn_connfd := - 1\<rparr> else c))) c)
     (\<lambda>(u, c). Inr c)"

section \<open>They are the models\<close>

lemma RunOnce_guarded_eq: "RunOnce_guarded n w = WorkThreadPool_RunOnce w"
  unfolding RunOnce_guarded_def WorkThreadPool_RunOnce_def ObjScopeGuardImpl0_def guarded_eq
  by (auto simp: Let_def bindR_def split: option.splits sum.splits prod.splits)

lemma HandleInput_guarded_eq: "HandleInput_guarded n rs hid alc sz acc mem add w = Acceptor_HandleInput rs hid alc sz acc mem add w"
  unfolding HandleInput_guarded_def Acceptor_HandleInput_def ScopeGuardImpl1_def guarded_eq
  by (auto simp: Let_def bindR_def split: option.splits sum.splits prod.splits)

lemma Open_guarded_eq: "Open_guarded n rs res h c = Connector_Open rs res h c"
  unfolding Open_guarded_def Connector_Open_def ObjScopeGuardImpl0_def guarded_eq cn_fail_def
  by (auto simp: Let_def bindR_def split: sum.splits prod.splits)

lemma HandleOutput_guarded_eq:
  "HandleOutput_guarded n rs err fcntl local on_connected h c = Connector_HandleOutput rs err fcntl local on_connected h c"
  unfolding HandleOutput_guarded_def Connector_HandleOutput_def ObjScopeGuardImpl0_def guarded_eq
  by (auto simp: Let_def bindR_def split: sum.splits prod.splits)

text \<open>C24. Guards: the four functions that have a guard, written with the guard object, its copies and its destructor, are
  the functions of the other theories, which call the guarded function on each path by hand: the socket, the descriptor
  or the package is given up exactly once on every path that does not dismiss the guard, and is kept on the others,
  however many copies of the guard the compiler makes.\<close>
theorem guards_as_written:
  "(RunOnce_guarded n w = WorkThreadPool_RunOnce w)
   \<and> (HandleInput_guarded n rs hid alc sz acc mem add a = Acceptor_HandleInput rs hid alc sz acc mem add a)
   \<and> (Open_guarded n rs res h c = Connector_Open rs res h c)
   \<and> (HandleOutput_guarded n rs err fcntl local on_connected h c = Connector_HandleOutput rs err fcntl local on_connected h c)"
  by (simp add: RunOnce_guarded_eq HandleInput_guarded_eq Open_guarded_eq HandleOutput_guarded_eq)

end
