(* ===== verification/WorkThreadCache.thy ===== *)
theory WorkThreadCache
  imports PoolOwnership WorkThreadPool
begin

text \<open>
  The rest of \<open>utils/workthreadpool.cpp\<close>, which nothing calls at present: the destructors of the caches that a worker
  thread was to keep its streams and blocks in, over the heap of theory Ownership, and the functions whose bodies
  are comments.
\<close>

section \<open>The caches\<close>

text \<open>
  A list has a node for each element, a map a node for each key; nodes come from \<open>new\<close>, as do the list, the map
  and the elements. An element may be null, which \<open>delete\<close> leaves alone.
\<close>

record 'a std_list =
  sl_nodes :: "(nat \<times> 'a) list"

type_synonym stream_cache = "(nat \<times> int \<times> nat option std_list) list"

fun delete_all :: "nat option list \<Rightarrow> heap \<Rightarrow> heap result" where
  "delete_all [] h = Inr h"
| "delete_all (None # ps) h = delete_all ps h"
| "delete_all (Some p # ps) h = bindR (Deallocate UseNew p h) (delete_all ps)"

definition std_list_destroy :: "'a std_list \<Rightarrow> heap \<Rightarrow> heap result" where
  "std_list_destroy l h = release_chunks UseNew (map fst (sl_nodes l)) h"

fun cache_nodes_destroy :: "stream_cache \<Rightarrow> heap \<Rightarrow> heap result" where
  "cache_nodes_destroy [] h = Inr h"
| "cache_nodes_destroy ((q, protocol, l) # ms) h =
     bindR (std_list_destroy l h) (\<lambda>h1. bindR (Deallocate UseNew q h1) (cache_nodes_destroy ms))"

fun delete_streams :: "stream_cache \<Rightarrow> heap \<Rightarrow> heap result" where
  "delete_streams [] h = Inr h"
| "delete_streams ((q, protocol, l) # ms) h = bindR (delete_all (map snd (sl_nodes l)) h) (delete_streams ms)"

definition DeleteReadStreamCache :: "nat \<times> stream_cache \<Rightarrow> heap \<Rightarrow> heap result" where
  "DeleteReadStreamCache p h = (case p of (cache, ms) \<Rightarrow>
     bindR (delete_streams ms h) (\<lambda>h1. bindR (cache_nodes_destroy ms h1) (Deallocate UseNew cache)))"

definition DeleteWriteStreamCache :: "nat \<times> stream_cache \<Rightarrow> heap \<Rightarrow> heap result" where
  "DeleteWriteStreamCache p h = (case p of (cache, ms) \<Rightarrow>
     bindR (delete_streams ms h) (\<lambda>h1. bindR (cache_nodes_destroy ms h1) (Deallocate UseNew cache)))"

text \<open>A block is destroyed and its memory given back.\<close>

fun delete_blocks :: "(nat \<times> block) option list \<Rightarrow> heap \<Rightarrow> heap result" where
  "delete_blocks [] h = Inr h"
| "delete_blocks (None # ds) h = delete_blocks ds h"
| "delete_blocks (Some (q, b) # ds) h = bindR (Block_destroy b h) (\<lambda>h1. bindR (Deallocate UseNew q h1) (delete_blocks ds))"

definition DestroyDataBlockList :: "nat \<times> (nat \<times> block) option std_list \<Rightarrow> heap \<Rightarrow> heap result" where
  "DestroyDataBlockList p h = (case p of (lst, l) \<Rightarrow>
     bindR (delete_blocks (map snd (sl_nodes l)) h) (\<lambda>h1. bindR (std_list_destroy l h1) (Deallocate UseNew lst)))"

section \<open>What they give back\<close>

abbreviation new_mem :: "nat list \<Rightarrow> (nat \<times> allocator) multiset" where
  "new_mem ps \<equiv> mset (map (\<lambda>q. (q, UseNew)) ps)"

definition cache_mem :: "nat \<times> stream_cache \<Rightarrow> (nat \<times> allocator) multiset" where
  "cache_mem p = add_mset (fst p, UseNew) (new_mem (map fst (snd p)))
     + new_mem (concat (map (\<lambda>(q, protocol, l). map fst (sl_nodes l)) (snd p)))
     + new_mem (concat (map (\<lambda>(q, protocol, l). List.map_filter snd (sl_nodes l)) (snd p)))"

fun blocks_mem :: "(nat \<times> block) option list \<Rightarrow> (nat \<times> allocator) multiset" where
  "blocks_mem [] = {#}"
| "blocks_mem (None # ds) = blocks_mem ds"
| "blocks_mem (Some (q, b) # ds) = add_mset (q, UseNew) (mem_of b) + blocks_mem ds"

definition block_list_mem :: "nat \<times> (nat \<times> block) option std_list \<Rightarrow> (nat \<times> allocator) multiset" where
  "block_list_mem p = add_mset (fst p, UseNew) (new_mem (map fst (sl_nodes (snd p)))) + blocks_mem (map snd (sl_nodes (snd p)))"

lemma delete_all_ok:
  "heap_is h (new_mem (List.map_filter (\<lambda>p. p) ps) + M) \<Longrightarrow> \<exists>h'. delete_all ps h = Inr h' \<and> heap_is h' M"
proof (induction ps arbitrary: h)
  case (Cons p ps)
  show ?case
  proof (cases p)
    case (Some q)
    with Cons.prems have "heap_is h (add_mset (q, UseNew) (new_mem (List.map_filter (\<lambda>p. p) ps) + M))"
      by (simp add: List.map_filter_simps)
    from heap_is_dealloc [OF this] Cons.IH Some show ?thesis by fastforce
  qed (use Cons in \<open>simp add: List.map_filter_simps\<close>)
qed (simp add: List.map_filter_simps)

lemma map_filter_snd: "List.map_filter snd xs = List.map_filter (\<lambda>p. p) (map snd xs)"
  by (induction xs) (auto simp: List.map_filter_simps split: option.splits)

lemma delete_streams_ok:
  "heap_is h (new_mem (concat (map (\<lambda>(q, protocol, l). List.map_filter snd (sl_nodes l)) ms)) + M)
    \<Longrightarrow> \<exists>h'. delete_streams ms h = Inr h' \<and> heap_is h' M"
proof (induction ms arbitrary: h)
  case (Cons m ms)
  obtain q protocol l where m: "m = (q, protocol, l)" by (cases m)
  let ?R = "new_mem (concat (map (\<lambda>(q, protocol, l). List.map_filter snd (sl_nodes l)) ms)) + M"
  from Cons.prems m have "heap_is h (new_mem (List.map_filter (\<lambda>p. p) (map snd (sl_nodes l))) + ?R)"
    by (simp add: map_filter_snd ac_simps)
  from delete_all_ok [OF this] Cons.IH m show ?case by fastforce
qed simp

lemma cache_nodes_destroy_ok:
  "heap_is h (new_mem (map fst ms) + new_mem (concat (map (\<lambda>(q, protocol, l). map fst (sl_nodes l)) ms)) + M)
    \<Longrightarrow> \<exists>h'. cache_nodes_destroy ms h = Inr h' \<and> heap_is h' M"
proof (induction ms arbitrary: h)
  case (Cons m ms)
  obtain q protocol l where m: "m = (q, protocol, l)" by (cases m)
  let ?R = "new_mem (map fst ms) + new_mem (concat (map (\<lambda>(q, protocol, l). map fst (sl_nodes l)) ms)) + M"
  from Cons.prems m have "heap_is h (new_mem (map fst (sl_nodes l)) + add_mset (q, UseNew) ?R)"
    by (simp add: ac_simps)
  from release_chunks_ok [OF this] obtain h1 where h1: "std_list_destroy l h = Inr h1" "heap_is h1 (add_mset (q, UseNew) ?R)"
    by (auto simp: std_list_destroy_def)
  from heap_is_dealloc [OF h1(2)] obtain h2 where "Deallocate UseNew q h1 = Inr h2" "heap_is h2 ?R" by blast
  with Cons.IH [of h2] h1 m show ?case by simp
qed simp

text \<open>The caches give back exactly what they hold.\<close>

lemma DeleteReadStreamCache_ok:
  assumes "heap_is h (cache_mem p + M)"
  shows "\<exists>h'. DeleteReadStreamCache p h = Inr h' \<and> heap_is h' M"
proof -
  obtain cache ms where p: "p = (cache, ms)" by (cases p)
  let ?C = "add_mset (cache, UseNew) M"
  let ?N = "new_mem (map fst ms) + new_mem (concat (map (\<lambda>(q, protocol, l). map fst (sl_nodes l)) ms)) + ?C"
  from assms have "heap_is h (new_mem (concat (map (\<lambda>(q, protocol, l). List.map_filter snd (sl_nodes l)) ms)) + ?N)"
    by (simp add: cache_mem_def p ac_simps)
  from delete_streams_ok [OF this] obtain h1 where h1: "delete_streams ms h = Inr h1" "heap_is h1 ?N" by blast
  from cache_nodes_destroy_ok [OF h1(2)] obtain h2 where "cache_nodes_destroy ms h1 = Inr h2" "heap_is h2 ?C" by blast
  with heap_is_dealloc [of h2 cache UseNew M] h1 show ?thesis by (simp add: DeleteReadStreamCache_def p)
qed

lemma DeleteWriteStreamCache_ok:
  "heap_is h (cache_mem p + M) \<Longrightarrow> \<exists>h'. DeleteWriteStreamCache p h = Inr h' \<and> heap_is h' M"
  using DeleteReadStreamCache_ok [of h p M] by (simp add: DeleteReadStreamCache_def DeleteWriteStreamCache_def)

lemma delete_blocks_ok:
  "heap_is h (blocks_mem ds + M) \<Longrightarrow> \<exists>h'. delete_blocks ds h = Inr h' \<and> heap_is h' M"
proof (induction ds arbitrary: h rule: blocks_mem.induct)
  case (3 q b ds)
  have "heap_is h (mem_of b + add_mset (q, UseNew) (blocks_mem ds + M))" using "3.prems" by (simp add: ac_simps)
  from Block_destroy_ok [OF this] obtain h1 where
    h1: "Block_destroy b h = Inr h1" "heap_is h1 (add_mset (q, UseNew) (blocks_mem ds + M))" by blast
  from heap_is_dealloc [OF h1(2)] "3.IH" h1(1) show ?case by fastforce
qed auto

lemma DestroyDataBlockList_ok:
  assumes "heap_is h (block_list_mem p + M)"
  shows "\<exists>h'. DestroyDataBlockList p h = Inr h' \<and> heap_is h' M"
proof -
  obtain lst l where p: "p = (lst, l)" by (cases p)
  let ?C = "add_mset (lst, UseNew) M"
  from assms have "heap_is h (blocks_mem (map snd (sl_nodes l)) + (new_mem (map fst (sl_nodes l)) + ?C))"
    by (simp add: block_list_mem_def p ac_simps)
  from delete_blocks_ok [OF this] obtain h1 where
    h1: "delete_blocks (map snd (sl_nodes l)) h = Inr h1" "heap_is h1 (new_mem (map fst (sl_nodes l)) + ?C)" by blast
  from release_chunks_ok [OF h1(2)] obtain h2 where "std_list_destroy l h1 = Inr h2" "heap_is h2 ?C"
    by (auto simp: std_list_destroy_def)
  with heap_is_dealloc [of h2 lst UseNew M] h1 show ?thesis by (simp add: DestroyDataBlockList_def p)
qed

section \<open>The functions without a body\<close>

text \<open>The streams and blocks that are made are null, and those that are given back are left alone.\<close>

definition WorkThreadPool_CreateReadStream :: "int \<Rightarrow> byte list \<Rightarrow> u32 \<Rightarrow> nat option" where
  "WorkThreadPool_CreateReadStream protocol p len = None"

definition WorkThreadPool_CreateWriteStream :: "int \<Rightarrow> byte list \<Rightarrow> u32 \<Rightarrow> nat option" where
  "WorkThreadPool_CreateWriteStream protocol buf buflen = None"

definition GetProtocolMaxSize :: "int \<Rightarrow> u64 result" where
  "GetProtocolMaxSize protocol = Inl AssertFail"

text \<open>The line of the log reads the bytes of the package.\<close>

definition ProcessSerialnoPackage :: "'addr Package \<Rightarrow> bool result" where
  "ProcessSerialnoPackage p = bindR (Package_GetData p) (\<lambda>d. bindR (Package_GetDataLen p) (\<lambda>n. Inr True))"

text \<open>The constructor: the manager of packages and the allocator are asserted to be there.\<close>

definition WorkThreadPool_new :: "obj option SyncQueue \<Rightarrow> obj SyncQueue \<Rightarrow> u32 list \<Rightarrow> 'addr server_objs option \<Rightarrow> allocator option
    \<Rightarrow> 'addr worker result" where
  "WorkThreadPool_new packqueue resultqueue processors pPackageManager allocator =
     (case pPackageManager of
        None \<Rightarrow> Inl AssertFail
      | Some so \<Rightarrow> bindR (guardR AssertFail (allocator \<noteq> None)) (\<lambda>_.
          Inr \<lparr>wp_recvqueue = packqueue, wp_sendqueue = resultqueue, wp_processors = processors,
               wp_errorcb = False, wp_fullcalls = 0, wp_objs = so\<rparr>))"

definition WorkThreadPool_SetErrorCallback :: "bool \<Rightarrow> 'addr worker \<Rightarrow> 'addr worker" where
  "WorkThreadPool_SetErrorCallback ecb w = w\<lparr>wp_errorcb := ecb\<rparr>"

end
