(* ===== verification/SockAddrOrder.thy ===== *)
theory SockAddrOrder
  imports SockAddrProps Connector
begin

text \<open>
  The comparisons of \<open>nets/sockaddr.cpp\<close>: \<open>operator<\<close> is the order that the containers of the standard library need, with
  \<open>operator==\<close> as its equivalence, and two IPv4 addresses are equal when port and address are. The type of an address is
  an instance of the class of preorders with the operator of the source.
\<close>

section \<open>memcmp\<close>

lemma memcmp_irrefl [simp]: "\<not> memcmp_less xs xs"
  by (induction xs) auto

lemma memcmp_asym: "memcmp_less xs ys \<Longrightarrow> \<not> memcmp_less ys xs"
  by (induction xs ys rule: memcmp_less.induct) auto

lemma memcmp_total: "length xs = length ys \<Longrightarrow> memcmp_less xs ys \<or> xs = ys \<or> memcmp_less ys xs"
  by (induction xs ys rule: list_induct2) auto

lemma memcmp_trans: "memcmp_less xs ys \<Longrightarrow> memcmp_less ys zs \<Longrightarrow> memcmp_less xs zs"
proof (induction xs ys arbitrary: zs rule: memcmp_less.induct)
  case (1 a as b bs)
  then obtain c cs where "zs = c # cs" by (cases zs) auto
  with 1 show ?case by auto
qed auto

lemma raw_length [simp]: "length (raw_bytes a) = 112"
  by (cases a) auto

section \<open>The order of addresses\<close>

instantiation SockAddr_ext :: (type) preorder
begin

definition less_SockAddr_ext :: "'a SockAddr_scheme \<Rightarrow> 'a SockAddr_scheme \<Rightarrow> bool" where
  "less_SockAddr_ext a b = memcmp_less (raw_bytes (sa_stAddr a)) (raw_bytes (sa_stAddr b))"

definition less_eq_SockAddr_ext :: "'a SockAddr_scheme \<Rightarrow> 'a SockAddr_scheme \<Rightarrow> bool" where
  "less_eq_SockAddr_ext a b \<longleftrightarrow> \<not> memcmp_less (raw_bytes (sa_stAddr b)) (raw_bytes (sa_stAddr a))"

instance
proof
  fix a b c :: "'a SockAddr_scheme"
  let ?r = "\<lambda>x. raw_bytes (sa_stAddr x)"
  note d = less_SockAddr_ext_def less_eq_SockAddr_ext_def
  show "a < b \<longleftrightarrow> a \<le> b \<and> \<not> b \<le> a" unfolding d using memcmp_asym by blast
  show "a \<le> a" by (simp add: d)
  assume "a \<le> b" "b \<le> c"
  then show "a \<le> c"
    unfolding d using memcmp_total [of "?r a" "?r b"] memcmp_total [of "?r b" "?r c"] memcmp_trans memcmp_asym
    by (metis raw_length)
qed

end

lemma SockAddr_less_iff: "SockAddr_less a b \<longleftrightarrow> a < b"
  by (simp add: SockAddr_less_def less_SockAddr_ext_def)

text \<open>A container keyed by addresses takes two for the same when neither is less: those that \<open>==\<close> takes for the same.\<close>

lemma SockAddr_equivalence: "\<not> SockAddr_less a b \<and> \<not> SockAddr_less b a \<longleftrightarrow> SockAddr_eq a b"
  unfolding SockAddr_less_def SockAddr_eq_def
  using memcmp_total [of "raw_bytes (sa_stAddr a)" "raw_bytes (sa_stAddr b)"] by auto

section \<open>Equal addresses\<close>

lemma le_bytes_inj: "LENGTH('a) \<le> 8 * n \<Longrightarrow> le_bytes n v = le_bytes n w \<longleftrightarrow> v = (w :: 'a::len word)"
  by (metis le_word_le_bytes)

lemma bswap_inj: "bswap p = bswap q \<longleftrightarrow> p = (q :: u16)"
proof -
  have "bswap (bswap x) = x" for x :: u16 by (rule bswap_bswap [of 2]) simp
  then show ?thesis by metis
qed

lemma bswap_0: "bswap (0 :: u16) = 0"
proof -
  have "le_bytes 2 (0 :: u16) = replicate 2 0" by (simp add: le_bytes_def map_replicate_const)
  then show ?thesis using le_word_le_bytes [of 2 "0 :: u16"] by (simp add: bswap_def)
qed

lemma SockAddr_eq_inet:
  "SockAddr_eq (SockAddr_Assign_inet rs a) (SockAddr_Assign_inet rs b)
     \<longleftrightarrow> in_uPort a = in_uPort b \<and> rs_pton rs (in_sIP a) = rs_pton rs (in_sIP b)"
  by (simp add: SockAddr_eq_def SockAddr_Assign_inet_def le_bytes_inj bswap_inj)

text \<open>An address with a port is never \<open>ANY_ADDR\<close>.\<close>

lemma port_not_any: "in_uPort a \<noteq> 0 \<Longrightarrow> \<not> SockAddr_eq (SockAddr_Assign_inet rs a) (any_addr rs)"
  by (simp add: any_addr_def SockAddr_eq_inet INetAddr_of_port_def)

text \<open>
  \<open>HandleOutput\<close> puts the address of the connection into \<open>stLocalAddr_\<close>. A connector that was to use any address asks
  from then on for the one of its first connection: the next \<open>Open\<close> binds to that port, and fails when that fails.
\<close>

lemma Connector_Close_addrs: "cn_local (Connector_Close h c) = cn_local c" "cn_remote (Connector_Close h c) = cn_remote c"
  by (simp_all add: Connector_Close_def Connector_HandleClose_def connfd_Close_def Let_def split_def)

lemma output_local:
  assumes "SockAddr_GetFamily (cn_remote c) = AF_INET" and "SockAddr_eq (cn_local c) (any_addr rs)"
    and "Connector_HandleOutput rs (Some 0) True (Some (RawInet port addr)) on_connected h c = Inr c'"
  shows "cn_local c' = SockAddr_Assign_inet rs (INetAddr_of_raw rs port addr) \<and> cn_remote c' = cn_remote c"
  using assms
  by (auto simp: Connector_HandleOutput_def Socket_SetBlocking_def Socket_GetLocalAddr_def SockAddr_Assign_def Connector_Close_addrs
      Let_def AF_INET_def AF_LOCAL_def split: if_splits)

lemma open_binds:
  assumes "SockAddr_GetFamily (cn_remote c) = AF_INET" and "\<not> SockAddr_eq (cn_local c) (any_addr rs)"
    and "\<not> cr_bind res"
  shows "\<exists>c'. Connector_Open rs res h c = Inr (- 1, c')"
  using assms by (auto simp: Connector_Open_def Socket_Bind_def cn_fail_def Let_def split: prod.splits)

lemma connector_reopen_binds:
  assumes "SockAddr_GetFamily (cn_remote c) = AF_INET" and "SockAddr_eq (cn_local c) (any_addr rs)" and "port \<noteq> 0"
    and "Connector_HandleOutput rs (Some 0) True (Some (RawInet port addr)) on_connected h c = Inr c'"
    and "\<not> cr_bind res"
  shows "\<exists>c''. Connector_Open rs res h c' = Inr (- 1, c'')"
proof (rule open_binds)
  have "bswap port \<noteq> 0" using bswap_inj [of port 0] assms(3) by (simp add: bswap_0)
  with output_local [OF assms(1,2,4)] assms(1,5) port_not_any [of "INetAddr_of_raw rs port addr" rs]
  show "SockAddr_GetFamily (cn_remote c') = AF_INET" "\<not> SockAddr_eq (cn_local c') (any_addr rs)" "\<not> cr_bind res"
    by (simp_all add: INetAddr_of_raw_def Let_def)
qed

end
