(* ===== verification/ServerApp.thy ===== *)
theory ServerApp
  imports WorkThreadPool Acceptor
begin

text \<open>
  \<open>configmanager.cpp\<close>, \<open>serverapp.cpp\<close> and \<open>wolfcc.cpp\<close>: the configuration, how the server puts its parts
  together, and \<open>main\<close>. The configuration file as libconfig reads it is a parameter, as are the results of opening
  the push handler and the acceptors. A member that no constructor sets is \<open>None\<close> until it is assigned.
\<close>

section \<open>ServerConfig\<close>

text \<open>
  What libconfig finds in the file: whether it can be read, the values of the settings, and of each element of
  the list \<open>server\<close> the values of \<open>tcp_inet\<close> and \<open>unix_inet\<close> (the list is \<open>None\<close> when there is no such setting).
\<close>

record config_file =
  cf_read :: bool
  cf_version :: "cstring option"
  cf_log_file :: "cstring option"
  cf_log_level :: "int option"
  cf_server :: "(cstring option \<times> cstring option) list option"

record ServerConfig =
  sc_tcp_addr :: cstring
  sc_unix_addr :: cstring
  sc_protocol_type :: "int option"
  sc_thread_count :: "int option"
  sc_limit_address :: "cstring list"
  sc_timeout :: "int option"
  sc_log_level :: "int option"
  sc_log_file :: cstring
  sc_version :: cstring

definition ServerConfig_new :: ServerConfig where
  "ServerConfig_new = \<lparr>sc_tcp_addr = [], sc_unix_addr = [], sc_protocol_type = None, sc_thread_count = None,
     sc_limit_address = [], sc_timeout = None, sc_log_level = None, sc_log_file = [], sc_version = []\<rparr>"

text \<open>The loop over the elements: \<open>unix_inet\<close> is looked up only where \<open>tcp_inet\<close> is missing.\<close>

fun load_servers :: "(cstring option \<times> cstring option) list \<Rightarrow> ServerConfig \<Rightarrow> bool \<times> ServerConfig" where
  "load_servers [] sc = (True, sc)"
| "load_servers ((tcp, unix) # es) sc =
     (case tcp of
        Some a \<Rightarrow> load_servers es (sc\<lparr>sc_tcp_addr := a\<rparr>)
      | None \<Rightarrow> (case unix of
                   Some a \<Rightarrow> load_servers es (sc\<lparr>sc_unix_addr := a\<rparr>)
                 | None \<Rightarrow> (False, sc)))"

text \<open>
  \<open>lookupValue\<close> leaves its argument as it is when it fails, and the level is looked up only if there is a log
  file; the exception of \<open>lookup\<close> is outside the \<open>try\<close>. The pair is the level and the name given to the log.
\<close>

definition ServerConfig_LoadConfig :: "config_file \<Rightarrow> ServerConfig
    \<Rightarrow> (bool \<times> ServerConfig \<times> (int \<times> cstring) option) result" where
  "ServerConfig_LoadConfig cf sc =
     (if \<not> cf_read cf then Inr (False, sc, None)
      else let sc1 = (case cf_version cf of None \<Rightarrow> sc | Some v \<Rightarrow> sc\<lparr>sc_version := v\<rparr>);
               sc2 = (case cf_log_file cf of
                        None \<Rightarrow> sc1
                      | Some f \<Rightarrow> let s = sc1\<lparr>sc_log_file := f\<rparr>
                                  in (case cf_log_level cf of None \<Rightarrow> s | Some l \<Rightarrow> s\<lparr>sc_log_level := Some l\<rparr>))
           in bindR (read_member (sc_log_level sc2)) (\<lambda>level.
                case cf_server cf of
                  None \<Rightarrow> Inl Uncaught
                | Some es \<Rightarrow> (case load_servers es sc2 of (r, sc3) \<Rightarrow> Inr (r, sc3, Some (level, sc_log_file sc2)))))"

section \<open>ServerApp\<close>

datatype processor = MessagepackProcessor | ProtoBufProcessor

definition PROCESSOR_PROTOCOL_MESSAGEPACK :: int where "PROCESSOR_PROTOCOL_MESSAGEPACK = 1"
definition PROCESSOR_PROTOCOL_PROTOBUF :: int where "PROCESSOR_PROTOCOL_PROTOBUF = 2"
definition BINARY_PACKAGE_STREAM_PROTOCOL_1_0 :: int where "BINARY_PACKAGE_STREAM_PROTOCOL_1_0 = 1"
definition TEXT_PACKAGE_STREAM_PROTOCOL_1_0 :: int where "TEXT_PACKAGE_STREAM_PROTOCOL_1_0 = 2"

text \<open>What \<open>Listen\<close> gives to an acceptor.\<close>

record listener =
  ls_addr :: SockAddr
  ls_processorid :: u32
  ls_text :: bool
  ls_procpack :: AppProcpack
  ls_limit :: "cstring list option"
  ls_timeout :: u32

text \<open>
  Of the members: whether \<open>reactor_p_\<close> has been set, whether the send queue notifies the push handler, with how
  many threads the pool was started, and how many acceptors have been opened.
\<close>

record server_app =
  app_config :: ServerConfig
  app_run_status :: bool
  app_accepts :: "listener list"
  app_pid_index :: u32
  app_processors :: "(u32 \<times> processor option) list"
  app_reactor :: bool
  app_pack_processor :: "processor option"
  app_notify :: bool
  app_threads :: "int option"
  app_opened :: nat

definition ServerApp_new :: server_app where
  "ServerApp_new = \<lparr>app_config = ServerConfig_new, app_run_status = True, app_accepts = [], app_pid_index = 0,
     app_processors = [], app_reactor = False, app_pack_processor = None, app_notify = False, app_threads = None,
     app_opened = 0\<rparr>"

definition ServerApp_InitConfig :: "config_file \<Rightarrow> server_app \<Rightarrow> (bool \<times> server_app) result" where
  "ServerApp_InitConfig cf app =
     bindR (ServerConfig_LoadConfig cf (app_config app)) (\<lambda>(r, sc, log). Inr (r, app\<lparr>app_config := sc\<rparr>))"

text \<open>\<open>CreateProcessor\<close> flows off its end without a \<open>return\<close>.\<close>

definition ServerApp_CreateProcessor :: "server_app \<Rightarrow> (processor option \<times> server_app) result" where
  "ServerApp_CreateProcessor app =
     bindR (read_member (sc_protocol_type (app_config app))) (\<lambda>t.
       let app1 = (if t = PROCESSOR_PROTOCOL_MESSAGEPACK then app\<lparr>app_pack_processor := Some MessagepackProcessor\<rparr>
                   else if t = PROCESSOR_PROTOCOL_PROTOBUF then app\<lparr>app_pack_processor := Some ProtoBufProcessor\<rparr>
                   else app)
       in Inl NoReturn)"

text \<open>\<open>insert\<close> leaves an entry that is there.\<close>

definition ServerApp_RegisterProcessor :: "processor option \<Rightarrow> server_app \<Rightarrow> u32 \<times> server_app" where
  "ServerApp_RegisterProcessor processor app =
     (let t_index = app_pid_index app; ps = app_processors app
      in (t_index, app\<lparr>app_processors := (if map_of ps t_index = None then (t_index, processor) # ps else ps),
                       app_pid_index := t_index + 1\<rparr>))"

definition ServerApp_RemoveProcessor :: "u32 \<Rightarrow> server_app \<Rightarrow> server_app" where
  "ServerApp_RemoveProcessor processor_id app =
     app\<lparr>app_processors := filter (\<lambda>(i, p). i \<noteq> processor_id) (app_processors app)\<rparr>"

text \<open>The third, second and first \<open>Listen\<close> of the class.\<close>

definition ServerApp_Listen_id :: "SockAddr \<Rightarrow> int \<Rightarrow> u32 \<Rightarrow> cstring list option \<Rightarrow> u32 \<Rightarrow> server_app
    \<Rightarrow> (bool \<times> server_app) result" where
  "ServerApp_Listen_id addr protocol processorid limitaddresses timeout app =
     bindR (if protocol = BINARY_PACKAGE_STREAM_PROTOCOL_1_0
            then bindR (read_member (sc_protocol_type (app_config app))) (\<lambda>t.
                   Inr (Some (False, AppBinaryStreamProcpack_new () True () (word_of_int t))))
            else if protocol = TEXT_PACKAGE_STREAM_PROTOCOL_1_0
            then bindR (read_member (sc_protocol_type (app_config app))) (\<lambda>t.
                   Inr (Some (True, AppTextStreamProcpack_new () True () (word_of_int t))))
            else Inr None) (\<lambda>stream_protocol_p.
       case stream_protocol_p of
         None \<Rightarrow> Inl NullDeref
       | Some (txt, sp) \<Rightarrow>
           Inr (True, app\<lparr>app_accepts := app_accepts app @ [\<lparr>ls_addr = addr, ls_processorid = processorid,
             ls_text = txt, ls_procpack = Procpack_SetErrorCallback True sp, ls_limit = limitaddresses,
             ls_timeout = timeout\<rparr>]\<rparr>))"

definition ServerApp_Listen_addr :: "SockAddr \<Rightarrow> int \<Rightarrow> processor option \<Rightarrow> cstring list option \<Rightarrow> u32 \<Rightarrow> server_app
    \<Rightarrow> (bool \<times> server_app) result" where
  "ServerApp_Listen_addr addr protocol processor limitaddresses timeout app =
     (let (processor_index, app1) = ServerApp_RegisterProcessor processor app
      in bindR (ServerApp_Listen_id addr protocol processor_index limitaddresses timeout app1) (\<lambda>(r, app2).
           if \<not> r then Inr (False, ServerApp_RemoveProcessor processor_index app2) else Inr (True, app2)))"

definition ServerApp_Listen :: "resolver \<Rightarrow> cstring \<Rightarrow> int \<Rightarrow> processor option \<Rightarrow> cstring list option \<Rightarrow> u32 \<Rightarrow> server_app
    \<Rightarrow> (bool \<times> server_app) result" where
  "ServerApp_Listen rs address protocol processor limitaddresses timeout app =
     bindR (ParseAddress rs address None) (\<lambda>addr.
       ServerApp_Listen_addr addr protocol processor limitaddresses timeout app)"

text \<open>One of the two addresses of \<open>InitApp\<close>: \<open>None\<close> when it is empty, else what \<open>Listen\<close> returns.\<close>

definition InitApp_address :: "resolver \<Rightarrow> cstring \<Rightarrow> server_app \<Rightarrow> (bool option \<times> server_app) result" where
  "InitApp_address rs address app =
     (if address = [] then Inr (None, app)
      else bindR (read_member (sc_protocol_type (app_config app))) (\<lambda>protocol.
           bindR (read_member (sc_timeout (app_config app))) (\<lambda>timeout.
           bindR (ServerApp_Listen rs address protocol (app_pack_processor app)
               (Some (sc_limit_address (app_config app))) (word_of_int timeout) app) (\<lambda>(r, app1). Inr (Some r, app1)))))"

fun open_accepts :: "(listener \<Rightarrow> int) \<Rightarrow> listener list \<Rightarrow> nat \<times> bool" where
  "open_accepts accept_open [] = (0, True)"
| "open_accepts accept_open (l # ls) =
     (if accept_open l = - 1 then (0, False) else case open_accepts accept_open ls of (n, r) \<Rightarrow> (n + 1, r))"

text \<open>\<open>InitApp\<close> after the call of \<open>CreateProcessor\<close>; the second condition has no negation.\<close>

definition InitApp_parts :: "resolver \<Rightarrow> int \<Rightarrow> (listener \<Rightarrow> int) \<Rightarrow> server_app \<Rightarrow> (bool \<times> server_app) result" where
  "InitApp_parts rs push_open accept_open app =
     bindR (InitApp_address rs (sc_tcp_addr (app_config app)) app) (\<lambda>(r, app1).
       if r = Some False then Inr (False, app1)
       else bindR (InitApp_address rs (sc_unix_addr (app_config app1)) app1) (\<lambda>(r, app2).
         if r = Some True then Inr (False, app2)
         else let app3 = app2\<lparr>app_reactor := True\<rparr> in
         if push_open = - 1 then Inr (False, app3)
         else bindR (read_member (sc_thread_count (app_config app3))) (\<lambda>count.
           let app4 = app3\<lparr>app_notify := True, app_threads := Some count\<rparr>;
               (n, r) = open_accepts accept_open (app_accepts app4)
           in Inr (r, app4\<lparr>app_opened := n\<rparr>))))"

definition ServerApp_InitApp :: "resolver \<Rightarrow> int \<Rightarrow> (listener \<Rightarrow> int) \<Rightarrow> server_app \<Rightarrow> (bool \<times> server_app) result" where
  "ServerApp_InitApp rs push_open accept_open app =
     bindR (ServerApp_CreateProcessor app) (\<lambda>(p, app1).
       InitApp_parts rs push_open accept_open (app1\<lparr>app_pack_processor := p\<rparr>))"

text \<open>\<open>InitDB\<close> and \<open>InitCluster\<close> return true.\<close>

definition ServerApp_Init :: "resolver \<Rightarrow> config_file \<Rightarrow> int \<Rightarrow> (listener \<Rightarrow> int) \<Rightarrow> server_app \<Rightarrow> (bool \<times> server_app) result" where
  "ServerApp_Init rs cf push_open accept_open app =
     bindR (ServerApp_InitConfig cf app) (\<lambda>(r, app1).
       if \<not> r then Inr (False, app1) else ServerApp_InitApp rs push_open accept_open app1)"

definition ServerApp_RunOnce :: "server_app \<Rightarrow> unit result" where
  "ServerApp_RunOnce app = guardR Uninit (app_reactor app)"

definition ServerApp_Stop :: "server_app \<Rightarrow> server_app" where
  "ServerApp_Stop app = app"

text \<open>The loop of \<open>Start\<close>, as far as \<open>n\<close> turns of it: \<open>Diverges\<close> says that it is still running.\<close>

fun ServerApp_Start :: "nat \<Rightarrow> server_app \<Rightarrow> unit result" where
  "ServerApp_Start 0 app = Inl Diverges"
| "ServerApp_Start (Suc n) app =
     (if \<not> app_run_status app then Inr () else bindR (ServerApp_RunOnce app) (\<lambda>_. ServerApp_Start n app))"

definition wolfcc_main :: "resolver \<Rightarrow> config_file \<Rightarrow> int \<Rightarrow> (listener \<Rightarrow> int) \<Rightarrow> nat \<Rightarrow> unit result" where
  "wolfcc_main rs cf push_open accept_open n =
     bindR (ServerApp_Init rs cf push_open accept_open ServerApp_new) (\<lambda>(r, app).
       let app1 = (if \<not> r then ServerApp_Stop app else app)
       in bindR (ServerApp_Start n app1) (\<lambda>_. Inr ()))"

end
