(* ===== verification/ServerAppProps.thy ===== *)
theory ServerAppProps
  imports ServerApp SockAddrProps
begin

text \<open>
  Properties of the server: what \<open>Listen\<close> and the rest of \<open>InitApp\<close> set up, and what becomes of \<open>main\<close>.
\<close>

section \<open>main\<close>

lemma load_servers_keeps:
  "load_servers es sc = (r, sc') \<Longrightarrow> sc_protocol_type sc' = sc_protocol_type sc
     \<and> (r \<longleftrightarrow> (\<forall>(tcp, unix) \<in> set es. tcp \<noteq> None \<or> unix \<noteq> None))"
  by (induction es sc rule: load_servers.induct) (auto split: option.splits)

lemma ServerConfig_new_sel [simp]:
  "sc_protocol_type ServerConfig_new = None" "sc_log_level ServerConfig_new = None"
  by (simp_all add: ServerConfig_new_def)

lemma ServerApp_new_sel [simp]:
  "app_config ServerApp_new = ServerConfig_new" "\<not> app_reactor ServerApp_new" "app_run_status ServerApp_new"
  "app_accepts ServerApp_new = []" "app_pid_index ServerApp_new = 0" "app_processors ServerApp_new = []"
  "app_pack_processor ServerApp_new = None" "app_opened ServerApp_new = 0"
  by (simp_all add: ServerApp_new_def)

lemma LoadConfig_fails:
  assumes "\<not> (cf_read cf \<and> cf_log_file cf \<noteq> None \<and> cf_log_level cf \<noteq> None \<and> cf_server cf \<noteq> None)"
  shows "ServerConfig_LoadConfig cf ServerConfig_new =
     (if \<not> cf_read cf then Inr (False, ServerConfig_new, None)
      else if cf_log_file cf = None \<or> cf_log_level cf = None then Inl Uninit else Inl Uncaught)"
  using assms by (auto simp: ServerConfig_LoadConfig_def read_member_def Let_def split: option.splits)

lemma LoadConfig_protocol:
  "ServerConfig_LoadConfig cf ServerConfig_new = Inr (r, sc, l) \<Longrightarrow> sc_protocol_type sc = None"
  by (auto simp: ServerConfig_LoadConfig_def read_member_def bindR_Inr_iff Let_def
      split: option.splits if_splits prod.splits dest!: load_servers_keeps)

lemma LoadConfig_total:
  "cf_read cf \<Longrightarrow> cf_log_file cf \<noteq> None \<Longrightarrow> cf_log_level cf \<noteq> None \<Longrightarrow> cf_server cf \<noteq> None \<Longrightarrow>
     \<exists>r sc l. ServerConfig_LoadConfig cf ServerConfig_new = Inr (r, sc, l)"
  by (auto simp: ServerConfig_LoadConfig_def read_member_def Let_def split: option.splits prod.splits)

lemma start_no_reactor: "\<not> app_reactor app \<Longrightarrow> app_run_status app \<Longrightarrow> ServerApp_Start (Suc n) app = Inl Uninit"
  by (simp add: ServerApp_RunOnce_def guardR_def)

text \<open>C35. \<open>main\<close> never serves: with every configuration file it ends in an exception that nobody catches (a file without
  the list \<open>server\<close>) or reads a member that was never set: the log level, the protocol type that \<open>LoadConfig\<close> never sets,
  or, as \<open>main\<close> starts the server even when \<open>Init\<close> has failed, the pointer to the reactor.\<close>

theorem server_main_exact:
  "wolfcc_main rs cf push_open accept_open (Suc n) = Inl
     (if cf_read cf \<and> cf_log_file cf \<noteq> None \<and> cf_log_level cf \<noteq> None \<and> cf_server cf = None then Uncaught else Uninit)"
proof (cases "cf_read cf \<and> cf_log_file cf \<noteq> None \<and> cf_log_level cf \<noteq> None \<and> cf_server cf \<noteq> None")
  case True
  then obtain r sc l where c: "ServerConfig_LoadConfig cf ServerConfig_new = Inr (r, sc, l)"
    using LoadConfig_total by blast
  have "sc_protocol_type sc = None" by (rule LoadConfig_protocol [OF c])
  then show ?thesis using True c start_no_reactor
    by (auto simp: wolfcc_main_def ServerApp_Init_def ServerApp_InitConfig_def ServerApp_InitApp_def
        ServerApp_CreateProcessor_def read_member_def ServerApp_Stop_def Let_def simp del: ServerApp_Start.simps)
next
  case False
  then show ?thesis using start_no_reactor
    by (auto simp: wolfcc_main_def ServerApp_Init_def ServerApp_InitConfig_def LoadConfig_fails [OF False] ServerApp_Stop_def
        Let_def simp del: ServerApp_Start.simps)
qed

section \<open>InitApp\<close>

definition app_listener :: "server_app \<Rightarrow> u32 \<Rightarrow> int \<Rightarrow> int \<Rightarrow> SockAddr \<Rightarrow> listener" where
  "app_listener app i protocol timeout addr = \<lparr>ls_addr = addr, ls_processorid = i,
     ls_text = (protocol = TEXT_PACKAGE_STREAM_PROTOCOL_1_0),
     ls_procpack = \<lparr>ap_errorcb = Some True, ap_queuepackage = None, ap_allocator = None, ap_packageManager = None,
       ap_queuelimit = None, ap_protocol = None\<rparr>,
     ls_limit = Some (sc_limit_address (app_config app)), ls_timeout = word_of_int timeout\<rparr>"

definition stream_protocol :: "int \<Rightarrow> bool" where
  "stream_protocol t \<longleftrightarrow> t = BINARY_PACKAGE_STREAM_PROTOCOL_1_0 \<or> t = TEXT_PACKAGE_STREAM_PROTOCOL_1_0"

lemma listen_exact:
  assumes "sc_protocol_type (app_config app) = Some protocol" and "sc_timeout (app_config app) = Some timeout"
    and "stream_protocol protocol" and "map_of (app_processors app) (app_pid_index app) = None" and "address \<noteq> []"
    and "ParseAddress rs address None = Inr addr"
  shows "InitApp_address rs address app = Inr (Some True, app\<lparr>
      app_processors := (app_pid_index app, app_pack_processor app) # app_processors app, app_pid_index := app_pid_index app + 1,
      app_accepts := app_accepts app @ [app_listener app (app_pid_index app) protocol timeout addr]\<rparr>)"
  using assms
  by (auto simp: InitApp_address_def read_member_def ServerApp_Listen_def ServerApp_Listen_addr_def ServerApp_Listen_id_def
      ServerApp_RegisterProcessor_def app_listener_def AppBinaryStreamProcpack_new_def AppTextStreamProcpack_new_def stream_protocol_def
      Procpack_SetErrorCallback_def BINARY_PACKAGE_STREAM_PROTOCOL_1_0_def TEXT_PACKAGE_STREAM_PROTOCOL_1_0_def Let_def)

lemma listen_unset:
  "address \<noteq> [] \<Longrightarrow> sc_protocol_type (app_config app) = None \<or> sc_timeout (app_config app) = None
    \<Longrightarrow> InitApp_address rs address app = Inl Uninit"
  by (auto simp: InitApp_address_def read_member_def split: option.splits)

lemma listen_none: "InitApp_address rs [] app = Inr (None, app)"
  by (simp add: InitApp_address_def)

lemma listen_null:
  assumes "sc_protocol_type (app_config app) = Some protocol" and "sc_timeout (app_config app) = Some timeout" and "address \<noteq> []"
    and "\<not> stream_protocol protocol \<or> ParseAddress rs address None = Inl NullDeref"
  shows "InitApp_address rs address app = Inl NullDeref"
  using assms ParseAddress_Inl [of rs address None]
  by (cases "ParseAddress rs address None")
    (auto simp: InitApp_address_def read_member_def ServerApp_Listen_def ServerApp_Listen_addr_def ServerApp_Listen_id_def
      ServerApp_RegisterProcessor_def stream_protocol_def Let_def)

lemma open_accepts_exact:
  "open_accepts f ls = (n, r) \<Longrightarrow> (r \<longleftrightarrow> (\<forall>l\<in>set ls. f l \<noteq> - 1)) \<and> n = length (takeWhile (\<lambda>l. f l \<noteq> - 1) ls)"
  by (induction ls arbitrary: n r) (auto split: if_splits prod.splits)

text \<open>
  The two addresses together, for a server that has registered nothing: the acceptors they get.
\<close>

definition app_addresses :: "ServerConfig \<Rightarrow> cstring list" where
  "app_addresses sc = filter (\<lambda>a. a \<noteq> []) [sc_tcp_addr sc, sc_unix_addr sc]"

lemma app_addresses_eq:
  "app_addresses sc = (if sc_tcp_addr sc = [] then [] else [sc_tcp_addr sc]) @ (if sc_unix_addr sc = [] then [] else [sc_unix_addr sc])"
  by (cases "sc_tcp_addr sc = []"; cases "sc_unix_addr sc = []") (simp_all add: app_addresses_def)

lemma app_addresses_simps [simp]:
  "a \<in> set (app_addresses sc) \<longleftrightarrow> a \<noteq> [] \<and> (a = sc_tcp_addr sc \<or> a = sc_unix_addr sc)"
  "app_addresses sc = [] \<longleftrightarrow> sc_tcp_addr sc = [] \<and> sc_unix_addr sc = []"
  by (auto simp: app_addresses_eq)

lemma two_addresses:
  assumes "app_config app = sc" and "app_pid_index app = 0" and "app_processors app = []" and "app_accepts app = []"
    and "app_addresses sc \<noteq> [] \<longrightarrow> sc_protocol_type sc = Some protocol \<and> sc_timeout sc = Some timeout \<and> stream_protocol protocol"
    and "\<forall>a\<in>set (app_addresses sc). ParseAddress rs a None \<noteq> Inl NullDeref"
  obtains r1 app1 r2 app2 where "InitApp_address rs (sc_tcp_addr sc) app = Inr (r1, app1)" "r1 \<noteq> Some False" "app_config app1 = sc"
    "InitApp_address rs (sc_unix_addr sc) app1 = Inr (r2, app2)" "r2 = Some True \<longleftrightarrow> sc_unix_addr sc \<noteq> []" "app_config app2 = sc"
    "app_reactor app2 = app_reactor app" "app_opened app2 = app_opened app" "app_notify app2 = app_notify app"
    "map Inr (map ls_addr (app_accepts app2)) = map (\<lambda>a. ParseAddress rs a None) (app_addresses sc)"
    "distinct (map ls_processorid (app_accepts app2))"
    "\<forall>l\<in>set (app_accepts app2). map_of (app_processors app2) (ls_processorid l) = Some (app_pack_processor app)
       \<and> ls_limit l = Some (sc_limit_address sc) \<and> ls_timeout l = word_of_int timeout
       \<and> ap_queuepackage (ls_procpack l) = None \<and> ap_queuelimit (ls_procpack l) = None"
proof -
  let ?tcp = "sc_tcp_addr sc" and ?unix = "sc_unix_addr sc" and ?p = "app_pack_processor app"
  have parse: "\<exists>addr. ParseAddress rs a None = Inr addr" if "a \<in> {?tcp, ?unix}" "a \<noteq> []" for a
    using assms(6) that ParseAddress_Inl [of rs a None] by (cases "ParseAddress rs a None") auto
  have set: "sc_protocol_type sc = Some protocol \<and> sc_timeout sc = Some timeout \<and> stream_protocol protocol"
    if "a \<in> {?tcp, ?unix}" "a \<noteq> []" for a using assms(5) that by auto
  obtain app1 r1 where one: "InitApp_address rs ?tcp app = Inr (r1, app1)" "r1 \<noteq> Some False" "app_config app1 = sc"
    "app_reactor app1 = app_reactor app" "app_opened app1 = app_opened app" "app_notify app1 = app_notify app"
    "app_pack_processor app1 = ?p"
    "(?tcp = [] \<and> app_pid_index app1 = 0 \<and> app_processors app1 = [] \<and> app_accepts app1 = [])
     \<or> (?tcp \<noteq> [] \<and> app_pid_index app1 = 1 \<and> app_processors app1 = [(0, ?p)]
        \<and> (\<exists>addr. ParseAddress rs ?tcp None = Inr addr \<and> app_accepts app1 = [app_listener app 0 protocol timeout addr]))"
  proof (cases "?tcp = []")
    case True
    then show ?thesis using that [of None app] assms(1-4) by (simp add: listen_none)
  next
    case False
    then obtain addr where "ParseAddress rs ?tcp None = Inr addr" using parse by blast
    with False show ?thesis using that [OF listen_exact [of app protocol timeout ?tcp rs addr]] assms(1-4) set [of ?tcp] by simp
  qed
  obtain app2 r2 where two: "InitApp_address rs ?unix app1 = Inr (r2, app2)" "r2 = Some True \<longleftrightarrow> ?unix \<noteq> []"
    "app_config app2 = sc" "app_reactor app2 = app_reactor app" "app_opened app2 = app_opened app" "app_notify app2 = app_notify app"
    "(?unix = [] \<and> app_processors app2 = app_processors app1 \<and> app_accepts app2 = app_accepts app1)
     \<or> (?unix \<noteq> [] \<and> app_processors app2 = (app_pid_index app1, ?p) # app_processors app1
        \<and> (\<exists>addr. ParseAddress rs ?unix None = Inr addr
             \<and> app_accepts app2 = app_accepts app1 @ [app_listener app1 (app_pid_index app1) protocol timeout addr]))"
  proof (cases "?unix = []")
    case True
    then show ?thesis using that [of None app1] one by (simp add: listen_none)
  next
    case False
    then obtain addr where "ParseAddress rs ?unix None = Inr addr" using parse by blast
    moreover have "map_of (app_processors app1) (app_pid_index app1) = None" using one(8) by auto
    ultimately show ?thesis using that [OF listen_exact [of app1 protocol timeout ?unix rs addr]] one False set [of ?unix] by simp
  qed
  show thesis
    by (rule that [OF one(1-3) two(1-6)]) (use one(3,8) two(7) assms(1) in \<open>auto simp: app_listener_def app_addresses_eq\<close>)
qed

text \<open>C33. What \<open>InitApp\<close> does after \<open>CreateProcessor\<close>, for every configuration and whatever pointer \<open>p\<close> that call leaves. With an
  address to listen on it reads the protocol type and the timeout, which may never have been set; it uses a null pointer when the
  protocol type is not one of the two stream protocols or the host of an address is not found. Otherwise each address that is not
  empty gets an acceptor, in order, with an id of its own, under which \<open>p\<close> is registered, and no acceptor's stream protocol has
  a queue or a limit. Then a unix address makes it fail before there is a reactor; without one it reads the
  number of threads, if the push handler opens, and succeeds exactly when every acceptor opens too.\<close>

theorem initapp_exact:
  fixes app sc p
  defines "app \<equiv> ServerApp_new\<lparr>app_config := sc, app_pack_processor := p\<rparr>"
  shows "if app_addresses sc \<noteq> [] \<and> (sc_protocol_type sc = None \<or> sc_timeout sc = None)
      then InitApp_parts rs push_open accept_open app = Inl Uninit
    else if app_addresses sc \<noteq> [] \<and> \<not> stream_protocol (the (sc_protocol_type sc))
        \<or> (\<exists>a\<in>set (app_addresses sc). ParseAddress rs a None = Inl NullDeref)
      then InitApp_parts rs push_open accept_open app = Inl NullDeref
    else if sc_unix_addr sc = [] \<and> push_open \<noteq> - 1 \<and> sc_thread_count sc = None
      then InitApp_parts rs push_open accept_open app = Inl Uninit
    else \<exists>r app'. InitApp_parts rs push_open accept_open app = Inr (r, app')
      \<and> (r \<longleftrightarrow> sc_unix_addr sc = [] \<and> push_open \<noteq> - 1 \<and> (\<forall>l\<in>set (app_accepts app'). accept_open l \<noteq> - 1))
      \<and> (r \<longrightarrow> app_reactor app' \<and> app_notify app' \<and> app_threads app' = sc_thread_count sc
           \<and> app_opened app' = length (app_accepts app'))
      \<and> (sc_unix_addr sc \<noteq> [] \<longrightarrow> \<not> app_reactor app' \<and> app_opened app' = 0)
      \<and> map Inr (map ls_addr (app_accepts app')) = map (\<lambda>a. ParseAddress rs a None) (app_addresses sc)
      \<and> distinct (map ls_processorid (app_accepts app'))
      \<and> (\<forall>l\<in>set (app_accepts app'). map_of (app_processors app') (ls_processorid l) = Some p
           \<and> ls_limit l = Some (sc_limit_address sc) \<and> ls_timeout l = word_of_int (the (sc_timeout sc))
           \<and> ap_queuepackage (ls_procpack l) = None \<and> ap_queuelimit (ls_procpack l) = None)"
    (is "if ?unset then _ else if ?null then _ else if ?count then _ else ?result")
proof -
  have app: "app_config app = sc" "app_pid_index app = 0" "app_processors app = []" "app_accepts app = []"
    "app_pack_processor app = p" "\<not> app_reactor app" "app_opened app = 0"
    by (simp_all add: app_def)
  let ?I = "InitApp_parts rs push_open accept_open app"
  have unset: "?I = Inl Uninit" if ?unset
    using that listen_unset [of _ app rs] app(1)
    by (cases "sc_tcp_addr sc = []") (auto simp: InitApp_parts_def listen_none)
  have null: "?I = Inl NullDeref" if "\<not> ?unset" ?null
  proof -
    from that have "app_addresses sc \<noteq> []" by auto
    with that(1) obtain t tm where t: "sc_protocol_type sc = Some t" "sc_timeout sc = Some tm" by auto
    note bad = listen_null [of app t tm _ rs, unfolded app(1), OF t]
    show ?thesis
    proof (cases "sc_tcp_addr sc = [] \<or> \<not> stream_protocol t \<or> ParseAddress rs (sc_tcp_addr sc) None = Inl NullDeref")
      case True
      then show ?thesis using that t bad app(1)
        by (cases "sc_tcp_addr sc = []") (auto simp: InitApp_parts_def listen_none)
    next
      case False
      then obtain addr where addr: "ParseAddress rs (sc_tcp_addr sc) None = Inr addr"
        using ParseAddress_Inl [of rs "sc_tcp_addr sc" None] by (cases "ParseAddress rs (sc_tcp_addr sc) None") auto
      from False that t have unix: "sc_unix_addr sc \<noteq> []" "ParseAddress rs (sc_unix_addr sc) None = Inl NullDeref"
        by auto
      note one = listen_exact [of app t tm "sc_tcp_addr sc" rs addr, unfolded app(1), OF t _ _ _ addr]
      show ?thesis using False one unix t app
        by (simp add: InitApp_parts_def listen_null)
    qed
  qed
  have rest: "if ?count then ?I = Inl Uninit else ?result" if "\<not> ?unset" "\<not> ?null"
  proof -
    have c: "app_addresses sc \<noteq> [] \<longrightarrow> sc_protocol_type sc = Some (the (sc_protocol_type sc))
        \<and> sc_timeout sc = Some (the (sc_timeout sc)) \<and> stream_protocol (the (sc_protocol_type sc))" using that by auto
    have np: "\<forall>a\<in>set (app_addresses sc). ParseAddress rs a None \<noteq> Inl NullDeref" using that by auto
    obtain r1 app1 r2 app2 where two: "InitApp_address rs (sc_tcp_addr sc) app = Inr (r1, app1)" "r1 \<noteq> Some False" "app_config app1 = sc"
      "InitApp_address rs (sc_unix_addr sc) app1 = Inr (r2, app2)" "r2 = Some True \<longleftrightarrow> sc_unix_addr sc \<noteq> []" "app_config app2 = sc"
      "\<not> app_reactor app2" "app_opened app2 = 0"
      "map Inr (map ls_addr (app_accepts app2)) = map (\<lambda>a. ParseAddress rs a None) (app_addresses sc)"
      "distinct (map ls_processorid (app_accepts app2))"
      "\<forall>l\<in>set (app_accepts app2). map_of (app_processors app2) (ls_processorid l) = Some p
         \<and> ls_limit l = Some (sc_limit_address sc) \<and> ls_timeout l = word_of_int (the (sc_timeout sc))
         \<and> ap_queuepackage (ls_procpack l) = None \<and> ap_queuelimit (ls_procpack l) = None"
      by (rule two_addresses [OF app(1-4) c np]) (use app(5-7) in simp)
    obtain n r where o: "open_accepts accept_open (app_accepts app2) = (n, r)" by fastforce
    have "n = length (app_accepts app2)" if r using open_accepts_exact [OF o] that by (simp add: takeWhile_eq_all_conv [THEN iffD2])
    with two o open_accepts_exact [OF o] app(1) show ?thesis
      by (auto simp: InitApp_parts_def read_member_def Let_def split: option.splits)
  qed
  show ?thesis
  proof (cases ?unset)
    case True
    show ?thesis unfolding if_P [OF True] by (rule unset [OF True])
  next
    case False
    note unset_set = False
    show ?thesis
    proof (cases ?null)
      case True
      show ?thesis unfolding if_not_P [OF unset_set] if_P [OF True] by (rule null [OF unset_set True])
    next
      case False
      show ?thesis unfolding if_not_P [OF unset_set] if_not_P [OF False] by (rule rest [OF unset_set False])
    qed
  qed
qed

definition config_example :: ServerConfig where
  "config_example = ServerConfig_new\<lparr>sc_tcp_addr := [49], sc_protocol_type := Some 1, sc_timeout := Some 3,
     sc_thread_count := Some 4\<rparr>"

lemma parse_example: "ParseAddress no_names [49] None = Inr (SockAddr_Assign_unix \<lparr>ua_sPath = [49]\<rparr>)"
  by (simp add: ParseAddress_def c_str_def ADDR_PREFIX_INET_def ADDR_PREFIX_LOCAL_def ADDR_PREFIX_FILE_def)

theorem initapp_exact_witness:
  "\<exists>r app'. InitApp_parts no_names 0 (\<lambda>_. 0) (ServerApp_new\<lparr>app_config := config_example,
       app_pack_processor := Some MessagepackProcessor\<rparr>) = Inr (r, app')
    \<and> r \<and> app_threads app' = Some 4 \<and> length (app_accepts app') = 1"
proof -
  have f: "sc_protocol_type config_example = Some 1" "sc_timeout config_example = Some 3" "sc_thread_count config_example = Some 4"
    "stream_protocol 1" "sc_unix_addr config_example = []" "app_addresses config_example = [[49]]"
    by (simp_all add: config_example_def ServerConfig_new_def stream_protocol_def BINARY_PACKAGE_STREAM_PROTOCOL_1_0_def app_addresses_eq)
  from initapp_exact [of config_example no_names 0 "\<lambda>_. 0" "Some MessagepackProcessor"] f parse_example obtain r app' where
    i: "InitApp_parts no_names 0 (\<lambda>_. 0) (ServerApp_new\<lparr>app_config := config_example,
       app_pack_processor := Some MessagepackProcessor\<rparr>) = Inr (r, app')"
    "r" "app_threads app' = Some 4"
    "map Inr (map ls_addr (app_accepts app')) = map (\<lambda>a. ParseAddress no_names a None) [[49]]"
    by auto
  from arg_cong [OF i(4), of length] have "length (app_accepts app') = 1" by simp
  with i(1-3) show ?thesis by blast
qed

section \<open>The stream protocols of the acceptors\<close>

text \<open>Every acceptor that \<open>InitApp\<close> makes has a stream protocol as its constructor left it.\<close>

lemma listen_id_procpack:
  assumes "ServerApp_Listen_id addr protocol i limit timeout app = Inr (r, app')"
    and "\<forall>l\<in>set (app_accepts app). ap_queuelimit (ls_procpack l) = None"
  shows "r \<and> (\<forall>l\<in>set (app_accepts app'). ap_queuelimit (ls_procpack l) = None)"
  using assms unfolding ServerApp_Listen_id_def bindR_Inr_iff
  by (auto simp: AppBinaryStreamProcpack_new_def AppTextStreamProcpack_new_def Procpack_SetErrorCallback_def bindR_Inr_iff
      split: if_splits)

lemma listen_procpack:
  assumes "InitApp_address rs address app = Inr (r, app')" and "\<forall>l\<in>set (app_accepts app). ap_queuelimit (ls_procpack l) = None"
  shows "\<forall>l\<in>set (app_accepts app'). ap_queuelimit (ls_procpack l) = None"
proof (cases "address = []")
  case True
  then show ?thesis using assms by (simp add: InitApp_address_def)
next
  case False
  have reg: "app_accepts (snd (ServerApp_RegisterProcessor p app)) = app_accepts app" for p
    by (simp add: ServerApp_RegisterProcessor_def Let_def)
  obtain i app1 where rp: "ServerApp_RegisterProcessor (app_pack_processor app) app = (i, app1)" by fastforce
  from assms(1) False obtain protocol timeout r1 app2 where
    l: "\<exists>addr. ServerApp_Listen_id addr protocol i (Some (sc_limit_address (app_config app))) timeout app1 = Inr (r1, app2)"
    "app' = (if \<not> r1 then ServerApp_RemoveProcessor i app2 else app2)"
    by (fastforce simp: InitApp_address_def ServerApp_Listen_def ServerApp_Listen_addr_def bindR_Inr_iff rp split: if_splits)
  have "app_accepts app1 = app_accepts app" using reg rp by (metis snd_conv)
  with listen_id_procpack assms(2) l show ?thesis by fastforce
qed

lemma initapp_procpack:
  assumes "InitApp_parts rs push_open accept_open app = Inr (r, app')" and "app_accepts app = []"
  shows "\<forall>l\<in>set (app_accepts app'). ap_queuelimit (ls_procpack l) = None"
proof -
  obtain r1 app1 where one: "InitApp_address rs (sc_tcp_addr (app_config app)) app = Inr (r1, app1)"
    using assms(1) by (cases "InitApp_address rs (sc_tcp_addr (app_config app)) app") (auto simp: InitApp_parts_def)
  have a1: "\<forall>l\<in>set (app_accepts app1). ap_queuelimit (ls_procpack l) = None"
    using listen_procpack [OF one] assms(2) by simp
  show ?thesis
  proof (cases "r1 = Some False")
    case True
    then show ?thesis using assms(1) a1 by (simp add: InitApp_parts_def one)
  next
    case False
    let ?second = "InitApp_address rs (sc_unix_addr (app_config app1)) app1"
    obtain r2 app2 where two: "?second = Inr (r2, app2)"
      using assms(1) False by (cases ?second) (auto simp: InitApp_parts_def one)
    have "app_accepts app' = app_accepts app2"
    proof (cases "r2 = Some True \<or> push_open = - 1")
      case True
      then show ?thesis using assms(1) False by (auto simp: InitApp_parts_def one two Let_def split: if_splits)
    next
      case other: False
      obtain n b where o: "open_accepts accept_open (app_accepts app2) = (n, b)" by fastforce
      show ?thesis using assms(1) False other
        by (auto simp: InitApp_parts_def one two o Let_def bindR_Inr_iff)
    qed
    then show ?thesis using listen_procpack [OF two a1] by simp
  qed
qed

end
