(* ===== verification/NetManager.thy ===== *)
theory NetManager
  imports Socket "HOL-Library.Signed_Division"
begin

text \<open>
  \<open>netmanager.cpp\<close>: the functions for sockets that the project has taken over from Redis. They work on descriptors
  and return \<open>ANET_OK\<close>, \<open>ANET_ERR\<close> or a descriptor. The constants are not defined in the repository and are
  the record \<open>anet\<close>. Every function takes the results of its system calls as
  arguments; the state is the kernel with its descriptors, the options that were set, the lists of addresses that are not
  yet freed, and the text behind \<open>err\<close> (\<open>None\<close> for null), which \<open>strerror\<close> ends.
\<close>

record anet =
  ANET_OK :: int
  ANET_ERR :: int
  ANET_NONE :: u32
  ANET_IP_ONLY :: u32
  ANET_ERR_LEN :: nat

datatype sockopt =
    SO_KEEPALIVE | TCP_KEEPIDLE | TCP_KEEPINTVL | TCP_KEEPCNT | TCP_NODELAY | SO_SNDBUF | SO_REUSEADDR | IPV6_V6ONLY
  | SO_SNDTIMEO

record net =
  nt_kernel :: kernel
  nt_opts :: "(int \<times> sockopt \<times> int list) list"
  nt_infos :: int
  nt_err :: "cstring option"
  nt_errno :: int
  nt_strerror :: cstring

definition ascii :: "string \<Rightarrow> cstring" where
  "ascii s = map of_char s"

definition anetSetError :: "anet \<Rightarrow> cstring \<Rightarrow> net \<Rightarrow> net" where
  "anetSetError A text s = (case nt_err s of None \<Rightarrow> s | Some _ \<Rightarrow> s\<lparr>nt_err := Some (snprintf (ANET_ERR_LEN A) text)\<rparr>)"

text \<open>The calls of the system.\<close>

definition sys_close :: "int \<Rightarrow> net \<Rightarrow> net" where
  "sys_close fd s = s\<lparr>nt_kernel := kn_close fd (nt_kernel s)\<rparr>"

definition sys_open :: "int \<Rightarrow> net \<Rightarrow> net" where
  "sys_open fd s = s\<lparr>nt_kernel := (nt_kernel s)\<lparr>kn_open := fd # kn_open (nt_kernel s)\<rparr>\<rparr>"

definition setsockopt :: "bool \<Rightarrow> int \<Rightarrow> sockopt \<Rightarrow> int list \<Rightarrow> net \<Rightarrow> int \<times> net" where
  "setsockopt ok fd name val s = (if ok then (0, s\<lparr>nt_opts := (fd, name, val) # nt_opts s\<rparr>) else (- 1, s))"

text \<open>The pattern of most functions: an option, and the error when it cannot be set.\<close>

definition set_opt :: "anet \<Rightarrow> string \<Rightarrow> string \<Rightarrow> bool \<Rightarrow> int \<Rightarrow> sockopt \<Rightarrow> int list \<Rightarrow> net \<Rightarrow> int \<times> net" where
  "set_opt A pre post ok fd name val s =
     (let (r, s1) = setsockopt ok fd name val s
      in if r = - 1 then (ANET_ERR A, anetSetError A (ascii pre @ nt_strerror s1 @ ascii post) s1) else (ANET_OK A, s1))"

section \<open>Flags and options\<close>

definition anetSetBlock :: "anet \<Rightarrow> bool \<Rightarrow> bool \<Rightarrow> int \<Rightarrow> bool \<Rightarrow> net \<Rightarrow> int \<times> net" where
  "anetSetBlock A getfl setfl fd non_block s =
     (if \<not> getfl then (ANET_ERR A, anetSetError A (ascii ''fcntl(F_GETFL): '' @ nt_strerror s) s)
      else
        let k = nt_kernel s;
            flags = (if non_block then kn_flags k fd OR O_NONBLOCK else kn_flags k fd AND NOT O_NONBLOCK)
        in if \<not> setfl then (ANET_ERR A, anetSetError A (ascii ''fcntl(F_SETFL,O_NONBLOCK): '' @ nt_strerror s) s)
           else (ANET_OK A, s\<lparr>nt_kernel := k\<lparr>kn_flags := (kn_flags k)(fd := flags)\<rparr>\<rparr>))"

definition anetNonBlock :: "anet \<Rightarrow> bool \<Rightarrow> bool \<Rightarrow> int \<Rightarrow> net \<Rightarrow> int \<times> net" where
  "anetNonBlock A getfl setfl fd s = anetSetBlock A getfl setfl fd True s"

definition anetBlock :: "anet \<Rightarrow> bool \<Rightarrow> bool \<Rightarrow> int \<Rightarrow> net \<Rightarrow> int \<times> net" where
  "anetBlock A getfl setfl fd s = anetSetBlock A getfl setfl fd False s"

definition anetKeepAlive :: "anet \<Rightarrow> bool \<times> bool \<times> bool \<times> bool \<Rightarrow> int \<Rightarrow> int \<Rightarrow> net \<Rightarrow> int \<times> net" where
  "anetKeepAlive A = (\<lambda>(ok1, ok2, ok3, ok4) fd interval s.
     let (r1, s1) = set_opt A ''setsockopt SO_KEEPALIVE: '' [] ok1 fd SO_KEEPALIVE [1] s in
     if r1 = ANET_ERR A then (r1, s1)
     else let (r2, s2) = set_opt A ''setsockopt TCP_KEEPIDLE: '' [CHR 0x0A] ok2 fd TCP_KEEPIDLE [interval] s1 in
     if r2 = ANET_ERR A then (r2, s2)
     else let val = (if interval sdiv 3 = 0 then 1 else interval sdiv 3);
              (r3, s3) = set_opt A ''setsockopt TCP_KEEPINTVL: '' [CHR 0x0A] ok3 fd TCP_KEEPINTVL [val] s2 in
     if r3 = ANET_ERR A then (r3, s3)
     else set_opt A ''setsockopt TCP_KEEPCNT: '' [CHR 0x0A] ok4 fd TCP_KEEPCNT [3] s3)"

definition anetSetTcpNoDelay :: "anet \<Rightarrow> bool \<Rightarrow> int \<Rightarrow> int \<Rightarrow> net \<Rightarrow> int \<times> net" where
  "anetSetTcpNoDelay A ok fd val s = set_opt A ''setsockopt TCP_NODELAY: '' [] ok fd TCP_NODELAY [val] s"

definition anetEnableTcpNoDelay :: "anet \<Rightarrow> bool \<Rightarrow> int \<Rightarrow> net \<Rightarrow> int \<times> net" where
  "anetEnableTcpNoDelay A ok fd s = anetSetTcpNoDelay A ok fd 1 s"

definition anetDisableTcpNoDelay :: "anet \<Rightarrow> bool \<Rightarrow> int \<Rightarrow> net \<Rightarrow> int \<times> net" where
  "anetDisableTcpNoDelay A ok fd s = anetSetTcpNoDelay A ok fd 0 s"

definition anetSetSendBuffer :: "anet \<Rightarrow> bool \<Rightarrow> int \<Rightarrow> int \<Rightarrow> net \<Rightarrow> int \<times> net" where
  "anetSetSendBuffer A ok fd buffsize s = set_opt A ''setsockopt SO_SNDBUF: '' [] ok fd SO_SNDBUF [buffsize] s"

definition anetTcpKeepAlive :: "anet \<Rightarrow> bool \<Rightarrow> int \<Rightarrow> net \<Rightarrow> int \<times> net" where
  "anetTcpKeepAlive A ok fd s = set_opt A ''setsockopt SO_KEEPALIVE: '' [] ok fd SO_KEEPALIVE [1] s"

definition anetSendTimeout :: "anet \<Rightarrow> bool \<Rightarrow> int \<Rightarrow> int \<Rightarrow> net \<Rightarrow> int \<times> net" where
  "anetSendTimeout A ok fd ms s =
     set_opt A ''setsockopt SO_SNDTIMEO: '' [] ok fd SO_SNDTIMEO [ms sdiv 1000, (ms smod 1000) * 1000] s"

definition anetSetReuseAddr :: "anet \<Rightarrow> bool \<Rightarrow> int \<Rightarrow> net \<Rightarrow> int \<times> net" where
  "anetSetReuseAddr A ok fd s = set_opt A ''setsockopt SO_REUSEADDR: '' [] ok fd SO_REUSEADDR [1] s"

text \<open>The sockets for IPv6 only: this function closes the socket when it fails, the one before does not.\<close>

definition anetV6Only :: "anet \<Rightarrow> bool \<Rightarrow> int \<Rightarrow> net \<Rightarrow> int \<times> net" where
  "anetV6Only A ok fd s =
     (let (r, s1) = setsockopt ok fd IPV6_V6ONLY [1] s
      in if r = - 1 then (ANET_ERR A, sys_close fd (anetSetError A (ascii ''setsockopt: '' @ nt_strerror s1) s1))
         else (ANET_OK A, s1))"

section \<open>Names\<close>

text \<open>
  \<open>getaddrinfo\<close> gives the text of an error or the first address, as the text of \<open>inet_ntop\<close>; \<open>only_ip\<close> says whether
  the hint \<open>AI_NUMERICHOST\<close> is set. \<open>inet_ntop\<close> writes nothing when the text and its zero do not fit.
\<close>

definition inet_ntop :: "cstring \<Rightarrow> nat \<Rightarrow> cstring \<Rightarrow> cstring" where
  "inet_ntop text len buf = (if length text < len then text else buf)"

definition anetGenericResolve :: "anet \<Rightarrow> (bool \<Rightarrow> cstring + cstring) \<Rightarrow> nat \<Rightarrow> u32 \<Rightarrow> cstring \<Rightarrow> net \<Rightarrow> int \<times> cstring \<times> net" where
  "anetGenericResolve A getaddrinfo ipbuf_len flags ipbuf s =
     (case getaddrinfo (flags AND ANET_IP_ONLY A \<noteq> 0) of
        Inl e \<Rightarrow> (ANET_ERR A, ipbuf, anetSetError A e s)
      | Inr text \<Rightarrow> (ANET_OK A, inet_ntop text ipbuf_len ipbuf, s))"

definition anetResolve :: "anet \<Rightarrow> (bool \<Rightarrow> cstring + cstring) \<Rightarrow> nat \<Rightarrow> cstring \<Rightarrow> net \<Rightarrow> int \<times> cstring \<times> net" where
  "anetResolve A getaddrinfo ipbuf_len ipbuf s = anetGenericResolve A getaddrinfo ipbuf_len (ANET_NONE A) ipbuf s"

definition anetResolveIP :: "anet \<Rightarrow> (bool \<Rightarrow> cstring + cstring) \<Rightarrow> nat \<Rightarrow> cstring \<Rightarrow> net \<Rightarrow> int \<times> cstring \<times> net" where
  "anetResolveIP A getaddrinfo ipbuf_len ipbuf s = anetGenericResolve A getaddrinfo ipbuf_len (ANET_IP_ONLY A) ipbuf s"

section \<open>Connecting\<close>

definition anetCreateSocket :: "anet \<Rightarrow> int \<Rightarrow> bool \<Rightarrow> net \<Rightarrow> int \<times> net" where
  "anetCreateSocket A fd reuse s =
     (if fd = - 1 then (ANET_ERR A, anetSetError A (ascii ''creating socket: '' @ nt_strerror s) s)
      else let (r, s1) = anetSetReuseAddr A reuse fd (sys_open fd s)
           in if r = ANET_ERR A then (ANET_ERR A, sys_close fd s1) else (fd, s1))"

definition ANET_CONNECT_NONE :: u32 where "ANET_CONNECT_NONE = 0"
definition ANET_CONNECT_NONBLOCK :: u32 where "ANET_CONNECT_NONBLOCK = 1"
definition ANET_CONNECT_BE_BINDING :: u32 where "ANET_CONNECT_BE_BINDING = 2"

text \<open>
  An address of \<open>servinfo\<close> with the results of the calls made for it: \<open>socket\<close>, the options, \<open>getaddrinfo\<close> of the source
  address with the results of \<open>bind\<close>, and \<open>connect\<close>.
\<close>

record candidate =
  cd_socket :: int
  cd_reuse :: bool
  cd_getfl :: bool
  cd_setfl :: bool
  cd_source :: "cstring + bool list"
  cd_connect :: connect_result

text \<open>The label \<open>error\<close>.\<close>

definition connect_error :: "anet \<Rightarrow> int \<Rightarrow> net \<Rightarrow> int \<times> net" where
  "connect_error A s n = (if s \<noteq> ANET_ERR A then (ANET_ERR A, sys_close s n) else (s, n))"

text \<open>The binding to the source address: the result is whether to go on.\<close>

definition connect_bind :: "anet \<Rightarrow> candidate \<Rightarrow> net \<Rightarrow> bool \<times> net" where
  "connect_bind A c n =
     (case cd_source c of
        Inl e \<Rightarrow> (False, anetSetError A e n)
      | Inr binds \<Rightarrow>
          let n1 = n\<lparr>nt_infos := nt_infos n + 1\<rparr>; bound = (True \<in> set binds); n2 = n1\<lparr>nt_infos := nt_infos n1 - 1\<rparr>
          in if \<not> bound then (False, anetSetError A (ascii ''bind: '' @ nt_strerror n2) n2) else (True, n2))"

fun connect_loop :: "anet \<Rightarrow> bool \<Rightarrow> u32 \<Rightarrow> candidate list \<Rightarrow> int \<Rightarrow> net \<Rightarrow> int \<times> net" where
  "connect_loop A source flags [] s n = connect_error A s (anetSetError A (ascii ''creating socket: '' @ nt_strerror n) n)"
| "connect_loop A source flags (c # cs) s n =
     (if cd_socket c = - 1 then connect_loop A source flags cs (- 1) n
      else
        let s = cd_socket c;
            (r, n1) = anetSetReuseAddr A (cd_reuse c) s (sys_open s n) in
        if r = ANET_ERR A then connect_error A s n1
        else
          let nonblock = (flags AND ANET_CONNECT_NONBLOCK \<noteq> 0);
              (r2, n2) = (if nonblock then anetNonBlock A (cd_getfl c) (cd_setfl c) s n1 else (ANET_OK A, n1)) in
          if r2 \<noteq> ANET_OK A then connect_error A s n2
          else
            let (go, n3) = (if source then connect_bind A c n2 else (True, n2)) in
            if \<not> go then connect_error A s n3
            else
              case cd_connect c of
                Connected \<Rightarrow> (s, n3)
              | InProgress \<Rightarrow> if nonblock then (s, n3) else connect_loop A source flags cs (ANET_ERR A) (sys_close s n3)
              | Refused \<Rightarrow> connect_loop A source flags cs (ANET_ERR A) (sys_close s n3))"

text \<open>One attempt, and the second one without a source address when the binding is best effort.\<close>

definition connect_once :: "anet \<Rightarrow> cstring + candidate list \<Rightarrow> bool \<Rightarrow> u32 \<Rightarrow> net \<Rightarrow> (int \<times> net) \<times> bool" where
  "connect_once A servinfo source flags n =
     (case servinfo of
        Inl e \<Rightarrow> ((ANET_ERR A, anetSetError A e n), False)
      | Inr cs \<Rightarrow>
          let (s, n1) = connect_loop A source flags cs (ANET_ERR A) (n\<lparr>nt_infos := nt_infos n + 1\<rparr>)
          in ((s, n1\<lparr>nt_infos := nt_infos n1 - 1\<rparr>), s = ANET_ERR A \<and> source \<and> flags AND ANET_CONNECT_BE_BINDING \<noteq> 0))"

definition anetTcpGenericConnect ::
  "anet \<Rightarrow> cstring + candidate list \<Rightarrow> cstring + candidate list \<Rightarrow> bool \<Rightarrow> u32 \<Rightarrow> net \<Rightarrow> int \<times> net" where
  "anetTcpGenericConnect A first second source flags n =
     (let ((s, n1), again) = connect_once A first source flags n
      in if again then fst (connect_once A second False flags n1) else (s, n1))"

definition anetTcpConnect where
  "anetTcpConnect A first n = anetTcpGenericConnect A first first False ANET_CONNECT_NONE n"

definition anetTcpNonBlockConnect where
  "anetTcpNonBlockConnect A first n = anetTcpGenericConnect A first first False ANET_CONNECT_NONBLOCK n"

definition anetTcpNonBlockBindConnect where
  "anetTcpNonBlockBindConnect A first source n = anetTcpGenericConnect A first first source ANET_CONNECT_NONBLOCK n"

definition anetTcpNonBlockBestEffortBindConnect where
  "anetTcpNonBlockBestEffortBindConnect A first second source n =
     anetTcpGenericConnect A first second source (ANET_CONNECT_NONBLOCK OR ANET_CONNECT_BE_BINDING) n"

text \<open>
  The unix variants. \<open>strncpy\<close> copies at most 107 bytes into a structure that is not cleared: when the path fills
  them all, the byte \<open>junk\<close> that was in memory ends the name.
\<close>

definition unix_connect_name :: "byte \<Rightarrow> cstring \<Rightarrow> cstring" where
  "unix_connect_name junk path =
     (if length path < SUN_PATH_LEN - 1 then path
      else take (SUN_PATH_LEN - 1) path @ (if junk = 0 then [] else [junk]))"

definition anetUnixGenericConnect ::
  "anet \<Rightarrow> int \<Rightarrow> bool \<Rightarrow> bool \<Rightarrow> bool \<Rightarrow> byte \<Rightarrow> (cstring \<Rightarrow> connect_result) \<Rightarrow> cstring \<Rightarrow> u32 \<Rightarrow> net \<Rightarrow> int \<times> net" where
  "anetUnixGenericConnect A fd reuse getfl setfl junk connect path flags n =
     (let (s, n1) = anetCreateSocket A fd reuse n in
      if s = ANET_ERR A then (ANET_ERR A, n1)
      else
        let nonblock = (flags AND ANET_CONNECT_NONBLOCK \<noteq> 0);
            (r, n2) = (if nonblock then anetNonBlock A getfl setfl s n1 else (ANET_OK A, n1)) in
        if r \<noteq> ANET_OK A then (ANET_ERR A, n2)
        else
          case connect (unix_connect_name junk path) of
            Connected \<Rightarrow> (s, n2)
          | InProgress \<Rightarrow> if nonblock then (s, n2)
              else (ANET_ERR A, sys_close s (anetSetError A (ascii ''connect: '' @ nt_strerror n2) n2))
          | Refused \<Rightarrow> (ANET_ERR A, sys_close s (anetSetError A (ascii ''connect: '' @ nt_strerror n2) n2)))"

definition anetUnixConnect where
  "anetUnixConnect A fd reuse junk connect path n =
     anetUnixGenericConnect A fd reuse True True junk connect path ANET_CONNECT_NONE n"

definition anetUnixNonBlockConnect where
  "anetUnixNonBlockConnect A fd reuse getfl setfl junk connect path n =
     anetUnixGenericConnect A fd reuse getfl setfl junk connect path ANET_CONNECT_NONBLOCK n"

section \<open>Reading and writing\<close>

text \<open>
  Like \<open>read\<close> and \<open>write\<close>, but until \<open>count\<close> bytes are through. Each takes the results of its system calls in turn:
  a call gives at most as many bytes as it asks for (the difference is converted to \<open>size_t\<close>). \<open>None\<close> is a
  call that has not returned.
\<close>

datatype read_result = ReadBytes cstring | ReadFailed
datatype write_result = Wrote nat | WriteFailed

definition io_size :: "int \<Rightarrow> int \<Rightarrow> nat" where
  "io_size count totlen = unat (word_of_int (count - totlen) :: u64)"

fun anetRead_loop :: "read_result list \<Rightarrow> int \<Rightarrow> int \<Rightarrow> cstring \<Rightarrow> (int \<times> cstring) option" where
  "anetRead_loop [] totlen count buf = (if totlen \<noteq> count then None else Some (totlen, buf))"
| "anetRead_loop (r # rs) totlen count buf =
     (if totlen \<noteq> count
      then case r of
             ReadFailed \<Rightarrow> Some (- 1, buf)
           | ReadBytes bs \<Rightarrow>
               let got = take (io_size count totlen) bs
               in if got = [] then Some (totlen, buf)
                  else anetRead_loop rs (totlen + int (length got)) count (buf @ got)
      else Some (totlen, buf))"

definition anetRead :: "read_result list \<Rightarrow> int \<Rightarrow> (int \<times> cstring) option" where
  "anetRead rs count = anetRead_loop rs 0 count []"

text \<open>\<open>anetWrite\<close> also gives the bytes that the system has taken.\<close>

fun anetWrite_loop :: "write_result list \<Rightarrow> int \<Rightarrow> int \<Rightarrow> cstring \<Rightarrow> cstring \<Rightarrow> (int \<times> cstring) option" where
  "anetWrite_loop [] totlen count buf sent = (if totlen \<noteq> count then None else Some (totlen, sent))"
| "anetWrite_loop (r # rs) totlen count buf sent =
     (if totlen \<noteq> count
      then case r of
             WriteFailed \<Rightarrow> Some (- 1, sent)
           | Wrote k \<Rightarrow>
               let n = min k (io_size count totlen)
               in if n = 0 then Some (totlen, sent)
                  else anetWrite_loop rs (totlen + int n) count (drop n buf) (sent @ take n buf)
      else Some (totlen, sent))"

definition anetWrite :: "write_result list \<Rightarrow> cstring \<Rightarrow> int \<Rightarrow> (int \<times> cstring) option" where
  "anetWrite rs buf count = anetWrite_loop rs 0 count buf []"

section \<open>Servers\<close>

definition anetListen :: "anet \<Rightarrow> bool \<Rightarrow> bool \<Rightarrow> int \<Rightarrow> net \<Rightarrow> int \<times> net" where
  "anetListen A bind_ok listen_ok s n =
     (if \<not> bind_ok then (ANET_ERR A, sys_close s (anetSetError A (ascii ''bind: '' @ nt_strerror n) n))
      else if \<not> listen_ok then (ANET_ERR A, sys_close s (anetSetError A (ascii ''listen: '' @ nt_strerror n) n))
      else (ANET_OK A, n))"

text \<open>An address to listen on with the results of the calls.\<close>

record server_candidate =
  sc_socket :: int
  sc_v6only :: bool
  sc_reuse :: bool
  sc_bind :: bool
  sc_listen :: bool

fun server_loop :: "anet \<Rightarrow> bool \<Rightarrow> server_candidate list \<Rightarrow> net \<Rightarrow> int \<times> net" where
  "server_loop A inet6 [] n = (ANET_ERR A, anetSetError A (ascii ''unable to bind socket, errno: '' @ show_int (nt_errno n)) n)"
| "server_loop A inet6 (c # cs) n =
     (if sc_socket c = - 1 then server_loop A inet6 cs n
      else
        let s = sc_socket c;
            (r, n1) = (if inet6 then anetV6Only A (sc_v6only c) s (sys_open s n) else (ANET_OK A, sys_open s n)) in
        if inet6 \<and> r = ANET_ERR A then (ANET_ERR A, n1)
        else
          let (r2, n2) = anetSetReuseAddr A (sc_reuse c) s n1 in
          if r2 = ANET_ERR A then (ANET_ERR A, n2)
          else
            let (r3, n3) = anetListen A (sc_bind c) (sc_listen c) s n2 in
            if r3 = ANET_ERR A then (ANET_ERR A, n3) else (s, n3))"

definition anetTcpServer_af :: "anet \<Rightarrow> cstring + server_candidate list \<Rightarrow> bool \<Rightarrow> net \<Rightarrow> int \<times> net" where
  "anetTcpServer_af A servinfo inet6 n =
     (case servinfo of
        Inl e \<Rightarrow> (ANET_ERR A, anetSetError A e n)
      | Inr cs \<Rightarrow>
          let (s, n1) = server_loop A inet6 cs (n\<lparr>nt_infos := nt_infos n + 1\<rparr>)
          in (s, n1\<lparr>nt_infos := nt_infos n1 - 1\<rparr>))"

definition anetTcpServer where
  "anetTcpServer A servinfo n = anetTcpServer_af A servinfo False n"

definition anetTcp6Server where
  "anetTcp6Server A servinfo n = anetTcpServer_af A servinfo True n"

text \<open>The structure is cleared here. The mode of the file is changed for a \<open>perm\<close> other than 0; the result is ignored.\<close>

definition anetUnixServer :: "anet \<Rightarrow> int \<Rightarrow> bool \<Rightarrow> (cstring \<Rightarrow> bool) \<Rightarrow> bool \<Rightarrow> cstring \<Rightarrow> u32 \<Rightarrow> net
    \<Rightarrow> int \<times> (cstring \<times> u32) list \<times> net" where
  "anetUnixServer A fd reuse bind_ok listen_ok path perm n =
     (let (s, n1) = anetCreateSocket A fd reuse n in
      if s = ANET_ERR A then (ANET_ERR A, [], n1)
      else
        let name = take (SUN_PATH_LEN - 1) path;
            (r, n2) = anetListen A (bind_ok name) listen_ok s n1 in
        if r = ANET_ERR A then (ANET_ERR A, [], n2)
        else (s, if perm \<noteq> 0 then [(name, perm)] else [], n2))"

section \<open>Accepting\<close>

datatype accept_result = Accepted int | AcceptEintr | AcceptFailed

text \<open>\<open>None\<close> while \<open>accept\<close> has not returned.\<close>

fun anetGenericAccept :: "anet \<Rightarrow> accept_result list \<Rightarrow> net \<Rightarrow> (int \<times> net) option" where
  "anetGenericAccept A [] n = None"
| "anetGenericAccept A (r # rs) n =
     (case r of
        Accepted fd \<Rightarrow> Some (fd, sys_open fd n)
      | AcceptEintr \<Rightarrow> anetGenericAccept A rs n
      | AcceptFailed \<Rightarrow> Some (ANET_ERR A, anetSetError A (ascii ''accept: '' @ nt_strerror n) n))"

text \<open>
  The address of a socket as the system reports it, with the text of \<open>inet_ntop\<close>, and the buffers \<open>ip\<close> and \<open>port\<close> of the caller
  (\<open>None\<close> for null): the contents of \<open>ip\<close> are a string.
\<close>

datatype sock_name = NameInet cstring u16 | NameInet6 cstring u16 | NameUnix | NameOther

definition put_name :: "nat \<Rightarrow> cstring \<Rightarrow> u16 \<Rightarrow> cstring option \<times> int option \<Rightarrow> cstring option \<times> int option" where
  "put_name ip_len text p = (\<lambda>(ip, port). (map_option (inet_ntop text ip_len) ip, map_option (\<lambda>_. uint p) port))"

text \<open>\<open>else\<close> branch: the bytes of any other address are read as one of IPv6 (\<open>as6\<close>).\<close>

fun name_text :: "(sock_name \<Rightarrow> cstring \<times> u16) \<Rightarrow> sock_name \<Rightarrow> cstring \<times> u16" where
  "name_text as6 (NameInet text p) = (text, p)"
| "name_text as6 (NameInet6 text p) = (text, p)"
| "name_text as6 sa = as6 sa"

definition anetTcpAccept where
  "anetTcpAccept A rs as6 sa ip_len out n =
     (case anetGenericAccept A rs n of
        None \<Rightarrow> None
      | Some (fd, n1) \<Rightarrow>
          Some (if fd = - 1 then (ANET_ERR A, out, n1)
                else case name_text as6 sa of (text, p) \<Rightarrow> (fd, put_name ip_len text p out, n1)))"

definition anetUnixAccept :: "anet \<Rightarrow> accept_result list \<Rightarrow> net \<Rightarrow> (int \<times> net) option" where
  "anetUnixAccept A rs n =
     (case anetGenericAccept A rs n of
        None \<Rightarrow> None
      | Some (fd, n1) \<Rightarrow> Some (if fd = - 1 then (ANET_ERR A, n1) else (fd, n1)))"

section \<open>Addresses as text\<close>

text \<open>The label \<open>error\<close> of \<open>anetPeerToString\<close>.\<close>

definition peer_error :: "nat \<Rightarrow> cstring option \<times> int option \<Rightarrow> int \<times> cstring option \<times> int option" where
  "peer_error ip_len = (\<lambda>(ip, port).
     (- 1, map_option (\<lambda>buf. if ip_len \<ge> 2 then [63] else if ip_len = 1 then [] else buf) ip, map_option (\<lambda>_. 0) port))"

definition anetPeerToString :: "sock_name option \<Rightarrow> nat \<Rightarrow> cstring option \<times> int option \<Rightarrow> int \<times> cstring option \<times> int option" where
  "anetPeerToString sa ip_len out =
     (case sa of
        None \<Rightarrow> peer_error ip_len out
      | Some name \<Rightarrow>
          if ip_len = 0 then peer_error ip_len out
          else case name of
                 NameInet text p \<Rightarrow> (0, put_name ip_len text p out)
               | NameInet6 text p \<Rightarrow> (0, put_name ip_len text p out)
               | NameUnix \<Rightarrow> (0, map_option (\<lambda>_. take ip_len (ascii ''/unixsocket'')) (fst out), map_option (\<lambda>_. 0) (snd out))
               | NameOther \<Rightarrow> peer_error ip_len out)"

text \<open>The whole text of \<open>snprintf\<close> determines the result, the buffer gets what fits.\<close>

definition addr_text :: "cstring \<Rightarrow> int \<Rightarrow> cstring" where
  "addr_text ip port = (if 58 \<in> set ip then [91] @ ip @ [93, 58] @ show_int port else ip @ [58] @ show_int port)"

definition anetFormatAddr :: "nat \<Rightarrow> cstring \<Rightarrow> int \<Rightarrow> int \<times> cstring" where
  "anetFormatAddr buf_len ip port = (int (length (addr_text ip port)), snprintf buf_len (addr_text ip port))"

definition INET6_ADDRSTRLEN :: nat where "INET6_ADDRSTRLEN = 46"

definition anetFormatPeer :: "sock_name option \<Rightarrow> cstring \<Rightarrow> int \<Rightarrow> nat \<Rightarrow> int \<times> cstring" where
  "anetFormatPeer sa ip0 port0 buf_len =
     (case anetPeerToString sa INET6_ADDRSTRLEN (Some ip0, Some port0) of
        (r, ip, port) \<Rightarrow> anetFormatAddr buf_len (the ip) (the port))"

definition anetSockName where
  "anetSockName as6 sa ip_len out =
     (case sa of
        None \<Rightarrow> (case fst out of
                   None \<Rightarrow> Inl NullDeref
                 | Some _ \<Rightarrow> Inr (- 1, Some [63], map_option (\<lambda>_. 0) (snd out)))
      | Some name \<Rightarrow> (case name_text as6 name of (text, p) \<Rightarrow> Inr (0, put_name ip_len text p out)))"

definition anetFormatSock :: "(sock_name \<Rightarrow> cstring \<times> u16) \<Rightarrow> sock_name option \<Rightarrow> cstring \<Rightarrow> int \<Rightarrow> nat \<Rightarrow> (int \<times> cstring) result" where
  "anetFormatSock as6 sa ip0 port0 fmt_len =
     bindR (anetSockName as6 sa INET6_ADDRSTRLEN (Some ip0, Some port0)) (\<lambda>(r, ip, port).
       Inr (anetFormatAddr fmt_len (the ip) (the port)))"

end
