(* ===== verification/NetManagerProps.thy ===== *)
theory NetManagerProps
  imports NetManager
begin

text \<open>
  What the functions of \<open>netmanager.cpp\<close> do to the descriptors and to the bytes.
\<close>

text \<open>The values that the header of Redis documents for the constants.\<close>

definition anet_doc :: "anet \<Rightarrow> bool" where
  "anet_doc A \<longleftrightarrow> ANET_OK A = 0 \<and> ANET_ERR A = - 1"

section \<open>Descriptors\<close>

lemma anetSetError_state [simp]:
  "nt_kernel (anetSetError A t n) = nt_kernel n" "nt_infos (anetSetError A t n) = nt_infos n"
  by (simp_all add: anetSetError_def split: option.splits)

lemma sys_state [simp]:
  "nt_infos (sys_close fd n) = nt_infos n" "nt_infos (sys_open fd n) = nt_infos n"
  "kn_open (nt_kernel (sys_open fd n)) = fd # kn_open (nt_kernel n)"
  "kn_open (nt_kernel (sys_close fd n)) = removeAll fd (kn_open (nt_kernel n))"
  "kn_flags (nt_kernel (sys_open fd n)) = kn_flags (nt_kernel n)"
  "kn_flags (nt_kernel (sys_close fd n)) = kn_flags (nt_kernel n)"
  by (simp_all add: sys_open_def sys_close_def kn_close_def)

lemma set_opt_state:
  "set_opt A pre post ok fd name val n = (r, n')
    \<Longrightarrow> r = (if ok then ANET_OK A else ANET_ERR A) \<and> nt_kernel n' = nt_kernel n \<and> nt_infos n' = nt_infos n"
  by (auto simp: set_opt_def setsockopt_def split: if_splits)

lemma anetNonBlock_state:
  "anetNonBlock A g f fd n = (r, n') \<Longrightarrow> r = (if g \<and> f then ANET_OK A else ANET_ERR A)
    \<and> kn_open (nt_kernel n') = kn_open (nt_kernel n) \<and> nt_infos n' = nt_infos n
    \<and> (g \<and> f \<longrightarrow> kn_flags (nt_kernel n') fd AND O_NONBLOCK = O_NONBLOCK)"
  by (auto simp: anetNonBlock_def anetSetBlock_def Let_def bit_eq_iff bit_simps split: if_splits)

lemma connect_bind_state:
  "connect_bind A c n = (go, n') \<Longrightarrow> go = (case cd_source c of Inl e \<Rightarrow> False | Inr bs \<Rightarrow> True \<in> set bs)
    \<and> nt_kernel n' = nt_kernel n \<and> nt_infos n' = nt_infos n"
  by (auto simp: connect_bind_def Let_def split: sum.splits if_splits)

text \<open>
  Which address is taken: those whose \<open>socket\<close> or \<open>connect\<close> fails are passed over, and the first other one decides.
\<close>

definition cand_ready :: "bool \<Rightarrow> u32 \<Rightarrow> candidate \<Rightarrow> bool" where
  "cand_ready source flags c \<longleftrightarrow> cd_reuse c \<and> (flags AND ANET_CONNECT_NONBLOCK \<noteq> 0 \<longrightarrow> cd_getfl c \<and> cd_setfl c)
     \<and> (source \<longrightarrow> (case cd_source c of Inl e \<Rightarrow> False | Inr bs \<Rightarrow> True \<in> set bs))"

definition cand_skip :: "bool \<Rightarrow> u32 \<Rightarrow> candidate \<Rightarrow> bool" where
  "cand_skip source flags c \<longleftrightarrow> cd_socket c = - 1 \<or> cand_ready source flags c
     \<and> \<not> (cd_connect c = Connected \<or> cd_connect c = InProgress \<and> flags AND ANET_CONNECT_NONBLOCK \<noteq> 0)"

definition connect_choice :: "bool \<Rightarrow> u32 \<Rightarrow> candidate list \<Rightarrow> int" where
  "connect_choice source flags cs = (case dropWhile (cand_skip source flags) cs of
     [] \<Rightarrow> - 1 | c # _ \<Rightarrow> if cand_ready source flags c then cd_socket c else - 1)"

text \<open>The state after a call that has returned the descriptor \<open>s\<close>, or -1.\<close>

definition owns_new :: "u32 \<Rightarrow> int \<Rightarrow> net \<Rightarrow> net \<Rightarrow> bool" where
  "owns_new flags s n n' \<longleftrightarrow> nt_infos n' = nt_infos n
     \<and> kn_open (nt_kernel n') = (if s = - 1 then kn_open (nt_kernel n) else s # kn_open (nt_kernel n))
     \<and> (s \<noteq> - 1 \<longrightarrow> flags AND ANET_CONNECT_NONBLOCK \<noteq> 0 \<longrightarrow> kn_flags (nt_kernel n') s AND O_NONBLOCK = O_NONBLOCK)"

lemma connect_loop_exact:
  assumes "anet_doc A" and "\<forall>c\<in>set cs. cd_socket c \<notin> set (kn_open (nt_kernel n))" and "connect_loop A source flags cs (- 1) n = (s, n')"
  shows "s = connect_choice source flags cs \<and> owns_new flags s n n'"
  using assms(2,3)
proof (induction cs arbitrary: n)
  case Nil
  then show ?case using assms(1) by (auto simp: anet_doc_def connect_error_def connect_choice_def owns_new_def)
next
  case (Cons c cs)
  have A: "ANET_OK A = 0" "ANET_ERR A = - 1" using assms(1) by (simp_all add: anet_doc_def)
  show ?case
  proof (cases "cd_socket c = - 1")
    case True
    then have "cand_skip source flags c" by (simp add: cand_skip_def)
    moreover have "s = connect_choice source flags cs \<and> owns_new flags s n n'"
      using Cons.IH [of n] Cons.prems True by auto
    ultimately show ?thesis by (auto simp: connect_choice_def)
  next
    case False
    define fd where "fd = cd_socket c"
    define nonblock where "nonblock \<longleftrightarrow> flags AND ANET_CONNECT_NONBLOCK \<noteq> 0"
    have fd: "fd \<notin> set (kn_open (nt_kernel n))" using Cons.prems(1) by (simp add: fd_def)
    obtain r1 n1 where 1: "anetSetReuseAddr A (cd_reuse c) fd (sys_open fd n) = (r1, n1)" by fastforce
    obtain r2 n2 where 2: "(if nonblock then anetNonBlock A (cd_getfl c) (cd_setfl c) fd n1 else (ANET_OK A, n1)) = (r2, n2)" by fastforce
    obtain go n3 where 3: "(if source then connect_bind A c n2 else (True, n2)) = (go, n3)" by fastforce
    note s1 = set_opt_state [OF 1 [unfolded anetSetReuseAddr_def]]
    have s2: "r2 = (if nonblock \<longrightarrow> cd_getfl c \<and> cd_setfl c then 0 else - 1)" "kn_open (nt_kernel n2) = kn_open (nt_kernel n1)"
        "nt_infos n2 = nt_infos n1" "nonblock \<and> r2 = 0 \<Longrightarrow> kn_flags (nt_kernel n2) fd AND O_NONBLOCK = O_NONBLOCK"
      using 2 anetNonBlock_state [of A "cd_getfl c" "cd_setfl c" fd n1 r2 n2] A by (auto split: if_splits)
    have s3: "go \<longleftrightarrow> (source \<longrightarrow> (case cd_source c of Inl e \<Rightarrow> False | Inr bs \<Rightarrow> True \<in> set bs))"
        "nt_kernel n3 = nt_kernel n2" "nt_infos n3 = nt_infos n2"
      using 3 connect_bind_state [of A c n2 go n3] by (auto split: if_splits)
    have open3: "kn_open (nt_kernel n3) = fd # kn_open (nt_kernel n)" "nt_infos n3 = nt_infos n"
        "kn_open (nt_kernel n2) = fd # kn_open (nt_kernel n)" "nt_infos n2 = nt_infos n"
        "kn_open (nt_kernel n1) = fd # kn_open (nt_kernel n)" "nt_infos n1 = nt_infos n"
      using s1 s2 s3 by simp_all
    have step: "connect_loop A source flags (c # cs) (- 1) n =
       (if r1 = - 1 then connect_error A fd n1 else if r2 \<noteq> 0 then connect_error A fd n2
        else if \<not> go then connect_error A fd n3
        else if cd_connect c = Connected \<or> cd_connect c = InProgress \<and> nonblock then (fd, n3)
        else connect_loop A source flags cs (- 1) (sys_close fd n3))"
      using False 1 2 3 A
      by (simp add: fd_def [symmetric] nonblock_def [symmetric] Let_def split: connect_result.split)
    have ready: "cand_ready source flags c \<longleftrightarrow> r1 \<noteq> - 1 \<and> r2 = 0 \<and> go"
      using s1 s2(1) s3(1) A by (auto simp: cand_ready_def nonblock_def)
    have err: "connect_error A fd m = (- 1, sys_close fd m)" for m
      using False A by (simp add: connect_error_def fd_def)
    have rem: "removeAll fd (kn_open (nt_kernel n)) = kn_open (nt_kernel n)" using fd by simp
    show ?thesis
    proof (cases "cand_ready source flags c")
      case False
      then have "\<exists>m. connect_loop A source flags (c # cs) (- 1) n = (- 1, sys_close fd m)
          \<and> kn_open (nt_kernel m) = fd # kn_open (nt_kernel n) \<and> nt_infos m = nt_infos n"
        using ready step err open3 by auto
      then have "s = - 1 \<and> owns_new flags s n n'" using Cons.prems(2) rem by (auto simp: owns_new_def)
      moreover have "\<not> cand_skip source flags c" using False \<open>cd_socket c \<noteq> - 1\<close> by (simp add: cand_skip_def)
      ultimately show ?thesis using False by (auto simp: connect_choice_def)
    next
      case True
      show ?thesis
      proof (cases "cd_connect c = Connected \<or> cd_connect c = InProgress \<and> nonblock")
        case ok: True
        then have "s = fd" "n' = n3" using step ready True Cons.prems(2) by auto
        moreover have "\<not> cand_skip source flags c" using ok \<open>cd_socket c \<noteq> - 1\<close>
          by (auto simp: cand_skip_def nonblock_def)
        ultimately show ?thesis using True open3 s2(4) s3(2) ready \<open>cd_socket c \<noteq> - 1\<close>
          by (auto simp: connect_choice_def owns_new_def fd_def nonblock_def)
      next
        case bad: False
        then have "connect_loop A source flags cs (- 1) (sys_close fd n3) = (s, n')"
          using step ready True Cons.prems(2) by auto
        moreover have o: "kn_open (nt_kernel (sys_close fd n3)) = kn_open (nt_kernel n)" "nt_infos (sys_close fd n3) = nt_infos n"
          using open3 rem by simp_all
        ultimately have "s = connect_choice source flags cs \<and> owns_new flags s (sys_close fd n3) n'"
          using Cons.IH [of "sys_close fd n3"] Cons.prems(1) by auto
        moreover have "cand_skip source flags c" using bad True by (simp add: cand_skip_def nonblock_def)
        ultimately show ?thesis using o by (auto simp: connect_choice_def owns_new_def)
      qed
    qed
  qed
qed

definition info_choice :: "bool \<Rightarrow> u32 \<Rightarrow> cstring + candidate list \<Rightarrow> int" where
  "info_choice source flags info = (case info of Inl e \<Rightarrow> - 1 | Inr cs \<Rightarrow> connect_choice source flags cs)"

definition fresh_sockets :: "cstring + candidate list \<Rightarrow> net \<Rightarrow> bool" where
  "fresh_sockets info n \<longleftrightarrow> (case info of Inl e \<Rightarrow> True
     | Inr cs \<Rightarrow> \<forall>c\<in>set cs. cd_socket c \<notin> set (kn_open (nt_kernel n)))"

lemma connect_once_exact:
  assumes "anet_doc A" and "fresh_sockets info n" and "connect_once A info source flags n = ((s, n'), again)"
  shows "s = info_choice source flags info \<and> owns_new flags s n n'
    \<and> (again \<longleftrightarrow> (\<exists>cs. info = Inr cs) \<and> s = - 1 \<and> source \<and> flags AND ANET_CONNECT_BE_BINDING \<noteq> 0)"
proof (cases info)
  case (Inl e)
  with assms(1,3) show ?thesis by (auto simp: connect_once_def info_choice_def owns_new_def anet_doc_def)
next
  case (Inr cs)
  let ?n = "n\<lparr>nt_infos := nt_infos n + 1\<rparr>"
  have A: "ANET_ERR A = - 1" using assms(1) by (simp add: anet_doc_def)
  obtain t m where l: "connect_loop A source flags cs (- 1) ?n = (t, m)" by fastforce
  have "\<forall>c\<in>set cs. cd_socket c \<notin> set (kn_open (nt_kernel ?n))" using assms(2) Inr by (simp add: fresh_sockets_def)
  from connect_loop_exact [OF assms(1) this l] l assms(3) Inr A show ?thesis
    by (auto simp: connect_once_def info_choice_def owns_new_def)
qed

section \<open>Servers and local sockets\<close>

lemma anetListen_state:
  "anet_doc A \<Longrightarrow> anetListen A b l fd n = (r, n') \<Longrightarrow> r = (if b \<and> l then 0 else - 1) \<and> nt_infos n' = nt_infos n
    \<and> kn_open (nt_kernel n') = (if b \<and> l then kn_open (nt_kernel n) else removeAll fd (kn_open (nt_kernel n)))"
  by (auto simp: anetListen_def anet_doc_def split: if_splits)

lemma anetV6Only_state:
  "anet_doc A \<Longrightarrow> anetV6Only A ok fd n = (r, n') \<Longrightarrow> r = (if ok then 0 else - 1) \<and> nt_infos n' = nt_infos n
    \<and> kn_open (nt_kernel n') = (if ok then kn_open (nt_kernel n) else removeAll fd (kn_open (nt_kernel n)))"
  by (auto simp: anetV6Only_def setsockopt_def anet_doc_def split: if_splits)

text \<open>
  The first address with a socket decides; when only \<open>SO_REUSEADDR\<close> fails the socket stays open and nobody has its
  number.
\<close>

lemma server_loop_exact:
  assumes "anet_doc A" and "\<forall>c\<in>set cs. sc_socket c \<notin> set (kn_open (nt_kernel n))"
  shows "case server_loop A inet6 cs n of (s, n') \<Rightarrow> nt_infos n' = nt_infos n
    \<and> (case dropWhile (\<lambda>c. sc_socket c = - 1) cs of
         [] \<Rightarrow> s = - 1 \<and> kn_open (nt_kernel n') = kn_open (nt_kernel n)
       | c # _ \<Rightarrow>
           if inet6 \<and> \<not> sc_v6only c then s = - 1 \<and> kn_open (nt_kernel n') = kn_open (nt_kernel n)
           else if \<not> sc_reuse c then s = - 1 \<and> kn_open (nt_kernel n') = sc_socket c # kn_open (nt_kernel n)
           else if sc_bind c \<and> sc_listen c then s = sc_socket c \<and> kn_open (nt_kernel n') = s # kn_open (nt_kernel n)
           else s = - 1 \<and> kn_open (nt_kernel n') = kn_open (nt_kernel n))"
  using assms(2)
proof (induction cs arbitrary: n)
  case Nil
  then show ?case using assms(1) by (simp add: anet_doc_def)
next
  case (Cons c cs)
  have A: "ANET_OK A = 0" "ANET_ERR A = - 1" using assms(1) by (simp_all add: anet_doc_def)
  show ?case
  proof (cases "sc_socket c = - 1")
    case True
    with Cons show ?thesis by simp
  next
    case False
    define fd where "fd = sc_socket c"
    have fd: "removeAll fd (kn_open (nt_kernel n)) = kn_open (nt_kernel n)" using Cons.prems by (simp add: fd_def)
    obtain r1 n1 where 1: "(if inet6 then anetV6Only A (sc_v6only c) fd (sys_open fd n) else (ANET_OK A, sys_open fd n)) = (r1, n1)"
      by fastforce
    obtain r2 n2 where 2: "anetSetReuseAddr A (sc_reuse c) fd n1 = (r2, n2)" by fastforce
    obtain r3 n3 where 3: "anetListen A (sc_bind c) (sc_listen c) fd n2 = (r3, n3)" by fastforce
    have s1: "r1 = (if inet6 \<and> \<not> sc_v6only c then - 1 else 0)" "nt_infos n1 = nt_infos n"
        "kn_open (nt_kernel n1) = (if inet6 \<and> \<not> sc_v6only c then kn_open (nt_kernel n) else fd # kn_open (nt_kernel n))"
      using 1 anetV6Only_state [OF assms(1), of "sc_v6only c" fd "sys_open fd n" r1 n1] A fd by (auto split: if_splits)
    note s2 = set_opt_state [OF 2 [unfolded anetSetReuseAddr_def]]
    note s3 = anetListen_state [OF assms(1) 3]
    have step: "server_loop A inet6 (c # cs) n = (if inet6 \<and> r1 = - 1 then (- 1, n1) else if r2 = - 1 then (- 1, n2)
        else if r3 = - 1 then (- 1, n3) else (fd, n3))"
      using False 1 2 3 A by (simp add: fd_def [symmetric] Let_def)
    show ?thesis unfolding step using s1 s2 s3 False fd A by (auto simp: fd_def [symmetric])
  qed
qed

text \<open>
  A local socket: the descriptor is new on success, and none is left otherwise, except when it cannot be made
  non-blocking; then it stays open and nobody has its number.
\<close>

lemma unix_connect_exact:
  assumes "anet_doc A" and "fd \<notin> set (kn_open (nt_kernel n))"
    and "anetUnixGenericConnect A fd reuse getfl setfl junk connect path flags n = (s, n')"
  shows "kn_open (nt_kernel n') =
     (if fd \<noteq> - 1 \<and> reuse \<and> flags AND ANET_CONNECT_NONBLOCK \<noteq> 0 \<and> \<not> (getfl \<and> setfl) then fd # kn_open (nt_kernel n)
      else if s = - 1 then kn_open (nt_kernel n) else s # kn_open (nt_kernel n))"
    and "s \<noteq> - 1 \<Longrightarrow> s = fd \<and> reuse \<and> (connect (unix_connect_name junk path) = Connected
      \<or> connect (unix_connect_name junk path) = InProgress \<and> flags AND ANET_CONNECT_NONBLOCK \<noteq> 0)"
proof -
  have A: "ANET_OK A = 0" "ANET_ERR A = - 1" using assms(1) by (simp_all add: anet_doc_def)
  obtain t n1 where c: "anetCreateSocket A fd reuse n = (t, n1)" by fastforce
  have t: "t = (if fd \<noteq> - 1 \<and> reuse then fd else - 1)"
      "kn_open (nt_kernel n1) = (if fd \<noteq> - 1 \<and> reuse then fd # kn_open (nt_kernel n) else kn_open (nt_kernel n))"
    using c A assms(2) by (auto simp: anetCreateSocket_def anetSetReuseAddr_def dest!: set_opt_state split: if_splits prod.splits)
  obtain r n2 where b: "(if flags AND ANET_CONNECT_NONBLOCK \<noteq> 0 then anetNonBlock A getfl setfl t n1 else (ANET_OK A, n1)) = (r, n2)"
    by fastforce
  have r: "r = (if flags AND ANET_CONNECT_NONBLOCK \<noteq> 0 \<and> \<not> (getfl \<and> setfl) then - 1 else 0)"
      "kn_open (nt_kernel n2) = kn_open (nt_kernel n1)"
    using b anetNonBlock_state [of A getfl setfl t n1 r n2] A by (auto split: if_splits)
  have step: "(s, n') = (if t = - 1 then (- 1, n1) else if r \<noteq> 0 then (- 1, n2)
      else if connect (unix_connect_name junk path) = Connected
         \<or> connect (unix_connect_name junk path) = InProgress \<and> flags AND ANET_CONNECT_NONBLOCK \<noteq> 0 then (t, n2)
      else (- 1, sys_close t (anetSetError A (ascii ''connect: '' @ nt_strerror n2) n2)))"
    unfolding assms(3) [symmetric] anetUnixGenericConnect_def c prod.case Let_def b
    by (auto simp: A split: connect_result.split)
  have rem: "removeAll fd (kn_open (nt_kernel n)) = kn_open (nt_kernel n)" using assms(2) by simp
  show "kn_open (nt_kernel n') =
     (if fd \<noteq> - 1 \<and> reuse \<and> flags AND ANET_CONNECT_NONBLOCK \<noteq> 0 \<and> \<not> (getfl \<and> setfl) then fd # kn_open (nt_kernel n)
      else if s = - 1 then kn_open (nt_kernel n) else s # kn_open (nt_kernel n))"
    using step t r rem by (auto split: if_splits)
  show "s \<noteq> - 1 \<Longrightarrow> s = fd \<and> reuse \<and> (connect (unix_connect_name junk path) = Connected
      \<or> connect (unix_connect_name junk path) = InProgress \<and> flags AND ANET_CONNECT_NONBLOCK \<noteq> 0)"
    using step t r by (auto split: if_splits)
qed

section \<open>Reading and writing\<close>

lemma io_size_eq: "0 \<le> count - totlen \<Longrightarrow> count - totlen < 2 ^ 64 \<Longrightarrow> io_size count totlen = nat (count - totlen)"
proof -
  assume a: "0 \<le> count - totlen" "count - totlen < 2 ^ 64"
  then obtain m where m: "count - totlen = int m" by (metis nonneg_int_cases)
  then have "m < 2 ^ 64" using a(2) by simp
  then show ?thesis using m by (simp add: io_size_def unat_of_nat_small)
qed

text \<open>What has been read is a prefix of what the system had, and is \<open>count\<close> bytes unless it ran out or an error came.\<close>

lemma anetRead_loop_exact:
  assumes "anetRead_loop rs (int (length buf)) count buf = Some (r, out)" and "int (length buf) \<le> count" and "count < 2 ^ 31"
  shows "int (length out) \<le> count
    \<and> (r = - 1 \<and> ReadFailed \<in> set rs \<or> r = int (length out) \<and> (r < count \<longrightarrow> ReadBytes [] \<in> set rs))
    \<and> (\<exists>k. out = buf @ take (nat count - length buf) (concat (map (case_read_result id []) (take k rs))))"
  using assms
proof (induction rs arbitrary: buf)
  case Nil
  then show ?case by (auto split: if_splits)
next
  case (Cons x rs)
  show ?case
  proof (cases "int (length buf) = count")
    case True
    then have "r = count" "out = buf" using Cons.prems(1) by simp_all
    with True show ?thesis by (auto intro: exI [of _ 0])
  next
    case False
    show ?thesis
    proof (cases x)
      case ReadFailed
      with False Cons.prems show ?thesis by (auto intro: exI [of _ 0])
    next
      case (ReadBytes bs)
      define m where "m = nat (count - int (length buf))"
      have m: "io_size count (int (length buf)) = m" "0 < m" "m = nat count - length buf"
        using Cons.prems(2,3) False by (simp_all add: m_def io_size_eq)
      show ?thesis
      proof (cases "take m bs = []")
        case True
        with m have "bs = []" by simp
        with False ReadBytes Cons.prems m show ?thesis by (auto intro: exI [of _ 0])
      next
        case ne: False
        let ?buf = "buf @ take m bs"
        have "anetRead_loop rs (int (length ?buf)) count ?buf = Some (r, out)"
          using Cons.prems(1) False ReadBytes ne m(1) by (simp split: if_splits)
        moreover have "int (length ?buf) \<le> count" using m Cons.prems(2) by (simp add: m_def)
        ultimately obtain k where k: "int (length out) \<le> count"
            "r = - 1 \<and> ReadFailed \<in> set rs \<or> r = int (length out) \<and> (r < count \<longrightarrow> ReadBytes [] \<in> set rs)"
            "out = ?buf @ take (nat count - length ?buf) (concat (map (case_read_result id []) (take k rs)))"
          using Cons.IH [of ?buf] Cons.prems(3) by blast
        have "out = buf @ take (nat count - length buf) (concat (map (case_read_result id []) (take (Suc k) (x # rs))))"
          using k(3) ReadBytes m(3) by (simp add: min_def)
        with k(1,2) show ?thesis by (metis list.set_intros(2))
      qed
    qed
  qed
qed

lemma anetRead_loop_returns:
  assumes "int (length buf) \<le> count" and "count < 2 ^ 31" and "nat count \<le> length buf + length rs"
  shows "anetRead_loop rs (int (length buf)) count buf \<noteq> None"
  using assms
proof (induction rs arbitrary: buf)
  case (Cons x rs)
  show ?case
  proof (cases x)
    case (ReadBytes bs)
    define m where "m = nat (count - int (length buf))"
    have m: "io_size count (int (length buf)) = m" using Cons.prems(1,2) by (simp add: m_def io_size_eq)
    have "anetRead_loop rs (int (length (buf @ take m bs))) count (buf @ take m bs) \<noteq> None" if "take m bs \<noteq> []"
      using that Cons.prems by (intro Cons.IH; cases bs) (auto simp: m_def min_def split: if_splits)
    with ReadBytes m show ?thesis by (auto simp: Let_def)
  qed simp
qed simp

text \<open>What has been written is a prefix of the buffer, and all \<open>count\<close> bytes unless the system took none or failed.\<close>

lemma anetWrite_loop_exact:
  assumes "anetWrite_loop ws (int (length sent)) count buf sent = Some (r, out)" and "int (length sent) \<le> count"
    and "count < 2 ^ 31" and "count \<le> int (length sent + length buf)"
  shows "int (length out) \<le> count \<and> (\<exists>k. out = sent @ take k buf)
    \<and> (r = - 1 \<and> WriteFailed \<in> set ws \<or> r = int (length out) \<and> (r < count \<longrightarrow> Wrote 0 \<in> set ws))"
  using assms
proof (induction ws arbitrary: buf sent)
  case Nil
  then show ?case by (auto split: if_splits intro: exI [of _ 0])
next
  case (Cons x ws)
  show ?case
  proof (cases "int (length sent) = count")
    case True
    then have "r = count" "out = sent" using Cons.prems(1) by simp_all
    with True show ?thesis by (auto intro: exI [of _ 0])
  next
    case False
    show ?thesis
    proof (cases x)
      case WriteFailed
      with False Cons.prems show ?thesis by (auto intro: exI [of _ 0])
    next
      case (Wrote k)
      define n where "n = min k (nat (count - int (length sent)))"
      have sz: "io_size count (int (length sent)) = nat (count - int (length sent))"
        using Cons.prems(2,3) by (simp add: io_size_eq)
      show ?thesis
      proof (cases "n = 0")
        case True
        then have "k = 0" using False Cons.prems(2) by (auto simp: n_def min_def split: if_splits)
        with False Wrote Cons.prems sz show ?thesis by (auto intro: exI [of _ 0])
      next
        case ne: False
        have len: "n \<le> length buf" using Cons.prems(4) by (auto simp: n_def)
        have "anetWrite_loop ws (int (length (sent @ take n buf))) count (drop n buf) (sent @ take n buf) = Some (r, out)"
          using Cons.prems(1) False Wrote ne len by (simp add: sz n_def [symmetric] Let_def)
        moreover have "int (length (sent @ take n buf)) \<le> count" using len Cons.prems(2) by (auto simp: n_def)
        moreover have "count \<le> int (length (sent @ take n buf) + length (drop n buf))" using len Cons.prems(4) by simp
        ultimately obtain j where j: "int (length out) \<le> count" "out = (sent @ take n buf) @ take j (drop n buf)"
            "r = - 1 \<and> WriteFailed \<in> set ws \<or> r = int (length out) \<and> (r < count \<longrightarrow> Wrote 0 \<in> set ws)"
          using Cons.IH Cons.prems(3) by blast
        have "out = sent @ take (n + j) buf" using j(2) by (simp add: take_add)
        with j(1,3) show ?thesis by auto
      qed
    qed
  qed
qed

section \<open>Addresses as text\<close>

lemma show_nat_digit:
  assumes "c \<in> set (show_nat 10 n)" shows "digit_val 10 c \<noteq> None"
proof -
  from assms obtain d where "d \<in> set (nat_digits 10 n)" "c = digit_char d" by (auto simp: show_nat_def)
  with nat_digits_bound [of 10 n] digit_val_char [of d 10] show ?thesis by auto
qed

lemma show_int_chars:
  assumes "c \<in> set (show_int i)" shows "c \<noteq> 58 \<and> c \<noteq> 91 \<and> c \<noteq> 93"
proof -
  have "c = 45 \<or> digit_val 10 c \<noteq> None" using assms show_nat_digit by (auto simp: show_int_def split: if_splits)
  then show ?thesis by (auto simp: digit_val_def word_le_nat_alt)
qed

lemma show_int_inj: "\<bar>i\<bar> \<le> LONG_MAX \<Longrightarrow> \<bar>j\<bar> \<le> LONG_MAX \<Longrightarrow> show_int i = show_int j \<Longrightarrow> i = j"
proof -
  assume a: "\<bar>i\<bar> \<le> LONG_MAX" "\<bar>j\<bar> \<le> LONG_MAX" "show_int i = show_int j"
  have "i = strtol 10 (show_int i)" by (rule strtol_show_int [symmetric]) (use a(1) in linarith)+
  also have "\<dots> = strtol 10 (show_int j)" by (simp only: a(3))
  also have "\<dots> = j" by (rule strtol_show_int) (use a(2) in linarith)+
  finally show ?thesis .
qed

lemma split_first: "x \<notin> set as \<Longrightarrow> x \<notin> set bs \<Longrightarrow> as @ x # xs = bs @ x # ys \<longleftrightarrow> as = bs \<and> xs = ys"
proof (induction as arbitrary: bs)
  case Nil
  then show ?case by (cases bs) auto
next
  case (Cons a as)
  then show ?case by (cases bs) auto
qed

lemma split_last: "x \<notin> set as \<Longrightarrow> x \<notin> set bs \<Longrightarrow> xs @ x # as = ys @ x # bs \<longleftrightarrow> xs = ys \<and> as = bs"
proof -
  assume a: "x \<notin> set as" "x \<notin> set bs"
  have "xs @ x # as = ys @ x # bs \<longleftrightarrow> rev (xs @ x # as) = rev (ys @ x # bs)" by (simp only: rev_is_rev_conv)
  also have "\<dots> \<longleftrightarrow> rev as = rev bs \<and> rev xs = rev ys"
    using a split_first [of x "rev as" "rev bs" "rev xs" "rev ys"] by simp
  finally show ?thesis by auto
qed

text \<open>The text of an address determines it: an address of IPv6 has colons, but then it is between brackets.\<close>

lemma addr_text_inj:
  assumes "addr_text ip p = addr_text jp q" and "91 \<notin> set ip" and "91 \<notin> set jp" and "\<bar>p\<bar> \<le> LONG_MAX" and "\<bar>q\<bar> \<le> LONG_MAX"
  shows "ip = jp \<and> p = q"
proof -
  define pre where "pre = (\<lambda>ip. if 58 \<in> set ip then [91] @ ip @ [93] else ip :: cstring)"
  have t: "addr_text ip p = pre ip @ 58 # show_int p" for ip p by (simp add: addr_text_def pre_def)
  have n: "58 \<notin> set (show_int p)" for p using show_int_chars by blast
  have "pre ip = pre jp \<and> show_int p = show_int q" using assms(1) n unfolding t by (subst (asm) split_last) auto
  moreover have "pre ip = pre jp \<Longrightarrow> ip = jp" using assms(2,3) by (auto simp: pre_def split: if_splits)
  ultimately show ?thesis using show_int_inj assms(4,5) by blast
qed

section \<open>Properties\<close>

text \<open>C31. Connecting by name, with or without a source address, takes the descriptor of the first address that can be used, or
  none: the addresses whose \<open>socket\<close> or \<open>connect\<close> fails are passed over, any other failure ends the search, and a best-effort
  binding is tried again without the source address. On success exactly that descriptor is new, and it is
  non-blocking when that was asked for; on failure the descriptors that are open are those from before; every list
  of addresses is freed.\<close>

theorem anet_connect_exact:
  assumes "anet_doc A" and "fresh_sockets first n" and "fresh_sockets second n"
    and "anetTcpGenericConnect A first second source flags n = (s, n')"
  shows "s = (let a = info_choice source flags first in
        if a = - 1 \<and> (\<exists>cs. first = Inr cs) \<and> source \<and> flags AND ANET_CONNECT_BE_BINDING \<noteq> 0 then info_choice False flags second else a)
    \<and> nt_infos n' = nt_infos n
    \<and> kn_open (nt_kernel n') = (if s = - 1 then kn_open (nt_kernel n) else s # kn_open (nt_kernel n))
    \<and> (s \<noteq> - 1 \<longrightarrow> flags AND ANET_CONNECT_NONBLOCK \<noteq> 0 \<longrightarrow> kn_flags (nt_kernel n') s AND O_NONBLOCK = O_NONBLOCK)"
proof -
  obtain a n1 again where 1: "connect_once A first source flags n = ((a, n1), again)" by (metis prod.collapse)
  note x = connect_once_exact [OF assms(1,2) 1]
  show ?thesis
  proof (cases again)
    case False
    with 1 assms(4) have "s = a" "n' = n1" by (simp_all add: anetTcpGenericConnect_def)
    with x False show ?thesis by (auto simp: owns_new_def Let_def)
  next
    case True
    obtain b n2 again2 where 2: "connect_once A second False flags n1 = ((b, n2), again2)" by (metis prod.collapse)
    have "s = b" "n' = n2" using 1 2 True assms(4) by (simp_all add: anetTcpGenericConnect_def)
    moreover have "fresh_sockets second n1" using x True assms(3) by (auto simp: fresh_sockets_def owns_new_def split: sum.splits)
    note y = connect_once_exact [OF assms(1) this 2]
    ultimately show ?thesis using x y True by (auto simp: owns_new_def Let_def)
  qed
qed

definition anet_example :: anet where
  "anet_example = \<lparr>ANET_OK = 0, ANET_ERR = - 1, ANET_NONE = 0, ANET_IP_ONLY = 1, ANET_ERR_LEN = 256\<rparr>"

definition net_example :: net where
  "net_example = \<lparr>nt_kernel = \<lparr>kn_open = [0], kn_flags = \<lambda>_. 0\<rparr>, nt_opts = [], nt_infos = 0, nt_err = Some [], nt_errno = 0,
     nt_strerror = []\<rparr>"

definition cand_example :: "int \<Rightarrow> connect_result \<Rightarrow> candidate" where
  "cand_example fd c = \<lparr>cd_socket = fd, cd_reuse = True, cd_getfl = True, cd_setfl = True, cd_source = Inr [False], cd_connect = c\<rparr>"

theorem anet_connect_exact_witness:
  "\<exists>n'. anetTcpGenericConnect anet_example (Inr [cand_example 4 Connected]) (Inr [cand_example 4 Refused, cand_example 5 InProgress])
      True (ANET_CONNECT_NONBLOCK OR ANET_CONNECT_BE_BINDING) net_example = (5, n') \<and> kn_open (nt_kernel n') = [5, 0]"
proof -
  let ?flags = "ANET_CONNECT_NONBLOCK OR ANET_CONNECT_BE_BINDING"
  obtain s n' where r: "anetTcpGenericConnect anet_example (Inr [cand_example 4 Connected])
      (Inr [cand_example 4 Refused, cand_example 5 InProgress]) True ?flags net_example = (s, n')" by fastforce
  have "anet_doc anet_example" by (simp add: anet_doc_def anet_example_def)
  moreover have "fresh_sockets (Inr [cand_example 4 Connected]) net_example"
    "fresh_sockets (Inr [cand_example 4 Refused, cand_example 5 InProgress]) net_example"
    by (simp_all add: fresh_sockets_def cand_example_def net_example_def)
  ultimately have "s = 5 \<and> kn_open (nt_kernel n') = [5, 0]"
    using anet_connect_exact [OF _ _ _ r]
    by (simp add: info_choice_def connect_choice_def cand_skip_def cand_ready_def cand_example_def ANET_CONNECT_NONBLOCK_def
        ANET_CONNECT_BE_BINDING_def net_example_def)
  with r show ?thesis by blast
qed

text \<open>\<open>anetRead\<close> and \<open>anetWrite\<close> carry whole blocks: when they return \<open>count\<close>, the first \<open>count\<close> bytes that the system had are in
  the buffer, or the first \<open>count\<close> bytes of the buffer have been taken; a smaller result is the number of
  bytes up to the end of the file (a \<open>write\<close> that takes none), and -1 is an error of the system. They never go past
  \<open>count\<close>, and \<open>anetRead\<close> returns after at most \<open>count\<close> calls.\<close>

lemma anet_blocks_exact:
  assumes "0 \<le> count" and "count < 2 ^ 31" and "count \<le> int (length buf)"
  shows "(\<forall>r got. anetRead rs count = Some (r, got) \<longrightarrow> int (length got) \<le> count
      \<and> (\<exists>k. got = take (nat count) (concat (map (case_read_result id []) (take k rs))))
      \<and> (r = - 1 \<and> ReadFailed \<in> set rs \<or> r = int (length got) \<and> (r < count \<longrightarrow> ReadBytes [] \<in> set rs)))
    \<and> (nat count \<le> length rs \<longrightarrow> anetRead rs count \<noteq> None)
    \<and> (\<forall>r sent. anetWrite ws buf count = Some (r, sent) \<longrightarrow> int (length sent) \<le> count \<and> (\<exists>k. sent = take k buf)
      \<and> (r = - 1 \<and> WriteFailed \<in> set ws \<or> r = int (length sent) \<and> (r < count \<longrightarrow> Wrote 0 \<in> set ws)))"
proof (intro conjI allI impI)
  fix r got
  assume "anetRead rs count = Some (r, got)"
  then have "anetRead_loop rs (int (length ([] :: cstring))) count [] = Some (r, got)" by (simp add: anetRead_def)
  from anetRead_loop_exact [OF this _ assms(2)] assms(1) show "int (length got) \<le> count"
    "\<exists>k. got = take (nat count) (concat (map (case_read_result id []) (take k rs)))"
    "r = - 1 \<and> ReadFailed \<in> set rs \<or> r = int (length got) \<and> (r < count \<longrightarrow> ReadBytes [] \<in> set rs)" by simp_all
next
  assume "nat count \<le> length rs"
  with anetRead_loop_returns [of "[]" count rs] assms show "anetRead rs count \<noteq> None" by (simp add: anetRead_def)
next
  fix r sent
  assume "anetWrite ws buf count = Some (r, sent)"
  then have "anetWrite_loop ws (int (length ([] :: cstring))) count buf [] = Some (r, sent)" by (simp add: anetWrite_def)
  from anetWrite_loop_exact [OF this _ assms(2)] assms(1,3) show "int (length sent) \<le> count" "\<exists>k. sent = take k buf"
    "r = - 1 \<and> WriteFailed \<in> set ws \<or> r = int (length sent) \<and> (r < count \<longrightarrow> Wrote 0 \<in> set ws)" by auto
qed

lemma anet_blocks_exact_witness:
  "anetRead [ReadBytes [1, 2], ReadBytes [3], ReadBytes [4, 5]] 4 = Some (4, [1, 2, 3, 4])
    \<and> (4 :: int) = int (length [1, 2, 3, 4 :: byte]) \<and> anetWrite [Wrote 1, Wrote 9] [7, 8, 9] 3 = Some (3, [7, 8, 9])"
proof -
  have r: "anetRead [ReadBytes [1, 2], ReadBytes [3], ReadBytes [4, 5]] 4 = Some (4, [1, 2, 3, 4])"
    "anetWrite [Wrote 1, Wrote 9] [7, 8, 9] 3 = Some (3, [7, 8, 9])" by code_simp+
  have "(4 :: int) = int (length [1, 2, 3, 4 :: byte])"
    using anet_blocks_exact [of 4 "[0, 0, 0, 0]" "[ReadBytes [1, 2], ReadBytes [3], ReadBytes [4, 5]]" "[]"] r(1) by auto
  with r show ?thesis by blast
qed

end
