(* ===== verification/Daemon.thy ===== *)
theory Daemon
  imports Prelude
begin

text \<open>
  \<open>utils/daemonize.h\<close>: the process goes on in a child, with \<open>/dev/null\<close> as its standard descriptors. The call in \<open>main\<close> is
  disabled by the preprocessor. The results of \<open>fork\<close> and \<open>open\<close> are parameters.
\<close>

text \<open>The files behind the descriptors of a process.\<close>

datatype fd_file = DevNull | OtherFile nat

type_synonym fd_table = "int \<Rightarrow> fd_file option"

definition dup2 :: "int \<Rightarrow> int \<Rightarrow> fd_table \<Rightarrow> fd_table" where
  "dup2 oldfd newfd t = (case t oldfd of None \<Rightarrow> t | Some f \<Rightarrow> t(newfd \<mapsto> f))"

definition STDIN_FILENO :: int where "STDIN_FILENO = 0"
definition STDOUT_FILENO :: int where "STDOUT_FILENO = 1"
definition STDERR_FILENO :: int where "STDERR_FILENO = 2"

text \<open>What becomes of the process: it exits with a status or goes on. \<open>fork\<close> is \<open>- 1\<close> when it fails and 0 in the child.\<close>

datatype daemon_end = Exits int | GoesOn fd_table

definition daemonize :: "int \<Rightarrow> int \<Rightarrow> fd_table \<Rightarrow> daemon_end" where
  "daemonize p fd t =
     (if p \<noteq> 0 then Exits 0
      else if - 1 \<noteq> fd then
        let t0 = t(fd \<mapsto> DevNull);
            t1 = dup2 fd STDIN_FILENO t0;
            t2 = dup2 fd STDOUT_FILENO t1;
            t3 = dup2 fd STDERR_FILENO t2
        in GoesOn (if fd > STDERR_FILENO then t3(fd := None) else t3)
      else GoesOn t)"

text \<open>\<open>open\<close> gives the lowest number that is free; whichever that is, nothing but the standard descriptors changes.\<close>

definition open_gives :: "fd_table \<Rightarrow> int \<Rightarrow> bool" where
  "open_gives t fd \<longleftrightarrow> fd = - 1 \<or> 0 \<le> fd \<and> t fd = None \<and> (\<forall>n. 0 \<le> n \<and> n < fd \<longrightarrow> t n \<noteq> None)"

lemma daemonize_exact:
  assumes "open_gives t fd"
  shows "daemonize p fd t = (if p \<noteq> 0 then Exits 0 else if fd = - 1 then GoesOn t
    else GoesOn (t(STDIN_FILENO \<mapsto> DevNull, STDOUT_FILENO \<mapsto> DevNull, STDERR_FILENO \<mapsto> DevNull)))"
proof -
  have "0 \<le> fd \<and> fd \<le> 2 \<Longrightarrow> fd = 0 \<or> fd = 1 \<or> fd = 2" by arith
  with assms show ?thesis
    by (cases "fd \<le> 2")
      (auto simp: daemonize_def open_gives_def dup2_def STDIN_FILENO_def STDOUT_FILENO_def STDERR_FILENO_def fun_eq_iff)
qed

text \<open>
  Without a child the program ends with the status of success; and the daemon keeps the terminal when \<open>/dev/null\<close> cannot
  be opened.
\<close>

lemma daemonize_fork_fails: "daemonize (- 1) fd t = Exits 0" "daemonize 0 (- 1) t = GoesOn t"
  by (simp_all add: daemonize_def)

end
