(* ===== verification/Helpers.thy ===== *)
theory Helpers
  imports CLib
begin

text \<open>
  The small parts of \<open>utils/\<close> that keep no state of their own: the time functions of \<open>wtime.cpp\<close> and the
  log of \<open>logging.cpp\<close>. The clock, the formatted text and the
  results of the system calls are parameters.
\<close>

section \<open>wtime.cpp\<close>

text \<open>\<open>gettimeofday\<close> gives seconds and microseconds as 64-bit integers.\<close>

type_synonym i64 = "64 word"

definition get_stime :: "i64 \<times> i64 \<Rightarrow> u32" where
  "get_stime tv = ucast (fst tv)"

definition get_ustime :: "i64 \<times> i64 \<Rightarrow> i64" where
  "get_ustime tv = fst tv * 1000000 + snd tv"

text \<open>The division of C rounds towards zero; the microseconds are never negative.\<close>

definition get_mstime :: "i64 \<times> i64 \<Rightarrow> i64" where
  "get_mstime tv = fst tv * 1000 + snd tv div 1000"

definition get_time_pair :: "i64 \<times> i64 \<Rightarrow> u32 \<times> u32" where
  "get_time_pair tv = (ucast (fst tv), ucast (snd tv) div 1000)"

section \<open>logging.cpp\<close>

definition LOG_MAX :: int where "LOG_MAX = 6"
definition LOG_MAX_LEN :: nat where "LOG_MAX_LEN = 1024"

definition logLevelMap :: "string list" where
  "logLevelMap = [''TRACE'', ''DEBUG'', ''INFO'', ''WARN'', ''ERR'', ''FATAL'']"

record Log =
  log_level :: int
  log_name :: "byte list"

definition Log_SetLogLevel :: "int \<Rightarrow> Log \<Rightarrow> Log" where
  "Log_SetLogLevel level l = l\<lparr>log_level := level\<rparr>"

definition Log_SetLogName :: "byte list \<Rightarrow> Log \<Rightarrow> Log" where
  "Log_SetLogName name l = l\<lparr>log_name := name\<rparr>"

text \<open>
  What a call of \<open>Printf\<close> writes: nothing, the complaint that the file does not open, or a line, to the standard
  output (\<open>None\<close>) or the file, with the name of the level, the place and the text, cut to the buffer.
\<close>

datatype log_output = NoOutput | OpenError | LogLine "byte list option" string "byte list" "byte list" int "byte list"

definition Log_Printf :: "bool \<Rightarrow> byte list \<Rightarrow> int \<Rightarrow> byte list \<Rightarrow> int \<Rightarrow> byte list \<Rightarrow> Log \<Rightarrow> log_output result" where
  "Log_Printf opened time level file line msg l =
     (if level < log_level l \<or> level \<ge> LOG_MAX then Inr NoOutput
      else if log_name l \<noteq> [] \<and> \<not> opened then Inr OpenError
      else if level < 0 then Inl OutOfBounds
      else Inr (LogLine (if log_name l = [] then None else Some (log_name l)) (logLevelMap ! nat level) time file line
                  (take (LOG_MAX_LEN - 1) msg)))"

section \<open>Properties\<close>

text \<open>
  For a time that \<open>gettimeofday\<close> gives, and no more than 2^63 microseconds, the functions are the seconds,
  milliseconds and microseconds of the one clock, rounded down.
\<close>

lemma time_units:
  assumes "unat s * 1000000 + 999999 < 2 ^ 63" and "unat us < 1000000"
  shows "unat (get_ustime (s, us)) = unat s * 1000000 + unat us"
    and "unat (get_mstime (s, us)) = unat (get_ustime (s, us)) div 1000"
    and "unat (get_stime (s, us)) = unat (get_ustime (s, us)) div 1000000 mod 2 ^ 32"
    and "get_time_pair (s, us) = (get_stime (s, us), of_nat (unat us div 1000))"
proof -
  have u: "unat (get_ustime (s, us)) = unat s * 1000000 + unat us" using assms
    by (simp add: get_ustime_def unat_word_ariths)
  have m: "unat (s * 1000) = unat s * 1000" "unat (us div 1000) = unat us div 1000" using assms
    by (simp_all add: unat_word_ariths unat_div)
  then have "unat (get_mstime (s, us)) = unat s * 1000 + unat us div 1000" using assms
    by (simp add: get_mstime_def unat_word_ariths)
  also have "\<dots> = (unat s * 1000000 + unat us) div 1000" by simp
  finally show "unat (get_mstime (s, us)) = unat (get_ustime (s, us)) div 1000" using u by simp
  show "unat (get_ustime (s, us)) = unat s * 1000000 + unat us" by (rule u)
  have "(unat s * 1000000 + unat us) div 1000000 = unat s" using assms(2) by simp
  then show "unat (get_stime (s, us)) = unat (get_ustime (s, us)) div 1000000 mod 2 ^ 32"
    by (simp add: u get_stime_def unsigned_ucast_eq take_bit_eq_mod)
  have "unat (ucast us :: u32) = unat us" using assms(2)
    by (simp add: unsigned_ucast_eq take_bit_nat_eq_self)
  then have "unat ((ucast us :: u32) div 1000) = unat us div 1000" by (simp add: unat_div)
  then have "(ucast us :: u32) div 1000 = of_nat (unat us div 1000)" by (metis of_nat_unat ucast_id)
  then show "get_time_pair (s, us) = (get_stime (s, us), of_nat (unat us div 1000))"
    by (simp add: get_time_pair_def get_stime_def)
qed

text \<open>With a level of the enumeration \<open>Printf\<close> stays in the table, and writes exactly from the level of the log on.\<close>

lemma log_levels:
  assumes "0 \<le> level" and "level < LOG_MAX" and "log_name l = [] \<or> opened"
  shows "Log_Printf opened time level file line msg l \<noteq> Inl e"
    and "Log_Printf opened time level file line msg l = Inr NoOutput \<longleftrightarrow> level < log_level l"
  using assms by (auto simp: Log_Printf_def)

end
