(* ===== verification/Spec2Isabelle.thy ===== *)
theory Spec2Isabelle
  imports TextProps BinaryProps DoubleStream DataBlockRefine EndToEnd QueueThreads PoolOwnership ReactorMemoryProps PushProps AcceptorProps ConnectorProps
    WorkThreadPoolProps PoolThreadsProps ScopeGuard WorkThreadCache SockAddrOrder ServerAppProps NetManagerProps Daemon Helpers
begin

text \<open>
  A model of wolfcc, a server library and application in C++ (\<open>src/wolfcc\<close>), and the properties that make its parts
  correct.

  The program. A server listens on its addresses (\<open>ServerApp\<close>, \<open>Acceptor\<close>); for every client an acceptor makes a
  connection (\<open>ConnectEventHandler\<close>) out of its object pool, which a reactor (\<open>LibEventReactor\<close> or
  \<open>SelectReactor\<close>) calls when bytes arrive. The connection keeps the bytes in a \<open>DataBlock\<close> and gives them to
  \<open>Extract\<close> of a stream protocol (\<open>Procpack\<close>), which cuts them into packages and pushes each into
  the receive queue. Worker threads (\<open>WorkThreadPool\<close>) pop packages, are meant to call a processor and push the answer into
  the send queue; the push wakes the reactor through a socket pair (\<open>SocketPairHandler\<close>), and
  \<open>PushEventHandler\<close> finds the connection of each answer in the \<open>HandlerRegistry\<close> and sends it. The fields inside a
  package are written and read by the text and the binary streams (\<open>protocolstream.cpp\<close>).

  How the code is modelled. A class is a record and each method a function on it, with the branches and early returns of
  the source. An operation that can leave an object, use a null or dangling pointer, read a member without a
  value, fail an \<open>assert\<close>, throw past its caller or not return gives \<open>Inl\<close> of a \<open>fault\<close> (theory Prelude), otherwise
  \<open>Inr\<close> of its result; \<open>int\<close> return codes are kept. Machine integers have their widths wherever they can wrap. What
  a call of the system, of libevent or of libconfig returns is an argument of the definition that makes the call, so each
  property holds for every behaviour of the environment that its hypotheses admit. Threads
  are step relations: queues, locks and the pool take one step per critical section. For the queues this is proved to
  be right, from a model with one step for each access and each call of pthread (QueueThreads); for the object pool it is right
  with a \<open>ThreadMutex\<close> and wrong with the \<open>NullMutex\<close> that the server's pool of packages has (PoolThreads).

  The theories, each with its source below \<open>src/wolfcc\<close>; \<open>X\<close> holds definitions, \<open>XProps\<close> the properties.

  \<^item> Prelude: faults and their sequencing, overwriting of lists, words as bytes. CLib: \<open>strtol\<close>, \<open>printf\<close> of
    hexadecimal numbers, memory with pointers into and out of an object.
  \<^item> StreamBase, TextStream, TextCodec, TextProps, BinaryStream, BinaryCodec, BinaryProps: \<open>pros/stream.cpp\<close> and
    \<open>pros/protocolstream.cpp\<close>. The codec theories show what every single write stores and every single read takes
    from a well-formed field; the properties are the round trip of whole packets, the safety of reading
    arbitrary bytes, and the extraction of a packet from a receive buffer. DoubleStream: the overloads for a double,
    over the locale \<open>string_stream\<close> of the string overloads, interpreted by both protocols and both field sizes.
  \<^item> DataBlock, DataBlockProps, DataBlockRefine (\<open>utils/datablock.cpp\<close>, \<open>utils/allocator.cpp\<close>), Package, PackageProps
    (\<open>pros/package.cpp\<close>): contents after every operation, with and without reallocation and for overlapping
    copies; every sequence of operations refines a list of bytes with a capacity that grows by need.
  \<^item> Ownership, PoolOwnership: the constructors and destructors of blocks, packages, objects and the pool over a heap that
    knows what is allocated and by whom. What a heap holds is a multiset, so that what its owners
    hold adds up; every operation is proved to have the contents of the theories above. ReactorMemory,
    ReactorMemoryProps: the same for the event data and the timers of both reactors (locale \<open>reactor_with_memory\<close>,
    interpreted by both), and for the time limit of a \<open>Connector\<close>.
  \<^item> Mutex (\<open>utils/mutex.cpp\<close>) with the locale \<open>mutex\<close>, the law that the guard of the pool needs; Queue, QueueProps
    (\<open>utils/queue.h\<close>) with the locale \<open>task_queue\<close>, interpreted by both queues; ObjectPool, ObjectPoolProps
    (\<open>utils/objectpool.h\<close>, \<open>objectmanager.h\<close>, \<open>destroyable.cpp\<close>). PoolThreads, PoolThreadsProps: any number of threads
    between the operations of \<open>Create\<close> and \<open>Destroy\<close> on the list of free objects, with either mutex. MutexCond (\<open>utils/mutexcond.cpp\<close>): a mutex with
    the threads blocked on its condition variable. QueueThreads: any number of threads inside \<open>Push\<close> and \<open>Pop\<close> at once;
    mutual exclusion, linearizability in the order in which the mutex is given back, and progress.
  \<^item> Procpack, ProcpackProps (\<open>pros/procpack.cpp\<close>): the locale \<open>framing\<close> states what a rule that finds the first
    package has to promise, and its consequence, that packages do not depend on the chunks in which bytes arrive;
    both protocols interpret it.
  \<^item> HandlerRegistry, HandlerRegistryProps (\<open>utils/handlerregistry.cpp\<close>), locale \<open>handler_table\<close>.
  \<^item> Reactor, SelectReactor, LibEventReactor, ReactorProps (\<open>nets/reactor.cpp\<close>, \<open>selectreactor.cpp\<close>,
    \<open>libeventreactor.cpp\<close>): the locale \<open>event_reactor\<close> is the contract of registering and removing a
    handler, interpreted by both; the waiting time and the dispatch of the select reactor.
  \<^item> ConnectEventHandler, ConnectEventHandlerProps (\<open>nets/connecteventhandler.cpp\<close>): the bytes sent are exactly those
    given to \<open>Send\<close>; the receive path under one-shot events refines the list function \<open>receive_all\<close> of Procpack
    (locale \<open>extractor\<close>, interpreted by both protocols).
  \<^item> Delivery, EndToEnd: the composition of the streams, the sending and the receiving connection and \<open>Extract\<close> of either
    protocol: \<open>OnPackage\<close> of the receiver gets the messages one by one, and a \<open>ReadStream\<close> on what it gets reads the fields that
    were written (locale \<open>packet_receiver\<close>, interpreted by both protocols). \<open>OnPackage\<close> is pure virtual in the two classes of
    stream protocols and there any that accepts the packages; those that the application derives read a member that no code sets
    (Procpack, and the property of this theory).
  \<^item> SocketPair, PushEventHandler, PushProps (\<open>nets/socketpairhandler.cpp\<close>, \<open>utils/notify.cpp\<close>,
    \<open>nets/pusheventhandler.cpp\<close>): the wake-up protocol as a step relation, and the delivery of answers.
  \<^item> SockAddr, SockAddrProps (\<open>nets/sockaddr.cpp\<close>, \<open>inetaddr.cpp\<close>, \<open>unixaddr.cpp\<close>; what the resolver
    answers to a name is a parameter, and a name that it does not find faults), Socket (\<open>nets/socket.cpp\<close>),
    Acceptor, AcceptorProps (\<open>nets/acceptor.cpp\<close>, \<open>addressfilteracceptor.cpp\<close>), Connector, ConnectorProps
    (\<open>nets/connector.cpp\<close>, \<open>udplistener.cpp\<close>): which descriptors are open after each operation. SockAddrOrder: the comparisons of
    addresses, as an instance of the class of preorders.
  \<^item> ThreadPool, ThreadPoolProps (\<open>utils/thread.cpp\<close>, \<open>threadpool.cpp\<close>), WorkThreadPool, WorkThreadPoolProps
    (\<open>utils/workthreadpool.cpp\<close>): the step relation \<open>tp_step\<close> of the controlling thread, which joins and
    deletes the threads in \<open>Stop\<close>, and of the threads up to their return; the locales
    \<open>exit_signals\<close> and \<open>exit_progress\<close> are the contract of the virtual functions \<open>RunOnce\<close> and \<open>StopThreads\<close>,
    interpreted by those of the base class and of the worker threads. WorkThreadCache: the destructors of the caches of
    that file, over the heap of Ownership, and its functions without a body.
  \<^item> ScopeGuard (\<open>utils/scopeguard.h\<close>): guards as objects, and the four functions that have one written with it; they are equal to
    the models in WorkThreadPool, Acceptor and Connector. Those spell out the call of the guard on each path.
  \<^item> ServerApp, ServerAppProps (\<open>configmanager.cpp\<close>, \<open>serverapp.cpp\<close>, \<open>wolfcc.cpp\<close>): the configuration, how the
    server is put together, and \<open>main\<close>.
  \<^item> NetManager, NetManagerProps (\<open>netmanager.cpp\<close>): the functions for sockets taken over from Redis: which descriptors
    they leave open, and what they read and write.
  \<^item> Helpers: \<open>utils/wtime.cpp\<close>, \<open>logging.cpp\<close>. Daemon: \<open>utils/daemonize.h\<close>.

  This theory has the property that spans the server and its stream protocols.

  Bounds and termination. Loops are structural or have a measure, with three exceptions: the search of a free id in the
  registry is a partial function whose termination while an id is free is proved; a blocking pop and a lock that do not
  return are \<open>None\<close>; and the endless loops of the reactors and of \<open>ServerApp::Start\<close> run for a number of
  turns given as an argument, in statements that hold for every such number. \<open>Stop\<close> of the thread pool is a step
  relation: the number of steps is bounded and one is possible until it has returned. Sizes below 2^31 are
  hypotheses where the code returns a length as an \<open>int\<close>.

  Not modelled: the vendored libraries in \<open>src/dep\<close>; the declarations without operations (\<open>pros/message.h\<close>, \<open>procmessage.h\<close>, the factories,
  \<open>dbmanager.cpp\<close>, \<open>backgroudio.cpp\<close>) and the error callbacks, whose bodies are empty. Time stamps of packages and
  calls of the log are left out, as no operation depends on them; so are the sleeps of the thread pools. The
  bodies of \<open>workthreadpool.cpp\<close> that are comments in the source have no model beyond the values they return.
\<close>

section \<open>The server and its stream protocols\<close>

text \<open>C34. From the listening address to the first package: whatever configuration the server is set up with, as soon as
  the bytes that a connection of one of its acceptors has received make up a package of the acceptor's protocol, \<open>Extract\<close>
  reads the member \<open>queuelimit\<close>, which nothing has set, before a package is put into the receive queue.\<close>

theorem server_first_package_faults:
  assumes "InitApp_parts rs push_open accept_open app = Inr (r, app')" and "app_accepts app = []"
    and "l \<in> set (app_accepts app')"
    and "if ls_text l then text_next buf = Frame n else binary_next buf = Frame n"
  shows "(if ls_text l
     then TextStreamProcpack_Extract (AppTextStreamProcpack_OnPackage new alc sz (ls_procpack l) sockid procid addr) buf so
     else BinaryStreamProcpack_Extract (AppBinaryStreamProcpack_OnPackage new alc sz (ls_procpack l) sockid procid addr) buf so)
    = Inl Uninit"
proof -
  have "ap_queuelimit (ls_procpack l) = None" using initapp_procpack [OF assms(1,2)] assms(3) by blast
  then have u: "AppTextStreamProcpack_OnPackage new alc sz (ls_procpack l) sockid procid addr so p = Inl Uninit" for p
    by (simp add: AppTextStreamProcpack_OnPackage_def read_member_def)
  show ?thesis using assms(4) u
    unfolding TextStreamProcpack_Extract_def BinaryStreamProcpack_Extract_def AppBinaryStreamProcpack_OnPackage_def
    by (subst text_framing.loop_eq, subst binary_framing.loop_eq) (auto split: if_splits)
qed

theorem server_first_package_faults_witness:
  "\<exists>r app' l. InitApp_parts no_names 0 (\<lambda>_. 0) (ServerApp_new\<lparr>app_config := config_example\<rparr>) = Inr (r, app')
    \<and> app_accepts app' = [l] \<and> BinaryStreamProcpack_Extract (AppBinaryStreamProcpack_OnPackage heap_1M (\<lambda>_ _. True) 200
        (ls_procpack l) 1 0 ()) (bin_packet LENGTH_INCLUDE_SELF 2 [65]) (wp_objs (worker_example [])) = Inl Uninit"
proof -
  let ?app = "ServerApp_new\<lparr>app_config := config_example\<rparr>"
  let ?l = "app_listener ?app 0 1 3 (SockAddr_Assign_unix \<lparr>ua_sPath = [49]\<rparr>)"
  have "InitApp_address no_names [49] ?app = Inr (Some True, ?app\<lparr>app_processors := [(0, None)], app_pid_index := 1,
      app_accepts := [?l]\<rparr>)"
    using listen_exact [of ?app 1 3 "[49]" no_names, OF _ _ _ _ _ parse_example]
    by (simp add: config_example_def stream_protocol_def BINARY_PACKAGE_STREAM_PROTOCOL_1_0_def)
  then obtain app' where i: "InitApp_parts no_names 0 (\<lambda>_. 0) ?app = Inr (True, app')" "app_accepts app' = [?l]"
    by (simp add: InitApp_parts_def config_example_def ServerConfig_new_def listen_none read_member_def Let_def)
  have t: "\<not> ls_text ?l" by (simp add: app_listener_def TEXT_PACKAGE_STREAM_PROTOCOL_1_0_def)
  have n: "if ls_text ?l then text_next (bin_packet LENGTH_INCLUDE_SELF 2 [65]) = Frame 0
      else binary_next (bin_packet LENGTH_INCLUDE_SELF 2 [65]) = Frame (length (bin_packet LENGTH_INCLUDE_SELF 2 [65]))"
    using t binary_next_packet [of "[65]" "[]"] by simp
  have m: "?l \<in> set (app_accepts app')" using i(2) by simp
  show ?thesis
    using i t server_first_package_faults [OF i(1) _ m, of "bin_packet LENGTH_INCLUDE_SELF 2 [65]"
        "length (bin_packet LENGTH_INCLUDE_SELF 2 [65])"] n by auto
qed

end
